(* ===== verification/Prelude.thy ===== *)
theory Prelude
  imports Complex_Main "HOL-Library.AList"
begin

text \<open>
  Shared vocabulary of the development: the Python errors a model may return as values, the
  result type and its two combinators (sequencing and \<open>try\<close>/\<open>except\<close>), JSON values as the
  code receives them, dicts as association lists in insertion order
  (\<open>AList.update\<close> overwrites in place or appends, which is what \<open>d[k] = v\<close> does), the string
  operations the code uses, and the lemmas on them that the component theories share.

  A Python \<open>str\<close> is a \<open>string\<close>, one \<open>char\<close> per code point up to 255: this is how HTTP headers
  reach the application (they are decoded as Latin-1) and all that bech32, hex and the ASCII
  protocol fields use.
\<close>

named_theorems py_simps \<open>equations of the Python primitives\<close>
named_theorems dict_simps \<open>lookup laws of dict operations\<close>

datatype pyerr =
    TypeError
  | ValueError
  | KeyError
  | IndexError
  | AttributeError
  | OverflowError
  | ZeroDivisionError
  | RuntimeFailure string

type_synonym 'a result = "pyerr + 'a"

definition rbind :: "'a result \<Rightarrow> ('a \<Rightarrow> 'b result) \<Rightarrow> 'b result" where
  "rbind m f = (case m of Inl e \<Rightarrow> Inl e | Inr x \<Rightarrow> f x)"

definition rcatch :: "'a result \<Rightarrow> 'a \<Rightarrow> 'a" where
  "rcatch m d = (case m of Inl _ \<Rightarrow> d | Inr x \<Rightarrow> x)"

lemma rbind_simps [simp]:
  "rbind (Inl e) f = Inl e"
  "rbind (Inr x) f = f x"
  by (simp_all add: rbind_def)

lemma rcatch_simps [simp]:
  "rcatch (Inl e) d = d"
  "rcatch (Inr x) d = x"
  by (simp_all add: rcatch_def)

lemma rbind_eq_Inr_iff:
  "rbind m f = Inr y \<longleftrightarrow> (\<exists>x. m = Inr x \<and> f x = Inr y)"
  by (auto simp: rbind_def split: sum.splits)

text \<open>A loop that computes one value per element and ends at the first error.\<close>

fun rmap :: "('a \<Rightarrow> 'b result) \<Rightarrow> 'a list \<Rightarrow> 'b list result" where
  "rmap f [] = Inr []"
| "rmap f (x # xs) = rbind (f x) (\<lambda>y. rbind (rmap f xs) (\<lambda>ys. Inr (y # ys)))"

lemma rmap_Inr_iff: "rmap f xs = Inr ys \<longleftrightarrow> list_all2 (\<lambda>x y. f x = Inr y) xs ys"
  by (induction xs arbitrary: ys) (auto simp: rbind_eq_Inr_iff list_all2_Cons1)

lemma rmap_mem: "rmap f xs = Inr ys \<Longrightarrow> y \<in> set ys \<Longrightarrow> \<exists>x \<in> set xs. f x = Inr y"
  by (induction xs arbitrary: ys) (auto simp: rbind_eq_Inr_iff)

text \<open>Checks that return nothing: one after the other, and for every element.\<close>

abbreviation and_then :: "unit result \<Rightarrow> unit result \<Rightarrow> unit result" where
  "and_then a b \<equiv> rbind a (\<lambda>_. b)"

fun rall :: "('a \<Rightarrow> unit result) \<Rightarrow> 'a list \<Rightarrow> unit result" where
  "rall f [] = Inr ()"
| "rall f (x # xs) = and_then (f x) (rall f xs)"

lemma rall_cong [fundef_cong]: "xs = ys \<Longrightarrow> (\<And>x. x \<in> set ys \<Longrightarrow> f x = g x) \<Longrightarrow> rall f xs = rall g ys"
  by (induction xs arbitrary: ys) auto

lemma rall_ok [simp]: "rall f xs = Inr () \<longleftrightarrow> (\<forall>x \<in> set xs. f x = Inr ())"
  by (induction xs) (auto simp: rbind_eq_Inr_iff)

lemma and_then_ok [simp]: "and_then a b = Inr () \<longleftrightarrow> a = Inr () \<and> b = Inr ()"
  by (auto simp: rbind_eq_Inr_iff)

subsection \<open>JSON values and dicts\<close>

datatype json =
    JNull
  | JBool bool
  | JInt int
  | JFloat rat
  | JInf bool
  | JNaN
  | JStr string
  | JList "json list"
  | JDict "(string \<times> json) list"

type_synonym ('k, 'v) dict = "('k \<times> 'v) list"

text \<open>\<open>d.get(k)\<close> is \<open>map_of d k\<close>, \<open>d.get(k, v)\<close> is \<open>dict_get d k v\<close>, \<open>d.pop(k, None)\<close> is
  \<open>AList.delete k d\<close>, and \<open>d[k] = v\<close> is \<open>AList.update k v d\<close>.\<close>

definition dict_get :: "('k, 'v) dict \<Rightarrow> 'k \<Rightarrow> 'v \<Rightarrow> 'v" where
  "dict_get d k v = (case map_of d k of None \<Rightarrow> v | Some x \<Rightarrow> x)"

lemma dict_get_update [dict_simps, simp]:
  "dict_get (AList.update k v d) k' v' = (if k' = k then v else dict_get d k' v')"
  by (simp add: dict_get_def update_conv')

lemma map_of_update [dict_simps, simp]:
  "map_of (AList.update k v d) = (map_of d)(k \<mapsto> v)"
  by (rule update_conv')

lemma map_of_delete [dict_simps, simp]:
  "map_of (AList.delete k d) = (map_of d)(k := None)"
  by (rule delete_conv')

lemma delete_absent: "map_of d k = None \<Longrightarrow> AList.delete k d = d"
  by (induction d) (auto split: if_splits)

lemma distinct_keys_update: "distinct (map fst d) \<Longrightarrow> distinct (map fst (AList.update k v d))"
  by (rule distinct_update)

lemma distinct_keys_delete: "distinct (map fst d) \<Longrightarrow> distinct (map fst (AList.delete k d))"
  by (rule distinct_delete)

lemma set_delete_dict: "set (AList.delete k d) = {p \<in> set d. fst p \<noteq> k}"
  by (induction d) auto

text \<open>Truth value of a JSON value (Python's \<open>bool(x)\<close>).\<close>

fun truthy :: "json \<Rightarrow> bool" where
  "truthy JNull = False"
| "truthy (JBool b) = b"
| "truthy (JInt n) = (n \<noteq> 0)"
| "truthy (JFloat x) = (x \<noteq> 0)"
| "truthy (JInf negative) = True"
| "truthy JNaN = True"
| "truthy (JStr s) = (s \<noteq> [])"
| "truthy (JList xs) = (xs \<noteq> [])"
| "truthy (JDict d) = (d \<noteq> [])"

subsection \<open>Strings\<close>

abbreviation py_ord :: "char \<Rightarrow> int" where
  "py_ord c \<equiv> of_char c"

definition py_lower_char :: "char \<Rightarrow> char" where
  "py_lower_char c =
     (if 65 \<le> py_ord c \<and> py_ord c \<le> 90 \<or> 192 \<le> py_ord c \<and> py_ord c \<le> 222 \<and> py_ord c \<noteq> 215
      then char_of (py_ord c + 32) else c)"

text \<open>Upper case is only taken of ASCII text in the modelled code.\<close>

definition py_upper_char :: "char \<Rightarrow> char" where
  "py_upper_char c = (if 97 \<le> py_ord c \<and> py_ord c \<le> 122 then char_of (py_ord c - 32) else c)"

definition py_lower :: "string \<Rightarrow> string" where
  "py_lower s = map py_lower_char s"

definition py_upper :: "string \<Rightarrow> string" where
  "py_upper s = map py_upper_char s"

definition py_isspace :: "char \<Rightarrow> bool" where
  "py_isspace c = (9 \<le> py_ord c \<and> py_ord c \<le> 13 \<or> 28 \<le> py_ord c \<and> py_ord c \<le> 32
     \<or> py_ord c = 133 \<or> py_ord c = 160)"

definition py_strip :: "string \<Rightarrow> string" where
  "py_strip s = rev (dropWhile py_isspace (rev (dropWhile py_isspace s)))"

definition startswith :: "string \<Rightarrow> string \<Rightarrow> bool" where
  "startswith s p = (take (length p) s = p)"

text \<open>\<open>s.find(c)\<close> and \<open>s.rfind(c)\<close> for a single character: an index, or -1.\<close>

fun find_from :: "char \<Rightarrow> string \<Rightarrow> int \<Rightarrow> int" where
  "find_from c [] i = - 1"
| "find_from c (x # xs) i = (if x = c then i else find_from c xs (i + 1))"

definition py_find :: "string \<Rightarrow> char \<Rightarrow> int" where
  "py_find s c = find_from c s 0"

definition after_last :: "char \<Rightarrow> string \<Rightarrow> string" where
  "after_last c s = rev (takeWhile (\<lambda>x. x \<noteq> c) (rev s))"

definition py_rfind :: "string \<Rightarrow> char \<Rightarrow> int" where
  "py_rfind s c = int (length s) - 1 - int (length (after_last c s))"

text \<open>\<open>s.split(sep)\<close> for a one-character separator.\<close>

fun py_split :: "char \<Rightarrow> string \<Rightarrow> string list" where
  "py_split sep [] = [[]]"
| "py_split sep (c # cs) =
     (if c = sep then [] # py_split sep cs
      else case py_split sep cs of [] \<Rightarrow> [[c]] | w # ws \<Rightarrow> (c # w) # ws)"

lemma py_split_not_Nil [simp]: "py_split c s \<noteq> []"
  by (induction s) (auto split: list.splits)

lemma py_split_no_sep: "c \<notin> set s \<Longrightarrow> py_split c s = [s]"
  by (induction s) auto

lemma py_split_Cons: "c \<notin> set p \<Longrightarrow> py_split c (p @ c # s) = p # py_split c s"
  by (induction p) auto

lemma py_ord_nonneg [simp]: "0 \<le> py_ord c"
  by (metis of_nat_of_char of_nat_0_le_iff)

lemma py_lower_length [simp]: "length (py_lower s) = length s"
  by (simp add: py_lower_def)

lemma find_from_absent: "c \<notin> set s \<Longrightarrow> find_from c s i = - 1"
  by (induction s arbitrary: i) auto

lemma find_from_present:
  "c \<in> set s \<Longrightarrow> i \<le> find_from c s i \<and> find_from c s i < i + int (length s) \<and>
     s ! nat (find_from c s i - i) = c"
proof (induction s arbitrary: i)
  case (Cons x xs)
  show ?case
  proof (cases "x = c")
    case False
    with Cons have *: "i + 1 \<le> find_from c xs (i + 1) \<and> find_from c xs (i + 1) < i + 1 + int (length xs) \<and>
        xs ! nat (find_from c xs (i + 1) - (i + 1)) = c" by simp
    then have "nat (find_from c xs (i + 1) - i) = Suc (nat (find_from c xs (i + 1) - (i + 1)))"
      by linarith
    with * False show ?thesis by simp
  qed simp
qed simp

lemma py_find_absent: "c \<notin> set s \<Longrightarrow> py_find s c = - 1"
  by (simp add: py_find_def find_from_absent)

lemma py_find_present:
  "c \<in> set s \<Longrightarrow> 0 \<le> py_find s c \<and> py_find s c < int (length s) \<and> s ! nat (py_find s c) = c"
  using find_from_present [of c s 0] by (simp add: py_find_def)

lemma py_find_inj: "c \<in> set s \<Longrightarrow> d \<in> set s \<Longrightarrow> py_find s c = py_find s d \<Longrightarrow> c = d"
  using py_find_present [of c s] py_find_present [of d s] by metis

lemma after_last_notin: "c \<notin> set (after_last c s)"
  using set_takeWhileD [of c "\<lambda>x. x \<noteq> c" "rev s"] by (auto simp: after_last_def)

lemma after_last_absent: "c \<notin> set s \<Longrightarrow> after_last c s = s"
proof -
  assume "c \<notin> set s"
  then have "takeWhile (\<lambda>x. x \<noteq> c) (rev s @ []) = rev s @ takeWhile (\<lambda>x. x \<noteq> c) []"
    by (intro takeWhile_append2) auto
  then have "takeWhile (\<lambda>x. x \<noteq> c) (rev s) = rev s" by (simp only: append_Nil2 takeWhile.simps)
  then show ?thesis by (simp only: after_last_def rev_rev_ident)
qed

lemma drop_after_last: "drop (length s - length (after_last c s)) s = after_last c s"
proof -
  have "takeWhile (\<lambda>x. x \<noteq> c) (rev s) = take (length (after_last c s)) (rev s)"
    by (simp add: after_last_def) (metis takeWhile_eq_take)
  then have "after_last c s = rev (take (length (after_last c s)) (rev s))"
    by (simp only: after_last_def [of c s])
  then show ?thesis by (simp only: take_rev rev_rev_ident)
qed

lemma after_last_lower:
  assumes "\<And>x. x \<in> set s \<Longrightarrow> (f x = c) = (x = c)"
  shows "after_last c (map f s) = map f (after_last c s)"
proof -
  have "takeWhile ((\<lambda>x. x \<noteq> c) \<circ> f) (rev s) = takeWhile (\<lambda>x. x \<noteq> c) (rev s)"
    by (rule takeWhile_cong) (auto simp: assms)
  then show ?thesis by (simp add: after_last_def rev_map takeWhile_map)
qed

section \<open>The constructor \<open>int\<close>\<close>

text \<open>\<open>int(x)\<close> of a finite float truncates towards zero.\<close>

definition py_int :: "rat \<Rightarrow> int" where
  "py_int x = (if x < 0 then - \<lfloor>- x\<rfloor> else \<lfloor>x\<rfloor>)"

text \<open>\<open>int(s)\<close> of a string: blanks around it, a sign, digits that single underscores may separate, and
  no more than 4300 of them.\<close>

fun int_digits :: "bool \<Rightarrow> int \<Rightarrow> nat \<Rightarrow> string \<Rightarrow> (int \<times> nat) option" where
  "int_digits after_digit acc n [] = (if after_digit then Some (acc, n) else None)"
| "int_digits after_digit acc n (c # cs) =
     (if 48 \<le> py_ord c \<and> py_ord c \<le> 57 then int_digits True (10 * acc + (py_ord c - 48)) (n + 1) cs
      else if c = CHR ''_'' \<and> after_digit then int_digits False acc n cs
      else None)"

definition py_int_str :: "string \<Rightarrow> int result" where
  "py_int_str s =
     (let t = py_strip s;
          (sign, ds) = (case t of [] \<Rightarrow> (1, []) | c # r \<Rightarrow> if c = CHR ''-'' then (-1, r) else if c = CHR ''+'' then (1, r) else (1, t))
      in case int_digits False 0 0 ds of
           None \<Rightarrow> Inl ValueError
         | Some (v, n) \<Rightarrow> (if n > 4300 then Inl ValueError else Inr (sign * v)))"

fun int_of_json :: "json \<Rightarrow> int result" where
  "int_of_json JNull = Inl TypeError"
| "int_of_json (JBool b) = Inr (if b then 1 else 0)"
| "int_of_json (JInt n) = Inr n"
| "int_of_json (JFloat x) = Inr (py_int x)"
| "int_of_json (JInf negative) = Inl OverflowError"
| "int_of_json JNaN = Inl ValueError"
| "int_of_json (JStr s) = py_int_str s"
| "int_of_json (JList xs) = Inl TypeError"
| "int_of_json (JDict d) = Inl TypeError"

text \<open>\<open>try: int(x) except (TypeError, ValueError): d\<close>; any other error goes through.\<close>

definition int_or :: "int \<Rightarrow> json \<Rightarrow> int result" where
  "int_or d j = (case int_of_json j of
       Inl e \<Rightarrow> (if e = TypeError \<or> e = ValueError then Inr d else Inl e)
     | Inr n \<Rightarrow> Inr n)"

lemma py_int_str_errors: "py_int_str s = Inl e \<Longrightarrow> e = ValueError"
  by (auto simp: py_int_str_def Let_def split: prod.splits option.splits if_splits)

text \<open>The only value that defeats the handler is an infinite float.\<close>

lemma int_or_raises_iff: "(\<exists>e. int_or d j = Inl e) \<longleftrightarrow> (\<exists>b. j = JInf b)"
  by (cases j) (auto simp: int_or_def dest: py_int_str_errors split: sum.splits)

text \<open>\<open>d.get(k, v)\<close> on a value that ought to be a dict.\<close>

definition jget :: "json \<Rightarrow> string \<Rightarrow> json \<Rightarrow> json result" where
  "jget j k v = (case j of JDict d \<Rightarrow> Inr (dict_get d k v) | _ \<Rightarrow> Inl AttributeError)"

text \<open>\<open>for x in j\<close>: lists, the keys of a dict, the characters of a string.\<close>

definition iter_json :: "json \<Rightarrow> json list result" where
  "iter_json j = (case j of JList xs \<Rightarrow> Inr xs | JDict d \<Rightarrow> Inr (map (JStr \<circ> fst) d)
     | JStr s \<Rightarrow> Inr (map (\<lambda>c. JStr [c]) s) | _ \<Rightarrow> Inl TypeError)"

text \<open>\<open>len(j)\<close>.\<close>

definition json_len :: "json \<Rightarrow> int result" where
  "json_len j = (case j of JStr s \<Rightarrow> Inr (int (length s)) | JList xs \<Rightarrow> Inr (int (length xs))
     | JDict d \<Rightarrow> Inr (int (length d)) | _ \<Rightarrow> Inl TypeError)"

section \<open>Searching and filtering\<close>

lemma map_of_filter_value:
  "distinct (map fst d) \<Longrightarrow>
     map_of (filter (\<lambda>(k, v). P v) d) key =
       (case map_of d key of None \<Rightarrow> None | Some v \<Rightarrow> if P v then Some v else None)"
  by (induction d) (auto simp: map_of_eq_None_iff rev_image_eqI split: option.split)

lemma find_SomeD: "find P xs = Some x \<Longrightarrow> x \<in> set xs \<and> P x"
  by (induction xs) (auto split: if_splits)

lemma in_map_filter_iff: "y \<in> set (List.map_filter f xs) \<longleftrightarrow> (\<exists>x \<in> set xs. f x = Some y)"
  by (induction xs) (auto simp: List.map_filter_simps split: option.splits)

section \<open>Bounded use of a resource\<close>

text \<open>Several components hand out a resource a bounded number of times (redemptions of a link,
  deferrals of a row, requests of a client).  Such a component is a transition function on
  operations that reports whether the operation used the resource, a potential that says how many
  uses are left, and the credit an operation may add to it.\<close>

fun uses :: "('op \<Rightarrow> 's \<Rightarrow> bool \<times> 's) \<Rightarrow> 'op list \<Rightarrow> 's \<Rightarrow> nat" where
  "uses step [] s = 0"
| "uses step (op # ops) s = (if fst (step op s) then 1 else 0) + uses step ops (snd (step op s))"

fun final_state :: "('op \<Rightarrow> 's \<Rightarrow> bool \<times> 's) \<Rightarrow> 'op list \<Rightarrow> 's \<Rightarrow> 's" where
  "final_state step [] s = s"
| "final_state step (op # ops) s = final_state step ops (snd (step op s))"

locale quota =
  fixes step :: "'op \<Rightarrow> 's \<Rightarrow> bool \<times> 's"
    and left :: "'s \<Rightarrow> nat"
    and credit :: "'op \<Rightarrow> nat"
  assumes step_cost:
    "left (snd (step op s)) + (if fst (step op s) then 1 else 0) \<le> left s + credit op"
begin

lemma uses_bounded:
  "uses step ops s + left (final_state step ops s) \<le> left s + sum_list (map credit ops)"
proof (induction ops arbitrary: s)
  case (Cons op ops)
  have "uses step ops (snd (step op s)) + left (final_state step ops (snd (step op s)))
          \<le> left (snd (step op s)) + sum_list (map credit ops)"
    by (rule Cons.IH)
  then show ?case using step_cost [of op s] by simp
qed simp

end

end
