(* ===== verification/Bech32.thy ===== *)
theory Bech32
  imports Prelude
begin

unbundle bit_operations_syntax

text \<open>
  The bech32 decoder of \<open>src/backend/app/utils/bech32.py\<close> (its validating core is vendored again
  in \<open>src/services/clustering/backend/app/registry/bech32.py\<close>): checksum, character set, regrouping
  of 5-bit groups to bytes, and the payment, stake and network readers built on them.  Python's
  integers are \<open>int\<close>; shifts and masks are \<open>push_bit\<close>, \<open>drop_bit\<close>, \<open>AND\<close>, \<open>OR\<close>, \<open>XOR\<close>.

  Shown here: the checksum detects every substitution of one character (the polynomial step is
  injective in the running checksum and in the value), regrouping preserves the number the digits
  spell and round-trips from bytes to 5-bit groups and back, credentials are 56 hex digits, and the
  scorers' lenient grouping key agrees with the strict decoder wherever that one accepts.
\<close>

section \<open>Definitions\<close>

definition CHARSET :: string where
  "CHARSET = ''qpzry9x8gf2tvdw0s3jn54khce6mua7l''"

definition CHECKSUM_LEN :: nat where
  "CHECKSUM_LEN = 6"

definition PAYMENT_CRED_BYTES :: nat where
  "PAYMENT_CRED_BYTES = 28"

definition generator :: "int list" where
  "generator = [0x3B6A57B2, 0x26508E6D, 0x1EA119FA, 0x3D4233DD, 0x2A1462B3]"

text \<open>The inner loop \<open>for i in range(5): chk ^= generator[i] if ((top >> i) & 1) else 0\<close>.\<close>

fun polymod_mix :: "int list \<Rightarrow> int \<Rightarrow> int \<Rightarrow> int" where
  "polymod_mix [] tp chk = chk"
| "polymod_mix (g # gs) tp chk =
     polymod_mix gs (drop_bit 1 tp) (chk XOR (if tp AND 1 \<noteq> 0 then g else 0))"

definition polymod_step :: "int \<Rightarrow> int \<Rightarrow> int" where
  "polymod_step chk value =
     (let tp = drop_bit 25 chk;
          chk' = (push_bit 5 (chk AND 0x1FFFFFF)) XOR value
      in polymod_mix generator tp chk')"

definition polymod :: "int list \<Rightarrow> int" where
  "polymod values = foldl polymod_step 1 values"

definition hrp_expand :: "string \<Rightarrow> int list" where
  "hrp_expand hrp = map (\<lambda>x. drop_bit 5 (py_ord x)) hrp @ [0] @ map (\<lambda>x. py_ord x AND 31) hrp"

definition bech32_decode :: "string \<Rightarrow> (string \<times> int list) option" where
  "bech32_decode bech =
     (if \<exists>x \<in> set bech. py_ord x < 33 \<or> py_ord x > 126 then None
      else if py_lower bech \<noteq> bech \<and> py_upper bech \<noteq> bech then None
      else
        let bech = py_lower bech;
            pos = py_rfind bech (CHR ''1'')
        in if pos < 1 \<or> pos + 7 > int (length bech) \<or> length bech > 1023 then None
           else if \<not> (\<forall>x \<in> set (drop (nat (pos + 1)) bech). x \<in> set CHARSET) then None
           else
             let hrp = take (nat pos) bech;
                 data = map (py_find CHARSET) (drop (nat (pos + 1)) bech)
             in if polymod (hrp_expand hrp @ data) \<noteq> 1 then None
                else Some (hrp, take (length data - CHECKSUM_LEN) data))"

text \<open>The inner loop \<open>while bits >= tobits\<close> of \<open>convertbits\<close>.  Both call sites pass a positive
  \<open>tobits\<close>; with \<open>tobits = 0\<close> the source would not leave the loop, and the model stops.\<close>

function emit_groups :: "nat \<Rightarrow> int \<Rightarrow> nat \<Rightarrow> int list \<Rightarrow> nat \<times> int list" where
  "emit_groups tobits acc bits ret =
     (if 0 < tobits \<and> bits \<ge> tobits
      then emit_groups tobits acc (bits - tobits)
             (ret @ [drop_bit (bits - tobits) acc AND (push_bit tobits 1 - 1)])
      else (bits, ret))"
  by pat_completeness auto
termination
  by (relation "measure (\<lambda>(t, a, b, r). b)") auto

declare emit_groups.simps [simp del]

fun convertbits_loop ::
  "nat \<Rightarrow> nat \<Rightarrow> int list \<Rightarrow> int \<times> nat \<times> int list \<Rightarrow> (int \<times> nat \<times> int list) option" where
  "convertbits_loop frombits tobits [] st = Some st"
| "convertbits_loop frombits tobits (value # data) (acc, bits, ret) =
     (if value < 0 \<or> drop_bit frombits value \<noteq> 0 then None
      else
        let acc' = (push_bit frombits acc OR value) AND (push_bit (frombits + tobits - 1) 1 - 1);
            (bits', ret') = emit_groups tobits acc' (bits + frombits) ret
        in convertbits_loop frombits tobits data (acc', bits', ret'))"

definition convertbits :: "int list \<Rightarrow> nat \<Rightarrow> nat \<Rightarrow> bool \<Rightarrow> int list option" where
  "convertbits data frombits tobits pad =
     (let maxv = push_bit tobits 1 - 1
      in case convertbits_loop frombits tobits data (0, 0, []) of
           None \<Rightarrow> None
         | Some (acc, bits, ret) \<Rightarrow>
             (if pad then
                (if bits \<noteq> 0 then Some (ret @ [push_bit (tobits - bits) acc AND maxv]) else Some ret)
              else if bits \<ge> frombits \<or> push_bit (tobits - bits) acc AND maxv \<noteq> 0 then None
              else Some ret))"

definition decode_address_bytes :: "string \<Rightarrow> int list option" where
  "decode_address_bytes address =
     (case bech32_decode (py_strip address) of
        None \<Rightarrow> None
      | Some decoded \<Rightarrow> convertbits (snd decoded) 5 8 False)"

definition address_network_class :: "string \<Rightarrow> string option" where
  "address_network_class address =
     (case decode_address_bytes address of
        None \<Rightarrow> None
      | Some [] \<Rightarrow> None
      | Some (b # _) \<Rightarrow> Some (if b AND 0x0F = 1 then ''mainnet'' else ''testnet''))"

definition hex_digit :: "int \<Rightarrow> char" where
  "hex_digit n = ''0123456789abcdef'' ! nat n"

text \<open>\<open>bytes(raw).hex()\<close>; every \<open>raw\<close> it is applied to holds values masked to 0..255.\<close>

definition bytes_hex :: "int list \<Rightarrow> string" where
  "bytes_hex raw = concat (map (\<lambda>b. [hex_digit (drop_bit 4 b), hex_digit (b AND 15)]) raw)"

definition slice :: "nat \<Rightarrow> nat \<Rightarrow> 'a list \<Rightarrow> 'a list" where
  "slice i j xs = take (j - i) (drop i xs)"

definition payment_credential_hex :: "string \<Rightarrow> string option" where
  "payment_credential_hex address =
     (case decode_address_bytes address of
        None \<Rightarrow> None
      | Some raw \<Rightarrow>
          (if length raw < 1 + PAYMENT_CRED_BYTES then None
           else Some (bytes_hex (slice 1 (1 + PAYMENT_CRED_BYTES) raw))))"

definition stake_credential_hex :: "string \<Rightarrow> string option" where
  "stake_credential_hex address =
     (case decode_address_bytes address of
        None \<Rightarrow> None
      | Some [] \<Rightarrow> None
      | Some (b # bs) \<Rightarrow>
          (let raw = b # bs; addr_type = drop_bit 4 b
           in if addr_type \<le> 0x03 \<and> length raw \<ge> 1 + 2 * PAYMENT_CRED_BYTES
              then Some (bytes_hex (slice (1 + PAYMENT_CRED_BYTES) (1 + 2 * PAYMENT_CRED_BYTES) raw))
              else if addr_type \<in> {0x0E, 0x0F} \<and> length raw \<ge> 1 + PAYMENT_CRED_BYTES
              then Some (bytes_hex (slice 1 (1 + PAYMENT_CRED_BYTES) raw))
              else None))"

definition payment_credential_or_raw :: "string \<Rightarrow> string" where
  "payment_credential_or_raw addr =
     (if addr = [] \<or> CHR ''1'' \<notin> set addr then addr
      else
        let data_part = py_lower (after_last (CHR ''1'') addr)
        in if length data_part \<le> CHECKSUM_LEN then addr
           else
             let data_part = take (length data_part - CHECKSUM_LEN) data_part;
                 data = map (py_find CHARSET) data_part
             in if \<exists>v \<in> set data. v = - 1 then addr
                else if 5 * length data < 8 + PAYMENT_CRED_BYTES * 8 then addr
                else case convertbits data 5 8 True of
                       None \<Rightarrow> addr
                     | Some raw \<Rightarrow> bytes_hex (slice 1 (1 + PAYMENT_CRED_BYTES) raw))"

section \<open>Regrouping preserves the number the digits spell\<close>

definition num_of :: "nat \<Rightarrow> int list \<Rightarrow> int" where
  "num_of w ds = foldl (\<lambda>a v. a * 2 ^ w + v) 0 ds"

definition digits_in :: "nat \<Rightarrow> int list \<Rightarrow> bool" where
  "digits_in w ds = (\<forall>v \<in> set ds. 0 \<le> v \<and> v < 2 ^ w)"

lemma num_of_simps [simp]:
  "num_of w [] = 0"
  "num_of w (ds @ [v]) = num_of w ds * 2 ^ w + v"
  by (simp_all add: num_of_def)

lemma digits_in_simps [simp]:
  "digits_in w []"
  "digits_in w (ds @ es) \<longleftrightarrow> digits_in w ds \<and> digits_in w es"
  "digits_in w (v # ds) \<longleftrightarrow> (0 \<le> v \<and> v < 2 ^ w) \<and> digits_in w ds"
  by (auto simp: digits_in_def)

lemma and_mask: "(x :: int) AND (2 ^ n - 1) = x mod 2 ^ n"
  by (simp add: take_bit_eq_mask [symmetric] mask_eq_exp_minus_1 [symmetric] take_bit_eq_mod)

lemma bit_bounded:
  assumes "0 \<le> v" "v < 2 ^ f" "bit (v :: int) n"
  shows "n < f"
proof -
  have "take_bit f v = v" using assms by (simp add: take_bit_int_eq_self)
  with assms(3) show ?thesis by (metis bit_take_bit_iff)
qed

lemma shift_or:
  assumes "0 \<le> v" "v < 2 ^ f"
  shows "push_bit f (a :: int) OR v = a * 2 ^ f + v"
proof -
  have "push_bit f a AND v = 0"
    by (rule bit_eqI) (auto simp: bit_simps dest: bit_bounded [OF assms])
  then show ?thesis by (simp add: disjunctive_add_eq_or [symmetric] push_bit_eq_mult)
qed

lemma emit_groups_num:
  assumes "0 < t" and "emit_groups t acc b ret = (b', ret')"
  shows "b' < t" and "t * length ret' + b' = t * length ret + b"
    and "num_of t ret' * 2 ^ b' + acc mod 2 ^ b' = num_of t ret * 2 ^ b + acc mod 2 ^ b"
    and "digits_in t ret \<Longrightarrow> digits_in t ret'"
  using assms
proof (induction t acc b ret arbitrary: b' ret' rule: emit_groups.induct)
  case (1 t acc b ret)
  have split: "acc mod 2 ^ b = acc mod 2 ^ (b - t) + 2 ^ (b - t) * (acc div 2 ^ (b - t) mod 2 ^ t)" if "t \<le> b"
    using mod_mult2_eq' [of acc "2 ^ (b - t)" "2 ^ t"] that
    by (simp add: power_add [symmetric] mod_mult2_eq')
  {
    case 1
    with "1.IH"(1) "1.prems" show ?case
      by (subst (asm) (2) emit_groups.simps) (auto split: if_splits)
  next
    case 2
    with "1.IH"(2) show ?case
      by (subst (asm) (2) emit_groups.simps) (auto split: if_splits)
  next
    case 3
    with "1.IH"(3) show ?case
      by (subst (asm) (2) emit_groups.simps)
        (auto simp: and_mask drop_bit_eq_div split power_add [symmetric] algebra_simps split: if_splits)
  next
    case 4
    with "1.IH"(4) show ?case
      by (subst (asm) (2) emit_groups.simps) (auto simp: and_mask split: if_splits)
  }
qed

text \<open>The state of the loop after a prefix \<open>ds\<close> of the input: \<open>ret\<close> holds the complete groups and
  the low \<open>bits\<close> bits of \<open>acc\<close> the rest of the number.\<close>

definition regrouped :: "nat \<Rightarrow> nat \<Rightarrow> int list \<Rightarrow> int \<times> nat \<times> int list \<Rightarrow> bool" where
  "regrouped f t ds st = (case st of (acc, bits, ret) \<Rightarrow>
     bits < t \<and> f * length ds = t * length ret + bits \<and> digits_in t ret \<and>
     num_of f ds = num_of t ret * 2 ^ bits + acc mod 2 ^ bits)"

lemma mod_shift_add:
  assumes "0 \<le> v" "v < 2 ^ f"
  shows "(a * 2 ^ f + v) mod 2 ^ (b + f) = (a mod 2 ^ b) * 2 ^ f + (v :: int)"
proof -
  have "(a * 2 ^ f + v) div 2 ^ f = a" and "(a * 2 ^ f + v) mod 2 ^ f = v"
    using assms by simp_all
  then have "(a * 2 ^ f + v) mod (2 ^ f * 2 ^ b) = 2 ^ f * (a mod 2 ^ b) + v"
    by (simp only: zmod_zmult2_eq zero_le_power zero_le_numeral)
  then show ?thesis by (simp add: power_add mult.commute)
qed

lemma drop_bit_range: "0 \<le> v \<Longrightarrow> drop_bit f v = 0 \<longleftrightarrow> (v :: int) < 2 ^ f"
  by (simp add: drop_bit_eq_div zdiv_eq_0_iff) (metis not_le zero_less_numeral zero_less_power)

lemma convertbits_step_regrouped:
  assumes t: "0 < t" and st: "regrouped f t ds (acc, bits, ret)"
    and v: "0 \<le> v" "v < 2 ^ f"
    and acc': "acc' = (push_bit f acc OR v) AND (push_bit (f + t - 1) 1 - 1)"
    and em: "emit_groups t acc' (bits + f) ret = (bits', ret')"
  shows "regrouped f t (ds @ [v]) (acc', bits', ret')"
proof -
  note e = emit_groups_num [OF t em]
  have le: "bits + f \<le> f + t - 1" using st by (auto simp: regrouped_def)
  have "acc' = (acc * 2 ^ f + v) mod 2 ^ (f + t - 1)"
    using v by (simp add: acc' and_mask shift_or)
  then have "acc' mod 2 ^ (bits + f) = (acc * 2 ^ f + v) mod 2 ^ (bits + f)"
    using le by (simp add: mod_mod_cancel le_imp_power_dvd)
  also have "\<dots> = (acc mod 2 ^ bits) * 2 ^ f + v" by (rule mod_shift_add [OF v])
  finally have "num_of f (ds @ [v]) = num_of t ret * 2 ^ (bits + f) + acc' mod 2 ^ (bits + f)"
    using st by (simp add: regrouped_def power_add algebra_simps)
  then show ?thesis using e st by (simp add: regrouped_def algebra_simps)
qed

lemma convertbits_loop_regrouped:
  assumes "0 < t" and "regrouped f t ds st"
    and "convertbits_loop f t es st = Some st'"
  shows "regrouped f t (ds @ es) st' \<and> digits_in f es"
  using assms(2,3)
proof (induction es arbitrary: ds st)
  case (Cons v es)
  obtain acc bits ret where st: "st = (acc, bits, ret)" by (cases st) auto
  define acc' where "acc' = (push_bit f acc OR v) AND (push_bit (f + t - 1) 1 - 1)"
  obtain bits' ret' where em: "emit_groups t acc' (bits + f) ret = (bits', ret')"
    by (cases "emit_groups t acc' (bits + f) ret") auto
  from Cons.prems(2) have v: "0 \<le> v" "v < 2 ^ f"
    and rest: "convertbits_loop f t es (acc', bits', ret') = Some st'"
    using em by (auto simp: st Let_def acc'_def drop_bit_range split: if_splits)
  have "regrouped f t (ds @ [v]) (acc', bits', ret')"
    using convertbits_step_regrouped [OF assms(1) _ v acc'_def em] Cons.prems(1) st by simp
  from Cons.IH [OF this rest] v show ?case by simp
qed simp

lemma convertbits_loop_total:
  "digits_in f es \<Longrightarrow> \<exists>st'. convertbits_loop f t es st = Some st'"
proof (induction es arbitrary: st)
  case (Cons v es)
  obtain acc bits ret where st: "st = (acc, bits, ret)" by (cases st) auto
  from Cons show ?case by (simp add: st drop_bit_range split_beta Let_def)
qed auto

lemma regrouped_Nil: "0 < t \<Longrightarrow> regrouped f t [] (0, 0, [])"
  by (simp add: regrouped_def)

text \<open>What a result of \<open>convertbits\<close> says, for each setting of \<open>pad\<close>.\<close>

lemma pad_bits: "b < t \<Longrightarrow> push_bit (t - b) acc AND (2 ^ t - 1) = (acc mod 2 ^ b) * 2 ^ (t - b)"
  for acc :: int
proof -
  assume "b < t"
  then have t: "2 ^ t = (2 :: int) ^ b * 2 ^ (t - b)" by (simp flip: power_add)
  have "push_bit (t - b) acc AND (2 ^ t - 1) = (acc * 2 ^ (t - b)) mod 2 ^ t"
    by (simp add: and_mask push_bit_eq_mult)
  also have "\<dots> = (acc mod 2 ^ b) * 2 ^ (t - b)" by (simp only: t mult_mod_left)
  finally show ?thesis .
qed

lemma convertbits_unpadded:
  assumes "0 < t" and "convertbits ds f t False = Some out"
  obtains b where "b < f" "b < t" "f * length ds = t * length out + b" "digits_in t out" "digits_in f ds"
    "num_of f ds = num_of t out * 2 ^ b"
proof -
  from assms(2) obtain acc b where loop: "convertbits_loop f t ds (0, 0, []) = Some (acc, b, out)"
    and b: "b < f" "push_bit (t - b) acc AND (2 ^ t - 1) = 0"
    by (auto simp: convertbits_def Let_def split: option.splits if_splits)
  from convertbits_loop_regrouped [OF assms(1) regrouped_Nil [OF assms(1)] loop]
  have r: "regrouped f t ds (acc, b, out)" and d: "digits_in f ds" by simp_all
  with b have "acc mod 2 ^ b = 0" by (simp add: regrouped_def pad_bits)
  with r d b that [of b] show thesis by (simp add: regrouped_def)
qed

lemma convertbits_padded:
  assumes "0 < t" and "convertbits ds f t True = Some out"
  obtains acc b ret where "convertbits_loop f t ds (0, 0, []) = Some (acc, b, ret)" "b < t"
    "f * length ds = t * length ret + b" "digits_in t ret" "digits_in f ds"
    "num_of f ds = num_of t ret * 2 ^ b + acc mod 2 ^ b"
    "out = ret @ (if b = 0 then [] else [(acc mod 2 ^ b) * 2 ^ (t - b)])"
proof -
  from assms(2) obtain acc b ret where loop: "convertbits_loop f t ds (0, 0, []) = Some (acc, b, ret)"
    and out: "out = ret @ (if b = 0 then [] else [push_bit (t - b) acc AND (2 ^ t - 1)])"
    by (auto simp: convertbits_def Let_def split: option.splits if_splits)
  from convertbits_loop_regrouped [OF assms(1) regrouped_Nil [OF assms(1)] loop]
  have r: "regrouped f t ds (acc, b, ret)" and d: "digits_in f ds" by simp_all
  then have "out = ret @ (if b = 0 then [] else [(acc mod 2 ^ b) * 2 ^ (t - b)])"
    using out by (simp add: regrouped_def pad_bits)
  with r d loop that [of acc b ret] show thesis by (simp add: regrouped_def)
qed

lemma num_of_inj:
  "digits_in w xs \<Longrightarrow> digits_in w ys \<Longrightarrow> length xs = length ys \<Longrightarrow> num_of w xs = num_of w ys \<Longrightarrow> xs = ys"
proof (induction xs arbitrary: ys rule: rev_induct)
  case (snoc x xs)
  obtain y ys' where ys: "ys = ys' @ [y]" using snoc.prems(3) by (cases ys rule: rev_cases) auto
  have eq: "num_of w xs * 2 ^ w + x = num_of w ys' * 2 ^ w + y"
    and x: "0 \<le> x" "x < 2 ^ w" and y: "0 \<le> y" "y < 2 ^ w"
    using snoc.prems by (simp_all add: ys)
  have "x = (num_of w xs * 2 ^ w + x) mod 2 ^ w" using x by simp
  also have "\<dots> = y" using y by (simp add: eq)
  finally have "x = y" .
  with eq snoc ys show ?case by simp
qed simp

section \<open>Checksum\<close>

text \<open>The checksum stays below \<open>2 ^ 30\<close>, and one step is injective in the value and in the running
  checksum: the low five bits of the mixed generators determine the five bits shifted out.\<close>

definition gen_mix :: "int \<Rightarrow> int" where
  "gen_mix tp = polymod_mix generator tp 0"

lemma polymod_mix_xor: "polymod_mix gs tp (a XOR b) = a XOR polymod_mix gs tp b"
  by (induction gs arbitrary: tp b) (simp_all add: xor.assoc)

lemma polymod_step_eq:
  "polymod_step chk v = push_bit 5 (take_bit 25 chk) XOR v XOR gen_mix (drop_bit 25 chk)"
proof -
  have "chk AND 0x1FFFFFF = take_bit 25 chk" by (simp add: take_bit_eq_mask mask_eq_exp_minus_1)
  then show ?thesis
    using polymod_mix_xor [of generator "drop_bit 25 chk" "push_bit 5 (take_bit 25 chk) XOR v" 0]
    by (simp add: polymod_step_def gen_mix_def Let_def xor.assoc)
qed

lemma gen_mix_values:
  "\<forall>i \<in> set [0..<32]. let g = gen_mix (int i) in 0 \<le> g \<and> g < 2 ^ 30"
  by code_simp

lemma gen_mix_low_distinct: "distinct (map (\<lambda>i. take_bit 5 (gen_mix (int i))) [0..<32])"
  by code_simp

lemma gen_mix_low_inj:
  assumes "0 \<le> a" "a < 32" "0 \<le> b" "b < 32" "take_bit 5 (gen_mix a) = take_bit 5 (gen_mix b)"
  shows "a = b"
proof -
  have "nat a = nat b"
    using gen_mix_low_distinct assms unfolding distinct_map inj_on_def by auto
  then show ?thesis using assms by simp
qed

abbreviation chk_ok :: "int \<Rightarrow> bool" where
  "chk_ok c \<equiv> 0 \<le> c \<and> c < 2 ^ 30"

lemma drop_bit_25_range: "chk_ok c \<Longrightarrow> 0 \<le> drop_bit 25 c \<and> drop_bit 25 c < 32"
  by (simp add: drop_bit_eq_div) linarith

lemma gen_mix_ok:
  assumes "chk_ok c"
  shows "chk_ok (gen_mix (drop_bit 25 c))"
proof -
  have r: "0 \<le> drop_bit 25 c" "drop_bit 25 c < 32" using drop_bit_25_range [OF assms] by auto
  then have "nat (drop_bit 25 c) \<in> set [0..<32]" by simp
  from bspec [OF gen_mix_values this] have "chk_ok (gen_mix (int (nat (drop_bit 25 c))))"
    by (simp only: Let_def)
  then show ?thesis using r by simp
qed

lemma polymod_step_ok:
  assumes "chk_ok c" "0 \<le> v" "v < 32"
  shows "chk_ok (polymod_step c v)"
proof -
  have 1: "chk_ok (push_bit 5 (take_bit 25 c))"
    using take_bit_int_less_exp [of 25 c] by (simp add: push_bit_eq_mult)
  have 2: "chk_ok v" using assms by simp
  have xor: "chk_ok (a XOR b)" if "chk_ok a" "chk_ok b" for a b
    using that XOR_lower [of a b] XOR_upper [of a 30 b] by simp
  show ?thesis unfolding polymod_step_eq by (intro xor 1 2 gen_mix_ok assms(1))
qed

lemma xor_cancel_left: "(a :: int) XOR b = a XOR c \<longleftrightarrow> b = c"
  by (metis xor.assoc xor.left_neutral xor_self_eq)

lemma polymod_step_inj_value: "polymod_step c v = polymod_step c w \<longleftrightarrow> v = w"
  by (simp add: polymod_step_eq xor_cancel_left xor.commute [of _ "gen_mix (drop_bit 25 c)"])

lemma polymod_step_inj_chk:
  assumes "chk_ok c" "chk_ok d" "polymod_step c v = polymod_step d v"
  shows "c = d"
proof -
  have eq: "push_bit 5 (take_bit 25 c) XOR gen_mix (drop_bit 25 c) =
      push_bit 5 (take_bit 25 d) XOR gen_mix (drop_bit 25 d)"
    using assms(3) by (simp add: polymod_step_eq xor.left_commute [of _ v] xor_cancel_left)
  from arg_cong [OF this, of "take_bit 5"]
  have "take_bit 5 (gen_mix (drop_bit 25 c)) = take_bit 5 (gen_mix (drop_bit 25 d))"
    by (simp add: take_bit_xor take_bit_push_bit)
  then have tp: "drop_bit 25 c = drop_bit 25 d"
    using gen_mix_low_inj drop_bit_25_range assms(1,2) by blast
  with eq have "push_bit 5 (take_bit 25 c) = push_bit 5 (take_bit 25 d)"
    by (metis xor.commute xor_cancel_left)
  then have "take_bit 25 c = take_bit 25 d" by (simp add: push_bit_eq_mult)
  with tp show ?thesis by (metis bits_ident)
qed

lemma polymod_foldl_ok: "chk_ok c \<Longrightarrow> digits_in 5 vs \<Longrightarrow> chk_ok (foldl polymod_step c vs)"
proof (induction vs arbitrary: c)
  case (Cons v vs)
  then show ?case using polymod_step_ok [of c v] by simp
qed simp

lemma polymod_foldl_neq:
  "chk_ok c \<Longrightarrow> chk_ok d \<Longrightarrow> c \<noteq> d \<Longrightarrow> digits_in 5 vs \<Longrightarrow>
     foldl polymod_step c vs \<noteq> foldl polymod_step d vs"
proof (induction vs arbitrary: c d)
  case (Cons v vs)
  then have "chk_ok (polymod_step c v)" "chk_ok (polymod_step d v)" "polymod_step c v \<noteq> polymod_step d v"
    using polymod_step_ok [of c v] polymod_step_ok [of d v] polymod_step_inj_chk [of c d v] by auto
  with Cons show ?case by simp
qed simp

lemma polymod_update_neq:
  assumes "digits_in 5 ps" "digits_in 5 vs" "i < length vs" "0 \<le> v" "v < 32" "v \<noteq> vs ! i"
  shows "polymod (ps @ vs[i := v]) \<noteq> polymod (ps @ vs)"
proof -
  define c where "c = foldl polymod_step 1 (ps @ take i vs)"
  have d: "digits_in 5 (take i vs)" "digits_in 5 (drop (Suc i) vs)" "0 \<le> vs ! i" "vs ! i < 32"
    using assms(2,3) nth_mem [OF assms(3)]
    by (auto simp: digits_in_def dest: in_set_takeD in_set_dropD)
  have c: "chk_ok c" unfolding c_def using assms(1) d(1) by (intro polymod_foldl_ok) auto
  have "polymod (ps @ vs[i := v]) = foldl polymod_step (polymod_step c v) (drop (Suc i) vs)"
    using assms(3) by (simp add: polymod_def c_def upd_conv_take_nth_drop)
  moreover have "polymod (ps @ vs) = foldl polymod_step (polymod_step c (vs ! i)) (drop (Suc i) vs)"
    by (subst id_take_nth_drop [OF assms(3)]) (simp add: polymod_def c_def)
  moreover have "polymod_step c v \<noteq> polymod_step c (vs ! i)"
    using assms(6) by (simp add: polymod_step_inj_value)
  ultimately show ?thesis
    using polymod_foldl_neq polymod_step_ok c d assms(4,5) by metis
qed

section \<open>Decoding a string of the shape \<open>hrp 1 data\<close>\<close>

lemma CHARSET_chars:
  "\<forall>c \<in> set CHARSET. py_lower_char c = c \<and> 33 \<le> py_ord c \<and> py_ord c \<le> 126 \<and> c \<noteq> CHR ''1''"
  by code_simp

lemma CHARSET_length [simp]: "length CHARSET = 32"
  by (simp add: CHARSET_def)

lemma CHARSET_find: "c \<in> set CHARSET \<Longrightarrow> 0 \<le> py_find CHARSET c \<and> py_find CHARSET c < 32"
  using py_find_present [of c CHARSET] by simp

lemma digits_in_find: "set d \<subseteq> set CHARSET \<Longrightarrow> digits_in 5 (map (py_find CHARSET) d)"
  using CHARSET_find by (auto simp: digits_in_def)

lemma digits_in_hrp_expand:
  assumes "\<forall>x \<in> set h. py_ord x \<le> 126"
  shows "digits_in 5 (hrp_expand h)"
proof -
  have "drop_bit 5 (py_ord x) < 32 \<and> 0 \<le> drop_bit 5 (py_ord x)" if "x \<in> set h" for x
    using assms that by (auto simp: drop_bit_eq_div pos_imp_zdiv_nonneg_iff)
  moreover have "py_ord x AND 31 < 32 \<and> 0 \<le> py_ord x AND 31" for x
    using and_mask [of "py_ord x" 5] by simp
  ultimately show ?thesis by (auto simp: hrp_expand_def digits_in_def)
qed

lemma after_last_append [simp]: "c \<notin> set d \<Longrightarrow> after_last c (h @ c # d) = d"
proof -
  assume "c \<notin> set d"
  then have "takeWhile (\<lambda>x. x \<noteq> c) (rev d @ c # rev h) = rev d"
    by (subst takeWhile_append2) auto
  then show ?thesis by (simp add: after_last_def)
qed

lemma py_rfind_append [simp]: "c \<notin> set d \<Longrightarrow> py_rfind (h @ c # d) c = int (length h)"
  by (simp add: py_rfind_def)

lemma bech32_decode_lower:
  assumes "py_lower (h @ CHR ''1'' # d) = h @ CHR ''1'' # d" and "CHR ''1'' \<notin> set d"
  shows "bech32_decode (h @ CHR ''1'' # d) =
    (if (\<forall>x \<in> set (h @ CHR ''1'' # d). 33 \<le> py_ord x \<and> py_ord x \<le> 126) \<and> h \<noteq> [] \<and>
        CHECKSUM_LEN \<le> length d \<and> length (h @ CHR ''1'' # d) \<le> 1023 \<and> set d \<subseteq> set CHARSET \<and>
        polymod (hrp_expand h @ map (py_find CHARSET) d) = 1
     then Some (h, take (length d - CHECKSUM_LEN) (map (py_find CHARSET) d)) else None)"
proof -
  have "nat (1 + int (length h)) = Suc (length h)" by simp
  then have "drop (nat (int (length h) + 1)) (h @ CHR ''1'' # d) = d"
    by (simp add: add.commute)
  then show ?thesis
    using assms unfolding bech32_decode_def Let_def assms(1) py_rfind_append [OF assms(2)]
    by (simp add: CHECKSUM_LEN_def subset_iff not_less not_le)
qed

text \<open>C33: the checksum rejects every string obtained from an accepted lower-case one by replacing
  one character of its data part (checksum included) by another character of the alphabet.\<close>

theorem bech32_detects_substitution:
  assumes "bech32_decode (h @ CHR ''1'' # d) = Some r"
    and "py_lower (h @ CHR ''1'' # d) = h @ CHR ''1'' # d" and "CHR ''1'' \<notin> set d"
    and "i < length d" and "c \<in> set CHARSET" and "c \<noteq> d ! i"
  shows "bech32_decode (h @ CHR ''1'' # d[i := c]) = None"
proof -
  let ?f = "map (py_find CHARSET)"
  from assms(1) have acc: "\<forall>x \<in> set h. py_ord x \<le> 126" "set d \<subseteq> set CHARSET"
      "polymod (hrp_expand h @ ?f d) = 1"
    by (auto simp: bech32_decode_lower [OF assms(2,3)] split: if_splits)
  have set': "set (d[i := c]) \<subseteq> insert c (set d)" by (rule set_update_subset_insert)
  have low: "py_lower (h @ CHR ''1'' # d[i := c]) = h @ CHR ''1'' # d[i := c]"
    using assms(2,5) CHARSET_chars by (simp add: py_lower_def map_update list_update_same_conv)
  have one: "CHR ''1'' \<notin> set (d[i := c])" using set' assms(3,5) CHARSET_chars by auto
  have "py_find CHARSET c \<noteq> ?f d ! i"
    using assms(4-6) acc(2) py_find_inj [of c CHARSET "d ! i"] nth_mem by fastforce
  then have "polymod (hrp_expand h @ (?f d)[i := py_find CHARSET c]) \<noteq> polymod (hrp_expand h @ ?f d)"
    using assms(4) CHARSET_find [OF assms(5)] acc
    by (intro polymod_update_neq digits_in_hrp_expand digits_in_find) auto
  then show ?thesis using acc(3) by (simp add: bech32_decode_lower [OF low one] map_update)
qed

lemma sample_address_decodes:
  "bech32_decode ''addr1wxn9efv2f6w82hagxqtn62ju4m293tqvw0uhmdl64ch8uwc0h43gt'' \<noteq> None"
  by code_simp

theorem bech32_detects_substitution_witness:
  "bech32_decode (''addr'' @ CHR ''1'' #
     ''wxn9efv2f6w82hagxqtn62ju4m293tqvw0uhmdl64ch8uwc0h43gt''[0 := CHR ''q'']) = None"
proof -
  have dec: "bech32_decode (''addr'' @ CHR ''1'' #
     ''wxn9efv2f6w82hagxqtn62ju4m293tqvw0uhmdl64ch8uwc0h43gt'') \<noteq> None"
    using sample_address_decodes by simp
  then obtain r where "bech32_decode (''addr'' @ CHR ''1'' #
     ''wxn9efv2f6w82hagxqtn62ju4m293tqvw0uhmdl64ch8uwc0h43gt'') = Some r" by blast
  then show ?thesis
    by (rule bech32_detects_substitution) (code_simp, simp, simp, code_simp, simp)
qed

text \<open>C34: regrouping bytes into padded 5-bit groups and regrouping those strictly into bytes gives
  the bytes back.\<close>

theorem convertbits_roundtrip:
  assumes "digits_in 8 bs"
  shows "\<exists>gs. convertbits bs 8 5 True = Some gs \<and> convertbits gs 5 8 False = Some bs"
proof -
  obtain acc0 b0 ret0 where "convertbits_loop 8 5 bs (0, 0, []) = Some (acc0, b0, ret0)"
    using convertbits_loop_total [OF assms, of 5 "(0, 0, [])"] by auto
  then obtain gs where gs: "convertbits bs 8 5 True = Some gs"
    by (cases "b0 = 0") (simp_all add: convertbits_def)
  obtain acc b ret where r: "b < 5" "8 * length bs = 5 * length ret + b" "digits_in 5 ret"
      "num_of 8 bs = num_of 5 ret * 2 ^ b + acc mod 2 ^ b"
      "gs = ret @ (if b = 0 then [] else [(acc mod 2 ^ b) * 2 ^ (5 - b)])"
    by (rule convertbits_padded [OF _ gs]) simp_all
  define p where "p = (if b = 0 then 0 else 5 - b)"
  have p: "p < 5" "5 * length gs = 8 * length bs + p" using r by (auto simp: p_def)
  have split: "(2 :: int) ^ 5 = 2 ^ b * 2 ^ (5 - b)" using r(1) by (simp flip: power_add)
  have "acc mod 2 ^ b * 2 ^ (5 - b) < 2 ^ 5"
    unfolding split by (intro mult_strict_right_mono) simp_all
  then have g5: "digits_in 5 gs" using r by simp
  have num: "num_of 5 gs = num_of 8 bs * 2 ^ p"
    using r(4,5) split by (simp add: p_def algebra_simps)
  obtain acc' b' out where loop: "convertbits_loop 5 8 gs (0, 0, []) = Some (acc', b', out)"
    using convertbits_loop_total [OF g5, of 8 "(0, 0, [])"] by auto
  from convertbits_loop_regrouped [OF _ regrouped_Nil loop]
  have r': "b' < 8" "5 * length gs = 8 * length out + b'" "digits_in 8 out"
      "num_of 5 gs = num_of 8 out * 2 ^ b' + acc' mod 2 ^ b'"
    by (simp_all add: regrouped_def)
  have eq: "8 * length out + b' = 8 * length bs + p" using r'(2) p(2) by simp
  have "(8 * length out + b') div 8 = length out" "(8 * length bs + p) div 8 = length bs"
    using r'(1) p(1) by simp_all
  then have len: "length out = length bs" "b' = p" using eq by simp_all
  have "acc' mod 2 ^ p = num_of 5 gs mod 2 ^ p" using r'(4) len by simp
  then have z: "acc' mod 2 ^ p = 0" using num by simp
  then have "num_of 8 out = num_of 8 bs" using r'(4) num len by simp
  then have "out = bs" using num_of_inj r'(3) assms len(1) by blast
  moreover have "push_bit (8 - p) acc' AND (2 ^ 8 - 1) = 0"
    using pad_bits [of p 8 acc'] p(1) z by simp
  ultimately have "convertbits gs 5 8 False = Some bs"
    using loop len p(1) by (simp add: convertbits_def Let_def)
  with gs show ?thesis by blast
qed

theorem convertbits_roundtrip_witness:
  "\<exists>gs. convertbits [0x61, 0xa6, 0xff] 8 5 True = Some gs \<and> convertbits gs 5 8 False = Some [0x61, 0xa6, 0xff]"
  by (rule convertbits_roundtrip) simp

lemma convertbits_pad_extends:
  "convertbits ds f t False = Some out \<Longrightarrow> \<exists>e. convertbits ds f t True = Some (out @ e)"
  by (auto simp: convertbits_def Let_def split: option.splits if_splits)

lemma lower_is_one: "33 \<le> py_ord x \<Longrightarrow> py_ord x \<le> 126 \<Longrightarrow> (py_lower_char x = CHR ''1'') = (x = CHR ''1'')"
proof -
  assume a: "33 \<le> py_ord x" "py_ord x \<le> 126"
  have "py_ord (py_lower_char x) = (if 65 \<le> py_ord x \<and> py_ord x \<le> 90 then py_ord x + 32 else py_ord x)"
    using a by (auto simp: py_lower_char_def)
  then have "py_ord (py_lower_char x) = 49 \<longleftrightarrow> py_ord x = 49" by auto
  then show ?thesis
    using a by (auto simp: py_lower_char_def)
qed

lemma bech32_decode_SomeD:
  assumes "bech32_decode a = Some (h, data)"
  obtains d where "py_lower (after_last (CHR ''1'') a) = d" "CHR ''1'' \<in> set a" "set d \<subseteq> set CHARSET"
    "data = take (length d - CHECKSUM_LEN) (map (py_find CHARSET) d)"
proof -
  let ?l = "py_lower a" and ?one = "CHR ''1''"
  from assms have pr: "\<forall>x \<in> set a. 33 \<le> py_ord x \<and> py_ord x \<le> 126"
    and pos: "1 \<le> py_rfind ?l ?one"
    and d: "set (drop (nat (py_rfind ?l ?one + 1)) ?l) \<subseteq> set CHARSET"
    and data: "data = take (length ?l - nat (py_rfind ?l ?one + 1) - CHECKSUM_LEN)
       (map (py_find CHARSET) (drop (nat (py_rfind ?l ?one + 1)) ?l))"
    by (auto simp: bech32_decode_def Let_def split: if_splits)
  have "length (after_last ?one ?l) < length ?l" using pos by (simp add: py_rfind_def)
  then have mem: "?one \<in> set ?l"
    using after_last_absent [of ?one ?l] by (cases "?one \<in> set ?l") simp_all
  have low: "after_last ?one ?l = py_lower (after_last ?one a)"
    unfolding py_lower_def using pr by (intro after_last_lower) (auto simp: lower_is_one)
  have "nat (py_rfind ?l ?one + 1) = length ?l - length (after_last ?one ?l)"
    using \<open>length (after_last ?one ?l) < length ?l\<close> by (simp add: py_rfind_def)
  then have drop: "drop (nat (py_rfind ?l ?one + 1)) ?l = after_last ?one ?l"
    by (simp only: drop_after_last)
  obtain x where "x \<in> set a" "py_lower_char x = ?one" using mem by (auto simp: py_lower_def)
  then have "?one \<in> set a" using pr lower_is_one by metis
  with that [of "after_last ?one ?l"] drop d data low show thesis
    by (metis length_drop)
qed

text \<open>Wherever the strict decoder accepts an address and reads a payment credential from it, the
  scorers' lenient grouping key is that same credential, so the two never group one validator
  differently.\<close>

theorem lenient_agrees_with_strict:
  assumes "payment_credential_hex a = Some k" and "py_strip a = a"
  shows "payment_credential_or_raw a = k"
proof -
  from assms obtain h data raw where dec: "bech32_decode a = Some (h, data)"
    and raw: "convertbits data 5 8 False = Some raw" and len: "29 \<le> length raw"
    and k: "k = bytes_hex (slice 1 29 raw)"
    by (auto simp: payment_credential_hex_def decode_address_bytes_def PAYMENT_CRED_BYTES_def
        split: option.splits if_splits)
  obtain d where d: "py_lower (after_last (CHR ''1'') a) = d" "CHR ''1'' \<in> set a" "set d \<subseteq> set CHARSET"
    and data: "data = take (length d - CHECKSUM_LEN) (map (py_find CHARSET) d)"
    using bech32_decode_SomeD [OF dec] by blast
  have bits: "8 * length raw \<le> 5 * length data"
    by (rule convertbits_unpadded [OF _ raw]) simp_all
  have "data \<noteq> []" using bits len by auto
  then have "CHECKSUM_LEN < length d" using data by auto
  moreover have "- 1 \<notin> set data"
    using data d(3) CHARSET_find by (auto dest!: in_set_takeD) (metis not_one_le_zero neg_0_le_iff_le subsetD)
  moreover obtain e where "convertbits data 5 8 True = Some (raw @ e)"
    using convertbits_pad_extends [OF raw] by blast
  moreover have "slice 1 29 (raw @ e) = slice 1 29 raw" using len by (simp add: slice_def)
  moreover have "data = map (py_find CHARSET) (take (length d - CHECKSUM_LEN) d)"
    by (simp add: data take_map)
  ultimately show ?thesis
    using d bits len k by (auto simp: payment_credential_or_raw_def PAYMENT_CRED_BYTES_def)
qed

theorem lenient_agrees_with_strict_witness:
  "payment_credential_or_raw ''addr1wxn9efv2f6w82hagxqtn62ju4m293tqvw0uhmdl64ch8uwc0h43gt'' =
     ''a65ca58a4e9c755fa830173d2a5caed458ac0c73f97db7faae2e7e3b''"
  by (rule lenient_agrees_with_strict) code_simp+

lemma convertbits_range: "0 < t \<Longrightarrow> convertbits ds f t False = Some out \<Longrightarrow> digits_in t out"
  by (erule (1) convertbits_unpadded)

lemma hex_digit_char: "0 \<le> n \<Longrightarrow> n < 16 \<Longrightarrow> hex_digit n \<in> set ''0123456789abcdef''"
  unfolding hex_digit_def by (rule nth_mem) simp

lemma bytes_hex_wf:
  assumes "digits_in 8 bs"
  shows "length (bytes_hex bs) = 2 * length bs \<and> set (bytes_hex bs) \<subseteq> set ''0123456789abcdef''"
  using assms
proof (induction bs)
  case (Cons b bs)
  have "hex_digit (drop_bit 4 b) \<in> set ''0123456789abcdef''"
    using Cons.prems by (intro hex_digit_char) (auto simp: drop_bit_eq_div pos_imp_zdiv_nonneg_iff)
  moreover have "hex_digit (b AND 15) \<in> set ''0123456789abcdef''"
    using and_mask [of b 4] by (intro hex_digit_char) simp_all
  ultimately show ?case using Cons by (simp add: bytes_hex_def)
qed (simp add: bytes_hex_def)

text \<open>C35. A payment or stake credential, when one is read, is 56 lower-case hex digits.\<close>

theorem credentials_are_56_hex_digits:
  "pred_option (\<lambda>k. length k = 56 \<and> set k \<subseteq> set ''0123456789abcdef'') (payment_credential_hex a) \<and>
   pred_option (\<lambda>k. length k = 56 \<and> set k \<subseteq> set ''0123456789abcdef'') (stake_credential_hex a)"
proof (cases "decode_address_bytes a")
  case (Some raw)
  then have raw: "digits_in 8 raw"
    by (auto simp: decode_address_bytes_def split: option.splits intro: convertbits_range [of 8 _ 5])
  then have d: "digits_in 8 (slice i j raw)" for i j
    by (auto simp: digits_in_def slice_def dest!: in_set_takeD in_set_dropD)
  have l: "length (slice 1 29 raw) = 28" if "29 \<le> length raw" using that by (simp add: slice_def)
  have l': "length (slice 29 57 raw) = 28" if "57 \<le> length raw" using that by (simp add: slice_def)
  show ?thesis
    using Some bytes_hex_wf [OF d, of 1 29] bytes_hex_wf [OF d, of 29 57] l l'
    by (auto simp: payment_credential_hex_def stake_credential_hex_def PAYMENT_CRED_BYTES_def Let_def
        simp del: set_simps split: list.splits)
qed (simp add: payment_credential_hex_def stake_credential_hex_def)

end
