(* ===== verification/Pyfloat.thy ===== *)
theory Pyfloat
  imports Complex_Main "HOL-Library.Log_Nat"
begin

text \<open>
  Python's float arithmetic. A finite binary64 value is the rational number it stands for, and
  every arithmetic operation of the code is the exact rational operation followed by one
  rounding \<open>fl\<close> to the nearest representable value, ties to even, with the subnormal
  range included: this is what IEEE 754 prescribes for addition, subtraction, multiplication,
  division, the conversion from an integer and the reading of a decimal literal, which are the
  operations the modelled code uses.  Infinities and NaN are outside the model; the one place
  where the code depends on the upper end of the range (an integer too large for a float) is
  modelled by the error \<open>OverflowError\<close> of \<open>float_of_int\<close> in theory Resilience.
\<close>

definition ilog2 :: "rat \<Rightarrow> int" where
  "ilog2 x = (let (n, d) = quotient_of x; k = bitlen n - bitlen d
              in if 2 powi k \<le> x then k else k - 1)"

definition rne :: "rat \<Rightarrow> int" where
  "rne x = (let f = \<lfloor>x\<rfloor>; r = x - of_int f
            in if r < 1 / 2 then f else if 1 / 2 < r then f + 1
               else if even f then f else f + 1)"

definition fexp :: "rat \<Rightarrow> int" where
  "fexp x = max (ilog2 \<bar>x\<bar> - 52) (- 1074)"

definition fl :: "rat \<Rightarrow> rat" where
  "fl x = (if x = 0 then 0 else of_int (rne (x / 2 powi fexp x)) * 2 powi fexp x)"

definition fadd :: "rat \<Rightarrow> rat \<Rightarrow> rat" where
  "fadd x y = fl (x + y)"

definition fsub :: "rat \<Rightarrow> rat \<Rightarrow> rat" where
  "fsub x y = fl (x - y)"

definition fmul :: "rat \<Rightarrow> rat \<Rightarrow> rat" where
  "fmul x y = fl (x * y)"

definition fdiv :: "rat \<Rightarrow> rat \<Rightarrow> rat" where
  "fdiv x y = fl (x / y)"

text \<open>\<open>round(x, ndigits)\<close> of a float: the nearest decimal with that many places (ties to even,
  decided on the exact value), read back as a float.\<close>

definition fround :: "rat \<Rightarrow> nat \<Rightarrow> rat" where
  "fround x ndigits = fl (of_int (rne (x * 10 ^ ndigits)) / 10 ^ ndigits)"

subsection \<open>Binary logarithm of a positive rational\<close>

lemma ilog2_bounds:
  assumes "0 < x"
  shows "2 powi ilog2 x \<le> x" and "x < 2 powi (ilog2 x + 1)"
proof -
  obtain n d where q: "quotient_of x = (n, d)" by (cases "quotient_of x")
  have x: "x = of_int n / of_int d" and d: "0 < d"
    using q by (auto simp: quotient_of_div quotient_of_denom_pos)
  with assms have n: "0 < n" by (simp add: zero_less_divide_iff)
  define k where "k = bitlen n - bitlen d"
  have bn: "2 ^ nat (bitlen n - 1) \<le> n" "n < 2 ^ nat (bitlen n)"
    and bd: "2 ^ nat (bitlen d - 1) \<le> d" "d < 2 ^ nat (bitlen d)"
    using bitlen_bounds [OF n] bitlen_bounds [OF d] by auto
  have pos: "0 < bitlen n" "0 < bitlen d"
    using n d bitlen_eq_zero_iff [of n] bitlen_eq_zero_iff [of d] bitlen_nonneg [of n] bitlen_nonneg [of d]
    by auto
  have pw: "(2::rat) powi m = of_int (2 ^ nat m)" if "0 \<le> m" for m
    using that by (simp add: power_int_def)
  have n1: "2 powi (bitlen n - 1) \<le> (of_int n :: rat)" and n2: "(of_int n :: rat) < 2 powi bitlen n"
    and d1: "2 powi (bitlen d - 1) \<le> (of_int d :: rat)" and d2: "(of_int d :: rat) < 2 powi bitlen d"
    using bn bd pos by (simp_all only: pw of_int_le_iff of_int_less_iff)
  have dpos: "0 < (of_int d :: rat)" using d by simp
  have lo: "2 powi (k - 1) < x"
  proof -
    have "2 powi (k - 1) * of_int d < 2 powi (k - 1) * (2 powi bitlen d :: rat)"
      using d2 by simp
    also have "\<dots> = 2 powi (bitlen n - 1)"
      by (simp add: k_def flip: power_int_add)
    also note n1
    finally show ?thesis using dpos by (simp add: x pos_less_divide_eq)
  qed
  have hi: "x < 2 powi (k + 1)"
  proof -
    have "(of_int n :: rat) < 2 powi bitlen n" by (rule n2)
    also have "\<dots> = 2 powi (k + 1) * 2 powi (bitlen d - 1)"
      by (simp add: k_def flip: power_int_add)
    also have "\<dots> \<le> 2 powi (k + 1) * of_int d"
      using d1 by simp
    finally show ?thesis using dpos by (simp add: x pos_divide_less_eq)
  qed
  show "2 powi ilog2 x \<le> x" and "x < 2 powi (ilog2 x + 1)"
    using lo hi by (auto simp: ilog2_def q k_def [symmetric])
qed

lemma two_powi_strict_mono: "a < b \<Longrightarrow> (2::rat) powi a < 2 powi b"
proof -
  assume "a < b"
  then have "1 < (2::rat) ^ nat (b - a)" by simp
  also have "(2::rat) ^ nat (b - a) = 2 powi (b - a)"
    using \<open>a < b\<close> by (simp add: power_int_nonneg_exp)
  also have "\<dots> = 2 powi b / 2 powi a" by (simp add: power_int_diff)
  finally show ?thesis by (simp add: less_divide_eq)
qed

lemma two_powi_less_iff: "(2::rat) powi a < 2 powi b \<longleftrightarrow> a < b"
  using two_powi_strict_mono [of a b] two_powi_strict_mono [of b a]
  by (metis less_irrefl less_trans linorder_neqE_linordered_idom)

lemma two_powi_le_iff: "(2::rat) powi a \<le> 2 powi b \<longleftrightarrow> a \<le> b"
  using two_powi_less_iff [of b a] by (simp add: not_less [symmetric])

lemma ilog2_less:
  assumes "0 < x" and "x < 2 powi k"
  shows "ilog2 x < k"
  using ilog2_bounds(1) [OF assms(1)] assms(2) two_powi_less_iff order.strict_trans1 by blast

lemma ilog2_mono:
  assumes "0 < x" and "x \<le> y"
  shows "ilog2 x \<le> ilog2 y"
proof -
  have "x < 2 powi (ilog2 y + 1)"
    using ilog2_bounds(2) [of y] assms by simp
  from ilog2_less [OF assms(1) this] show ?thesis by simp
qed

subsection \<open>Rounding to an integer, ties to even\<close>

lemma rne_of_int [simp]: "rne (of_int n) = n"
  by (simp add: rne_def)

lemma rne_bounds: "of_int (rne x) \<le> x + 1 / 2" "x - 1 / 2 \<le> of_int (rne x)"
  by (auto simp: rne_def Let_def) linarith+

lemma rne_mono:
  assumes "x \<le> y"
  shows "rne x \<le> rne y"
proof (cases "\<lfloor>x\<rfloor> = \<lfloor>y\<rfloor>")
  case True
  with assms show ?thesis by (auto simp: rne_def Let_def)
next
  case False
  then have "\<lfloor>x\<rfloor> + 1 \<le> \<lfloor>y\<rfloor>" using floor_mono [OF assms] by simp
  moreover have "rne x \<le> \<lfloor>x\<rfloor> + 1" and "\<lfloor>y\<rfloor> \<le> rne y" by (auto simp: rne_def Let_def)
  ultimately show ?thesis by simp
qed

lemma rne_le_int: "x \<le> of_int n \<Longrightarrow> rne x \<le> n"
  using rne_mono [of x "of_int n"] by simp

lemma rne_ge_int: "of_int n \<le> x \<Longrightarrow> n \<le> rne x"
  using rne_mono [of "of_int n" x] by simp

lemma rne_uminus [simp]: "rne (- x) = - rne x"
proof (cases "x = of_int \<lfloor>x\<rfloor>")
  case True
  then have "rne x = \<lfloor>x\<rfloor>" and "rne (- x) = - \<lfloor>x\<rfloor>"
    by (metis rne_of_int, metis rne_of_int of_int_minus)
  then show ?thesis by simp
next
  case False
  then have "\<lfloor>- x\<rfloor> = - \<lfloor>x\<rfloor> - 1" by linarith
  then show ?thesis by (auto simp: rne_def Let_def)
qed

subsection \<open>Rounding to a float\<close>

lemma fl_0 [simp]: "fl 0 = 0"
  by (simp add: fl_def)

lemma fl_uminus [simp]: "fl (- x) = - fl x"
  by (simp add: fl_def fexp_def)

lemma fl_nonneg: "0 \<le> x \<Longrightarrow> 0 \<le> fl x"
  using rne_ge_int [of 0 "x / 2 powi fexp x"] by (simp add: fl_def)

lemma fl_mono_pos:
  assumes "0 < x" and "x \<le> y"
  shows "fl x \<le> fl y"
proof (cases "fexp x = fexp y")
  case True
  have "rne (x / 2 powi fexp y) \<le> rne (y / 2 powi fexp y)"
    using assms by (intro rne_mono divide_right_mono) simp_all
  with assms True show ?thesis by (simp add: fl_def)
next
  case False
  define k where "k = ilog2 y"
  have "ilog2 x \<le> k" using ilog2_mono [OF assms] by (simp add: k_def)
  with False assms have less: "fexp x < fexp y" and ey: "fexp y = k - 52"
    and xk: "ilog2 x + 1 \<le> k"
    by (auto simp: fexp_def k_def max_def split: if_splits)
  have int_pow: "(2::rat) powi k / 2 powi e = of_int (2 ^ nat (k - e))" if "e \<le> k" for e
    using that by (simp add: power_int_nonneg_exp flip: power_int_diff)
  have "x < 2 powi (ilog2 x + 1)" using ilog2_bounds(2) assms by simp
  also have "\<dots> \<le> 2 powi k" using xk by (simp add: two_powi_le_iff)
  finally have "x / 2 powi fexp x \<le> 2 powi k / 2 powi fexp x"
    by (intro divide_right_mono) simp_all
  then have "x / 2 powi fexp x \<le> of_int (2 ^ nat (k - fexp x))"
    using less ey by (simp only: int_pow)
  from rne_le_int [OF this]
  have "of_int (rne (x / 2 powi fexp x)) \<le> (2::rat) powi k / 2 powi fexp x"
    using less ey by (simp add: int_pow)
  then have 1: "fl x \<le> 2 powi k" using assms by (simp add: fl_def pos_le_divide_eq)
  have "2 powi k \<le> y" using ilog2_bounds(1) [of y] assms by (simp add: k_def)
  then have "2 powi k / 2 powi fexp y \<le> y / 2 powi fexp y"
    by (intro divide_right_mono) simp_all
  then have "of_int (2 ^ nat (k - fexp y)) \<le> y / 2 powi fexp y"
    using ey by (simp only: int_pow)
  from rne_ge_int [OF this]
  have "(2::rat) powi k / 2 powi fexp y \<le> of_int (rne (y / 2 powi fexp y))"
    using ey by (simp add: int_pow)
  then have "2 powi k \<le> fl y" using assms by (simp add: fl_def pos_divide_le_eq)
  with 1 show ?thesis by simp
qed

lemma fl_mono: "x \<le> y \<Longrightarrow> fl x \<le> fl y"
proof -
  assume xy: "x \<le> y"
  consider "0 < x" | "y < 0" | "x \<le> 0" "0 \<le> y" by linarith
  then show ?thesis
  proof cases
    case 1
    then show ?thesis using xy by (rule fl_mono_pos)
  next
    case 2
    then have "fl (- y) \<le> fl (- x)" using xy by (intro fl_mono_pos) auto
    then show ?thesis by simp
  next
    case 3
    then have "0 \<le> fl y" and "0 \<le> fl (- x)"
      using fl_nonneg [of y] fl_nonneg [of "- x"] by auto
    then show ?thesis by simp
  qed
qed

text \<open>Every value with a 53-bit significand in the exponent range is represented exactly.\<close>

lemma fl_representable:
  assumes "\<bar>m\<bar> < 2 ^ 53" and "- 1074 \<le> e"
  shows "fl (of_int m * 2 powi e) = of_int m * 2 powi e"
proof (cases "m = 0")
  case False
  define x where "x = of_int m * (2::rat) powi e"
  have "\<bar>x\<bar> = of_int \<bar>m\<bar> * 2 powi e" by (simp add: x_def abs_mult)
  also have "\<dots> < 2 powi 53 * 2 powi e"
  proof (rule mult_strict_right_mono)
    have "(of_int \<bar>m\<bar> :: rat) < of_int (2 ^ 53)" using assms(1) by (simp only: of_int_less_iff)
    then show "(of_int \<bar>m\<bar> :: rat) < 2 powi 53" by simp
  qed simp
  also have "\<dots> = 2 powi (53 + e)" by (simp add: power_int_add)
  finally have "ilog2 \<bar>x\<bar> < 53 + e" using False by (intro ilog2_less) (simp_all add: x_def)
  with assms(2) have le: "fexp x \<le> e" by (simp add: fexp_def)
  have "x / 2 powi fexp x = of_int m * 2 powi (e - fexp x)"
    by (simp add: x_def power_int_diff)
  also have "\<dots> = of_int (m * 2 ^ nat (e - fexp x))"
    using le by (simp add: power_int_nonneg_exp)
  finally have "x / 2 powi fexp x = of_int (m * 2 ^ nat (e - fexp x))" .
  moreover from this have "rne (x / 2 powi fexp x) = m * 2 ^ nat (e - fexp x)"
    by (simp only: rne_of_int)
  ultimately have "of_int (rne (x / 2 powi fexp x)) = x / 2 powi fexp x" by simp
  then have "fl x = x" by (simp add: fl_def)
  then show ?thesis by (simp only: x_def)
qed simp

lemma fl_of_int: "\<bar>n\<bar> < 2 ^ 53 \<Longrightarrow> fl (of_int n) = of_int n"
  using fl_representable [of n 0] by simp

lemma fl_numeral [simp]: "numeral n < (2 ^ 53 :: int) \<Longrightarrow> fl (numeral n) = numeral n"
  using fl_of_int [of "numeral n"] by simp

lemma fl_1 [simp]: "fl 1 = 1"
  using fl_of_int [of 1] by simp

text \<open>A rounded value is a 53-bit mantissa times a power of two.\<close>

lemma fl_form:
  obtains m e where "fl x = of_int m * 2 powi e" "\<bar>m\<bar> < 2 ^ 53" "- 1074 \<le> e"
proof (cases "x = 0")
  case False
  define m where "m = rne (x / 2 powi fexp x)"
  have fx: "fl x = of_int m * 2 powi fexp x" using False by (simp add: fl_def m_def)
  have "\<bar>x\<bar> < 2 powi (ilog2 \<bar>x\<bar> + 1)" using ilog2_bounds(2) [of "\<bar>x\<bar>"] False by simp
  also have "\<dots> \<le> 2 powi (53 + fexp x)" by (simp add: two_powi_le_iff fexp_def)
  finally have "\<bar>x / 2 powi fexp x\<bar> < of_int (2 ^ 53)"
    by (simp add: abs_divide pos_divide_less_eq power_int_add)
  then have "m \<le> 2 ^ 53" and "- (2 ^ 53) \<le> m"
    unfolding m_def by (intro rne_le_int rne_ge_int; simp add: abs_if split: if_splits)+
  then consider "\<bar>m\<bar> < 2 ^ 53" | "m = 2 ^ 53" | "m = - (2 ^ 53)" by linarith
  then show ?thesis
  proof cases
    case 1
    then show ?thesis using that [of m "fexp x"] by (simp add: fx fexp_def)
  next
    case 2
    then have "fl x = of_int (2 ^ 52) * 2 powi (fexp x + 1)" by (simp add: fx power_int_add)
    then show ?thesis using that [of "2 ^ 52" "fexp x + 1"] by (simp add: fexp_def)
  next
    case 3
    then have "fl x = of_int (- (2 ^ 52)) * 2 powi (fexp x + 1)" by (simp add: fx power_int_add)
    then show ?thesis using that [of "- (2 ^ 52)" "fexp x + 1"] by (simp add: fexp_def)
  qed
qed (use that [of 0 0] in simp)

lemma fl_idem [simp]: "fl (fl x) = fl x"
  by (rule fl_form [of x]) (simp add: fl_representable)

definition is_float :: "rat \<Rightarrow> bool" where
  "is_float x \<longleftrightarrow> fl x = x"

lemma is_float_fl [simp]: "is_float (fl x)"
  by (simp add: is_float_def)

lemma is_float_of_int: "\<bar>n\<bar> < 2 ^ 53 \<Longrightarrow> is_float (of_int n)"
  by (simp add: is_float_def fl_of_int)

lemma is_float_form:
  assumes "is_float x"
  obtains m e where "x = of_int m * 2 powi e" "\<bar>m\<bar> < 2 ^ 53" "- 1074 \<le> e"
  using fl_form [of x] assms by (metis is_float_def)

text \<open>Floats are multiples of the least positive one, so a difference of two of them does not vanish.\<close>

lemma is_float_multiple:
  assumes "is_float x"
  obtains k where "x = of_int k * 2 powi - 1074"
proof -
  obtain m e where x: "x = of_int m * 2 powi e" and e: "- 1074 \<le> e" using assms by (rule is_float_form)
  have "(2::rat) powi e = 2 powi ((e + 1074) + - 1074)" by simp
  also have "\<dots> = 2 powi (e + 1074) * 2 powi - 1074" by (rule power_int_add) simp
  also have "(2::rat) powi (e + 1074) = of_int (2 ^ nat (e + 1074))" using e by (simp add: power_int_def)
  finally show ?thesis using that [of "m * 2 ^ nat (e + 1074)"] x by simp
qed

lemma fsub_pos:
  assumes "is_float x" "is_float y" "y < x"
  shows "0 < fsub x y"
proof -
  obtain k l where k: "x = of_int k * 2 powi - 1074" and l: "y = of_int l * 2 powi - 1074"
    using assms(1,2) by (metis is_float_multiple)
  have "l < k" using assms(3) k l by simp
  then have "1 * 2 powi - 1074 \<le> (of_int (k - l) :: rat) * 2 powi - 1074" by (intro mult_right_mono) simp_all
  also have "\<dots> = x - y" by (simp add: k l left_diff_distrib)
  finally have "fl (2 powi - 1074) \<le> fsub x y" unfolding fsub_def by (intro fl_mono) simp
  moreover have "fl (2 powi - 1074) = 2 powi - 1074" using fl_representable [of 1 "- 1074"] by simp
  ultimately show ?thesis by (metis order.strict_trans2 zero_less_numeral zero_less_power_int)
qed

lemma fsub_neg:
  assumes "is_float x" "is_float y" "x < y"
  shows "fsub x y < 0"
proof -
  have "fsub x y = - fsub y x" using fl_uminus [of "y - x"] by (simp add: fsub_def)
  then show ?thesis using fsub_pos [OF assms(2,1,3)] by simp
qed

text \<open>Subtracting an integer that does not exceed the float is exact.\<close>

lemma fsub_int_exact:
  assumes "is_float x" "0 \<le> n" "of_int n \<le> x" "x < 2 ^ 53"
  shows "fsub x (of_int n) = x - of_int n"
proof -
  obtain m e where x: "x = of_int m * 2 powi e" and m: "\<bar>m\<bar> < 2 ^ 53" and e: "- 1074 \<le> e"
    using assms(1) by (rule is_float_form)
  show ?thesis
  proof (cases "e \<ge> 0")
    case True
    then have "x = of_int (m * 2 ^ nat e)" by (simp add: x power_int_def)
    moreover from this have "m * 2 ^ nat e < 2 ^ 53" "n \<le> m * 2 ^ nat e" using assms(3,4)
      by (metis of_int_less_iff of_int_numeral of_int_power, metis of_int_le_iff)
    ultimately show ?thesis using fl_of_int [of "m * 2 ^ nat e - n"] assms(2) by (simp add: fsub_def)
  next
    case False
    define p :: int where "p = 2 ^ nat (- e)"
    have "(2::rat) powi e * of_int p = 1" using False by (simp add: p_def power_int_def power_mult_distrib [symmetric])
    then have n: "of_int n = of_int (n * p) * (2::rat) powi e" by (simp add: mult.assoc mult.commute)
    have "(of_int (n * p) :: rat) \<le> of_int m" using assms(3) unfolding x n by simp
    then have "n * p \<le> m" by (simp only: of_int_le_iff)
    moreover have "0 \<le> n * p" using assms(2) by (simp add: p_def)
    ultimately have "\<bar>m - n * p\<bar> < 2 ^ 53" using m by linarith
    then have "fl (of_int (m - n * p) * 2 powi e) = of_int (m - n * p) * 2 powi e" using e by (rule fl_representable)
    moreover have "x - of_int n = of_int (m - n * p) * 2 powi e" by (simp only: x n of_int_diff left_diff_distrib)
    ultimately show ?thesis by (simp only: fsub_def)
  qed
qed

text \<open>Rounding moves a positive number by at most half a unit in its last place.\<close>

lemma half_unit:
  assumes "0 < x"
  shows "2 powi fexp x / 2 \<le> max (x / 2 ^ 53) (2 powi - 1075)"
proof (cases "ilog2 x - 52 \<ge> - 1074")
  case True
  then have "(2 :: rat) powi fexp x = 2 powi (ilog2 x + - 52)" using assms by (simp add: fexp_def)
  also have "\<dots> = 2 powi ilog2 x * 2 powi - 52" by (rule power_int_add) simp
  also have "\<dots> \<le> x * 2 powi - 52" using ilog2_bounds(1) [OF assms] by (intro mult_right_mono) auto
  finally have "2 powi fexp x / 2 \<le> x / 2 ^ 53" by (simp add: power_int_minus field_simps)
  then show ?thesis by (rule max.coboundedI1)
next
  case False
  then have "(2 :: rat) powi fexp x = 2 powi (- 1075 + 1)" using assms by (simp add: fexp_def)
  also have "\<dots> = 2 powi - 1075 * 2 powi 1" by (rule power_int_add) simp
  finally have "(2 :: rat) powi fexp x / 2 = 2 powi - 1075" by simp
  then show ?thesis by simp
qed

lemma fl_upper:
  assumes "0 < x"
  shows "fl x \<le> x + max (x / 2 ^ 53) (2 powi - 1075)"
proof -
  define u :: rat where "u = 2 powi fexp x"
  have u: "0 < u" by (simp add: u_def)
  have "of_int (rne (x / u)) * u \<le> (x / u + 1 / 2) * u" using rne_bounds(1) [of "x / u"] u by (intro mult_right_mono) auto
  then have "fl x \<le> x + u / 2" using assms u by (simp add: fl_def u_def [symmetric] algebra_simps)
  then show ?thesis using half_unit [OF assms] by (simp add: u_def)
qed

lemma fl_lower:
  assumes "0 < x"
  shows "x - max (x / 2 ^ 53) (2 powi - 1075) \<le> fl x"
proof -
  define u :: rat where "u = 2 powi fexp x"
  have u: "0 < u" by (simp add: u_def)
  have "(x / u - 1 / 2) * u \<le> of_int (rne (x / u)) * u" using rne_bounds(2) [of "x / u"] u by (intro mult_right_mono) auto
  then have "x - u / 2 \<le> fl x" using assms u by (simp add: fl_def u_def [symmetric] algebra_simps)
  then show ?thesis using half_unit [OF assms] by (simp add: u_def)
qed

lemma two_powi_tiny: "(2::rat) powi - 1075 \<le> 1 / 10 ^ 12"
proof -
  have "(10::rat) ^ 12 \<le> 2 ^ 1075" by (rule order_trans [of _ "2 ^ 40"]) (simp, rule power_increasing, simp_all)
  then show ?thesis by (simp add: power_int_minus field_simps)
qed

text \<open>The same with round numbers.\<close>

lemma fl_near:
  assumes "0 < x"
  shows "x - (x / 10 ^ 6 + 1 / 10 ^ 6) \<le> fl x" "fl x \<le> x + (x / 10 ^ 6 + 1 / 10 ^ 6)"
proof -
  have "x / 2 ^ 53 \<le> x / 10 ^ 6" using assms by (intro divide_left_mono) simp_all
  then have "max (x / 2 ^ 53) (2 powi - 1075) \<le> x / 10 ^ 6 + 1 / 10 ^ 6" using assms two_powi_tiny by (simp add: max_def)
  then show "x - (x / 10 ^ 6 + 1 / 10 ^ 6) \<le> fl x" "fl x \<le> x + (x / 10 ^ 6 + 1 / 10 ^ 6)"
    using fl_lower [OF assms] fl_upper [OF assms] by linarith+
qed

subsection \<open>Evaluation with integers\<close>

definition rne_int :: "int \<Rightarrow> int \<Rightarrow> int" where
  "rne_int a b = (let q = a div b; r = 2 * (a mod b) in if r < b then q else if b < r then q + 1 else if even q then q else q + 1)"

definition pow2_le :: "int \<Rightarrow> int \<Rightarrow> int \<Rightarrow> bool" where
  "pow2_le k n d = (if 0 \<le> k then d * 2 ^ nat k \<le> n else d \<le> n * 2 ^ nat (- k))"

definition fexp_int :: "int \<Rightarrow> int \<Rightarrow> int" where
  "fexp_int n d = (let k = bitlen n - bitlen d in max ((if pow2_le k n d then k else k - 1) - 52) (- 1074))"

lemma rne_int:
  assumes "0 < b"
  shows "rne (of_int a / of_int b) = rne_int a b"
proof -
  have f: "\<lfloor>of_int a / of_int b :: rat\<rfloor> = a div b" by (rule floor_divide_of_int_eq)
  have "of_int a = (of_int (a div b) * of_int b + of_int (a mod b) :: rat)"
    by (metis div_mult_mod_eq of_int_add of_int_mult)
  then have r: "of_int a / of_int b - of_int (a div b) = (of_int (a mod b) / of_int b :: rat)"
    using assms by (simp add: field_simps)
  have "of_int (a mod b) / of_int b < (1 / 2 :: rat) \<longleftrightarrow> of_int (2 * (a mod b)) < (of_int b :: rat)"
    "(1 / 2 :: rat) < of_int (a mod b) / of_int b \<longleftrightarrow> (of_int b :: rat) < of_int (2 * (a mod b))"
    using assms by (simp_all add: field_simps)
  then have "of_int (a mod b) / of_int b < (1 / 2 :: rat) \<longleftrightarrow> 2 * (a mod b) < b"
    "(1 / 2 :: rat) < of_int (a mod b) / of_int b \<longleftrightarrow> b < 2 * (a mod b)"
    by (simp_all only: of_int_less_iff)
  then show ?thesis unfolding rne_def rne_int_def Let_def f r by (simp only:)
qed

lemma pow2_le:
  assumes "0 < d"
  shows "2 powi k \<le> (of_int n / of_int d :: rat) \<longleftrightarrow> pow2_le k n d"
proof (cases "0 \<le> k")
  case True
  have "2 powi k \<le> (of_int n / of_int d :: rat) \<longleftrightarrow> (of_int (d * 2 ^ nat k) :: rat) \<le> of_int n"
    using assms True by (simp add: power_int_def field_simps)
  then show ?thesis using True by (simp only: pow2_le_def of_int_le_iff if_True)
next
  case False
  have "2 powi k \<le> (of_int n / of_int d :: rat) \<longleftrightarrow> (of_int d :: rat) \<le> of_int (n * 2 ^ nat (- k))"
    using assms False by (simp add: power_int_def field_simps)
  then show ?thesis using False by (simp only: pow2_le_def of_int_le_iff if_False)
qed

lemma fexp_int:
  assumes "quotient_of x = (n, d)"
  shows "fexp x = fexp_int \<bar>n\<bar> d"
proof -
  have d: "0 < d" using quotient_of_denom_pos [OF assms] .
  have "quotient_of \<bar>x\<bar> = (\<bar>n\<bar>, d)"
    using assms by (simp add: rat_abs_code)
  moreover have "\<bar>x\<bar> = of_int \<bar>n\<bar> / of_int d" using quotient_of_div [OF assms] d by simp
  ultimately show ?thesis using pow2_le [OF d, of _ "\<bar>n\<bar>"] by (simp add: fexp_def fexp_int_def ilog2_def Let_def)
qed

lemma fl_code [code]:
  "fl x = (case quotient_of x of (n, d) \<Rightarrow>
     if n = 0 then 0
     else let e = fexp_int \<bar>n\<bar> d
          in if 0 \<le> e then of_int (rne_int n (d * 2 ^ nat e) * 2 ^ nat e)
             else of_int (rne_int (n * 2 ^ nat (- e)) d) / of_int (2 ^ nat (- e)))"
proof -
  obtain n d where q: "quotient_of x = (n, d)" by fastforce
  have d: "0 < d" using quotient_of_denom_pos [OF q] .
  have x: "x = of_int n / of_int d" using quotient_of_div [OF q] .
  define e where "e = fexp_int \<bar>n\<bar> d"
  show ?thesis
  proof (cases "n = 0")
    case True
    then show ?thesis using x q by simp
  next
    case False
    then have "x \<noteq> 0" using x d by simp
    then have fl: "fl x = of_int (rne (x / 2 powi e)) * 2 powi e" by (simp only: fl_def fexp_int [OF q] e_def if_False)
    show ?thesis
    proof (cases "0 \<le> e")
      case True
      then have "x / 2 powi e = of_int n / of_int (d * 2 ^ nat e)" by (simp add: x power_int_def)
      then have "rne (x / 2 powi e) = rne_int n (d * 2 ^ nat e)" using rne_int [of "d * 2 ^ nat e" n] d by simp
      then show ?thesis using fl False True q by (simp add: e_def [symmetric] Let_def power_int_def)
    next
      case F: False
      then have "x / 2 powi e = of_int (n * 2 ^ nat (- e)) / of_int d" by (simp add: x power_int_def field_simps)
      then have "rne (x / 2 powi e) = rne_int (n * 2 ^ nat (- e)) d" using rne_int [OF d, of "n * 2 ^ nat (- e)"] by simp
      then show ?thesis using fl False F q by (simp add: e_def [symmetric] Let_def power_int_def field_simps)
    qed
  qed
qed

end
