(* ===== verification/Resilience.thy ===== *)
theory Resilience
  imports Prelude Pyfloat
begin

text \<open>
  Reconnection resilience, \<open>src/backend/app/ingestion/resilience.py\<close>: exponential backoff with
  jitter, the circuit breaker, and the connect / run-session / backoff loop that the chain-sync and
  mempool clients share.

  Reads of \<open>time.monotonic()\<close> and of the random generator are arguments.  \<open>math.log2\<close> belongs to the C
  library and is a parameter \<open>log2\<close>.  One iteration of the loop is \<open>reconnect_iteration\<close>, driven by an
  \<open>attempt_env\<close> that says what the clock, the socket and the session did; the loop itself consumes a
  list of them and stops when \<open>is_running()\<close> is false, when a cancellation passes through, or when
  the backoff raises.

  Shown here: the backoff never raises and never exceeds its cap however long an outage lasts; a
  closed breaker holds fewer failures than its threshold in every reachable state; a burst of
  failures inside the window opens it; an open breaker admits no connection before the cooldown; a
  handshake alone does not hide a session that keeps dying when the stable-reset rule is on, and
  does hide it when it is off; and every opened session is closed before the next attempt.
\<close>

section \<open>Exponential backoff\<close>

text \<open>An \<open>int\<close> met by a float operand is converted first, and a magnitude outside the binary64 range
  raises.\<close>

definition float_of_int :: "int \<Rightarrow> rat result" where
  "float_of_int n = (if 2 ^ 1024 \<le> \<bar>fl (of_int n)\<bar> then Inl OverflowError else Inr (fl (of_int n)))"

definition exponent_ceiling :: "(rat \<Rightarrow> rat) \<Rightarrow> rat \<Rightarrow> rat \<Rightarrow> int" where
  "exponent_ceiling log2 base_delay max_delay =
     (if base_delay \<le> 0 \<or> max_delay \<le> base_delay then 0
      else \<lceil>log2 (fdiv max_delay base_delay)\<rceil>)"

record backoff =
  base_delay :: rat
  max_delay :: rat
  jitter_factor :: rat
  attempt :: nat
  max_exponent :: int

definition backoff_init :: "(rat \<Rightarrow> rat) \<Rightarrow> rat \<Rightarrow> rat \<Rightarrow> rat \<Rightarrow> backoff" where
  "backoff_init log2 base max_d jitter =
     \<lparr>base_delay = base, max_delay = max_d, jitter_factor = jitter, attempt = 0,
      max_exponent = exponent_ceiling log2 base max_d\<rparr>"

text \<open>\<open>random.uniform(a, b)\<close> is \<open>a + (b - a) * random()\<close>; \<open>rnd\<close> is the value \<open>random()\<close> returned.
  The result is the time slept and the backoff with its attempt counted.\<close>

definition random_uniform :: "rat \<Rightarrow> rat \<Rightarrow> rat \<Rightarrow> rat" where
  "random_uniform a b rnd = fadd a (fmul (fsub b a) rnd)"

definition backoff_wait :: "rat \<Rightarrow> backoff \<Rightarrow> (rat \<times> backoff) result" where
  "backoff_wait rnd b =
     rbind (float_of_int (2 ^ nat (min (int (attempt b)) (max_exponent b)))) (\<lambda>factor.
       let delay = min (fmul (base_delay b) factor) (max_delay b);
           jitter = random_uniform 0 (fmul delay (jitter_factor b)) rnd;
           total = fadd delay jitter
       in Inr (total, b\<lparr>attempt := attempt b + 1\<rparr>))"

definition backoff_reset :: "backoff \<Rightarrow> backoff" where
  "backoff_reset b = b\<lparr>attempt := 0\<rparr>"

section \<open>Circuit breaker\<close>

datatype circuit_state = CLOSED | OPEN | HALF_OPEN

record breaker =
  failure_threshold :: int
  failure_window :: rat
  cooldown :: rat
  state :: circuit_state
  failures :: "rat list"
  opened_at :: rat

definition breaker_init :: "int \<Rightarrow> rat \<Rightarrow> rat \<Rightarrow> breaker" where
  "breaker_init threshold window cool =
     \<lparr>failure_threshold = threshold, failure_window = window, cooldown = cool,
      state = CLOSED, failures = [], opened_at = 0\<rparr>"

definition can_attempt :: "rat \<Rightarrow> breaker \<Rightarrow> bool \<times> breaker" where
  "can_attempt now b =
     (case state b of
        CLOSED \<Rightarrow> (True, b)
      | OPEN \<Rightarrow> (if fsub now (opened_at b) \<ge> cooldown b then (True, b\<lparr>state := HALF_OPEN\<rparr>)
                 else (False, b))
      | HALF_OPEN \<Rightarrow> (True, b))"

definition record_failure :: "rat \<Rightarrow> breaker \<Rightarrow> breaker" where
  "record_failure now b =
     (let fs = filter (\<lambda>t. fsub now t \<le> failure_window b) (failures b @ [now]);
          b = b\<lparr>failures := fs\<rparr>
      in if state b = HALF_OPEN then b\<lparr>state := OPEN, opened_at := now\<rparr>
         else if int (length fs) \<ge> failure_threshold b then b\<lparr>state := OPEN, opened_at := now\<rparr>
         else b)"

definition record_success :: "breaker \<Rightarrow> breaker" where
  "record_success b = b\<lparr>state := CLOSED, failures := []\<rparr>"

section \<open>The reconnect loop\<close>

definition reset_if_stable ::
  "rat \<Rightarrow> rat \<Rightarrow> rat \<Rightarrow> breaker \<Rightarrow> backoff \<Rightarrow> bool \<times> breaker \<times> backoff" where
  "reset_if_stable now session_start stable_reset_seconds br bo =
     (if stable_reset_seconds \<le> 0 then (False, br, bo)
      else if fsub now session_start \<ge> stable_reset_seconds
      then (True, record_success br, backoff_reset bo)
      else (False, br, bo))"

datatype session_outcome =
    ConnectRaises
  | SessionRaises
  | SessionReturns
  | ConnectCancelled
  | SessionCancelled

text \<open>What the environment does in one iteration: the readings of the clock in the order the code
  takes them, the random number of the backoff, whether the client is still running, and how the
  connection and the session end.  A cancellation is not an \<open>Exception\<close>, so only \<open>finally\<close> sees it.\<close>

record attempt_env =
  env_running :: bool
  t_check :: rat
  t_start :: rat
  t_stable :: rat
  t_failure :: rat
  env_rnd :: rat
  outcome :: session_outcome

datatype action =
    Sleep rat
  | Connect
  | Connected bool
  | RunSession
  | Close

record client =
  circuit_breaker :: breaker
  backoff_state :: backoff
  connected :: bool

definition on_session_error ::
  "rat \<Rightarrow> attempt_env \<Rightarrow> client \<Rightarrow> bool result \<times> action list \<times> client" where
  "on_session_error stable_reset_seconds e c =
     (let (healed, br, bo) = reset_if_stable (t_stable e) (t_start e) stable_reset_seconds
                               (circuit_breaker c) (backoff_state c);
          br = (if healed then br else record_failure (t_failure e) br);
          c = c\<lparr>connected := False, circuit_breaker := br, backoff_state := bo\<rparr>
      in case backoff_wait (env_rnd e) bo of
           Inl err \<Rightarrow> (Inl err, [Connected False], c)
         | Inr (secs, bo') \<Rightarrow> (Inr True, [Connected False, Sleep secs], c\<lparr>backoff_state := bo'\<rparr>))"

definition on_handshake :: "rat \<Rightarrow> client \<Rightarrow> client" where
  "on_handshake stable_reset_seconds c =
     (let c = c\<lparr>connected := True\<rparr>
      in if stable_reset_seconds \<le> 0
         then c\<lparr>circuit_breaker := record_success (circuit_breaker c),
                backoff_state := backoff_reset (backoff_state c)\<rparr>
         else c)"

text \<open>The result says whether the loop goes on (\<open>Inr True\<close>), stops on a cancellation (\<open>Inr False\<close>)
  or ends with the error the backoff raised inside the handler.\<close>

definition reconnect_iteration ::
  "rat \<Rightarrow> rat \<Rightarrow> attempt_env \<Rightarrow> client \<Rightarrow> bool result \<times> action list \<times> client" where
  "reconnect_iteration poll_seconds stable_reset_seconds e c =
     (let (ok, br) = can_attempt (t_check e) (circuit_breaker c);
          c = c\<lparr>circuit_breaker := br\<rparr>
      in if \<not> ok then (Inr True, [Sleep poll_seconds], c)
         else
           let h = on_handshake stable_reset_seconds c;
               failed = (\<lambda>acts c.
                 case on_session_error stable_reset_seconds e c of
                   (r, acts', c') \<Rightarrow> (r, acts @ acts' @ [Close], c'))
           in case outcome e of
                ConnectRaises \<Rightarrow> failed [Connect] c
              | SessionRaises \<Rightarrow> failed [Connect, Connected True, RunSession] h
              | SessionReturns \<Rightarrow> (Inr True, [Connect, Connected True, RunSession, Close], h)
              | ConnectCancelled \<Rightarrow> (Inr False, [Connect, Close], c)
              | SessionCancelled \<Rightarrow> (Inr False, [Connect, Connected True, RunSession, Close], h))"

fun run_with_reconnect ::
  "rat \<Rightarrow> rat \<Rightarrow> attempt_env list \<Rightarrow> client \<Rightarrow> bool result \<times> action list \<times> client" where
  "run_with_reconnect poll stable_reset [] c = (Inr True, [], c)"
| "run_with_reconnect poll stable_reset (e # es) c =
     (if \<not> env_running e then (Inr False, [], c)
      else case reconnect_iteration poll stable_reset e c of
             (Inr True, acts, c') \<Rightarrow>
               (case run_with_reconnect poll stable_reset es c' of
                  (r, acts', c'') \<Rightarrow> (r, acts @ acts', c''))
           | (r, acts, c') \<Rightarrow> (r, acts, c'))"

section \<open>Backoff: no overflow, bounded delay\<close>

lemma fl_pow2: "fl (2 ^ k) = 2 ^ k"
  using fl_representable [of 1 "int k"] by (simp add: power_int_def)

lemma float_of_int_pow2: "k < 1024 \<Longrightarrow> float_of_int (2 ^ k) = Inr (2 ^ k)"
proof -
  assume "k < 1024"
  then have "(2::rat) ^ k < 2 ^ 1024" by (intro power_strict_increasing) simp_all
  then show ?thesis by (simp add: float_of_int_def fl_pow2 del: power_numeral)
qed

text \<open>Documented behaviour of \<open>math.log2\<close> that the ceiling relies on: exact at powers of two and
  monotone.\<close>

definition log2_spec :: "(rat \<Rightarrow> rat) \<Rightarrow> bool" where
  "log2_spec log2 \<longleftrightarrow> (\<forall>k. log2 (2 powi k) = of_int k) \<and> (\<forall>x y. 0 < x \<longrightarrow> x \<le> y \<longrightarrow> log2 x \<le> log2 y)"

lemma exponent_ceiling_bound:
  assumes "log2_spec log2" and "max_d \<le> base * 2 ^ k"
  shows "exponent_ceiling log2 base max_d \<le> int k"
proof (cases "base \<le> 0 \<or> max_d \<le> base")
  case False
  then have pos: "0 < base" "base < max_d" by auto
  have ge1: "1 \<le> max_d / base" using pos by simp
  have "max_d / base \<le> 2 ^ k" using assms(2) pos by (simp add: pos_divide_le_eq mult.commute)
  then have "fdiv max_d base \<le> 2 ^ k" unfolding fdiv_def by (metis fl_mono fl_pow2)
  moreover have "1 \<le> fdiv max_d base" unfolding fdiv_def using ge1 by (metis fl_mono fl_1)
  ultimately have "log2 (fdiv max_d base) \<le> log2 (2 powi int k)"
    using assms(1) by (simp add: log2_spec_def power_int_def)
  also have "\<dots> = of_int (int k)" using assms(1) by (simp only: log2_spec_def)
  finally show ?thesis using False by (simp add: exponent_ceiling_def ceiling_le_iff)
qed (simp add: exponent_ceiling_def)

lemma ilog2_pow2 [simp]: "ilog2 (2 powi k) = k"
proof -
  have "ilog2 (2 powi k) < k + 1" by (rule ilog2_less) (simp_all add: two_powi_less_iff)
  moreover have "k < ilog2 (2 powi k) + 1"
    using ilog2_bounds(2) [of "2 powi k"] by (simp add: two_powi_less_iff)
  ultimately show ?thesis by simp
qed

lemma ilog2_spec: "log2_spec (\<lambda>x. of_int (ilog2 x))"
  by (simp add: log2_spec_def ilog2_mono)

lemma random_uniform_bounds:
  assumes "0 \<le> b" "fl b = b" "0 \<le> rnd" "rnd \<le> 1"
  shows "0 \<le> random_uniform 0 b rnd" and "random_uniform 0 b rnd \<le> b"
proof -
  have eq: "random_uniform 0 b rnd = fl (b * rnd)"
    using assms(2) by (simp add: random_uniform_def fadd_def fmul_def fsub_def)
  show "0 \<le> random_uniform 0 b rnd" unfolding eq using assms by (intro fl_nonneg) simp
  have "b * rnd \<le> b" using assms by (simp add: mult_left_le)
  then show "random_uniform 0 b rnd \<le> b" unfolding eq using fl_mono assms(2) by metis
qed

lemma backoff_wait_eq:
  assumes "max_exponent b < 1024"
  obtains secs where "backoff_wait rnd b = Inr (secs, b\<lparr>attempt := attempt b + 1\<rparr>)"
    and "secs = (let delay = min (fmul (base_delay b) (2 ^ nat (min (int (attempt b)) (max_exponent b)))) (max_delay b)
                 in fadd delay (random_uniform 0 (fmul delay (jitter_factor b)) rnd))"
proof -
  have "nat (min (int (attempt b)) (max_exponent b)) < 1024" using assms by linarith
  then show thesis using that by (simp add: backoff_wait_def float_of_int_pow2 Let_def)
qed

text \<open>A backoff whose cap is within \<open>2 ^ 1000\<close> of its base never raises, whatever number of
  attempts the outage has lasted, and never sleeps longer than the cap plus the cap's jitter.\<close>

theorem backoff_wait_total_and_bounded:
  assumes "log2_spec log2" and "0 < base" and "0 \<le> max_d" and "max_d \<le> base * 2 ^ 1000"
    and "0 \<le> jitter" and "0 \<le> rnd" and "rnd \<le> 1"
    and "b = (backoff_init log2 base max_d jitter)\<lparr>attempt := n\<rparr>"
  shows "\<exists>secs. backoff_wait rnd b = Inr (secs, b\<lparr>attempt := n + 1\<rparr>) \<and>
           0 \<le> secs \<and> secs \<le> fadd max_d (fmul max_d jitter)"
proof -
  have "max_exponent b < 1024"
    using exponent_ceiling_bound [OF assms(1,4)] assms(8) by (simp add: backoff_init_def)
  then obtain secs where w: "backoff_wait rnd b = Inr (secs, b\<lparr>attempt := attempt b + 1\<rparr>)"
    and secs: "secs = (let delay = min (fmul base (2 ^ nat (min (int n) (max_exponent b)))) max_d
                 in fadd delay (random_uniform 0 (fmul delay jitter) rnd))"
    using backoff_wait_eq assms(8) by (metis backoff_init_def backoff.select_convs(1-4) backoff.update_convs(4) backoff.simps(1-4))
  define delay where "delay = min (fmul base (2 ^ nat (min (int n) (max_exponent b)))) max_d"
  have delay: "0 \<le> delay" "delay \<le> max_d"
    using assms(2,3) by (auto simp: delay_def fmul_def fl_nonneg)
  have "delay * jitter \<le> max_d * jitter" using delay assms(5) by (simp add: mult_right_mono)
  then have j: "fmul delay jitter \<le> fmul max_d jitter" "0 \<le> fmul delay jitter"
    using delay assms(5) by (auto simp: fmul_def fl_mono fl_nonneg)
  have u: "0 \<le> random_uniform 0 (fmul delay jitter) rnd"
      "random_uniform 0 (fmul delay jitter) rnd \<le> fmul max_d jitter"
    using random_uniform_bounds [of "fmul delay jitter" rnd] j assms(6,7)
    by (auto simp: fmul_def)
  have "secs = fadd delay (random_uniform 0 (fmul delay jitter) rnd)"
    using secs by (simp add: delay_def Let_def)
  then have "0 \<le> secs \<and> secs \<le> fadd max_d (fmul max_d jitter)"
    unfolding fadd_def using delay u by (auto intro!: fl_nonneg fl_mono add_mono)
  then show ?thesis using w assms(8) by auto
qed

theorem backoff_wait_total_and_bounded_witness:
  "\<exists>secs. backoff_wait (1 / 2) ((backoff_init (\<lambda>x. of_int (ilog2 x)) 1 60 (fl (3 / 10)))\<lparr>attempt := 100000\<rparr>) =
       Inr (secs, ((backoff_init (\<lambda>x. of_int (ilog2 x)) 1 60 (fl (3 / 10)))\<lparr>attempt := 100000\<rparr>)\<lparr>attempt := 100000 + 1\<rparr>) \<and>
     0 \<le> secs \<and> secs \<le> fadd 60 (fmul 60 (fl (3 / 10)))"
proof -
  have "(60 :: rat) \<le> 1 * 2 ^ 1000"
  proof -
    have "(2 :: rat) ^ 6 \<le> 2 ^ 1000" by (rule power_increasing) simp_all
    then show ?thesis by simp
  qed
  then show ?thesis
    by (intro backoff_wait_total_and_bounded [OF ilog2_spec]) (simp_all add: fl_nonneg)
qed

section \<open>Circuit breaker: reachable states\<close>

inductive breaker_reach :: "int \<Rightarrow> rat \<Rightarrow> rat \<Rightarrow> breaker \<Rightarrow> bool" for th w cool where
  start: "breaker_reach th w cool (breaker_init th w cool)"
| attempt: "breaker_reach th w cool b \<Longrightarrow> breaker_reach th w cool (snd (can_attempt now b))"
| failure: "breaker_reach th w cool b \<Longrightarrow> breaker_reach th w cool (record_failure now b)"
| success: "breaker_reach th w cool b \<Longrightarrow> breaker_reach th w cool (record_success b)"

lemmas breaker_defs = breaker_init_def can_attempt_def record_failure_def record_success_def Let_def

lemma breaker_reach_inv:
  assumes "breaker_reach th w cool b" and "0 < th"
  shows "failure_threshold b = th \<and> failure_window b = w \<and> cooldown b = cool \<and>
         (state b = CLOSED \<longrightarrow> int (length (failures b)) < th)"
  using assms by induction (auto simp: breaker_defs split: circuit_state.splits)

text \<open>In every state the breaker can reach, closed means that fewer failures than the threshold
  are on record, and the configuration is the one it was built with.\<close>

theorem closed_breaker_below_threshold:
  assumes "breaker_reach th w cool b" and "0 < th"
  shows "failure_threshold b = th \<and> cooldown b = cool \<and>
         (state b = CLOSED \<longrightarrow> int (length (failures b)) < th)"
  using breaker_reach_inv [OF assms] by simp

theorem closed_breaker_below_threshold_witness:
  "breaker_reach 2 300 120 (record_failure 7 (breaker_init 2 300 120)) \<and>
   state (record_failure 7 (breaker_init 2 300 120)) = CLOSED \<and>
   int (length (failures (record_failure 7 (breaker_init 2 300 120)))) < 2"
proof -
  have r: "breaker_reach 2 300 120 (record_failure 7 (breaker_init 2 300 120))"
    by (intro breaker_reach.intros)
  moreover have "state (record_failure 7 (breaker_init 2 300 120)) = CLOSED"
    by (simp add: breaker_defs fsub_def)
  ultimately show ?thesis using closed_breaker_below_threshold [OF r] by simp
qed

lemma record_failure_opens:
  "int (length (filter (\<lambda>t. fsub now t \<le> failure_window b) (failures b @ [now]))) \<ge> failure_threshold b \<Longrightarrow>
     state (record_failure now b) = OPEN \<and> opened_at (record_failure now b) = now"
  by (auto simp: record_failure_def Let_def)

lemma record_failure_fields [simp]:
  "failures (record_failure now b) = filter (\<lambda>t. fsub now t \<le> failure_window b) (failures b @ [now])"
  "failure_window (record_failure now b) = failure_window b"
  "failure_threshold (record_failure now b) = failure_threshold b"
  "cooldown (record_failure now b) = cooldown b"
  by (auto simp: record_failure_def Let_def)

definition record_failures :: "rat list \<Rightarrow> breaker \<Rightarrow> breaker" where
  "record_failures ts b = foldl (\<lambda>b t. record_failure t b) b ts"

lemma record_failures_snoc [simp]: "record_failures (ts @ [t]) b = record_failure t (record_failures ts b)"
  by (simp add: record_failures_def)

lemma record_failures_window [simp]:
  "failure_window (record_failures ts b) = failure_window b"
  "failure_threshold (record_failures ts b) = failure_threshold b"
  by (induction ts rule: rev_induct) (simp_all add: record_failures_def)

lemma fsub_mono_left: "x \<le> y \<Longrightarrow> fsub x t \<le> fsub y t"
  by (simp add: fsub_def fl_mono)

lemma record_failures_keep:
  assumes "sorted (ts @ [t])" and "\<forall>u \<in> set ts. fsub t u \<le> failure_window b"
  shows "length ts \<le> length (filter (\<lambda>u. fsub t u \<le> failure_window b) (failures (record_failures ts b)))"
  using assms
proof (induction ts arbitrary: t rule: rev_induct)
  case (snoc v ts)
  let ?w = "failure_window b" and ?fs = "failures (record_failures ts b)"
  have le: "v \<le> t" and tv: "fsub t v \<le> ?w" and sorted: "sorted (ts @ [v])" using snoc.prems by (auto simp: sorted_append)
  have "length ts \<le> length (filter (\<lambda>u. fsub t u \<le> ?w) ?fs)"
    using snoc.prems by (intro snoc.IH) (auto simp: sorted_append)
  moreover have "filter (\<lambda>u. fsub t u \<le> ?w) (filter (\<lambda>u. fsub v u \<le> ?w) ?fs) = filter (\<lambda>u. fsub t u \<le> ?w) ?fs"
    using fsub_mono_left [OF le] by (auto simp: filter_filter intro!: filter_cong intro: order_trans)
  moreover have "fsub v v \<le> ?w" using tv fsub_mono_left [OF le, of v] by simp
  ultimately show ?case using tv by simp
qed simp

text \<open>A burst of at least \<open>failure_threshold\<close> failures, in time order and all within the window
  of the last one, leaves the breaker open as of the last failure, whatever state it was in.\<close>

theorem burst_opens_breaker:
  assumes "sorted (ts @ [t])" and "\<forall>u \<in> set (ts @ [t]). fsub t u \<le> failure_window b"
    and "failure_threshold b \<le> int (length (ts @ [t]))"
  shows "state (record_failures (ts @ [t]) b) = OPEN \<and> opened_at (record_failures (ts @ [t]) b) = t"
proof -
  have "length ts \<le> length (filter (\<lambda>u. fsub t u \<le> failure_window b) (failures (record_failures ts b)))"
    using assms(1,2) by (intro record_failures_keep) auto
  then show ?thesis using assms(2,3) by (simp add: record_failure_opens)
qed

theorem burst_opens_breaker_witness:
  "state (record_failures ([10, 20] @ [30]) (breaker_init 3 300 120)) = OPEN \<and>
   opened_at (record_failures ([10, 20] @ [30]) (breaker_init 3 300 120)) = 30"
  by (rule burst_opens_breaker) (simp_all add: breaker_init_def fsub_def)

section \<open>The loop: admission, accumulation of failures, teardown\<close>

lemmas iteration_defs = reconnect_iteration_def on_session_error_def on_handshake_def reset_if_stable_def Let_def

definition blocked :: "rat \<Rightarrow> breaker \<Rightarrow> bool" where
  "blocked now b \<longleftrightarrow> state b = OPEN \<and> fsub now (opened_at b) < cooldown b"

text \<open>An iteration only sleeps one poll interval, changing nothing, exactly when the breaker is open
  and its cooldown has not elapsed; in every other case it opens a connection.\<close>

theorem connects_iff_breaker_admits:
  "(reconnect_iteration poll stable_reset e c = (Inr True, [Sleep poll], c) \<longleftrightarrow>
      blocked (t_check e) (circuit_breaker c)) \<and>
   (Connect \<in> set (fst (snd (reconnect_iteration poll stable_reset e c))) \<longleftrightarrow>
      \<not> blocked (t_check e) (circuit_breaker c))"
proof (cases "blocked (t_check e) (circuit_breaker c)")
  case True
  then have "can_attempt (t_check e) (circuit_breaker c) = (False, circuit_breaker c)"
    by (simp add: blocked_def can_attempt_def)
  with True show ?thesis by (cases c) (simp add: iteration_defs)
next
  case False
  then obtain br where "can_attempt (t_check e) (circuit_breaker c) = (True, br)"
    by (cases "state (circuit_breaker c)") (simp_all add: blocked_def can_attempt_def)
  with False show ?thesis
    by (auto simp: iteration_defs split: session_outcome.splits sum.splits prod.splits)
qed

lemma iteration_fast_failure:
  assumes "state (circuit_breaker c) = CLOSED" and "outcome e = SessionRaises"
    and "0 < stable_reset" and "fsub (t_stable e) (t_start e) < stable_reset"
    and "max_exponent (backoff_state c) < 1024"
  obtains acts bo where "reconnect_iteration poll stable_reset e c = (Inr True, acts,
      c\<lparr>circuit_breaker := record_failure (t_failure e) (circuit_breaker c), backoff_state := bo, connected := False\<rparr>)"
    and "max_exponent bo = max_exponent (backoff_state c)"
proof -
  obtain secs where w: "backoff_wait (env_rnd e) (backoff_state c) =
      Inr (secs, (backoff_state c)\<lparr>attempt := attempt (backoff_state c) + 1\<rparr>)"
    using backoff_wait_eq [OF assms(5)] by metis
  show thesis
    by (rule that [of _ "(backoff_state c)\<lparr>attempt := attempt (backoff_state c) + 1\<rparr>"])
      (use assms w in \<open>simp_all add: iteration_defs can_attempt_def\<close>)
qed


definition dying_session :: "rat \<Rightarrow> attempt_env" where
  "dying_session t = \<lparr>env_running = True, t_check = t, t_start = t, t_stable = t + 1, t_failure = t + 1,
     env_rnd = 0, outcome = SessionRaises\<rparr>"

definition fresh_client :: client where
  "fresh_client = \<lparr>circuit_breaker = breaker_init 2 300 120,
     backoff_state = backoff_init (\<lambda>x. of_int (ilog2 x)) 1 60 (fl (3 / 10)), connected = False\<rparr>"

lemma fresh_exponent: "max_exponent (backoff_state fresh_client) < 1024"
  by code_simp


text \<open>With the rule off, every handshake counts as a success, so a dependency that kills each
  session right after it never opens a breaker whose threshold is above one.\<close>

theorem legacy_reset_never_opens:
  assumes "stable_reset \<le> 0" and "2 \<le> failure_threshold (circuit_breaker c)"
    and "state (circuit_breaker c) = CLOSED"
    and "\<forall>e \<in> set es. env_running e \<and> outcome e = SessionRaises"
    and "max_exponent (backoff_state c) < 1024"
  shows "\<exists>acts c'. run_with_reconnect poll stable_reset es c = (Inr True, acts, c') \<and>
           state (circuit_breaker c') = CLOSED"
  using assms(2-)
proof (induction es arbitrary: c)
  case (Cons e es)
  let ?bo = "backoff_reset (backoff_state c)"
  let ?br = "record_failure (t_failure e) (record_success (circuit_breaker c))"
  have "max_exponent ?bo < 1024" using Cons.prems(4) by (simp add: backoff_reset_def)
  then obtain secs where w: "backoff_wait (env_rnd e) ?bo = Inr (secs, ?bo\<lparr>attempt := attempt ?bo + 1\<rparr>)"
    using backoff_wait_eq by metis
  define c1 where "c1 = c\<lparr>circuit_breaker := ?br,
      backoff_state := ?bo\<lparr>attempt := attempt ?bo + 1\<rparr>, connected := False\<rparr>"
  have it: "\<exists>acts. reconnect_iteration poll stable_reset e c = (Inr True, acts, c1)"
    using Cons.prems w assms(1) by (simp add: iteration_defs can_attempt_def c1_def)
  have closed: "state ?br = CLOSED"
    using Cons.prems(1) by (simp add: record_failure_def record_success_def)
  have "\<exists>acts c'. run_with_reconnect poll stable_reset es c1 = (Inr True, acts, c') \<and>
      state (circuit_breaker c') = CLOSED"
    using Cons.prems closed
    by (intro Cons.IH) (auto simp: c1_def record_success_def backoff_reset_def)
  then show ?case using it Cons.prems(3) by auto
qed simp

theorem legacy_reset_never_opens_witness:
  "\<exists>acts c'. run_with_reconnect 5 0 [dying_session 0, dying_session 10, dying_session 20] fresh_client =
       (Inr True, acts, c') \<and> state (circuit_breaker c') = CLOSED"
  by (rule legacy_reset_never_opens)
    (use fresh_exponent in \<open>simp_all add: dying_session_def fresh_client_def breaker_init_def\<close>)

fun bracketed :: "bool \<Rightarrow> action list \<Rightarrow> bool" where
  "bracketed opened [] = (\<not> opened)"
| "bracketed opened (Connect # as) = (\<not> opened \<and> bracketed True as)"
| "bracketed opened (Close # as) = (opened \<and> bracketed False as)"
| "bracketed opened (RunSession # as) = (opened \<and> bracketed opened as)"
| "bracketed opened (_ # as) = bracketed opened as"

lemma bracketed_append: "bracketed opn as \<Longrightarrow> bracketed False bs \<Longrightarrow> bracketed opn (as @ bs)"
  by (induction opn as rule: bracketed.induct) auto

lemma iteration_bracketed: "bracketed False (fst (snd (reconnect_iteration poll stable_reset e c)))"
  by (auto simp: iteration_defs split: session_outcome.splits sum.splits prod.splits)

text \<open>Over any run of the loop every connection attempt is followed by a close before the next
  one, and sessions run only in between, whatever the connection, the session and the backoff do.\<close>

theorem reconnect_trace_bracketed:
  "bracketed False (fst (snd (run_with_reconnect poll stable_reset es c)))"
proof (induction es arbitrary: c)
  case (Cons e es)
  obtain r acts c' where it: "reconnect_iteration poll stable_reset e c = (r, acts, c')"
    by (cases "reconnect_iteration poll stable_reset e c") auto
  then have "bracketed False acts" using iteration_bracketed [of poll stable_reset e c] by simp
  then show ?case using it Cons.IH [of c']
    by (auto simp: split_beta split: sum.splits bool.splits intro: bracketed_append)
qed simp

end
