(* ===== verification/Auth.thy ===== *)
theory Auth
  imports Prelude
begin

text \<open>
  Authentication: magic-link tokens (\<open>src/backend/app/auth/tokens.py\<close>), sessions
  (\<open>auth/sessions.py\<close>), API keys (\<open>auth/api_key.py\<close>), the request dependencies (\<open>auth/deps.py\<close>) and
  the CSRF middleware (\<open>csrf.py\<close>), over the tables of \<open>auth/schema.py\<close>.

  The three tables are lists of records; each SQL statement of the source is the list operation it
  denotes (\<open>WHERE\<close> a filter, \<open>UPDATE\<close> a map, \<open>INSERT\<close> an append that raises on a duplicate primary
  key or a missing referenced user).  A transaction that raises leaves the tables as they were.
  Times are integers (microseconds), \<open>now\<close> is an argument, random strings are arguments, and the
  SHA-256 digest is the parameter \<open>sha256\<close>.
\<close>

section \<open>Tables\<close>

type_synonym uuid = nat

datatype role = Admin | Reviewer

datatype user_status = Pending | Active | Disabled

datatype purpose = Invite | Login

record user_row =
  user_id :: uuid
  user_email :: string
  full_name :: string
  role :: role
  status :: user_status
  user_created_at :: int
  last_login_at :: "int option"

record token_row =
  token_hash :: string
  token_user :: uuid
  token_purpose :: purpose
  token_expires_at :: int
  consumed_at :: "int option"
  redemptions_remaining :: int

record session_row =
  session_id :: string
  session_user :: uuid
  session_expires_at :: int
  user_agent :: "string option"
  session_ip :: "string option"
  created_by_token_hash :: "string option"

record auth_db =
  users :: "user_row list"
  magic_link_tokens :: "token_row list"
  user_sessions :: "session_row list"

definition UniqueViolation :: pyerr where
  "UniqueViolation = RuntimeFailure ''UniqueViolationError''"

definition ForeignKeyViolation :: pyerr where
  "ForeignKeyViolation = RuntimeFailure ''ForeignKeyViolationError''"

definition find_user :: "auth_db \<Rightarrow> uuid \<Rightarrow> user_row option" where
  "find_user db u = find (\<lambda>r. user_id r = u) (users db)"

section \<open>Magic-link tokens\<close>

definition issue_token ::
  "(string \<Rightarrow> string) \<Rightarrow> int \<Rightarrow> int \<Rightarrow> int \<Rightarrow> string \<Rightarrow> uuid \<Rightarrow> purpose \<Rightarrow> auth_db \<Rightarrow> (string \<times> auth_db) result" where
  "issue_token sha256 ttl max_redemptions now token u p db =
     (let h = sha256 token;
          expires = now + ttl;
          kept = filter (\<lambda>t. \<not> (token_user t = u \<and> token_purpose t = p \<and> consumed_at t = None))
                   (magic_link_tokens db)
      in if \<exists>t \<in> set kept. token_hash t = h then Inl UniqueViolation
         else if find_user db u = None then Inl ForeignKeyViolation
         else Inr (token, db\<lparr>magic_link_tokens := kept @
                [\<lparr>token_hash = h, token_user = u, token_purpose = p, token_expires_at = expires,
                  consumed_at = None, redemptions_remaining = max_redemptions\<rparr>]\<rparr>))"

definition redeemable :: "int \<Rightarrow> purpose option \<Rightarrow> token_row \<Rightarrow> bool" where
  "redeemable now expected t \<longleftrightarrow>
     (expected = None \<or> expected = Some (token_purpose t)) \<and> consumed_at t = None \<and>
     now < token_expires_at t \<and> 0 < redemptions_remaining t"

definition redeem :: "int \<Rightarrow> token_row \<Rightarrow> token_row" where
  "redeem now t =
     t\<lparr>redemptions_remaining := redemptions_remaining t - 1,
       consumed_at := (if redemptions_remaining t - 1 \<le> 0 then Some now else consumed_at t)\<rparr>"

definition consume_token ::
  "(string \<Rightarrow> string) \<Rightarrow> int \<Rightarrow> string \<Rightarrow> purpose option \<Rightarrow> auth_db \<Rightarrow> uuid option \<times> auth_db" where
  "consume_token sha256 now token expected db =
     (let hit = (\<lambda>t. token_hash t = sha256 token \<and> redeemable now expected t)
      in case find hit (magic_link_tokens db) of
           None \<Rightarrow> (None, db)
         | Some row \<Rightarrow>
             (Some (token_user row),
              db\<lparr>magic_link_tokens := map (\<lambda>t. if hit t then redeem now t else t) (magic_link_tokens db)\<rparr>))"

definition claim_session_token :: "string \<Rightarrow> string \<Rightarrow> auth_db \<Rightarrow> int \<times> auth_db" where
  "claim_session_token sid h db =
     (let siblings = (\<lambda>s. created_by_token_hash s = Some h \<and> session_id s \<noteq> sid);
          revoked = int (length (filter siblings (user_sessions db)));
          kept = filter (\<lambda>s. \<not> siblings s) (user_sessions db)
      in (revoked, db\<lparr>user_sessions :=
            map (\<lambda>s. if session_id s = sid \<and> created_by_token_hash s \<noteq> None
                     then s\<lparr>created_by_token_hash := None\<rparr> else s) kept\<rparr>))"

definition purge_expired_tokens :: "int \<Rightarrow> auth_db \<Rightarrow> int \<times> auth_db" where
  "purge_expired_tokens now db =
     (let dead = (\<lambda>t. token_expires_at t < now \<or> consumed_at t \<noteq> None)
      in (int (length (filter dead (magic_link_tokens db))),
          db\<lparr>magic_link_tokens := filter (\<lambda>t. \<not> dead t) (magic_link_tokens db)\<rparr>))"

section \<open>Sessions\<close>

definition create_session ::
  "int \<Rightarrow> int \<Rightarrow> string \<Rightarrow> uuid \<Rightarrow> string option \<Rightarrow> string option \<Rightarrow> string option \<Rightarrow> auth_db \<Rightarrow>
     ((string \<times> int) \<times> auth_db) result" where
  "create_session ttl now sid u agent ip h db =
     (let expires = now + ttl
      in if \<exists>s \<in> set (user_sessions db). session_id s = sid then Inl UniqueViolation
         else if find_user db u = None then Inl ForeignKeyViolation
         else Inr ((sid, expires),
           db\<lparr>user_sessions := user_sessions db @
                [\<lparr>session_id = sid, session_user = u, session_expires_at = expires, user_agent = agent,
                  session_ip = ip, created_by_token_hash = h\<rparr>],
              users := map (\<lambda>r. if user_id r = u
                 then r\<lparr>last_login_at := Some now,
                        status := (if status r = Pending then Active else status r)\<rparr>
                 else r) (users db)\<rparr>))"

text \<open>The join of a live session with its user; the result carries the columns the callers read.\<close>

definition lookup_session :: "int \<Rightarrow> string \<Rightarrow> auth_db \<Rightarrow> (user_row \<times> session_row) option" where
  "lookup_session now sid db =
     (if sid = [] then None
      else case find (\<lambda>s. session_id s = sid \<and> now < session_expires_at s \<and>
                          (\<exists>r. find_user db (session_user s) = Some r \<and> status r \<noteq> Disabled))
                  (user_sessions db) of
             None \<Rightarrow> None
           | Some s \<Rightarrow> map_option (\<lambda>r. (r, s)) (find_user db (session_user s)))"

definition delete_session :: "string \<Rightarrow> auth_db \<Rightarrow> auth_db" where
  "delete_session sid db =
     (if sid = [] then db
      else db\<lparr>user_sessions := filter (\<lambda>s. session_id s \<noteq> sid) (user_sessions db)\<rparr>)"

definition delete_all_sessions_for_user :: "uuid \<Rightarrow> auth_db \<Rightarrow> int \<times> auth_db" where
  "delete_all_sessions_for_user u db =
     (int (length (filter (\<lambda>s. session_user s = u) (user_sessions db))),
      db\<lparr>user_sessions := filter (\<lambda>s. session_user s \<noteq> u) (user_sessions db)\<rparr>)"

definition purge_expired_sessions :: "int \<Rightarrow> auth_db \<Rightarrow> int \<times> auth_db" where
  "purge_expired_sessions now db =
     (int (length (filter (\<lambda>s. session_expires_at s < now) (user_sessions db))),
      db\<lparr>user_sessions := filter (\<lambda>s. \<not> session_expires_at s < now) (user_sessions db)\<rparr>)"

section \<open>API keys, request dependencies, CSRF\<close>

definition parse_keys :: "string \<Rightarrow> string list" where
  "parse_keys api_keys =
     (if api_keys = [] then []
      else filter (\<lambda>k. k \<noteq> []) (map py_strip (py_split (CHR '','') api_keys)))"

definition is_ascii :: "string \<Rightarrow> bool" where
  "is_ascii s = (\<forall>c \<in> set s. py_ord c < 128)"

text \<open>\<open>hmac.compare_digest\<close> on two \<open>str\<close>: only ASCII strings may be compared.\<close>

definition compare_digest :: "string \<Rightarrow> string \<Rightarrow> bool result" where
  "compare_digest a b = (if is_ascii a \<and> is_ascii b then Inr (a = b) else Inl TypeError)"

fun match_keys :: "string \<Rightarrow> string list \<Rightarrow> bool \<Rightarrow> bool result" where
  "match_keys candidate [] matched = Inr matched"
| "match_keys candidate (k # ks) matched =
     rbind (compare_digest candidate k) (\<lambda>eq. match_keys candidate ks (if eq then True else matched))"

definition is_valid_api_key :: "string list \<Rightarrow> string option \<Rightarrow> bool result" where
  "is_valid_api_key valid_keys candidate =
     (case candidate of
        None \<Rightarrow> Inr False
      | Some c \<Rightarrow> (if c = [] \<or> valid_keys = [] then Inr False else match_keys c valid_keys False))"

datatype http_error = HTTP int string

datatype principal = DevMode | ApiKey string | Session uuid

datatype ('e, 'a) outcome = Raises pyerr | Rejected 'e | Ok 'a

record request =
  http_method :: string
  path :: string
  api_key_header :: "string option"
  session_cookie :: "string option"
  csrf_cookie :: "string option"
  csrf_header :: "string option"

text \<open>\<open>api_key and is_valid_api_key(api_key)\<close>.\<close>

definition key_accepted :: "string list \<Rightarrow> string option \<Rightarrow> bool result" where
  "key_accepted valid_keys k =
     (case k of None \<Rightarrow> Inr False
      | Some s \<Rightarrow> (if s = [] then Inr False else is_valid_api_key valid_keys (Some s)))"

definition claim_if_linked :: "user_row \<times> session_row \<Rightarrow> auth_db \<Rightarrow> auth_db" where
  "claim_if_linked u db =
     (case created_by_token_hash (snd u) of
        None \<Rightarrow> db
      | Some h \<Rightarrow> (if h = [] then db else snd (claim_session_token (session_id (snd u)) h db)))"

definition verify_api_key ::
  "string list \<Rightarrow> int \<Rightarrow> request \<Rightarrow> auth_db \<Rightarrow> (http_error, principal) outcome \<times> auth_db" where
  "verify_api_key valid_keys now req db =
     (if valid_keys = [] then (Ok DevMode, db)
      else case key_accepted valid_keys (api_key_header req) of
             Inl e \<Rightarrow> (Raises e, db)
           | Inr True \<Rightarrow> (Ok (ApiKey (the (api_key_header req))), db)
           | Inr False \<Rightarrow>
               (case session_cookie req of
                  None \<Rightarrow> (Rejected (HTTP 401 ''Authentication required.''), db)
                | Some sid \<Rightarrow>
                    (if sid = [] then (Rejected (HTTP 401 ''Authentication required.''), db)
                     else case lookup_session now sid db of
                            None \<Rightarrow> (Rejected (HTTP 401 ''Authentication required.''), db)
                          | Some u \<Rightarrow> (Ok (Session (user_id (fst u))), claim_if_linked u db))))"

definition current_user :: "int \<Rightarrow> request \<Rightarrow> auth_db \<Rightarrow> (user_row \<times> session_row) option \<times> auth_db" where
  "current_user now req db =
     (case session_cookie req of
        None \<Rightarrow> (None, db)
      | Some sid \<Rightarrow>
          (if sid = [] then (None, db)
           else case lookup_session now sid db of
                  None \<Rightarrow> (None, db)
                | Some u \<Rightarrow>
                    (if created_by_token_hash (snd u) \<in> {None, Some []} then (Some u, db)
                     else (Some (fst u, (snd u)\<lparr>created_by_token_hash := None\<rparr>), claim_if_linked u db))))"

definition require_user ::
  "int \<Rightarrow> request \<Rightarrow> auth_db \<Rightarrow> (http_error, user_row) outcome \<times> auth_db" where
  "require_user now req db =
     (case current_user now req db of
        (None, db') \<Rightarrow> (Rejected (HTTP 401 ''Authentication required.''), db')
      | (Some u, db') \<Rightarrow> (Ok (fst u), db'))"

definition require_admin ::
  "int \<Rightarrow> request \<Rightarrow> auth_db \<Rightarrow> (http_error, user_row) outcome \<times> auth_db" where
  "require_admin now req db =
     (case require_user now req db of
        (Ok u, db') \<Rightarrow> (if role u \<noteq> Admin then (Rejected (HTTP 403 ''Admin role required.''), db') else (Ok u, db'))
      | r \<Rightarrow> r)"

definition require_admin_or_api_key ::
  "string list \<Rightarrow> int \<Rightarrow> request \<Rightarrow> auth_db \<Rightarrow> (http_error, principal) outcome \<times> auth_db" where
  "require_admin_or_api_key valid_keys now req db =
     (if valid_keys = [] then (Ok DevMode, db)
      else case key_accepted valid_keys (api_key_header req) of
             Inl e \<Rightarrow> (Raises e, db)
           | Inr True \<Rightarrow> (Ok (ApiKey (the (api_key_header req))), db)
           | Inr False \<Rightarrow>
               (case current_user now req db of
                  (None, db') \<Rightarrow> (Rejected (HTTP 401 ''Authentication required.''), db')
                | (Some u, db') \<Rightarrow>
                    (if role (fst u) \<noteq> Admin then (Rejected (HTTP 403 ''Admin role required.''), db')
                     else (Ok (Session (user_id (fst u))), db'))))"

definition UNSAFE_METHODS :: "string list" where
  "UNSAFE_METHODS = [''POST'', ''PUT'', ''PATCH'', ''DELETE'']"

definition CSRF_EXEMPT_PATHS :: "string list" where
  "CSRF_EXEMPT_PATHS = [''/api/v1/auth/logout'']"

text \<open>\<open>Ok ()\<close> is \<open>await call_next(request)\<close>.\<close>

definition csrf_dispatch :: "bool \<Rightarrow> request \<Rightarrow> (http_error, unit) outcome" where
  "csrf_dispatch protection_enabled req =
     (if \<not> protection_enabled then Ok ()
      else if http_method req \<notin> set UNSAFE_METHODS then Ok ()
      else if path req \<in> set CSRF_EXEMPT_PATHS then Ok ()
      else if session_cookie req \<in> {None, Some []} then Ok ()
      else
        let cookie_token = (case csrf_cookie req of None \<Rightarrow> [] | Some t \<Rightarrow> t);
            header_token = (case csrf_header req of None \<Rightarrow> [] | Some t \<Rightarrow> t)
        in if cookie_token = [] then Rejected (HTTP 403 ''CSRF token missing or invalid.'')
           else case compare_digest cookie_token header_token of
                  Inl e \<Rightarrow> Raises e
                | Inr eq \<Rightarrow> (if eq then Ok () else Rejected (HTTP 403 ''CSRF token missing or invalid.'')))"

section \<open>How often a link can be redeemed\<close>

text \<open>The operations on the tables, in any order and by any number of parties; the flag says that
  the operation redeemed the token with hash \<open>h\<close>.\<close>

datatype auth_op =
    Issue int int int string uuid purpose
  | Consume int string "purpose option"
  | Claim string string
  | PurgeTokens int
  | PurgeSessions int
  | SignIn int int string uuid "string option" "string option" "string option"
  | SignOut string
  | SignOutAll uuid

definition auth_step :: "(string \<Rightarrow> string) \<Rightarrow> string \<Rightarrow> auth_op \<Rightarrow> auth_db \<Rightarrow> bool \<times> auth_db" where
  "auth_step sha256 h op db =
     (case op of
        Issue ttl mx now tok u p \<Rightarrow>
          (False, (case issue_token sha256 ttl mx now tok u p db of Inl _ \<Rightarrow> db | Inr (_, db') \<Rightarrow> db'))
      | Consume now tok p \<Rightarrow>
          (case consume_token sha256 now tok p db of (r, db') \<Rightarrow> (sha256 tok = h \<and> r \<noteq> None, db'))
      | Claim sid th \<Rightarrow> (False, snd (claim_session_token sid th db))
      | PurgeTokens now \<Rightarrow> (False, snd (purge_expired_tokens now db))
      | PurgeSessions now \<Rightarrow> (False, snd (purge_expired_sessions now db))
      | SignIn ttl now sid u agent ip th \<Rightarrow>
          (False, (case create_session ttl now sid u agent ip th db of Inl _ \<Rightarrow> db | Inr (_, db') \<Rightarrow> db'))
      | SignOut sid \<Rightarrow> (False, delete_session sid db)
      | SignOutAll u \<Rightarrow> (False, snd (delete_all_sessions_for_user u db)))"

definition token_left :: "string \<Rightarrow> token_row \<Rightarrow> nat" where
  "token_left h t = (if token_hash t = h \<and> consumed_at t = None then nat (redemptions_remaining t) else 0)"

definition redemptions_left :: "string \<Rightarrow> auth_db \<Rightarrow> nat" where
  "redemptions_left h db = sum_list (map (token_left h) (magic_link_tokens db))"

fun redemptions_granted :: "(string \<Rightarrow> string) \<Rightarrow> string \<Rightarrow> auth_op \<Rightarrow> nat" where
  "redemptions_granted sha256 h (Issue ttl mx now tok u p) = (if sha256 tok = h then nat mx else 0)"
| "redemptions_granted sha256 h _ = 0"

lemma sum_list_filter_le: "sum_list (map f (filter P xs)) \<le> sum_list (map (f :: 'a \<Rightarrow> nat) xs)"
  by (induction xs) auto

lemma sum_list_map_drop:
  assumes "find P xs = Some x" and "\<And>y. P y \<Longrightarrow> f (g y) < (f y :: nat)"
  shows "sum_list (map f (map (\<lambda>y. if P y then g y else y) xs)) < sum_list (map f xs)"
proof -
  have le: "sum_list (map f (map (\<lambda>y. if P y then g y else y) ys)) \<le> sum_list (map f ys)" for ys
    using assms(2) by (induction ys) (auto simp: less_imp_le add_le_mono)
  show ?thesis
    using assms(1)
  proof (induction xs)
    case (Cons y ys)
    show ?case
    proof (cases "P y")
      case True
      then show ?thesis using le [of ys] assms(2) [of y] by (simp add: add_less_le_mono)
    next
      case False
      then show ?thesis using Cons by simp
    qed
  qed simp
qed

lemma sum_list_map_same:
  assumes "\<And>y. f (g y) = (f y :: nat)"
  shows "sum_list (map f (map g xs)) = sum_list (map f xs)"
  using assms by (induction xs) auto

lemma token_left_redeem:
  "token_hash t = h \<Longrightarrow> redeemable now p t \<Longrightarrow> token_left h (redeem now t) < token_left h t"
  by (auto simp: token_left_def redeemable_def redeem_def)

lemma token_left_other: "token_hash t \<noteq> h \<Longrightarrow> token_left h t = 0"
  by (simp add: token_left_def)

lemma redeem_hash [simp]: "token_hash (redeem now t) = token_hash t"
  by (simp add: redeem_def)

lemma consume_cost:
  assumes "consume_token sha256 now tok p db = (r, db')"
  shows "redemptions_left h db' + (if sha256 tok = h \<and> r \<noteq> None then 1 else 0) \<le> redemptions_left h db"
proof -
  define hit where "hit = (\<lambda>t. token_hash t = sha256 tok \<and> redeemable now p t)"
  show ?thesis
  proof (cases "find hit (magic_link_tokens db)")
    case None
    then show ?thesis using assms by (simp add: consume_token_def hit_def Let_def)
  next
    case (Some row)
    let ?upd = "\<lambda>t. if hit t then redeem now t else t"
    have db': "magic_link_tokens db' = map ?upd (magic_link_tokens db)"
      using assms Some by (auto simp: consume_token_def hit_def Let_def)
    show ?thesis
    proof (cases "sha256 tok = h")
      case True
      have "sum_list (map (token_left h) (map ?upd (magic_link_tokens db)))
              < sum_list (map (token_left h) (magic_link_tokens db))"
        using Some by (rule sum_list_map_drop) (use True in \<open>auto simp: hit_def intro: token_left_redeem\<close>)
      then show ?thesis by (simp add: redemptions_left_def db')
    next
      case False
      have "token_left h (?upd t) = token_left h t" for t
        using False by (simp add: hit_def token_left_other)
      then have "sum_list (map (token_left h) (map ?upd (magic_link_tokens db)))
                   = sum_list (map (token_left h) (magic_link_tokens db))"
        by (rule sum_list_map_same)
      then show ?thesis using False by (simp add: redemptions_left_def db')
    qed
  qed
qed

lemma issue_cost:
  assumes "issue_token sha256 ttl mx now tok u p db = Inr (x, db')"
  shows "redemptions_left h db' \<le> redemptions_left h db + (if sha256 tok = h then nat mx else 0)"
  using assms sum_list_filter_le [of "token_left h" _ "magic_link_tokens db"]
  by (auto simp: issue_token_def redemptions_left_def token_left_def Let_def split: if_splits)

lemma purge_tokens_cost: "redemptions_left h (snd (purge_expired_tokens now db)) \<le> redemptions_left h db"
  by (simp add: purge_expired_tokens_def redemptions_left_def Let_def sum_list_filter_le)

lemma login_tokens:
  "create_session ttl now sid u agent ip th db = Inr (x, db') \<Longrightarrow>
     magic_link_tokens db' = magic_link_tokens db"
  by (auto simp: create_session_def Let_def split: if_splits)

interpretation link: quota "auth_step sha256 h" "redemptions_left h" "redemptions_granted sha256 h"
  for sha256 h
proof
  fix op s
  show "redemptions_left h (snd (auth_step sha256 h op s)) + (if fst (auth_step sha256 h op s) then 1 else 0)
          \<le> redemptions_left h s + redemptions_granted sha256 h op"
  proof (cases op)
    case (Issue ttl mx now tok u p)
    then show ?thesis
      using issue_cost [of sha256 ttl mx now tok u p s _ _ h]
      by (auto simp: auth_step_def split: sum.split prod.split)
  next
    case (Consume now tok p)
    then show ?thesis
      using consume_cost [of sha256 now tok p s _ _ h] by (auto simp: auth_step_def split: prod.split)
  next
    case (PurgeTokens now)
    then show ?thesis using purge_tokens_cost by (simp add: auth_step_def)
  next
    case (SignIn ttl now sid u agent ip th)
    then show ?thesis
      by (auto simp: auth_step_def redemptions_left_def login_tokens split: sum.split)
  qed (auto simp: auth_step_def redemptions_left_def claim_session_token_def purge_expired_sessions_def
         delete_session_def delete_all_sessions_for_user_def Let_def)
qed

text \<open>C4: over any sequence of operations on the tables, the number of times the link with hash \<open>h\<close>
  was redeemed, plus what it still has left, is at most what was left at the start plus what the
  issues of that very link granted.  The redemption counter is the link's only budget, and no claim,
  purge, login or logout gives any of it back.\<close>

theorem redemption_budget:
  "uses (auth_step sha256 h) ops db + redemptions_left h (final_state (auth_step sha256 h) ops db)
     \<le> redemptions_left h db + sum_list (map (redemptions_granted sha256 h) ops)"
  by (rule link.uses_bounded)

section \<open>Claiming a session revokes its siblings\<close>

lemma claim_if_linked_sessions:
  assumes "created_by_token_hash s = Some h" and "h \<noteq> []"
  shows "user_sessions (claim_if_linked (u, s) db) =
    map (\<lambda>x. if session_id x = session_id s \<and> created_by_token_hash x \<noteq> None
             then x\<lparr>created_by_token_hash := None\<rparr> else x)
      (filter (\<lambda>x. \<not> (created_by_token_hash x = Some h \<and> session_id x \<noteq> session_id s)) (user_sessions db))"
  using assms by (simp add: claim_if_linked_def claim_session_token_def Let_def)

lemma claim_if_linked_users [simp]: "users (claim_if_linked us db) = users db"
  by (auto simp: claim_if_linked_def claim_session_token_def Let_def split: option.split)

lemma lookup_session_SomeD:
  assumes "lookup_session now sid db = Some (r, s)"
  shows "sid \<noteq> []" "s \<in> set (user_sessions db)" "session_id s = sid" "now < session_expires_at s"
    "find_user db (session_user s) = Some r" "status r \<noteq> Disabled" "user_id r = session_user s"
proof -
  obtain ne: "sid \<noteq> []"
    and f: "find (\<lambda>s. session_id s = sid \<and> now < session_expires_at s \<and>
              (\<exists>r. find_user db (session_user s) = Some r \<and> status r \<noteq> Disabled)) (user_sessions db) = Some s"
    and r: "find_user db (session_user s) = Some r"
    using assms by (auto simp: lookup_session_def split: if_splits option.splits)
  show "sid \<noteq> []" "s \<in> set (user_sessions db)" "session_id s = sid" "now < session_expires_at s"
    "find_user db (session_user s) = Some r" "status r \<noteq> Disabled" "user_id r = session_user s"
    using ne r find_SomeD [OF f] find_SomeD [OF r [unfolded find_user_def]] by auto
qed

lemma lookup_session_NoneI:
  "(\<And>s. s \<in> set (user_sessions db) \<Longrightarrow> session_id s \<noteq> sid) \<Longrightarrow> lookup_session now sid db = None"
  by (auto simp: lookup_session_def dest!: find_SomeD split: option.splits)

lemma session_unique:
  "distinct (map session_id ss) \<Longrightarrow> s \<in> set ss \<Longrightarrow> s' \<in> set ss \<Longrightarrow> session_id s = session_id s' \<Longrightarrow> s = s'"
  by (auto simp: distinct_map inj_on_def)

text \<open>The first authenticated request of a session that came from a link ends every other
  session from the same link that has not been used yet: their cookies no longer look up, while the
  claiming session keeps its user and is no longer tied to the link.\<close>

theorem claim_revokes_siblings:
  assumes "distinct (map session_id (user_sessions db))"
    and "session_cookie req = Some (session_id s)"
    and "lookup_session now (session_id s) db = Some (r, s)"
    and "created_by_token_hash s = Some h" and "h \<noteq> []"
    and "s' \<in> set (user_sessions db)" and "session_id s' \<noteq> session_id s"
    and "created_by_token_hash s' = Some h"
  shows "lookup_session now' (session_id s') (snd (current_user now req db)) = None
    \<and> fst (current_user now req db) = Some (r, s\<lparr>created_by_token_hash := None\<rparr>)
    \<and> s\<lparr>created_by_token_hash := None\<rparr> \<in> set (user_sessions (snd (current_user now req db)))"
proof -
  note look = lookup_session_SomeD [OF assms(3)]
  have cur: "current_user now req db = (Some (r, s\<lparr>created_by_token_hash := None\<rparr>), claim_if_linked (r, s) db)"
    using assms(2-5) look(1) by (simp add: current_user_def)
  note ss = claim_if_linked_sessions [OF assms(4,5), of r db]
  have "session_id x \<noteq> session_id s'" if "x \<in> set (user_sessions (claim_if_linked (r, s) db))" for x
  proof
    assume eq: "session_id x = session_id s'"
    from that obtain y where y: "y \<in> set (user_sessions db)"
      "\<not> (created_by_token_hash y = Some h \<and> session_id y \<noteq> session_id s)" "session_id x = session_id y"
      by (auto simp: ss split: if_splits)
    have "y = s'" by (rule session_unique [OF assms(1) y(1) assms(6)]) (use y eq in simp)
    with y(2) assms(7,8) show False by simp
  qed
  then have "lookup_session now' (session_id s') (claim_if_linked (r, s) db) = None"
    by (rule lookup_session_NoneI)
  moreover have "s\<lparr>created_by_token_hash := None\<rparr> \<in> set (user_sessions (claim_if_linked (r, s) db))"
    using look(2) assms(4) by (auto simp: ss)
  ultimately show ?thesis by (simp add: cur)
qed

definition demo_db :: auth_db where
  "demo_db = \<lparr>users = [\<lparr>user_id = 7, user_email = ''a@b.c'', full_name = ''A'', role = Reviewer,
                status = Active, user_created_at = 0, last_login_at = None\<rparr>],
     magic_link_tokens = [],
     user_sessions = [
       \<lparr>session_id = ''s1'', session_user = 7, session_expires_at = 100, user_agent = None,
         session_ip = None, created_by_token_hash = Some ''h''\<rparr>,
       \<lparr>session_id = ''s2'', session_user = 7, session_expires_at = 100, user_agent = None,
         session_ip = None, created_by_token_hash = Some ''h''\<rparr>]\<rparr>"

definition demo_request :: request where
  "demo_request = \<lparr>http_method = ''GET'', path = ''/'', api_key_header = None, session_cookie = Some ''s1'',
     csrf_cookie = None, csrf_header = None\<rparr>"

theorem claim_revokes_siblings_witness:
  "lookup_session 5 ''s2'' (snd (current_user 1 demo_request demo_db)) = None"
proof -
  let ?s = "user_sessions demo_db ! 0" and ?s' = "user_sessions demo_db ! 1"
  have "lookup_session 5 (session_id ?s') (snd (current_user 1 demo_request demo_db)) = None"
    by (rule conjunct1 [OF claim_revokes_siblings [of demo_db demo_request ?s 1 "users demo_db ! 0" "''h''"]])
       (simp_all add: demo_db_def demo_request_def lookup_session_def find_user_def)
  then show ?thesis by (simp add: demo_db_def)
qed

section \<open>Who gets in\<close>

lemma match_keys_spec:
  "match_keys c ks m =
     (if ks = [] \<or> is_ascii c \<and> (\<forall>k \<in> set ks. is_ascii k) then Inr (m \<or> c \<in> set ks) else Inl TypeError)"
  by (induction ks arbitrary: m) (auto simp: compare_digest_def rbind_def)

lemma key_accepted_spec:
  "key_accepted ks k =
     (case k of None \<Rightarrow> Inr False
      | Some c \<Rightarrow> if c = [] \<or> ks = [] then Inr False
                 else if is_ascii c \<and> (\<forall>k \<in> set ks. is_ascii k) then Inr (c \<in> set ks) else Inl TypeError)"
  by (auto simp: key_accepted_def is_valid_api_key_def match_keys_spec split: option.split)

definition live_session :: "int \<Rightarrow> string option \<Rightarrow> auth_db \<Rightarrow> user_row \<Rightarrow> bool" where
  "live_session now cookie db r \<longleftrightarrow>
     (\<exists>sid s. cookie = Some sid \<and> lookup_session now sid db = Some (r, s))"

lemma current_user_spec:
  "(\<exists>s. fst (current_user now req db) = Some (r, s)) \<longleftrightarrow> live_session now (session_cookie req) db r"
  by (auto simp: current_user_def live_session_def lookup_session_def split: option.split)

text \<open>Who is authorised for an administrative request.  The open development mode is the only
  case without credentials and needs an empty key list; an API key gets in exactly when it is one of
  the configured keys (and all of them are ASCII); a browser gets in exactly with the cookie of an
  unexpired session of a user who is an Admin and not disabled, when no usable key was presented.\<close>

theorem require_admin_or_api_key_iff:
  "(fst (require_admin_or_api_key ks now req db) = Ok DevMode \<longleftrightarrow> ks = [])
   \<and> (fst (require_admin_or_api_key ks now req db) = Ok (ApiKey k) \<longleftrightarrow>
        api_key_header req = Some k \<and> k \<noteq> [] \<and> k \<in> set ks \<and> list_all is_ascii ks)
   \<and> (fst (require_admin_or_api_key ks now req db) = Ok (Session u) \<longleftrightarrow>
        ks \<noteq> [] \<and> key_accepted ks (api_key_header req) = Inr False \<and>
        (\<exists>r sid s. session_cookie req = Some sid \<and> s \<in> set (user_sessions db) \<and> session_id s = sid \<and>
           lookup_session now sid db = Some (r, s) \<and> now < session_expires_at s \<and>
           user_id r = u \<and> role r = Admin \<and> status r \<noteq> Disabled))"
proof (intro conjI)
  let ?R = "require_admin_or_api_key ks now req db"
  note defs = require_admin_or_api_key_def
  show "fst ?R = Ok DevMode \<longleftrightarrow> ks = []"
    by (auto simp: defs split: sum.split bool.split prod.split option.split)
  show "fst ?R = Ok (ApiKey k) \<longleftrightarrow>
        api_key_header req = Some k \<and> k \<noteq> [] \<and> k \<in> set ks \<and> list_all is_ascii ks"
    by (auto simp: defs key_accepted_spec list_all_iff split: sum.split bool.split prod.split option.split)
  have live: "live_session now (session_cookie req) db r \<longleftrightarrow>
     (\<exists>sid s. session_cookie req = Some sid \<and> s \<in> set (user_sessions db) \<and> session_id s = sid \<and>
           lookup_session now sid db = Some (r, s) \<and> now < session_expires_at s \<and> status r \<noteq> Disabled)" for r
    by (auto simp: live_session_def dest: lookup_session_SomeD)
  have "fst ?R = Ok (Session u) \<longleftrightarrow> ks \<noteq> [] \<and> key_accepted ks (api_key_header req) = Inr False \<and>
     (\<exists>r s. fst (current_user now req db) = Some (r, s) \<and> user_id r = u \<and> role r = Admin)"
    by (auto simp: defs split: sum.split bool.split prod.split option.split)
  also have "\<dots> \<longleftrightarrow> ks \<noteq> [] \<and> key_accepted ks (api_key_header req) = Inr False \<and>
     (\<exists>r. live_session now (session_cookie req) db r \<and> user_id r = u \<and> role r = Admin)"
    by (auto simp flip: current_user_spec)
  finally show "fst ?R = Ok (Session u) \<longleftrightarrow> ks \<noteq> [] \<and> key_accepted ks (api_key_header req) = Inr False \<and>
        (\<exists>r sid s. session_cookie req = Some sid \<and> s \<in> set (user_sessions db) \<and> session_id s = sid \<and>
           lookup_session now sid db = Some (r, s) \<and> now < session_expires_at s \<and>
           user_id r = u \<and> role r = Admin \<and> status r \<noteq> Disabled)"
    unfolding live by blast
qed

text \<open>A request whose key header holds a character outside ASCII (headers are decoded as
  Latin-1) is neither accepted nor answered with 401: the comparison raises, in the key dependency and
  in the administrative one, and nothing in the tables changes.\<close>

theorem non_ascii_key_raises:
  assumes "ks \<noteq> []" and "api_key_header req = Some k" and "\<not> is_ascii k"
  shows "verify_api_key ks now req db = (Raises TypeError, db)
    \<and> require_admin_or_api_key ks now req db = (Raises TypeError, db)"
proof -
  have "k \<noteq> []" using assms(3) by (auto simp: is_ascii_def)
  then show ?thesis
    using assms by (simp add: verify_api_key_def require_admin_or_api_key_def key_accepted_spec)
qed

theorem non_ascii_key_raises_witness:
  "verify_api_key [''key''] 0 (demo_request\<lparr>api_key_header := Some [CHR 0xE9]\<rparr>) demo_db
     = (Raises TypeError, demo_db)"
  by (rule conjunct1 [OF non_ascii_key_raises [of _ _ "[CHR 0xE9]"]])
     (simp_all add: demo_request_def is_ascii_def)

text \<open>With protection on, a request reaches the application exactly when its method cannot
  change state, its path is the exempt one, it carries no session cookie, or it repeats a non-empty
  ASCII CSRF cookie verbatim in the header.\<close>

theorem csrf_dispatch_iff:
  "csrf_dispatch True req = Ok () \<longleftrightarrow>
     (if http_method req \<in> set UNSAFE_METHODS \<and> path req \<notin> set CSRF_EXEMPT_PATHS \<and>
         session_cookie req \<notin> {None, Some []}
      then \<exists>t. t \<noteq> [] \<and> is_ascii t \<and> csrf_cookie req = Some t \<and> csrf_header req = Some t
      else True)"
  by (auto simp: csrf_dispatch_def compare_digest_def Let_def split: option.split)

end
