(* ===== verification/Rate_Limit.thy ===== *)
theory Rate_Limit
  imports Auth Pyfloat "HOL-Library.Multiset"
begin

text \<open>
  The sliding-window rate limiter of \<open>src/backend/app/rate_limit.py\<close> and its middleware.

  \<open>time.monotonic()\<close> is an argument; clock values are binary64 numbers and the arithmetic on them
  rounds.  \<open>check\<close> runs under the limiter's lock, so it is one step.  The interface that clients of a
  limiter rely on is the locale \<open>throttle\<close>, interpreted on the limiter here and on the login-link
  endpoint in \<open>Accounts\<close>.
\<close>

section \<open>The limiter\<close>

record rate_limiter =
  max_requests :: int
  window_seconds :: int
  windows :: "(string, rat list) dict"

definition rate_limiter_init :: "int \<Rightarrow> int \<Rightarrow> rate_limiter" where
  "rate_limiter_init mx w = \<lparr>max_requests = mx, window_seconds = w, windows = []\<rparr>"

definition rl_cutoff :: "rate_limiter \<Rightarrow> rat \<Rightarrow> rat" where
  "rl_cutoff rl now = fsub now (fl (of_int (window_seconds rl)))"

text \<open>\<open>self._windows[key]\<close> on a \<open>defaultdict\<close>.\<close>

definition window_of :: "string \<Rightarrow> rate_limiter \<Rightarrow> rat list" where
  "window_of key rl = (case map_of (windows rl) key of None \<Rightarrow> [] | Some w \<Rightarrow> w)"

text \<open>What is left of it after the eviction loop.\<close>

definition live_window :: "rat \<Rightarrow> string \<Rightarrow> rate_limiter \<Rightarrow> rat list" where
  "live_window now key rl = dropWhile (\<lambda>t. t \<le> rl_cutoff rl now) (window_of key rl)"

definition check :: "rat \<Rightarrow> string \<Rightarrow> rate_limiter \<Rightarrow> (bool \<times> int) result \<times> rate_limiter" where
  "check now key rl =
     (let window = live_window now key rl;
          evicted = rl\<lparr>windows := AList.update key window (windows rl)\<rparr>
      in if int (length window) \<ge> max_requests rl
         then (case window of
                 [] \<Rightarrow> (Inl IndexError, evicted)
               | w0 # _ \<Rightarrow>
                   (Inr (False, py_int (fsub (fl (of_int (window_seconds rl))) (fsub now w0)) + 1), evicted))
         else (Inr (True, 0), rl\<lparr>windows := AList.update key (window @ [now]) (windows rl)\<rparr>))"

text \<open>One round of \<open>_run_cleanup\<close>.\<close>

definition run_cleanup :: "rat \<Rightarrow> rate_limiter \<Rightarrow> rate_limiter" where
  "run_cleanup now rl =
     rl\<lparr>windows := filter (\<lambda>(k, dq). \<not> (dq = [] \<or> last dq \<le> rl_cutoff rl now)) (windows rl)\<rparr>"

definition EXEMPT_PATHS :: "string list" where
  "EXEMPT_PATHS = [''/'', ''/health'', ''/health/ready'', ''/docs'', ''/redoc'', ''/openapi.json'']"

datatype limit_response = TooManyRequests int

text \<open>The middleware; \<open>client_ip\<close> is the result of \<open>net.client_ip\<close> and \<open>Ok ()\<close> is \<open>call_next\<close>.\<close>

definition limiter_key :: "string list \<Rightarrow> string option \<Rightarrow> request \<Rightarrow> string result" where
  "limiter_key valid_keys client_ip req =
     rbind (key_accepted valid_keys (api_key_header req)) (\<lambda>ok.
       Inr (if ok then the (api_key_header req)
            else ''ip:'' @ (case client_ip of None \<Rightarrow> ''unknown'' | Some ip \<Rightarrow> if ip = [] then ''unknown'' else ip)))"

definition limit_dispatch ::
  "string list \<Rightarrow> string option \<Rightarrow> rat \<Rightarrow> request \<Rightarrow> rate_limiter \<Rightarrow>
     (limit_response, unit) outcome \<times> rate_limiter" where
  "limit_dispatch valid_keys client_ip now req rl =
     (if path req \<in> set EXEMPT_PATHS then (Ok (), rl)
      else case limiter_key valid_keys client_ip req of
             Inl e \<Rightarrow> (Raises e, rl)
           | Inr key \<Rightarrow>
               (case check now key rl of
                  (Inl e, rl') \<Rightarrow> (Raises e, rl')
                | (Inr (allowed, retry_after), rl') \<Rightarrow>
                    (if \<not> allowed then (Rejected (TooManyRequests retry_after), rl') else (Ok (), rl'))))"

section \<open>The contract of a sliding window\<close>

text \<open>A throttled component is a step on operations with a time, which logs the times it admitted;
  \<open>window\<close> is what it remembers, and \<open>cut t\<close> the point before which it may forget at time \<open>t\<close>.\<close>

fun admissions :: "('op \<Rightarrow> 's \<Rightarrow> rat list \<times> 's) \<Rightarrow> 'op list \<Rightarrow> 's \<Rightarrow> rat list" where
  "admissions step [] s = []"
| "admissions step (op # ops) s = fst (step op s) @ admissions step ops (snd (step op s))"

definition in_window :: "rat \<Rightarrow> rat \<Rightarrow> rat list \<Rightarrow> rat list" where
  "in_window lo hi = filter (\<lambda>x. lo < x \<and> x \<le> hi)"

locale throttle =
  fixes step :: "'op \<Rightarrow> 's \<Rightarrow> rat list \<times> 's"
    and time :: "'op \<Rightarrow> rat"
    and cut :: "rat \<Rightarrow> rat"
    and window :: "'s \<Rightarrow> rat list"
    and limit :: nat
    and inv :: "rat \<Rightarrow> 's \<Rightarrow> bool"
  assumes cut_mono: "a \<le> b \<Longrightarrow> cut a \<le> cut b"
    and inv_step: "inv T s \<Longrightarrow> T \<le> time op \<Longrightarrow> inv (time op) (snd (step op s))"
    and window_limit: "inv T s \<Longrightarrow> length (window s) \<le> limit"
    and remembers: "inv T s \<Longrightarrow> T \<le> time op \<Longrightarrow>
      mset (filter (\<lambda>x. cut (time op) < x) (window s @ fst (step op s))) \<subseteq># mset (window (snd (step op s)))"
    and admits_now: "x \<in> set (fst (step op s)) \<Longrightarrow> x = time op"
begin

lemma admissions_from: "\<forall>op \<in> set ops. t < time op \<Longrightarrow> in_window lo t (admissions step ops s) = []"
  by (induction ops arbitrary: s) (auto simp: in_window_def filter_empty_conv dest: admits_now)

lemma remembers_log:
  assumes "inv T s" "T \<le> time op" "mset (filter (\<lambda>x. cut T < x) seen) \<subseteq># mset (window s)"
  shows "mset (filter (\<lambda>x. cut (time op) < x) (seen @ fst (step op s))) \<subseteq># mset (window (snd (step op s)))"
proof -
  let ?c = "cut (time op)"
  have "cut T \<le> ?c" using assms(2) by (rule cut_mono)
  then have "filter (\<lambda>x. ?c < x) seen = filter (\<lambda>x. ?c < x) (filter (\<lambda>x. cut T < x) seen)"
    by (induction seen) auto
  then have "mset (filter (\<lambda>x. ?c < x) seen) \<subseteq># mset (filter (\<lambda>x. ?c < x) (window s))"
    using assms(3) by (metis mset_filter multiset_filter_mono)
  then have "mset (filter (\<lambda>x. ?c < x) (seen @ fst (step op s)))
      \<subseteq># mset (filter (\<lambda>x. ?c < x) (window s @ fst (step op s)))"
    by (simp add: mset_subset_eq_mono_add)
  also have "\<dots> \<subseteq># mset (window (snd (step op s)))"
    using assms(1,2) by (rule remembers)
  finally show ?thesis .
qed

lemma window_bound_now:
  assumes "inv T s" "mset (filter (\<lambda>x. cut T < x) seen) \<subseteq># mset (window s)" "T \<le> t"
  shows "length (in_window (cut t) t seen) \<le> limit"
proof -
  have "cut T \<le> cut t" using assms(3) by (rule cut_mono)
  then have "length (in_window (cut t) t seen) \<le> length (filter (\<lambda>x. cut T < x) seen)"
    unfolding in_window_def by (induction seen) auto
  also have "\<dots> \<le> length (window s)"
    using size_mset_mono [OF assms(2)] by (simp only: size_mset)
  also have "\<dots> \<le> limit" using assms(1) by (rule window_limit)
  finally show ?thesis .
qed

lemma window_bound:
  assumes "sorted (map time ops)" "\<forall>op \<in> set ops. T \<le> time op" "inv T s"
    "mset (filter (\<lambda>x. cut T < x) seen) \<subseteq># mset (window s)" "T \<le> t"
  shows "length (in_window (cut t) t (seen @ admissions step ops s)) \<le> limit"
  using assms
proof (induction ops arbitrary: T s seen)
  case Nil
  then show ?case using window_bound_now by simp
next
  case (Cons op ops)
  show ?case
  proof (cases "time op \<le> t")
    case True
    have "length (in_window (cut t) t ((seen @ fst (step op s)) @ admissions step ops (snd (step op s)))) \<le> limit"
    proof (rule Cons.IH [of "time op"])
      show "mset (filter (\<lambda>x. cut (time op) < x) (seen @ fst (step op s))) \<subseteq># mset (window (snd (step op s)))"
        using Cons.prems by (intro remembers_log) auto
    qed (use Cons.prems True inv_step in auto)
    then show ?thesis by simp
  next
    case False
    then have later: "in_window (cut t) t (admissions step (op # ops) s) = []"
      using Cons.prems(1) by (intro admissions_from) force
    then show ?thesis
      using window_bound_now [OF Cons.prems(3-5)] by (simp add: in_window_def)
  qed
qed

end

section \<open>The limiter keeps the contract\<close>

datatype limiter_op = Check rat string | Cleanup rat

fun op_time :: "limiter_op \<Rightarrow> rat" where
  "op_time (Check t key) = t"
| "op_time (Cleanup t) = t"

text \<open>One operation, with the times at which it admitted a request under \<open>key\<close>.\<close>

fun limiter_step :: "string \<Rightarrow> limiter_op \<Rightarrow> rate_limiter \<Rightarrow> rat list \<times> rate_limiter" where
  "limiter_step key (Check t k) rl =
     (if k = key \<and> fst (check t k rl) = Inr (True, 0) then [t] else [], snd (check t k rl))"
| "limiter_step key (Cleanup t) rl = ([], run_cleanup t rl)"

definition windows_ok :: "rat \<Rightarrow> rate_limiter \<Rightarrow> bool" where
  "windows_ok T rl \<longleftrightarrow>
     distinct (map fst (windows rl)) \<and>
     (\<forall>key. sorted (window_of key rl) \<and> (\<forall>x \<in> set (window_of key rl). x \<le> T) \<and>
            length (window_of key rl) \<le> nat (max_requests rl))"

lemma window_of_update [simp]:
  "window_of key (rl\<lparr>windows := AList.update k w (windows rl)\<rparr>) = (if key = k then w else window_of key rl)"
  by (simp add: window_of_def map_of_update)

lemma sorted_dropWhile: "sorted xs \<Longrightarrow> sorted (dropWhile P xs)"
  by (metis dropWhile_eq_drop sorted_wrt_drop)

lemma check_state:
  "snd (check now k rl) =
     rl\<lparr>windows := AList.update k (live_window now k rl @
           (if int (length (live_window now k rl)) < max_requests rl then [now] else [])) (windows rl)\<rparr>"
  by (auto simp: check_def Let_def split: list.split)

lemma check_admits_iff:
  "fst (check now k rl) = Inr (True, 0) \<longleftrightarrow> int (length (live_window now k rl)) < max_requests rl"
  by (auto simp: check_def Let_def split: list.split)

lemma cleanup_window:
  assumes "windows_ok T rl"
  shows "window_of key (run_cleanup now rl) =
    (if window_of key rl \<noteq> [] \<and> last (window_of key rl) \<le> rl_cutoff rl now then [] else window_of key rl)"
proof -
  have "map_of (filter (\<lambda>(k, dq). \<not> (dq = [] \<or> last dq \<le> rl_cutoff rl now)) (windows rl)) key
     = (case map_of (windows rl) key of None \<Rightarrow> None
        | Some dq \<Rightarrow> if \<not> (dq = [] \<or> last dq \<le> rl_cutoff rl now) then Some dq else None)"
    using assms by (intro map_of_filter_value) (simp add: windows_ok_def)
  then show ?thesis by (auto simp: window_of_def run_cleanup_def split: option.split)
qed

lemma check_window:
  "window_of key (snd (check now k rl)) =
     (if key = k then live_window now k rl @ fst (limiter_step k (Check now k) rl) else window_of key rl)"
  by (simp add: check_state check_admits_iff)

lemma live_window_sublist:
  "sorted (window_of k rl) \<Longrightarrow> sorted (live_window now k rl)"
  "set (live_window now k rl) \<subseteq> set (window_of k rl)"
  "length (live_window now k rl) \<le> length (window_of k rl)"
  by (auto simp: live_window_def sorted_dropWhile length_dropWhile_le dest: set_dropWhileD)

lemma check_keeps_ok:
  assumes "windows_ok T rl" "T \<le> now"
  shows "windows_ok now (snd (check now k rl))"
proof -
  have "sorted (live_window now k rl)" "\<forall>x \<in> set (live_window now k rl). x \<le> T"
    "length (live_window now k rl) \<le> nat (max_requests rl)"
    using assms(1) live_window_sublist [where k = k and rl = rl and now = now]
    by (auto simp: windows_ok_def intro: order_trans)
  then show ?thesis
    using assms by (auto simp: windows_ok_def check_state distinct_keys_update sorted_append)
       (meson order_trans)+
qed

lemma cleanup_keeps_ok:
  assumes "windows_ok T rl" "T \<le> now"
  shows "windows_ok now (run_cleanup now rl)"
proof -
  have "distinct (map fst (windows (run_cleanup now rl)))"
    using assms(1) by (simp add: windows_ok_def run_cleanup_def distinct_map_filter)
  moreover have "max_requests (run_cleanup now rl) = max_requests rl" by (simp add: run_cleanup_def)
  ultimately show ?thesis
    using assms unfolding windows_ok_def [of now] cleanup_window [OF assms(1)]
    by (auto simp: windows_ok_def intro: order_trans)
qed

lemma filter_dropWhile_le:
  "filter (\<lambda>x. c < x) (dropWhile (\<lambda>x. x \<le> c) xs) = filter (\<lambda>x. c < (x :: rat)) xs"
  by (induction xs) auto

lemma rl_fields [simp]:
  "window_seconds (snd (limiter_step key op rl)) = window_seconds rl"
  "max_requests (snd (limiter_step key op rl)) = max_requests rl"
  by (cases op; simp add: run_cleanup_def check_state)+

lemma sorted_le_last: "sorted xs \<Longrightarrow> x \<in> set xs \<Longrightarrow> x \<le> last (xs :: rat list)"
  by (induction xs rule: rev_induct) (auto simp: sorted_append)

lemma limiter_remembers:
  assumes "windows_ok T rl" "T \<le> op_time op"
  shows "mset (filter (\<lambda>x. rl_cutoff rl (op_time op) < x) (window_of key rl @ fst (limiter_step key op rl)))
    \<subseteq># mset (window_of key (snd (limiter_step key op rl)))"
proof (cases op)
  case (Check now k)
  let ?live = "live_window now key rl"
  have keep: "filter (\<lambda>x. rl_cutoff rl now < x) (window_of key rl) = filter (\<lambda>x. rl_cutoff rl now < x) ?live"
    by (simp add: live_window_def filter_dropWhile_le)
  show ?thesis
  proof (cases "k = key")
    case True
    let ?new = "fst (limiter_step key op rl)"
    have "filter (\<lambda>x. rl_cutoff rl now < x) (window_of key rl @ ?new) =
        filter (\<lambda>x. rl_cutoff rl now < x) (?live @ ?new)"
      by (simp add: keep)
    moreover have "window_of key (snd (limiter_step key op rl)) = ?live @ ?new"
      using Check True check_window [of key now k rl] by simp
    ultimately show ?thesis
      using Check by (simp only: op_time.simps mset_filter multiset_filter_subset)
  next
    case False
    then show ?thesis
      using Check check_window [of key now k rl] by (simp add: multiset_filter_subset)
  qed
next
  case (Cleanup now)
  have "filter (\<lambda>x. rl_cutoff rl now < x) (window_of key rl) = []"
    if "window_of key rl \<noteq> []" "last (window_of key rl) \<le> rl_cutoff rl now"
  proof -
    have "sorted (window_of key rl)" using assms(1) by (simp add: windows_ok_def)
    then have "\<forall>x \<in> set (window_of key rl). x \<le> last (window_of key rl)"
      using sorted_le_last by blast
    then show ?thesis using that by (auto simp: filter_empty_conv)
  qed
  then show ?thesis
    using Cleanup cleanup_window [OF assms(1), of key now]
    by (auto simp: multiset_filter_subset filter_empty_conv)
qed

lemma rl_cutoff_mono: "a \<le> b \<Longrightarrow> rl_cutoff rl a \<le> rl_cutoff rl b"
  by (simp add: rl_cutoff_def fsub_def fl_mono)

text \<open>The limiter of given parameters, whatever its history.\<close>

definition limiter_inv :: "int \<Rightarrow> int \<Rightarrow> rat \<Rightarrow> rate_limiter \<Rightarrow> bool" where
  "limiter_inv mx w T rl \<longleftrightarrow> max_requests rl = mx \<and> window_seconds rl = w \<and> windows_ok T rl"

interpretation limiter: throttle "limiter_step key" op_time "rl_cutoff (rate_limiter_init mx w)"
  "window_of key" "nat mx" "limiter_inv mx w"
  for key mx w
proof
  fix T s op
  assume inv: "limiter_inv mx w T s" and le: "T \<le> op_time op"
  have cut: "rl_cutoff (rate_limiter_init mx w) = rl_cutoff s"
    using inv by (simp add: fun_eq_iff limiter_inv_def rl_cutoff_def rate_limiter_init_def)
  show "limiter_inv mx w (op_time op) (snd (limiter_step key op s))"
    using inv le check_keeps_ok [of T s] cleanup_keeps_ok [of T s]
    by (cases op) (simp_all add: limiter_inv_def rl_fields [where key = key, of "Check _ _", simplified]
          rl_fields [where key = key, of "Cleanup _", simplified])
  show "mset (filter (\<lambda>x. rl_cutoff (rate_limiter_init mx w) (op_time op) < x)
          (window_of key s @ fst (limiter_step key op s))) \<subseteq># mset (window_of key (snd (limiter_step key op s)))"
    unfolding cut using inv le by (intro limiter_remembers [of T]) (simp_all add: limiter_inv_def)
next
  fix x op s
  show "x \<in> set (fst (limiter_step key op s)) \<Longrightarrow> x = op_time op"
    by (cases op) (auto split: if_splits)
qed (auto simp: rl_cutoff_mono limiter_inv_def windows_ok_def)

lemma limiter_inv_init: "limiter_inv mx w T (rate_limiter_init mx w)"
  by (simp add: limiter_inv_def rate_limiter_init_def windows_ok_def window_of_def)

text \<open>C9: however checks and cleanup rounds for any keys interleave, as long as the clock does not
  run backwards, no key is admitted more than \<open>max_requests\<close> times in any window: the cutoff computed
  at any time \<open>t\<close>, exclusive, to \<open>t\<close>, inclusive.\<close>

theorem at_most_max_per_window:
  assumes "sorted (map op_time ops)"
  shows "length (in_window (rl_cutoff (rate_limiter_init mx w) t) t
           (admissions (limiter_step key) ops (rate_limiter_init mx w))) \<le> nat mx"
proof -
  define T where "T = Min (insert t (set (map op_time ops)))"
  have T: "T \<le> t" "\<forall>op \<in> set ops. T \<le> op_time op" unfolding T_def by auto
  have "length (in_window (rl_cutoff (rate_limiter_init mx w) t) t
           ([] @ admissions (limiter_step key) ops (rate_limiter_init mx w))) \<le> nat mx"
    by (rule limiter.window_bound [OF assms T(2) limiter_inv_init _ T(1)]) simp
  then show ?thesis by simp
qed

theorem at_most_max_per_window_witness:
  "length (in_window (rl_cutoff (rate_limiter_init 2 60) 5) 5
     (admissions (limiter_step ''k'')
        [Check 1 ''k'', Check 2 ''k'', Cleanup 3, Check 4 ''k'', Check 5 ''j''] (rate_limiter_init 2 60))) \<le> nat 2"
  by (rule at_most_max_per_window) simp

section \<open>What a rejected caller is told\<close>

text \<open>A rejected caller is told to retry after at least one second and at most one more than the
  window, the rejection leaves nothing of the request behind, and, as the window is full of live
  requests, it happens only when \<open>max_requests\<close> of them are inside the window.\<close>

theorem retry_after_bounds:
  assumes "windows_ok now rl" and "0 \<le> window_seconds rl" and "window_seconds rl < 2 ^ 53"
    and "\<forall>t \<in> set (window_of key rl). fl t = t"
    and "check now key rl = (Inr (False, retry_after), rl')"
  shows "1 \<le> retry_after \<and> retry_after \<le> window_seconds rl + 1
    \<and> window_of key rl' = live_window now key rl
    \<and> max_requests rl \<le> int (length (live_window now key rl))"
proof -
  let ?W = "rat_of_int (window_seconds rl)"
  have W: "fl ?W = ?W" using assms(2,3) by (intro fl_of_int) simp
  obtain w0 ws where live: "live_window now key rl = w0 # ws"
    and full: "max_requests rl \<le> int (length (live_window now key rl))"
    and r: "retry_after = py_int (fsub (fl ?W) (fsub now w0)) + 1"
    using assms(5) by (auto simp: check_def Let_def split: if_splits list.splits)
  have mem: "w0 \<in> set (window_of key rl)"
    using live live_window_sublist(2) [of now key rl] by auto
  have "\<not> w0 \<le> rl_cutoff rl now"
    using live unfolding live_window_def by (metis list.distinct(1) hd_dropWhile list.sel(1))
  then have "fl (now - ?W) < fl w0" using mem assms(4) by (simp add: rl_cutoff_def fsub_def W)
  then have "now - ?W \<le> w0" using fl_mono [of w0 "now - ?W"] by (meson linorder_not_less nle_le)
  then have "fsub now w0 \<le> ?W" using fl_mono [of "now - w0" ?W] by (simp add: fsub_def W)
  moreover have "0 \<le> fsub now w0"
    using assms(1) mem by (simp add: windows_ok_def fsub_def fl_nonneg)
  ultimately have "0 \<le> fsub (fl ?W) (fsub now w0)" "fsub (fl ?W) (fsub now w0) \<le> ?W"
    using fl_mono [of "?W - fsub now w0" ?W] by (simp_all add: fsub_def [of ?W] W fl_nonneg)
  then have "0 \<le> py_int (fsub (fl ?W) (fsub now w0))" "py_int (fsub (fl ?W) (fsub now w0)) \<le> window_seconds rl"
    by (simp_all add: py_int_def floor_le_iff)
  moreover have "rl' = snd (check now key rl)" using assms(5) by simp
  ultimately show ?thesis using full r by (simp add: check_state)
qed

text \<open>A cleanup round changes no later decision: once the windows are sorted and not in the
  future, a check after the round answers what it would have answered without it.\<close>

theorem cleanup_transparent:
  assumes "windows_ok T rl" and "T \<le> c" and "c \<le> now"
  shows "fst (check now key (run_cleanup c rl)) = fst (check now key rl)"
proof -
  have cut: "rl_cutoff (run_cleanup c rl) = rl_cutoff rl" "max_requests (run_cleanup c rl) = max_requests rl"
    "window_seconds (run_cleanup c rl) = window_seconds rl"
    by (simp_all add: rl_cutoff_def run_cleanup_def fun_eq_iff)
  have sorted: "sorted (window_of key rl)" using assms(1) by (simp add: windows_ok_def)
  have "live_window now key (run_cleanup c rl) = live_window now key rl"
  proof (cases "window_of key rl \<noteq> [] \<and> last (window_of key rl) \<le> rl_cutoff rl c")
    case True
    then have "\<forall>x \<in> set (window_of key rl). x \<le> rl_cutoff rl now"
      using sorted_le_last [OF sorted] rl_cutoff_mono [OF assms(3), of rl] by fastforce
    then show ?thesis
      using True by (simp add: live_window_def cleanup_window [OF assms(1)] cut) (metis dropWhile_eq_Nil_conv)
  next
    case False
    then show ?thesis by (auto simp: live_window_def cleanup_window [OF assms(1)] cut)
  qed
  then show ?thesis by (simp add: check_def Let_def cut split: list.split)
qed

definition busy_limiter :: rate_limiter where
  "busy_limiter = \<lparr>max_requests = 2, window_seconds = 60, windows = [(''k'', [1, 2]), (''old'', [1])]\<rparr>"

lemma busy_limiter_ok: "windows_ok 2 busy_limiter"
  by (auto simp: windows_ok_def busy_limiter_def window_of_def)

theorem retry_after_bounds_witness: "1 \<le> (60 :: int) \<and> (60 :: int) \<le> window_seconds busy_limiter + 1"
proof -
  have told: "check 2 ''k'' busy_limiter = (Inr (False, 60), snd (check 2 ''k'' busy_limiter))"
    by code_simp
  have floats: "\<forall>t \<in> set (window_of ''k'' busy_limiter). fl t = t"
    by (simp add: busy_limiter_def window_of_def)
  have "0 \<le> window_seconds busy_limiter" "window_seconds busy_limiter < 2 ^ 53"
    by (simp_all add: busy_limiter_def)
  from retry_after_bounds [OF busy_limiter_ok this floats told] show ?thesis by blast
qed

theorem cleanup_transparent_witness:
  "fst (check 70 ''k'' (run_cleanup 65 busy_limiter)) = fst (check 70 ''k'' busy_limiter)"
  by (rule cleanup_transparent [OF busy_limiter_ok]) simp_all

text \<open>A limiter configured to admit nothing does not answer: it reads the head of an empty window.\<close>

lemma zero_limit_raises:
  "max_requests rl \<le> 0 \<Longrightarrow> live_window now key rl = [] \<Longrightarrow> fst (check now key rl) = Inl IndexError"
  by (simp add: check_def)

end
