(* ===== verification/Accounts.thy ===== *)
theory Accounts
  imports Rate_Limit
begin

text \<open>
  The account endpoints: sign-in (\<open>src/backend/app/api/auth.py\<close>) and user management
  (\<open>src/backend/app/api/users.py\<close>), on the tables of \<open>Auth\<close> and the limiter of \<open>Rate_Limit\<close>.

  A handler returns its response, the mails it hands to the mailer (whose failure is caught and
  logged) and the new state.  The user-management handlers take the id of the administrator that
  \<open>require_admin\<close> returned: that check runs before the handler takes the database lock, so in an
  interleaving the administrator may have lost the role by then.  \<open>lower\<close> in SQL depends on the
  locale of the server and is the parameter \<open>pg_lower\<close>.
\<close>

section \<open>Sign-in\<close>

record auth_settings =
  sha256 :: "string \<Rightarrow> string"
  pg_lower :: "string \<Rightarrow> string"
  MAGIC_LINK_TTL :: int
  MAGIC_LINK_MAX_REDEMPTIONS :: int
  SESSION_TTL_DAYS :: int
  SESSION_COOKIE_NAME :: string
  CSRF_PROTECTION_ENABLED :: bool

definition SECONDS_PER_DAY :: int where
  "SECONDS_PER_DAY = 86400"

text \<open>Sessions expire in microseconds, the unit of the tables' clock.\<close>

definition session_ttl :: "auth_settings \<Rightarrow> int" where
  "session_ttl cfg = SESSION_TTL_DAYS cfg * SECONDS_PER_DAY * 1000000"

definition CSRF_COOKIE_NAME :: string where
  "CSRF_COOKIE_NAME = ''tms_csrf''"

record web_request = request +
  scheme :: string
  peer_trusted :: bool
  forwarded_proto :: "string option"
  user_agent_header :: "string option"
  client_host :: "string option"

record cookie =
  cookie_key :: string
  cookie_value :: "string option"
  max_age :: int
  httponly :: bool
  secure :: bool

datatype mail = Mail (to_email: string) (mail_name: string) (mail_token: string) (mail_purpose: purpose)

definition is_secure_request :: "'a web_request_scheme \<Rightarrow> bool" where
  "is_secure_request req =
     (if scheme req = ''https'' then True
      else if \<not> peer_trusted req then False
      else py_lower (case forwarded_proto req of None \<Rightarrow> [] | Some p \<Rightarrow> p) = ''https'')"

definition set_csrf_cookie :: "auth_settings \<Rightarrow> string \<Rightarrow> 'a web_request_scheme \<Rightarrow> cookie" where
  "set_csrf_cookie cfg fresh req =
     \<lparr>cookie_key = CSRF_COOKIE_NAME, cookie_value = Some fresh,
      max_age = SESSION_TTL_DAYS cfg * SECONDS_PER_DAY, httponly = False, secure = is_secure_request req\<rparr>"

definition set_session_cookie :: "auth_settings \<Rightarrow> string \<Rightarrow> 'a web_request_scheme \<Rightarrow> string \<Rightarrow> cookie list" where
  "set_session_cookie cfg fresh req sid =
     \<lparr>cookie_key = SESSION_COOKIE_NAME cfg, cookie_value = Some sid,
      max_age = SESSION_TTL_DAYS cfg * SECONDS_PER_DAY, httponly = True, secure = is_secure_request req\<rparr>
     # (if CSRF_PROTECTION_ENABLED cfg then [set_csrf_cookie cfg fresh req] else [])"

definition clear_session_cookie :: "auth_settings \<Rightarrow> 'a web_request_scheme \<Rightarrow> cookie list" where
  "clear_session_cookie cfg req =
     [\<lparr>cookie_key = SESSION_COOKIE_NAME cfg, cookie_value = None, max_age = 0, httponly = True,
       secure = is_secure_request req\<rparr>,
      \<lparr>cookie_key = CSRF_COOKIE_NAME, cookie_value = None, max_age = 0, httponly = False,
       secure = is_secure_request req\<rparr>]"

definition find_active_user_by_email :: "auth_settings \<Rightarrow> string \<Rightarrow> auth_db \<Rightarrow> user_row option" where
  "find_active_user_by_email cfg email db =
     find (\<lambda>u. pg_lower cfg (user_email u) = pg_lower cfg email \<and> status u = Active) (users db)"

text \<open>The state of the sign-in component: the per-email limiter and the tables.\<close>

record account_state =
  email_limiter :: rate_limiter
  tables :: auth_db

definition email_key :: "string \<Rightarrow> string" where
  "email_key email = py_strip (py_lower email)"

definition request_link ::
  "auth_settings \<Rightarrow> rat \<Rightarrow> int \<Rightarrow> string \<Rightarrow> string \<Rightarrow> account_state \<Rightarrow>
     (http_error, string) outcome \<times> mail list \<times> account_state" where
  "request_link cfg ticks now fresh email s =
     (case check ticks (email_key email) (email_limiter s) of
        (Inl e, rl) \<Rightarrow> (Raises e, [], s\<lparr>email_limiter := rl\<rparr>)
      | (Inr (allowed, _), rl) \<Rightarrow>
          (let s = s\<lparr>email_limiter := rl\<rparr>
           in if \<not> allowed then (Ok ''ok'', [], s)
              else case find_active_user_by_email cfg email (tables s) of
                     None \<Rightarrow> (Ok ''ok'', [], s)
                   | Some u \<Rightarrow>
                       (case issue_token (sha256 cfg) (MAGIC_LINK_TTL cfg) (MAGIC_LINK_MAX_REDEMPTIONS cfg)
                               now fresh (user_id u) Login (tables s) of
                          Inl _ \<Rightarrow> (Ok ''ok'', [], s)
                        | Inr (token, db') \<Rightarrow>
                            (Ok ''ok'', [Mail (user_email u) (full_name u) token Login], s\<lparr>tables := db'\<rparr>))))"

definition invalid_link :: http_error where
  "invalid_link = HTTP 400 ''This link is invalid or has expired.''"

definition verify ::
  "auth_settings \<Rightarrow> int \<Rightarrow> string \<Rightarrow> string \<Rightarrow> string \<Rightarrow> 'a web_request_scheme \<Rightarrow> auth_db \<Rightarrow>
     (http_error, user_row \<times> cookie list) outcome \<times> auth_db" where
  "verify cfg now fresh_sid fresh_csrf token req db =
     (case consume_token (sha256 cfg) now token None db of
        (None, db') \<Rightarrow> (Rejected invalid_link, db')
      | (Some uid, db') \<Rightarrow>
          (case find_user db' uid of
             None \<Rightarrow> (Rejected invalid_link, db')
           | Some u \<Rightarrow>
               (if status u = Disabled then (Rejected invalid_link, db')
                else
                  let agent = (case user_agent_header req of None \<Rightarrow> [] | Some a \<Rightarrow> take 500 a)
                  in case create_session (session_ttl cfg) now fresh_sid (user_id u)
                            (if agent = [] then None else Some agent) (client_host req)
                            (Some (sha256 cfg token)) db' of
                       Inl e \<Rightarrow> (Raises e, db')
                     | Inr ((sid, _), db'') \<Rightarrow>
                         (Ok (case find_user db'' (user_id u) of None \<Rightarrow> u | Some f \<Rightarrow> f,
                              set_session_cookie cfg fresh_csrf req sid), db''))))"

definition logout :: "auth_settings \<Rightarrow> 'a web_request_scheme \<Rightarrow> auth_db \<Rightarrow> (string \<times> cookie list) \<times> auth_db" where
  "logout cfg req db =
     ((''ok'', clear_session_cookie cfg req),
      (case session_cookie req of None \<Rightarrow> db
       | Some sid \<Rightarrow> (if sid = [] then db else delete_session sid db)))"

definition me ::
  "auth_settings \<Rightarrow> int \<Rightarrow> string \<Rightarrow> web_request \<Rightarrow> auth_db \<Rightarrow>
     (http_error, user_row \<times> cookie list) outcome \<times> auth_db" where
  "me cfg now fresh req db =
     (case require_user now (request.truncate req) db of
        (Raises e, db') \<Rightarrow> (Raises e, db')
      | (Rejected e, db') \<Rightarrow> (Rejected e, db')
      | (Ok u, db') \<Rightarrow>
          (Ok (u, if CSRF_PROTECTION_ENABLED cfg \<and> csrf_cookie req \<in> {None, Some []}
                  then [set_csrf_cookie cfg fresh req] else []), db'))"

section \<open>User management\<close>

definition issue_invite_email ::
  "auth_settings \<Rightarrow> int \<Rightarrow> string \<Rightarrow> uuid \<Rightarrow> string \<Rightarrow> string \<Rightarrow> auth_db \<Rightarrow> mail list \<times> auth_db" where
  "issue_invite_email cfg now fresh uid email name db =
     (case issue_token (sha256 cfg) (MAGIC_LINK_TTL cfg) (MAGIC_LINK_MAX_REDEMPTIONS cfg) now fresh uid Invite db of
        Inl _ \<Rightarrow> ([], db)
      | Inr (token, db') \<Rightarrow> ([Mail email name token Invite], db'))"

definition other_admins :: "uuid \<Rightarrow> auth_db \<Rightarrow> user_row list" where
  "other_admins uid db = filter (\<lambda>u. role u = Admin \<and> status u \<noteq> Disabled \<and> user_id u \<noteq> uid) (users db)"

definition assert_admin_remains :: "uuid \<Rightarrow> string \<Rightarrow> auth_db \<Rightarrow> http_error option" where
  "assert_admin_remains uid action db =
     (if length (other_admins uid db) = 0
      then Some (HTTP 400 (''Cannot '' @ action @ '' the last active Admin.'')) else None)"

definition create_user ::
  "auth_settings \<Rightarrow> int \<Rightarrow> uuid \<Rightarrow> string \<Rightarrow> string \<Rightarrow> string \<Rightarrow> role \<Rightarrow> auth_db \<Rightarrow>
     (http_error, user_row) outcome \<times> mail list \<times> auth_db" where
  "create_user cfg now uid fresh email name r db =
     (if \<exists>u \<in> set (users db). pg_lower cfg (user_email u) = pg_lower cfg email
      then (Rejected (HTTP 409 ''A user with this email already exists.''), [], db)
      else if \<exists>u \<in> set (users db). user_id u = uid then (Raises UniqueViolation, [], db)
      else
        let row = \<lparr>user_id = uid, user_email = email, full_name = name, role = r, status = Pending,
                   user_created_at = now, last_login_at = None\<rparr>;
            (mails, db') = issue_invite_email cfg now fresh uid email name (db\<lparr>users := users db @ [row]\<rparr>)
        in (Ok row, mails, db'))"

definition update_user :: "uuid \<Rightarrow> uuid \<Rightarrow> role \<Rightarrow> auth_db \<Rightarrow> (http_error, user_row) outcome \<times> auth_db" where
  "update_user admin uid r db =
     (if uid = admin then (Rejected (HTTP 400 ''You cannot change your own role.''), db)
      else case find_user db uid of
             None \<Rightarrow> (Rejected (HTTP 404 ''User not found.''), db)
           | Some target \<Rightarrow>
               (case (if role target = Admin \<and> r = Reviewer then assert_admin_remains uid ''demote'' db else None) of
                  Some e \<Rightarrow> (Rejected e, db)
                | None \<Rightarrow>
                    (let db' = db\<lparr>users := map (\<lambda>u. if user_id u = uid then u\<lparr>role := r\<rparr> else u) (users db)\<rparr>
                     in case find_user db' uid of
                          None \<Rightarrow> (Rejected (HTTP 404 ''User not found.''), db)
                        | Some row \<Rightarrow> (Ok row, db'))))"

text \<open>\<open>DELETE FROM users\<close> cascades to the tokens and sessions of the user.\<close>

definition delete_user_row :: "uuid \<Rightarrow> auth_db \<Rightarrow> auth_db" where
  "delete_user_row uid db =
     db\<lparr>users := filter (\<lambda>u. user_id u \<noteq> uid) (users db),
        magic_link_tokens := filter (\<lambda>t. token_user t \<noteq> uid) (magic_link_tokens db),
        user_sessions := filter (\<lambda>s. session_user s \<noteq> uid) (user_sessions db)\<rparr>"

definition delete_user :: "uuid \<Rightarrow> uuid \<Rightarrow> auth_db \<Rightarrow> (http_error, unit) outcome \<times> auth_db" where
  "delete_user admin uid db =
     (if uid = admin then (Rejected (HTTP 400 ''You cannot delete your own account.''), db)
      else case find_user db uid of
             None \<Rightarrow> (Rejected (HTTP 404 ''User not found.''), db)
           | Some target \<Rightarrow>
               (case (if role target = Admin then assert_admin_remains uid ''delete'' db else None) of
                  Some e \<Rightarrow> (Rejected e, db)
                | None \<Rightarrow>
                    (let (revoked, db') = delete_all_sessions_for_user uid db
                     in (Ok (), delete_user_row uid db'))))"

definition resend_invite ::
  "auth_settings \<Rightarrow> int \<Rightarrow> string \<Rightarrow> uuid \<Rightarrow> auth_db \<Rightarrow> (http_error, string) outcome \<times> mail list \<times> auth_db" where
  "resend_invite cfg now fresh uid db =
     (case find_user db uid of
        None \<Rightarrow> (Rejected (HTTP 404 ''User not found.''), [], db)
      | Some u \<Rightarrow>
          (if status u \<noteq> Pending
           then (Rejected (HTTP 400 ''User has already activated their account.''), [], db)
           else case issue_invite_email cfg now fresh uid (user_email u) (full_name u) db of
                  (mails, db') \<Rightarrow> (Ok ''ok'', mails, db')))"

section \<open>The accounts as a transition system\<close>

text \<open>Every transaction the endpoints, the request dependencies and the housekeeping can commit, in
  any order and with any arguments.\<close>

inductive account_step :: "auth_settings \<Rightarrow> account_state \<Rightarrow> account_state \<Rightarrow> bool" for cfg where
  request_link: "account_step cfg s (snd (snd (request_link cfg ticks now fresh email s)))"
| verify: "account_step cfg s (s\<lparr>tables := snd (verify cfg now sid csrf token (req :: web_request) (tables s))\<rparr>)"
| logout: "account_step cfg s (s\<lparr>tables := snd (logout cfg (req :: web_request) (tables s))\<rparr>)"
| authenticated: "account_step cfg s (s\<lparr>tables := snd (current_user now areq (tables s))\<rparr>)"
| create_user: "account_step cfg s (s\<lparr>tables := snd (snd (create_user cfg now uid fresh email name r (tables s)))\<rparr>)"
| update_user: "account_step cfg s (s\<lparr>tables := snd (update_user admin uid r (tables s))\<rparr>)"
| delete_user: "account_step cfg s (s\<lparr>tables := snd (delete_user admin uid (tables s))\<rparr>)"
| resend_invite: "account_step cfg s (s\<lparr>tables := snd (snd (resend_invite cfg now fresh uid (tables s)))\<rparr>)"
| purge_tokens: "account_step cfg s (s\<lparr>tables := snd (purge_expired_tokens now (tables s))\<rparr>)"
| purge_sessions: "account_step cfg s (s\<lparr>tables := snd (purge_expired_sessions now (tables s))\<rparr>)"
| cleanup: "account_step cfg s (s\<lparr>email_limiter := run_cleanup ticks (email_limiter s)\<rparr>)"

text \<open>The constraints of the schema: primary keys, the unique index on the address, foreign keys.\<close>

definition keys_ok ::
  "(string \<Rightarrow> string) \<Rightarrow> uuid list \<Rightarrow> string list \<Rightarrow> string list \<Rightarrow> uuid list \<Rightarrow> string list \<Rightarrow> uuid list \<Rightarrow> bool" where
  "keys_ok low uids emails hashes token_users sids session_users \<longleftrightarrow>
     distinct uids \<and> distinct (map low emails) \<and> distinct hashes \<and> distinct sids \<and>
     set token_users \<subseteq> set uids \<and> set session_users \<subseteq> set uids"

definition schema_ok :: "auth_settings \<Rightarrow> auth_db \<Rightarrow> bool" where
  "schema_ok cfg db =
     keys_ok (pg_lower cfg) (map user_id (users db)) (map user_email (users db))
       (map token_hash (magic_link_tokens db)) (map token_user (magic_link_tokens db))
       (map session_id (user_sessions db)) (map session_user (user_sessions db))"

definition administrable :: "auth_db \<Rightarrow> bool" where
  "administrable db \<longleftrightarrow> (\<exists>u \<in> set (users db). role u = Admin \<and> status u \<noteq> Disabled)"

lemma find_user_Some:
  "find_user db uid = Some u \<Longrightarrow> u \<in> set (users db) \<and> user_id u = uid"
  by (auto simp: find_user_def dest: find_SomeD)

lemma find_user_None: "find_user db uid = None \<longleftrightarrow> uid \<notin> user_id ` set (users db)"
  by (auto simp: find_user_def find_None_iff)

lemma find_user_unique:
  "distinct (map user_id (users db)) \<Longrightarrow> u \<in> set (users db) \<Longrightarrow> find_user db (user_id u) = Some u"
  by (cases "find_user db (user_id u)") (auto simp: find_user_None distinct_map inj_on_def dest: find_user_Some)

lemma map_if_key:
  "(\<And>x. key (g x) = key x) \<Longrightarrow> map (key \<circ> (\<lambda>x. if P x then g x else x)) xs = map key xs"
  by (induction xs) auto

lemma distinct_filter_key: "distinct (map f xs) \<Longrightarrow> distinct (map f (filter P xs))"
  by (rule distinct_map_filter)

lemma guarded_Inr_iff:
  "(if A then Inl e else if B then Inl e' else Inr (t, X)) = Inr (x, y) \<longleftrightarrow> \<not> A \<and> \<not> B \<and> t = x \<and> X = y"
  by simp

lemma issue_token_tables:
  assumes "issue_token h ttl mx now tok u p db = Inr (x, db')"
  obtains P row where "magic_link_tokens db' = filter P (magic_link_tokens db) @ [row]"
    "users db' = users db" "user_sessions db' = user_sessions db"
    "token_user row = u" "u \<in> user_id ` set (users db)"
    "token_hash row \<notin> token_hash ` set (filter P (magic_link_tokens db))"
proof -
  let ?P = "\<lambda>t. \<not> (token_user t = u \<and> token_purpose t = p \<and> consumed_at t = None)"
  let ?row = "\<lparr>token_hash = h tok, token_user = u, token_purpose = p, token_expires_at = now + ttl,
        consumed_at = None, redemptions_remaining = mx\<rparr>"
  have *: "\<not> (\<exists>t \<in> set (filter ?P (magic_link_tokens db)). token_hash t = h tok)" "find_user db u \<noteq> None"
    "db' = db\<lparr>magic_link_tokens := filter ?P (magic_link_tokens db) @ [?row]\<rparr>"
    using assms unfolding issue_token_def Let_def guarded_Inr_iff by blast+
  show ?thesis
  proof (rule that [of ?P ?row])
    show "u \<in> user_id ` set (users db)" using *(2) find_user_None [of db u] by simp
    show "token_hash ?row \<notin> token_hash ` set (filter ?P (magic_link_tokens db))"
    proof
      assume "token_hash ?row \<in> token_hash ` set (filter ?P (magic_link_tokens db))"
      then obtain t where "t \<in> set (filter ?P (magic_link_tokens db))" "token_hash ?row = token_hash t"
        by (rule imageE)
      then have "\<exists>t \<in> set (filter ?P (magic_link_tokens db)). token_hash t = h tok" by (intro bexI) auto
      with *(1) show False by contradiction
    qed
  qed (simp_all add: *(3))
qed

lemma issue_token_schema:
  assumes "issue_token h ttl mx now tok u p db = Inr (x, db')" "schema_ok cfg db"
  shows "schema_ok cfg db'"
  using assms(1)
proof (rule issue_token_tables)
  fix P row
  assume r: "magic_link_tokens db' = filter P (magic_link_tokens db) @ [row]"
    "users db' = users db" "user_sessions db' = user_sessions db"
    "token_user row = u" "u \<in> user_id ` set (users db)"
    "token_hash row \<notin> token_hash ` set (filter P (magic_link_tokens db))"
  have "distinct (map token_hash (filter P (magic_link_tokens db)))"
    using assms(2) by (intro distinct_filter_key) (simp add: schema_ok_def keys_ok_def)
  then show ?thesis using assms(2) r by (auto simp: schema_ok_def keys_ok_def)
qed

lemma consume_token_tables:
  assumes "consume_token h now tok p db = (r, db')"
  shows "users db' = users db" "user_sessions db' = user_sessions db"
    "map token_hash (magic_link_tokens db') = map token_hash (magic_link_tokens db)"
    "map token_user (magic_link_tokens db') = map token_user (magic_link_tokens db)"
  using assms
  by (auto simp: consume_token_def Let_def redeem_def map_if_key split: option.splits)

lemma create_session_tables:
  assumes "create_session ttl now sid u agent ip h db = Inr (x, db')"
  shows "map user_id (users db') = map user_id (users db)"
    "map user_email (users db') = map user_email (users db)"
    "magic_link_tokens db' = magic_link_tokens db"
    "\<exists>row. user_sessions db' = user_sessions db @ [row] \<and> session_user row = u \<and> session_id row = sid"
    "sid \<notin> session_id ` set (user_sessions db)" "u \<in> user_id ` set (users db)"
  using assms
  by (auto simp: create_session_def Let_def find_user_None map_if_key split: if_splits)

lemma create_session_schema:
  assumes "create_session ttl now sid u agent ip h db = Inr (x, db')" "schema_ok cfg db"
  shows "schema_ok cfg db'"
  using assms(2) create_session_tables [OF assms(1)]
  by (auto simp: schema_ok_def keys_ok_def image_subset_iff)

lemma filter_schema:
  assumes "schema_ok cfg db"
  shows "schema_ok cfg (db\<lparr>magic_link_tokens := filter P (magic_link_tokens db)\<rparr>)"
    "schema_ok cfg (db\<lparr>user_sessions := filter Q (user_sessions db)\<rparr>)"
  using assms by (auto simp: schema_ok_def keys_ok_def distinct_filter_key)

lemma verify_schema:
  assumes "schema_ok cfg db"
  shows "schema_ok cfg (snd (verify cfg now sid csrf token req db))"
proof (cases "consume_token (sha256 cfg) now token None db")
  case (Pair r db')
  have "schema_ok cfg db'"
    using assms by (simp add: schema_ok_def consume_token_tables [OF Pair])
  then show ?thesis
    by (auto simp: verify_def Pair Let_def dest: create_session_schema split: option.split sum.split)
qed

lemma claim_if_linked_schema:
  assumes "schema_ok cfg db"
  shows "schema_ok cfg (claim_if_linked us db)"
proof -
  have "schema_ok cfg (snd (claim_session_token sid h db))" for sid h
    using filter_schema(2) [OF assms, of "\<lambda>s. \<not> (created_by_token_hash s = Some h \<and> session_id s \<noteq> sid)"]
    by (simp add: schema_ok_def claim_session_token_def Let_def map_if_key)
  then show ?thesis using assms by (simp add: claim_if_linked_def split: option.split)
qed

lemma current_user_schema: "schema_ok cfg db \<Longrightarrow> schema_ok cfg (snd (current_user now req db))"
  by (auto simp: current_user_def claim_if_linked_schema split: option.split)

lemma logout_schema: "schema_ok cfg db \<Longrightarrow> schema_ok cfg (snd (logout cfg' req db))"
  by (auto simp: logout_def delete_session_def filter_schema split: option.split)

lemma invite_schema:
  "schema_ok cfg db \<Longrightarrow> schema_ok cfg (snd (issue_invite_email cfg' now fresh uid email name db))"
  by (auto simp: issue_invite_email_def dest: issue_token_schema split: sum.split)

lemma create_user_schema:
  assumes "schema_ok cfg db"
  shows "schema_ok cfg (snd (snd (create_user cfg now uid fresh email name r db)))"
proof -
  let ?row = "\<lparr>user_id = uid, user_email = email, full_name = name, role = r, status = Pending,
    user_created_at = now, last_login_at = None\<rparr>"
  have "schema_ok cfg (db\<lparr>users := users db @ [?row]\<rparr>)"
    if "\<forall>u \<in> set (users db). pg_lower cfg (user_email u) \<noteq> pg_lower cfg email"
       "\<forall>u \<in> set (users db). user_id u \<noteq> uid"
    using assms that by (auto simp: schema_ok_def keys_ok_def)
  then have "schema_ok cfg (snd (issue_invite_email cfg now fresh uid email name (db\<lparr>users := users db @ [?row]\<rparr>)))"
    if "\<forall>u \<in> set (users db). pg_lower cfg (user_email u) \<noteq> pg_lower cfg email"
       "\<forall>u \<in> set (users db). user_id u \<noteq> uid"
    using that by (blast intro: invite_schema)
  then show ?thesis
    using assms by (auto simp: create_user_def Let_def case_prod_beta)
qed

lemma update_user_schema:
  assumes "schema_ok cfg db"
  shows "schema_ok cfg (snd (update_user admin uid r db))"
proof -
  have "schema_ok cfg (db\<lparr>users := map (\<lambda>u. if user_id u = uid then u\<lparr>role := r\<rparr> else u) (users db)\<rparr>)"
    using assms by (simp add: schema_ok_def map_if_key)
  then show ?thesis using assms by (auto simp: update_user_def Let_def split: option.split)
qed

lemma delete_user_schema:
  assumes "schema_ok cfg db"
  shows "schema_ok cfg (snd (delete_user admin uid db))"
proof -
  have "schema_ok cfg (delete_user_row uid (snd (delete_all_sessions_for_user uid db)))"
    using assms
    by (auto simp: schema_ok_def keys_ok_def delete_user_row_def delete_all_sessions_for_user_def
          distinct_filter_key subset_iff)
  then show ?thesis using assms by (auto simp: delete_user_def Let_def case_prod_beta split: option.split)
qed

section \<open>The schema and the administrators\<close>

lemma request_link_tables:
  "tables (snd (snd (request_link cfg ticks now fresh email s))) = tables s
   \<or> (\<exists>uid x. issue_token (sha256 cfg) (MAGIC_LINK_TTL cfg) (MAGIC_LINK_MAX_REDEMPTIONS cfg) now fresh
          uid Login (tables s) = Inr (x, tables (snd (snd (request_link cfg ticks now fresh email s)))))"
proof (cases "check ticks (email_key email) (email_limiter s)")
  case (Pair r rl)
  then show ?thesis
    by (auto simp: request_link_def Let_def split: sum.split option.split)
qed

lemma schema_step: "account_step cfg s s' \<Longrightarrow> schema_ok cfg (tables s) \<Longrightarrow> schema_ok cfg (tables s')"
proof (induction rule: account_step.induct)
  case (request_link s ticks now fresh email)
  then show ?case
    using request_link_tables [of cfg ticks now fresh email s] by (auto dest: issue_token_schema)
next
  case (resend_invite s now fresh uid)
  then show ?case
    using invite_schema [of cfg "tables s"]
    by (auto simp: resend_invite_def case_prod_beta split: option.split)
qed (auto simp: verify_schema logout_schema current_user_schema create_user_schema update_user_schema
       delete_user_schema filter_schema purge_expired_tokens_def purge_expired_sessions_def Let_def)

text \<open>The users a step leaves: the same roles, at worst a user activated.\<close>

lemma issue_token_users: "issue_token h ttl mx now tok u p db = Inr (x, db') \<Longrightarrow> users db' = users db"
  by (erule issue_token_tables)

lemma create_session_administrable:
  assumes "create_session ttl now sid u agent ip h db = Inr (x, db')" "administrable db"
  shows "administrable db'"
proof -
  let ?g = "\<lambda>r. if user_id r = u then r\<lparr>last_login_at := Some now,
      status := (if status r = Pending then Active else status r)\<rparr> else r"
  have "users db' = map ?g (users db)"
    using assms(1) by (auto simp: create_session_def Let_def split: if_splits)
  moreover obtain r where "r \<in> set (users db)" "role r = Admin" "status r \<noteq> Disabled"
    using assms(2) by (auto simp: administrable_def)
  moreover from this have "role (?g r) = Admin \<and> status (?g r) \<noteq> Disabled" by simp
  ultimately show ?thesis unfolding administrable_def by (metis (no_types, lifting) image_eqI list.set_map)
qed

lemma verify_administrable:
  assumes "administrable db"
  shows "administrable (snd (verify cfg now sid csrf token req db))"
proof (cases "consume_token (sha256 cfg) now token None db")
  case (Pair r db')
  have "administrable db'" using assms by (simp add: administrable_def consume_token_tables [OF Pair])
  then show ?thesis
    by (auto simp: verify_def Pair Let_def dest: create_session_administrable split: option.split sum.split)
qed

lemma invite_users: "users (snd (issue_invite_email cfg now fresh uid email name db)) = users db"
  by (auto simp: issue_invite_email_def dest: issue_token_users split: sum.split)

lemma update_user_administrable:
  assumes "distinct (map user_id (users db))" "administrable db"
  shows "administrable (snd (update_user admin uid r db))"
proof -
  let ?g = "\<lambda>u. if user_id u = uid then u\<lparr>role := r\<rparr> else u"
  have "\<exists>u \<in> set (map ?g (users db)). role u = Admin \<and> status u \<noteq> Disabled"
    if t: "find_user db uid = Some t" and ok: "\<not> (role t = Admin \<and> r = Reviewer \<and> other_admins uid db = [])" for t
  proof (cases "\<exists>u \<in> set (users db). role u = Admin \<and> status u \<noteq> Disabled \<and> user_id u \<noteq> uid")
    case True
    then show ?thesis by (auto intro!: bexI)
  next
    case False
    then obtain u where u: "u \<in> set (users db)" "role u = Admin" "status u \<noteq> Disabled" "user_id u = uid"
      using assms(2) by (auto simp: administrable_def)
    then have "u = t" using t find_user_unique [OF assms(1)] by fastforce
    moreover have "other_admins uid db = []" using False by (auto simp: other_admins_def filter_empty_conv)
    ultimately have "r = Admin" using ok u(2) by (cases r) auto
    then have "role (?g u) = Admin \<and> status (?g u) \<noteq> Disabled" using u by simp
    then show ?thesis using u(1) by (metis (no_types, lifting) image_eqI list.set_map)
  qed
  then show ?thesis
    using assms(2)
    by (auto simp: update_user_def assert_admin_remains_def administrable_def Let_def split: option.split)
qed

lemma delete_user_administrable:
  assumes "distinct (map user_id (users db))" "administrable db"
  shows "administrable (snd (delete_user admin uid db))"
proof -
  have "\<exists>u \<in> set (users db). user_id u \<noteq> uid \<and> role u = Admin \<and> status u \<noteq> Disabled"
    if t: "find_user db uid = Some t" and ok: "\<not> (role t = Admin \<and> other_admins uid db = [])" for t
  proof (rule ccontr)
    assume no: "\<not> ?thesis"
    then obtain u where u: "u \<in> set (users db)" "role u = Admin" "user_id u = uid"
      using assms(2) by (auto simp: administrable_def)
    then have "u = t" using t find_user_unique [OF assms(1)] by fastforce
    moreover have "other_admins uid db = []" using no by (auto simp: other_admins_def filter_empty_conv)
    ultimately show False using ok u(2) by simp
  qed
  then show ?thesis
    using assms(2)
    by (auto simp: delete_user_def assert_admin_remains_def administrable_def delete_user_row_def
          delete_all_sessions_for_user_def Let_def split: option.split)
qed

lemma administrable_step:
  "account_step cfg s s' \<Longrightarrow> schema_ok cfg (tables s) \<Longrightarrow> administrable (tables s) \<Longrightarrow> administrable (tables s')"
proof (induction rule: account_step.induct)
  case (request_link s ticks now fresh email)
  then show ?case
    using request_link_tables [of cfg ticks now fresh email s]
    by (auto dest!: issue_token_users simp: administrable_def)
next
  case (update_user s admin uid r)
  then show ?case by (simp add: update_user_administrable schema_ok_def keys_ok_def)
next
  case (delete_user s admin uid)
  then show ?case by (simp add: delete_user_administrable schema_ok_def keys_ok_def)
next
  case (create_user s now uid fresh email name r)
  then show ?case
    by (auto simp: create_user_def administrable_def invite_users Let_def case_prod_beta)
next
  case (resend_invite s now fresh uid)
  then show ?case
    by (auto simp: resend_invite_def administrable_def invite_users case_prod_beta split: option.split)
next
  case (authenticated s now areq)
  then show ?case by (auto simp: current_user_def administrable_def split: option.split)
next
  case (logout s req)
  then show ?case by (auto simp: logout_def delete_session_def administrable_def split: option.split)
qed (simp_all add: verify_administrable, simp_all add: administrable_def purge_expired_tokens_def
       purge_expired_sessions_def Let_def)

text \<open>C29: whatever transactions the endpoints, the request dependencies and the housekeeping commit,
  in any order and with any arguments (so also with an administrator who lost the role between the
  check and the lock), the tables keep the constraints of the schema, and as long as one non-disabled
  Admin existed at the start, one exists afterwards.\<close>

theorem accounts_invariant:
  assumes "(account_step cfg)\<^sup>*\<^sup>* s s'" and "schema_ok cfg (tables s)" and "administrable (tables s)"
  shows "schema_ok cfg (tables s') \<and> administrable (tables s')"
  using assms(1)
proof induction
  case base
  then show ?case using assms(2,3) by simp
next
  case (step y z)
  then show ?case using schema_step administrable_step by blast
qed

definition demo_settings :: auth_settings where
  "demo_settings = \<lparr>sha256 = (\<lambda>x. x), pg_lower = py_lower, MAGIC_LINK_TTL = 100,
     MAGIC_LINK_MAX_REDEMPTIONS = 3, SESSION_TTL_DAYS = 7, SESSION_COOKIE_NAME = ''tms_session'',
     CSRF_PROTECTION_ENABLED = True\<rparr>"

definition demo_user :: "uuid \<Rightarrow> role \<Rightarrow> user_status \<Rightarrow> user_row" where
  "demo_user uid r st = \<lparr>user_id = uid, user_email = [char_of uid], full_name = ''N'', role = r, status = st,
     user_created_at = 0, last_login_at = None\<rparr>"

definition demo_accounts :: account_state where
  "demo_accounts = \<lparr>email_limiter = rate_limiter_init 5 900,
     tables = \<lparr>users = [demo_user 65 Admin Active, demo_user 66 Admin Pending],
               magic_link_tokens = [], user_sessions = []\<rparr>\<rparr>"

theorem accounts_invariant_witness:
  "schema_ok demo_settings (snd (delete_user 66 65 (tables demo_accounts)))
   \<and> administrable (snd (delete_user 66 65 (tables demo_accounts)))"
proof -
  let ?s' = "demo_accounts\<lparr>tables := snd (delete_user 66 65 (tables demo_accounts))\<rparr>"
  have "account_step demo_settings demo_accounts ?s'" by (rule account_step.delete_user)
  then have "(account_step demo_settings)\<^sup>*\<^sup>* demo_accounts ?s'" by simp
  moreover have "schema_ok demo_settings (tables demo_accounts)" by code_simp
  moreover have "administrable (tables demo_accounts)" by code_simp
  ultimately show ?thesis using accounts_invariant by fastforce
qed

text \<open>The guard of \<open>_assert_admin_remains\<close> counts invited Admins who never signed in, so a request
  of an administrator who has just lost the role deletes the last Admin who could sign in and act.\<close>

theorem pending_admin_counts_as_remaining:
  "fst (delete_user 67 65 (tables demo_accounts)) = Ok ()
   \<and> filter (\<lambda>u. role u = Admin \<and> status u = Active) (users (tables demo_accounts)) = [demo_user 65 Admin Active]
   \<and> filter (\<lambda>u. role u = Admin \<and> status u = Active)
       (users (snd (delete_user 67 65 (tables demo_accounts)))) = []"
  by code_simp

text \<open>Deleting a user ends all access at once: no session of theirs looks up any more, whatever
  the time, and no link redeems to them.\<close>

theorem delete_user_revokes:
  assumes "fst (delete_user admin uid db) = Ok ()"
  shows "(\<forall>now sid r s. lookup_session now sid (snd (delete_user admin uid db)) = Some (r, s) \<longrightarrow> user_id r \<noteq> uid)
    \<and> fst (consume_token h now tok p (snd (delete_user admin uid db))) \<noteq> Some uid"
proof -
  have db': "snd (delete_user admin uid db) = delete_user_row uid (snd (delete_all_sessions_for_user uid db))"
    using assms by (auto simp: delete_user_def Let_def case_prod_beta split: option.splits if_splits)
  have "\<forall>t \<in> set (magic_link_tokens (snd (delete_user admin uid db))). token_user t \<noteq> uid"
    and "\<forall>s \<in> set (user_sessions (snd (delete_user admin uid db))). session_user s \<noteq> uid"
    by (simp_all add: db' delete_user_row_def)
  note no = this
  have "user_id r \<noteq> uid" if "lookup_session now sid (snd (delete_user admin uid db)) = Some (r, s)" for now sid r s
    using lookup_session_SomeD(2,7) [OF that] no(2) by auto
  moreover have "fst (consume_token h now tok p (snd (delete_user admin uid db))) \<noteq> Some uid"
    using no(1) by (auto simp: consume_token_def Let_def dest: find_SomeD split: option.split)
  ultimately show ?thesis by blast
qed

theorem delete_user_revokes_witness:
  "fst (consume_token (\<lambda>x. x) 0 ''t'' None (snd (delete_user 66 65 (tables demo_accounts)))) \<noteq> Some 65"
proof -
  have "fst (delete_user 66 65 (tables demo_accounts)) = Ok ()" by code_simp
  then show ?thesis using delete_user_revokes by blast
qed

section \<open>Login links are throttled per address\<close>

datatype link_op = RequestLink rat int string string | LimiterCleanup rat

fun link_time :: "link_op \<Rightarrow> rat" where
  "link_time (RequestLink ticks now fresh email) = ticks"
| "link_time (LimiterCleanup ticks) = ticks"

text \<open>The times at which a mail went out for an address of bucket \<open>key\<close>.\<close>

fun link_step :: "auth_settings \<Rightarrow> string \<Rightarrow> link_op \<Rightarrow> account_state \<Rightarrow> rat list \<times> account_state" where
  "link_step cfg key (RequestLink ticks now fresh email) s =
     (case request_link cfg ticks now fresh email s of
        (_, mails, s') \<Rightarrow> (if mails \<noteq> [] \<and> email_key email = key then [ticks] else [], s'))"
| "link_step cfg key (LimiterCleanup ticks) s = ([], s\<lparr>email_limiter := run_cleanup ticks (email_limiter s)\<rparr>)"

fun link_check :: "link_op \<Rightarrow> limiter_op" where
  "link_check (RequestLink ticks now fresh email) = Check ticks (email_key email)"
| "link_check (LimiterCleanup ticks) = Cleanup ticks"

lemma link_time_check [simp]: "op_time (link_check op) = link_time op"
  by (cases op) simp_all

lemma link_step_limiter:
  "email_limiter (snd (link_step cfg key op s)) = snd (limiter_step key (link_check op) (email_limiter s))"
proof (cases op)
  case (RequestLink ticks now fresh email)
  then show ?thesis
    by (cases "check ticks (email_key email) (email_limiter s)")
       (auto simp: request_link_def Let_def split: sum.split option.split)
qed simp

lemma request_link_mails:
  assumes "fst (snd (request_link cfg ticks now fresh email s)) \<noteq> []"
  shows "fst (check ticks (email_key email) (email_limiter s)) = Inr (True, 0)"
proof -
  have "n = 0" if "fst (check t k rl) = Inr (True, n)" for t k rl n
    using that by (auto simp: check_def Let_def split: if_splits list.splits)
  moreover obtain r rl where c: "check ticks (email_key email) (email_limiter s) = (r, rl)" by fastforce
  moreover have "\<exists>n. r = Inr (True, n)"
    using assms c by (cases r) (auto simp: request_link_def Let_def split: if_splits)
  ultimately show ?thesis by (metis fst_conv)
qed

lemma link_step_log: "fst (link_step cfg key op s) \<in> {[], fst (limiter_step key (link_check op) (email_limiter s))}"
proof (cases op)
  case (RequestLink ticks now fresh email)
  then show ?thesis
    using request_link_mails [of cfg ticks now fresh email s] by (auto simp: case_prod_beta)
qed simp

interpretation links: throttle "link_step cfg key" link_time "rl_cutoff (rate_limiter_init mx w)"
  "\<lambda>s. window_of key (email_limiter s)" "nat mx" "\<lambda>T s. limiter_inv mx w T (email_limiter s)"
  for cfg key mx w
proof
  fix T op and s :: account_state
  assume inv: "limiter_inv mx w T (email_limiter s)" and le: "T \<le> link_time op"
  show "limiter_inv mx w (link_time op) (email_limiter (snd (link_step cfg key op s)))"
    using limiter.inv_step [OF inv, of "link_check op"] le by (simp add: link_step_limiter)
  let ?c = "rl_cutoff (rate_limiter_init mx w) (link_time op)"
  have "mset (filter (\<lambda>x. ?c < x) (window_of key (email_limiter s) @ fst (link_step cfg key op s)))
     \<subseteq># mset (filter (\<lambda>x. ?c < x) (window_of key (email_limiter s) @ fst (limiter_step key (link_check op) (email_limiter s))))"
    using link_step_log [of cfg key op s] by auto
  also have "\<dots> \<subseteq># mset (window_of key (email_limiter (snd (link_step cfg key op s))))"
    using limiter.remembers [OF inv, of "link_check op" key] le by (simp only: link_step_limiter link_time_check)
  finally show "mset (filter (\<lambda>x. ?c < x) (window_of key (email_limiter s) @ fst (link_step cfg key op s)))
     \<subseteq># mset (window_of key (email_limiter (snd (link_step cfg key op s))))" .
next
  fix x op s
  assume "x \<in> set (fst (link_step cfg key op s))"
  then show "x = link_time op"
    using link_step_log [of cfg key op s] limiter.admits_now [of x key "link_check op" "email_limiter s"] by auto
qed (simp_all add: rl_cutoff_mono limiter.window_limit)

text \<open>However often and in whatever spelling (case, surrounding blanks) login links are requested
  for an address, and whoever does it, mails go out for it at most \<open>max_requests\<close> times in any window.\<close>

theorem link_mails_throttled:
  assumes "sorted (map link_time ops)" and "email_limiter s = rate_limiter_init mx w"
  shows "length (in_window (rl_cutoff (rate_limiter_init mx w) t) t (admissions (link_step cfg key) ops s)) \<le> nat mx"
proof -
  define T where "T = Min (insert t (set (map link_time ops)))"
  have T: "T \<le> t" "\<forall>op \<in> set ops. T \<le> link_time op" unfolding T_def by auto
  have "limiter_inv mx w T (email_limiter s)" by (simp add: assms(2) limiter_inv_init)
  then have "length (in_window (rl_cutoff (rate_limiter_init mx w) t) t ([] @ admissions (link_step cfg key) ops s)) \<le> nat mx"
    by (rule links.window_bound [OF assms(1) T(2) _ _ T(1)]) simp
  then show ?thesis by simp
qed

theorem link_mails_throttled_witness:
  "length (in_window (rl_cutoff (rate_limiter_init 5 900) 9) 9
     (admissions (link_step demo_settings ''a'')
        [RequestLink 1 0 ''t1'' ''A'', RequestLink 2 0 ''t2'' ''a '', LimiterCleanup 3] demo_accounts)) \<le> nat 5"
  by (rule link_mails_throttled) (simp_all add: demo_accounts_def)

section \<open>Redeeming a link\<close>

lemma find_map_same_key:
  "(\<And>x. key (g x) = key x) \<Longrightarrow> find (\<lambda>x. key x = k) (map g xs) = map_option g (find (\<lambda>x. key x = k) xs)"
  by (induction xs) auto

lemma find_snoc: "P x \<Longrightarrow> (\<And>y. y \<in> set xs \<Longrightarrow> \<not> P y) \<Longrightarrow> find P (xs @ [x]) = Some x"
  by (induction xs) auto

lemma create_session_total:
  assumes "sid \<notin> session_id ` set (user_sessions db)" "find_user db u = Some r"
  obtains db' where "create_session ttl now sid u agent ip h db = Inr ((sid, now + ttl), db')"
proof -
  have "\<not> (\<exists>s \<in> set (user_sessions db). session_id s = sid)" using assms(1) by blast
  then show ?thesis using assms(2) that by (simp add: create_session_def Let_def)
qed

lemma create_session_lookup:
  assumes "create_session ttl now sid u agent ip h db = Inr (x, db')" and "find_user db u = Some r"
    and "status r \<noteq> Disabled" and "sid \<noteq> []" and "t < now + ttl"
  shows "lookup_session t sid db' =
    Some (r\<lparr>last_login_at := Some now, status := Active\<rparr>,
          \<lparr>session_id = sid, session_user = u, session_expires_at = now + ttl, user_agent = agent,
            session_ip = ip, created_by_token_hash = h\<rparr>)"
proof -
  let ?g = "\<lambda>r. if user_id r = u then r\<lparr>last_login_at := Some now,
      status := (if status r = Pending then Active else status r)\<rparr> else r"
  let ?s = "\<lparr>session_id = sid, session_user = u, session_expires_at = now + ttl, user_agent = agent,
            session_ip = ip, created_by_token_hash = h\<rparr>"
  have new: "sid \<notin> session_id ` set (user_sessions db)" and us: "users db' = map ?g (users db)"
    and ss: "user_sessions db' = user_sessions db @ [?s]"
    using assms(1) by (auto simp: create_session_def Let_def split: if_splits)
  have "find_user db' u = Some (?g r)"
    using assms(2) by (simp add: find_user_def us find_map_same_key)
  moreover have "?g r = r\<lparr>last_login_at := Some now, status := Active\<rparr>"
    using find_user_Some [OF assms(2)] assms(3) by (cases "status r") auto
  ultimately have fu: "find_user db' u = Some (r\<lparr>last_login_at := Some now, status := Active\<rparr>)" by simp
  have "find (\<lambda>s. session_id s = sid \<and> t < session_expires_at s \<and>
          (\<exists>r. find_user db' (session_user s) = Some r \<and> status r \<noteq> Disabled)) (user_sessions db @ [?s]) = Some ?s"
    using new fu assms(5) by (intro find_snoc) auto
  then show ?thesis
    using fu assms(4) by (simp add: lookup_session_def ss)
qed

text \<open>Redeeming a link works exactly when the tables hold a redeemable token with its hash for a
  user who is not disabled (and the fresh session id is new); then the session cookie it sets looks
  up, until it expires, to that user, now active, and is tied to the link.\<close>

theorem verify_signs_in:
  assumes "find (\<lambda>t. token_hash t = sha256 cfg token \<and> redeemable now None t) (magic_link_tokens db) = Some row"
    and "find_user db (token_user row) = Some u" and "status u \<noteq> Disabled"
    and "sid \<noteq> []" and "sid \<notin> session_id ` set (user_sessions db)"
    and "t < now + session_ttl cfg"
  shows "\<exists>s rest. fst (verify cfg now sid csrf token req db) =
        Ok (u\<lparr>last_login_at := Some now, status := Active\<rparr>,
            \<lparr>cookie_key = SESSION_COOKIE_NAME cfg, cookie_value = Some sid,
             max_age = SESSION_TTL_DAYS cfg * SECONDS_PER_DAY, httponly = True, secure = is_secure_request req\<rparr> # rest)
    \<and> lookup_session t sid (snd (verify cfg now sid csrf token req db)) =
        Some (u\<lparr>last_login_at := Some now, status := Active\<rparr>, s)
    \<and> created_by_token_hash s = Some (sha256 cfg token)"
proof -
  obtain db1 where c: "consume_token (sha256 cfg) now token None db = (Some (token_user row), db1)"
    using assms(1) by (simp add: consume_token_def)
  note tabs = consume_token_tables [OF c]
  have fu: "find_user db1 (token_user row) = Some u" using assms(2) by (simp add: find_user_def tabs)
  have uid: "user_id u = token_user row" using find_user_Some [OF assms(2)] by simp
  define agent where "agent = (case user_agent_header req of None \<Rightarrow> [] | Some a \<Rightarrow> take 500 a)"
  have new: "sid \<notin> session_id ` set (user_sessions db1)" using assms(5) by (simp add: tabs)
  obtain db2 where cs: "create_session (session_ttl cfg) now sid (user_id u)
      (if agent = [] then None else Some agent) (client_host req) (Some (sha256 cfg token)) db1
        = Inr ((sid, now + session_ttl cfg), db2)"
    using create_session_total [OF new fu] uid by metis
  note look = create_session_lookup [OF cs, unfolded uid, OF fu assms(3,4)]
  have "find_user db2 (token_user row) = Some (u\<lparr>last_login_at := Some now, status := Active\<rparr>)"
    using lookup_session_SomeD(5) [OF look [OF assms(6)]] by simp
  then have "verify cfg now sid csrf token req db =
     (Ok (u\<lparr>last_login_at := Some now, status := Active\<rparr>, set_session_cookie cfg csrf req sid), db2)"
    using c fu assms(3) cs [unfolded uid] uid
    unfolding verify_def Let_def agent_def [symmetric] by (simp del: if_split split: if_split_asm)
  then show ?thesis using look [OF assms(6)] by (auto simp: set_session_cookie_def)
qed

definition invited_db :: auth_db where
  "invited_db = \<lparr>users = [demo_user 65 Reviewer Pending],
     magic_link_tokens = [\<lparr>token_hash = ''tok'', token_user = 65, token_purpose = Invite,
        token_expires_at = 50, consumed_at = None, redemptions_remaining = 1\<rparr>], user_sessions = []\<rparr>"

definition plain_request :: web_request where
  "plain_request = \<lparr>http_method = ''GET'', path = ''/'', api_key_header = None, session_cookie = None,
     csrf_cookie = None, csrf_header = None, scheme = ''https'', peer_trusted = False,
     forwarded_proto = None, user_agent_header = None, client_host = None\<rparr>"

theorem verify_signs_in_witness:
  "\<exists>u s. lookup_session 20 ''sid'' (snd (verify demo_settings 10 ''sid'' ''c'' ''tok'' plain_request invited_db)) = Some (u, s)"
  using verify_signs_in [of demo_settings "''tok''" 10 invited_db "magic_link_tokens invited_db ! 0"
      "demo_user 65 Reviewer Pending" "''sid''" 20 "''c''" plain_request]
  by (auto simp: invited_db_def demo_settings_def redeemable_def find_user_def demo_user_def session_ttl_def
        SECONDS_PER_DAY_def)

end
