(* ===== verification/Features.thy ===== *)
theory Features
  imports Prelude Pyfloat
begin

text \<open>
  The readers of raw Ogmios payloads shared by ingestion and analysis
  (\<open>src/backend/app/analysis/features.py\<close>, first half): lovelace and assets in both schema versions,
  fees, withdrawals, time to live, address classification, asset counts and the walk over a datum.

  A payload is a \<open>json\<close> value; each function is total on it or says which error it raises.
\<close>

section \<open>Script spends and script addresses\<close>

definition is_dict :: "json \<Rightarrow> bool" where
  "is_dict j = (case j of JDict _ \<Rightarrow> True | _ \<Rightarrow> False)"

text \<open>\<open>d.get(k)\<close> on a dict.\<close>

definition field :: "(string, json) dict \<Rightarrow> string \<Rightarrow> json" where
  "field d k = dict_get d k JNull"

definition is_spend_redeemer :: "json \<Rightarrow> bool" where
  "is_spend_redeemer r =
     (case r of
        JDict d \<Rightarrow>
          (case field d ''validator'' of JDict v \<Rightarrow> field v ''purpose'' = JStr ''spend'' | _ \<Rightarrow> False)
          \<or> field d ''purpose'' = JStr ''spend''
      | _ \<Rightarrow> False)"

definition has_spend_redeemer :: "(string, json) dict \<Rightarrow> bool" where
  "has_spend_redeemer raw =
     (let redeemers = field raw ''redeemers''
      in if \<not> truthy redeemers then False
         else case redeemers of
                JDict d \<Rightarrow> list_ex (\<lambda>(k, _). startswith k ''spend'') d
              | JList rs \<Rightarrow> list_ex is_spend_redeemer rs
              | _ \<Rightarrow> False)"

definition SCRIPT_ADDRESS_PREFIXES :: "string list" where
  "SCRIPT_ADDRESS_PREFIXES =
     [''addr1w'', ''addr1z'', ''addr1x'', ''addr12'',
      ''addr_test1w'', ''addr_test1z'', ''addr_test1x'', ''addr_test12'']"

definition LOVELACE_PER_ADA :: int where
  "LOVELACE_PER_ADA = 1000000"

definition is_script_address :: "string \<Rightarrow> bool" where
  "is_script_address address =
     (if address = [] then False else list_ex (startswith (py_lower address)) SCRIPT_ADDRESS_PREFIXES)"

section \<open>Values\<close>

text \<open>\<open>x or 0\<close>.\<close>

definition or_zero :: "json \<Rightarrow> json" where
  "or_zero j = (if truthy j then j else JInt 0)"

definition extract_lovelace :: "json \<Rightarrow> int result" where
  "extract_lovelace value =
     (case value of
        JDict d \<Rightarrow>
          (case field d ''ada'' of
             JDict ada \<Rightarrow> int_or 0 (or_zero (dict_get ada ''lovelace'' (JInt 0)))
           | _ \<Rightarrow> int_or 0 (or_zero (dict_get d ''lovelace'' (JInt 0))))
      | _ \<Rightarrow> (if truthy value then int_or 0 value else Inr 0))"

fun sum_lovelace :: "(string \<times> json) list \<Rightarrow> int result" where
  "sum_lovelace [] = Inr 0"
| "sum_lovelace ((_, v) # ws) = rbind (extract_lovelace v) (\<lambda>n. rbind (sum_lovelace ws) (\<lambda>m. Inr (n + m)))"

definition total_withdrawal_lovelace :: "json \<Rightarrow> int result" where
  "total_withdrawal_lovelace raw =
     (case raw of
        JDict d \<Rightarrow> (case field d ''withdrawals'' of JDict ws \<Rightarrow> sum_lovelace ws | _ \<Rightarrow> Inr 0)
      | _ \<Rightarrow> Inr 0)"

definition EPSILON :: rat where
  "EPSILON = fl (1 / 10 ^ 6)"

definition datum_ratio_of :: "int \<Rightarrow> int \<Rightarrow> rat" where
  "datum_ratio_of datum_bytes utxo_total =
     (if utxo_total > 0 then fdiv (fl (of_int datum_bytes)) (fadd (fl (of_int utxo_total)) EPSILON) else 0)"

definition extract_fee :: "json \<Rightarrow> int result" where
  "extract_fee tx_data =
     (case tx_data of JDict d \<Rightarrow> extract_lovelace (dict_get d ''fee'' (JDict [])) | _ \<Rightarrow> Inr 0)"

definition ada_keys :: "string list" where
  "ada_keys = [''lovelace'', ''ada'']"

fun flatten_bundle :: "string \<Rightarrow> (string \<times> json) list \<Rightarrow> (string, int) dict \<Rightarrow> (string, int) dict result" where
  "flatten_bundle key [] assets = Inr assets"
| "flatten_bundle key ((asset_name, qty) # rest) assets =
     rbind (int_or 0 qty) (\<lambda>n. flatten_bundle key rest (AList.update (key @ ''.'' @ asset_name) n assets))"

fun flatten_entries :: "(string \<times> json) list \<Rightarrow> (string, int) dict \<Rightarrow> (string, int) dict result" where
  "flatten_entries [] assets = Inr assets"
| "flatten_entries ((key, val) # rest) assets =
     (if key \<in> set ada_keys then flatten_entries rest assets
      else rbind (case val of
                    JDict bundle \<Rightarrow> flatten_bundle key bundle assets
                  | _ \<Rightarrow> rbind (int_or 0 val) (\<lambda>n. Inr (AList.update key n assets)))
             (flatten_entries rest))"

definition flatten_assets :: "json \<Rightarrow> (string, int) dict result" where
  "flatten_assets value = (case value of JDict d \<Rightarrow> flatten_entries d [] | _ \<Rightarrow> Inr [])"

text \<open>The pairs the generator yields; quantities that do not parse are skipped.\<close>

fun iter_bundle :: "string \<Rightarrow> (string \<times> json) list \<Rightarrow> ((string \<times> string) \<times> int) list result" where
  "iter_bundle policy [] = Inr []"
| "iter_bundle policy ((asset_name, qty) # rest) =
     (case int_of_json qty of
        Inl e \<Rightarrow> (if e = TypeError \<or> e = ValueError then iter_bundle policy rest else Inl e)
      | Inr n \<Rightarrow> rbind (iter_bundle policy rest) (\<lambda>ys. Inr (((policy, asset_name), n) # ys)))"

fun iter_entries :: "(string \<times> json) list \<Rightarrow> ((string \<times> string) \<times> int) list result" where
  "iter_entries [] = Inr []"
| "iter_entries ((policy, inner) # rest) =
     (if policy \<in> set ada_keys then iter_entries rest
      else case inner of
             JDict bundle \<Rightarrow> rbind (iter_bundle policy bundle) (\<lambda>xs. rbind (iter_entries rest) (\<lambda>ys. Inr (xs @ ys)))
           | _ \<Rightarrow> iter_entries rest)"

definition iter_assets :: "json \<Rightarrow> ((string \<times> string) \<times> int) list result" where
  "iter_assets val = (case val of JDict d \<Rightarrow> iter_entries d | _ \<Rightarrow> Inr [])"

definition extract_ttl :: "json \<Rightarrow> int result" where
  "extract_ttl tx_data =
     (case tx_data of
        JDict d \<Rightarrow>
          (case field d ''validityInterval'' of
             JDict vi \<Rightarrow>
               (if field vi ''invalidAfter'' \<noteq> JNull then int_or 0 (field vi ''invalidAfter'')
                else int_or 0 (or_zero (dict_get d ''timeToLive'' (JInt 0))))
           | _ \<Rightarrow> int_or 0 (or_zero (dict_get d ''timeToLive'' (JInt 0))))
      | _ \<Rightarrow> Inr 0)"

definition nonzero_qty :: "json \<Rightarrow> bool result" where
  "nonzero_qty q = rbind (int_or 0 q) (\<lambda>n. Inr (n \<noteq> 0))"

fun count_live :: "(string \<times> json) list \<Rightarrow> int result" where
  "count_live [] = Inr 0"
| "count_live ((_, q) # rest) =
     rbind (nonzero_qty q) (\<lambda>live. rbind (count_live rest) (\<lambda>n. Inr ((if live then 1 else 0) + n)))"

text \<open>The policies are distinct because the keys of a dict are.\<close>

fun count_entries :: "(string \<times> json) list \<Rightarrow> (int \<times> int) result" where
  "count_entries [] = Inr (0, 0)"
| "count_entries ((key, val) # rest) =
     (if key \<in> set ada_keys then count_entries rest
      else rbind (case val of JDict bundle \<Rightarrow> count_live bundle
                  | _ \<Rightarrow> rbind (nonzero_qty val) (\<lambda>live. Inr (if live then 1 else 0)))
             (\<lambda>live. rbind (count_entries rest) (\<lambda>(p, t). Inr (if live \<noteq> 0 then (p + 1, t + live) else (p, t)))))"

definition count_assets :: "(string, json) dict \<Rightarrow> (int \<times> int) result" where
  "count_assets value = count_entries value"

definition policy_keys :: "json \<Rightarrow> string list" where
  "policy_keys j = (case j of JDict d \<Rightarrow> filter (\<lambda>k. k \<notin> set ada_keys) (map fst d) | _ \<Rightarrow> [])"

definition tx_policy_ids :: "json \<Rightarrow> string set" where
  "tx_policy_ids raw =
     (case raw of
        JDict d \<Rightarrow>
          (case field d ''outputs'' of
             JList outs \<Rightarrow> set (concat (map (\<lambda>out. case out of JDict o' \<Rightarrow> policy_keys (field o' ''value'') | _ \<Rightarrow> []) outs))
           | _ \<Rightarrow> {})
          \<union> set (policy_keys (field d ''mint''))
      | _ \<Rightarrow> {})"

section \<open>Script features\<close>

definition redeemer_exunits :: "json \<Rightarrow> (int \<times> int) result" where
  "redeemer_exunits entry =
     (case entry of
        JDict d \<Rightarrow>
          (case dict_get d ''executionUnits'' (dict_get d ''budget'' (JDict [])) of
             JDict budget \<Rightarrow>
               (let units = rbind (int_of_json (or_zero (dict_get budget ''memory'' (JInt 0)))) (\<lambda>mem.
                      rbind (int_of_json (or_zero (dict_get budget ''cpu'' (dict_get budget ''steps'' (JInt 0))))) (\<lambda>cpu.
                        Inr (mem, cpu)))
                in case units of
                     Inl e \<Rightarrow> (if e = TypeError \<or> e = ValueError then Inr (0, 0) else Inl e)
                   | Inr u \<Rightarrow> Inr u)
           | _ \<Rightarrow> Inr (0, 0))
      | _ \<Rightarrow> Inr (0, 0))"

fun sum_exunits :: "json list \<Rightarrow> int \<times> int \<Rightarrow> (int \<times> int) result" where
  "sum_exunits [] acc = Inr acc"
| "sum_exunits (r # rs) (m, c) = rbind (redeemer_exunits r) (\<lambda>(mem, cpu). sum_exunits rs (m + mem, c + cpu))"

fun mint_bundle :: "string \<Rightarrow> (string \<times> json) list \<Rightarrow> ((string \<times> string) \<times> int) list result" where
  "mint_bundle policy [] = Inr []"
| "mint_bundle policy ((asset_name, qty) # rest) =
     rbind (int_of_json qty) (\<lambda>n. rbind (mint_bundle policy rest) (\<lambda>es. Inr (((policy, asset_name), n) # es)))"

fun mint_entries :: "(string \<times> json) list \<Rightarrow> ((string \<times> string) \<times> int) list result" where
  "mint_entries [] = Inr []"
| "mint_entries ((policy, assets) # rest) =
     (case assets of
        JDict bundle \<Rightarrow> rbind (mint_bundle policy bundle) (\<lambda>xs. rbind (mint_entries rest) (\<lambda>ys. Inr (xs @ ys)))
      | _ \<Rightarrow> mint_entries rest)"

text \<open>\<open>json.dumps\<close> of the list of mint entries.\<close>

definition hex_nibble :: "int \<Rightarrow> char" where
  "hex_nibble n = ''0123456789abcdef'' ! nat n"

definition json_char :: "char \<Rightarrow> string" where
  "json_char c =
     (let n = py_ord c in
      if n = 34 then [CHR 0x5C, CHR 0x22]
      else if n = 92 then [CHR 0x5C, CHR 0x5C]
      else if n = 10 then [CHR 0x5C, CHR ''n'']
      else if n = 13 then [CHR 0x5C, CHR ''r'']
      else if n = 9 then [CHR 0x5C, CHR ''t'']
      else if n = 8 then [CHR 0x5C, CHR ''b'']
      else if n = 12 then [CHR 0x5C, CHR ''f'']
      else if 32 \<le> n \<and> n \<le> 126 then [c]
      else [CHR 0x5C] @ ''u00'' @ [hex_nibble (n div 16), hex_nibble (n mod 16)])"

definition json_string :: "string \<Rightarrow> string" where
  "json_string s = [CHR 0x22] @ concat (map json_char s) @ [CHR 0x22]"

function nat_digits :: "nat \<Rightarrow> string" where
  "nat_digits n = (if n < 10 then [char_of (48 + n)] else nat_digits (n div 10) @ [char_of (48 + n mod 10)])"
  by auto
termination by (relation "measure id") auto

definition json_int :: "int \<Rightarrow> string" where
  "json_int n = (if n < 0 then ''-'' @ nat_digits (nat (- n)) else nat_digits (nat n))"

definition json_mint_entry :: "(string \<times> string) \<times> int \<Rightarrow> string" where
  "json_mint_entry e =
     (case e of ((policy, name), qty) \<Rightarrow>
        ''{'' @ json_string ''policy_id'' @ '': '' @ json_string policy @ '', '' @ json_string ''asset_name'' @ '': '' @
        json_string name @ '', '' @ json_string ''quantity'' @ '': '' @ json_int qty @ ''}'')"

fun intercalate :: "string \<Rightarrow> string list \<Rightarrow> string" where
  "intercalate sep [] = []"
| "intercalate sep [x] = x"
| "intercalate sep (x # xs) = x @ sep @ intercalate sep xs"

definition dumps_mint_entries :: "((string \<times> string) \<times> int) list \<Rightarrow> string" where
  "dumps_mint_entries es = ''['' @ intercalate '', '' (map json_mint_entry es) @ '']''"

record script_features =
  sf_tx_hash :: string
  sf_network :: string
  redeemers_count :: int
  spending_inputs :: int
  exunits_mem :: int
  exunits_cpu :: int
  mint_policy_count :: int
  mint_entries_json :: string

definition redeemer_values :: "json \<Rightarrow> json list" where
  "redeemer_values redeemers = (if \<not> truthy redeemers then []
     else case redeemers of JList rs \<Rightarrow> rs | JDict d \<Rightarrow> map snd d | _ \<Rightarrow> [])"

definition extract_tx_script_features ::
  "string \<Rightarrow> string \<Rightarrow> (string, json) dict \<Rightarrow> script_features option result" where
  "extract_tx_script_features tx_hash network raw =
     (let redeemers = field raw ''redeemers'';
          mint = field raw ''mint''
      in rbind (json_len (dict_get raw ''inputs'' (JList []))) (\<lambda>spending.
         let rs = redeemer_values redeemers;
             count = int (length rs)
         in rbind (sum_exunits rs (0, 0)) (\<lambda>(mem, cpu).
            let minted = (if \<not> truthy mint then [] else case mint of JDict d \<Rightarrow> d | _ \<Rightarrow> []);
                policies = int (length minted)
            in rbind (mint_entries minted) (\<lambda>entries.
               if count = 0 \<and> policies = 0 then Inr None
               else Inr (Some \<lparr>sf_tx_hash = tx_hash, sf_network = network, redeemers_count = count,
                      spending_inputs = spending, exunits_mem = mem, exunits_cpu = cpu,
                      mint_policy_count = policies,
                      mint_entries_json = (if entries = [] then [] else dumps_mint_entries entries)\<rparr>)))))"

section \<open>The bounded walk over a datum\<close>

text \<open>\<open>bytes.fromhex\<close>: hexadecimal pairs, blanks between pairs ignored.\<close>

definition hex_value :: "char \<Rightarrow> int option" where
  "hex_value c =
     (let n = py_ord c in
      if 48 \<le> n \<and> n \<le> 57 then Some (n - 48)
      else if 97 \<le> n \<and> n \<le> 102 then Some (n - 87)
      else if 65 \<le> n \<and> n \<le> 70 then Some (n - 55) else None)"

definition ascii_space :: "char \<Rightarrow> bool" where
  "ascii_space c \<longleftrightarrow> py_ord c = 32 \<or> 9 \<le> py_ord c \<and> py_ord c \<le> 13"

fun fromhex :: "string \<Rightarrow> int list option" where
  "fromhex [] = Some []"
| "fromhex [c] = (if ascii_space c then Some [] else None)"
| "fromhex (c # d # cs) =
     (if ascii_space c then fromhex (d # cs)
      else case (hex_value c, hex_value d) of
             (Some h, Some l) \<Rightarrow> map_option ((#) (16 * h + l)) (fromhex cs)
           | _ \<Rightarrow> None)"

text \<open>What one node pushes on the stack, in the order of the pushes, and the leaf it contributes.\<close>

definition map_children :: "json \<Rightarrow> json list" where
  "map_children j = (case j of JList es \<Rightarrow>
     concat (map (\<lambda>e. case e of JDict d \<Rightarrow> [field d ''k'', field d ''v''] | _ \<Rightarrow> []) es) | _ \<Rightarrow> [])"

definition list_children :: "json \<Rightarrow> json list" where
  "list_children j = (case j of JList xs \<Rightarrow> xs | _ \<Rightarrow> [])"

definition PLUTUS_KEYS :: "string list" where
  "PLUTUS_KEYS = [''bytes'', ''list'', ''fields'', ''map'']"

definition datum_children :: "json \<Rightarrow> json list" where
  "datum_children node =
     (case node of
        JDict d \<Rightarrow>
          list_children (field d ''list'') @ list_children (field d ''fields'') @ map_children (field d ''map'') @
          (if list_ex (\<lambda>k. k \<in> set (map fst d)) PLUTUS_KEYS then [] else map snd d)
      | JList xs \<Rightarrow> xs
      | _ \<Rightarrow> [])"

definition datum_leaf :: "json \<Rightarrow> int list list" where
  "datum_leaf node =
     (case node of JDict d \<Rightarrow>
        (case field d ''bytes'' of JStr b \<Rightarrow> (case fromhex b of None \<Rightarrow> [] | Some bs \<Rightarrow> [bs]) | _ \<Rightarrow> [])
      | _ \<Rightarrow> [])"

text \<open>The stack is a list whose head is its top, so \<open>extend\<close> pushes the reversed list.\<close>

partial_function (option) datum_walk :: "json list \<Rightarrow> int list list \<Rightarrow> int list list option" where
  "datum_walk stack leaves =
     (case stack of
        [] \<Rightarrow> Some leaves
      | node # rest \<Rightarrow> datum_walk (rev (datum_children node) @ rest) (leaves @ datum_leaf node))"

declare datum_walk.simps [code]

definition object_datum_byte_leaves :: "json \<Rightarrow> int list list option" where
  "object_datum_byte_leaves datum = datum_walk [datum] []"

subsection \<open>The walk ends and visits every leaf once\<close>

primrec weight :: "json \<Rightarrow> nat" where
  "weight JNull = 1"
| "weight (JBool b) = 1"
| "weight (JInt n) = 1"
| "weight (JFloat x) = 1"
| "weight (JInf b) = 1"
| "weight JNaN = 1"
| "weight (JStr s) = 1"
| "weight (JList xs) = 1 + sum_list (map weight xs)"
| "weight (JDict d) = 3 + sum_list (map snd (map (map_prod id weight) d))"

definition weights :: "json list \<Rightarrow> nat" where
  "weights xs = sum_list (map weight xs)"

lemma weights_simps [simp]:
  "weights [] = 0" "weights (x # xs) = weight x + weights xs" "weights (xs @ ys) = weights xs + weights ys"
  "weights (rev xs) = weights xs"
  by (simp_all add: weights_def sum_list_rev flip: rev_map)

lemma weight_dict [simp]: "weight (JDict d) = 3 + weights (map snd d)"
  by (simp add: weights_def comp_def)

declare weight.simps(9) [simp del]

text \<open>What a dict holds under distinct keys is at most what it holds.\<close>

lemma weight_fields:
  "distinct ks \<Longrightarrow> weights (map (field d) ks) \<le> weights (map snd d) + length ks"
proof (induction d arbitrary: ks)
  case Nil
  have "weights (map (field []) ks) = length ks"
    by (induction ks) (simp_all add: field_def dict_get_def)
  then show ?case by simp
next
  case (Cons p d)
  obtain k v where p: "p = (k, v)" by fastforce
  have other: "map (field (p # d)) xs = map (field d) xs" if "k \<notin> set xs" for xs
    using that by (induction xs) (auto simp: p field_def dict_get_def)
  show ?case
  proof (cases "k \<in> set ks")
    case True
    then obtain xs ys where ks: "ks = xs @ k # ys" "k \<notin> set xs" "k \<notin> set ys"
      using Cons.prems by (metis split_list distinct.simps(2) distinct_append not_distinct_conv_prefix)
    have "weights (map (field d) (xs @ ys)) \<le> weights (map snd d) + length (xs @ ys)"
      using Cons.prems ks by (intro Cons.IH) auto
    then show ?thesis
      using ks by (simp add: other) (simp add: p field_def dict_get_def)
  next
    case False
    then have "weights (map (field (p # d)) ks) = weights (map (field d) ks)"
      by (rule arg_cong [where f = weights, OF other])
    then show ?thesis using Cons.IH [OF Cons.prems] unfolding p by simp
  qed
qed

lemma weights_list_children: "weights (list_children j) < weight j"
  by (cases j) (simp_all add: list_children_def weights_def)

lemma weights_map_children: "weights (map_children j) < weight j"
proof (cases j)
  case (JList es)
  have "weights (concat (map (\<lambda>e. case e of JDict d \<Rightarrow> [field d ''k'', field d ''v''] | _ \<Rightarrow> []) es)) \<le> weights es"
  proof (induction es)
    case (Cons e es)
    have "weights (case e of JDict d \<Rightarrow> [field d ''k'', field d ''v''] | _ \<Rightarrow> []) \<le> weight e"
    proof (cases e)
      case (JDict d)
      then show ?thesis using weight_fields [of "[''k'', ''v'']" d] by simp
    qed simp_all
    then show ?case using Cons by simp
  qed simp
  then show ?thesis by (simp add: JList map_children_def weights_def)
qed (simp_all add: map_children_def)

lemma weights_children: "weights (datum_children node) < weight node"
proof (cases node)
  case (JDict d)
  show ?thesis
  proof (cases "list_ex (\<lambda>k. k \<in> set (map fst d)) PLUTUS_KEYS")
    case True
    let ?f = "field d"
    have "weights (datum_children node) =
        weights (list_children (?f ''list'')) + weights (list_children (?f ''fields'')) + weights (map_children (?f ''map''))"
      using True by (simp add: datum_children_def JDict)
    moreover have "weights (list_children (?f ''list'')) < weight (?f ''list'')"
      "weights (list_children (?f ''fields'')) < weight (?f ''fields'')"
      "weights (map_children (?f ''map'')) < weight (?f ''map'')"
      by (rule weights_list_children weights_map_children)+
    moreover have "weight (?f ''list'') + weight (?f ''fields'') + weight (?f ''map'') \<le> weights (map snd d) + 3"
      using weight_fields [of "[''list'', ''fields'', ''map'']" d] by simp
    ultimately show ?thesis unfolding JDict weight_dict by linarith
  next
    case False
    then have "k \<notin> set (map fst d)" if "k \<in> set PLUTUS_KEYS" for k
      using that by (auto simp: list_ex_iff)
    then have "?thesis \<longleftrightarrow> weights (map snd d) < weight (JDict d)"
      using False
      by (simp add: JDict datum_children_def field_def dict_get_def PLUTUS_KEYS_def list_children_def map_children_def
            map_of_eq_None_iff [THEN iffD2])
    then show ?thesis by simp
  qed
qed (simp_all add: datum_children_def weights_def)

function leaves_of :: "json \<Rightarrow> int list list" where
  "leaves_of node = datum_leaf node @ concat (map leaves_of (rev (datum_children node)))"
  by auto
termination
proof (relation "measure weight")
  fix node x
  assume "x \<in> set (rev (datum_children node))"
  then have "weight x \<le> weights (datum_children node)" by (simp add: weights_def member_le_sum_list)
  then show "(x, node) \<in> measure weight" using weights_children [of node] by simp
qed simp

declare leaves_of.simps [simp del]

lemma datum_walk_eq: "datum_walk stack leaves = Some (leaves @ concat (map leaves_of stack))"
proof (induction "weights stack" arbitrary: stack leaves rule: less_induct)
  case less
  show ?case
  proof (cases stack)
    case Nil
    then show ?thesis by (subst datum_walk.simps) simp
  next
    case (Cons node rest)
    have "weights (rev (datum_children node) @ rest) < weights stack"
      using weights_children [of node] by (simp add: Cons)
    from less [OF this] show ?thesis
      by (subst datum_walk.simps) (simp add: Cons leaves_of.simps [of node])
  qed
qed

text \<open>C36. The explicit-stack walk over an object datum always ends, on every JSON value however deep
  or malformed, and returns exactly the byte leaves that the recursive definition visits, each once.\<close>

theorem datum_leaves_total:
  "object_datum_byte_leaves datum = Some (leaves_of datum)"
  by (simp add: object_datum_byte_leaves_def datum_walk_eq)

section \<open>Quantities\<close>

text \<open>The quantities of a value that is one dict of policies.\<close>

definition qty_of :: "json \<Rightarrow> int" where
  "qty_of j = (case int_or 0 j of Inl _ \<Rightarrow> 0 | Inr n \<Rightarrow> n)"

definition finite_num :: "json \<Rightarrow> bool" where
  "finite_num j = (case j of JInf _ \<Rightarrow> False | _ \<Rightarrow> True)"

lemma int_or_qty_of: "finite_num j \<Longrightarrow> int_or 0 j = Inr (qty_of j)"
  using int_or_raises_iff [of 0 j] by (cases "int_or 0 j"; cases j) (auto simp: qty_of_def finite_num_def)

lemma int_or_infinite: "\<not> finite_num j \<Longrightarrow> int_or d j = Inl OverflowError"
  by (cases j) (simp_all add: finite_num_def int_or_def)

lemma int_or_0: "int_or 0 j = (if finite_num j then Inr (qty_of j) else Inl OverflowError)"
  by (simp add: int_or_qty_of int_or_infinite)

definition flat_pairs :: "string \<times> json \<Rightarrow> (string \<times> json) list" where
  "flat_pairs e =
     (case e of (key, val) \<Rightarrow>
        if key \<in> set ada_keys then []
        else case val of JDict bundle \<Rightarrow> map (\<lambda>(n, q). (key @ ''.'' @ n, q)) bundle | _ \<Rightarrow> [(key, val)])"

definition store :: "(string \<times> json) list \<Rightarrow> (string, int) dict \<Rightarrow> (string, int) dict" where
  "store ps assets = foldl (\<lambda>a (k, q). AList.update k (qty_of q) a) assets ps"

lemma flatten_bundle_eq:
  "flatten_bundle key inner assets =
     (if list_all (finite_num \<circ> snd) inner
      then Inr (store (map (\<lambda>(n, q). (key @ ''.'' @ n, q)) inner) assets) else Inl OverflowError)"
  by (induction inner arbitrary: assets)
     (auto simp: store_def int_or_0 split: prod.split)

lemma flat_pairs_simps:
  "key \<in> set ada_keys \<Longrightarrow> flat_pairs (key, val) = []"
  "key \<notin> set ada_keys \<Longrightarrow> flat_pairs (key, JDict inner) = map (\<lambda>(n, q). (key @ ''.'' @ n, q)) inner"
  "key \<notin> set ada_keys \<Longrightarrow> \<not> is_dict val \<Longrightarrow> flat_pairs (key, val) = [(key, val)]"
  by (auto simp: flat_pairs_def is_dict_def split: json.split)

lemma flatten_entries_eq:
  "flatten_entries entries assets =
     (if list_all (finite_num \<circ> snd) (concat (map flat_pairs entries))
      then Inr (store (concat (map flat_pairs entries)) assets) else Inl OverflowError)"
proof (induction entries arbitrary: assets)
  case (Cons e entries)
  obtain key val where e: "e = (key, val)" by fastforce
  show ?case
  proof (cases "key \<in> set ada_keys")
    case True
    then show ?thesis using Cons by (simp add: e flat_pairs_simps(1))
  next
    case False
    show ?thesis
    proof (cases "\<exists>inner. val = JDict inner")
      case True
      then show ?thesis
        using Cons False by (auto simp: e flat_pairs_simps(2) flatten_bundle_eq store_def list.pred_map comp_def case_prod_beta)
    next
      case nodict: False
      then have "flatten_entries (e # entries) assets =
          rbind (int_or 0 val) (\<lambda>n. flatten_entries entries (AList.update key n assets))"
        using False by (cases val) (auto simp: e int_or_0)
      moreover have "\<not> is_dict val" using nodict by (cases val) (auto simp: is_dict_def)
      ultimately show ?thesis
        using Cons False by (simp add: e flat_pairs_simps(3) int_or_0 store_def)
    qed
  qed
qed (simp add: store_def)

lemma store_lookup:
  "distinct (map fst ps) \<Longrightarrow>
     map_of (store ps assets) k = (case map_of ps k of None \<Rightarrow> map_of assets k | Some q \<Rightarrow> Some (qty_of q))"
  by (induction ps arbitrary: assets)
     (auto simp: store_def map_of_eq_None_iff rev_image_eqI split: option.split)

text \<open>Flattening a value keeps every asset.  When the flattened names do not collide, each asset
  of each policy is found under \<open>policy.name\<close> (a flat legacy entry under its own key) with its
  quantity, zero if it does not parse, nothing else is found, and the only payload on which the
  function raises is one that holds an infinite float.\<close>

theorem flatten_assets_spec:
  assumes "distinct (map fst (concat (map flat_pairs d)))"
  shows "(\<exists>a. flatten_assets (JDict d) = Inr a \<and>
              (\<forall>k. map_of a k = map_option qty_of (map_of (concat (map flat_pairs d)) k)))
    \<or> flatten_assets (JDict d) = Inl OverflowError \<and> list_ex (Not \<circ> finite_num \<circ> snd) (concat (map flat_pairs d))"
proof (cases "list_all (finite_num \<circ> snd) (concat (map flat_pairs d))")
  case True
  then show ?thesis
    using store_lookup [OF assms, of "[]"]
    by (auto simp: flatten_assets_def flatten_entries_eq split: option.split)
next
  case False
  then show ?thesis by (auto simp: flatten_assets_def flatten_entries_eq list_all_iff list_ex_iff)
qed

definition sample_value :: "(string, json) dict" where
  "sample_value = [(''ada'', JDict [(''lovelace'', JInt 5)]), (''p'', JDict [(''n'', JInt 7), (''m'', JStr ''x'')]), (''flat'', JStr ''12'')]"

theorem flatten_assets_spec_witness:
  "flatten_assets (JDict sample_value) = Inr [(''p.n'', 7), (''p.m'', 0), (''flat'', 12)] \<and>
   (\<exists>a. flatten_assets (JDict sample_value) = Inr a \<and> map_of a ''p.n'' = Some 7)"
proof -
  have d: "distinct (map fst (concat (map flat_pairs sample_value)))" by code_simp
  have v: "flatten_assets (JDict sample_value) = Inr [(''p.n'', 7), (''p.m'', 0), (''flat'', 12)]" by code_simp
  have q: "map_option qty_of (map_of (concat (map flat_pairs sample_value)) ''p.n'') = Some 7" by code_simp
  from flatten_assets_spec [OF d] v q show ?thesis by auto
qed

text \<open>The two schema versions agree on the lovelace of a value.\<close>

lemma lovelace_versions:
  "field d ''ada'' = JDict [(''lovelace'', n)] \<Longrightarrow> \<not> is_dict (field d' ''ada'') \<Longrightarrow> dict_get d' ''lovelace'' (JInt 0) = n \<Longrightarrow>
     extract_lovelace (JDict d) = extract_lovelace (JDict d')"
  by (auto simp: extract_lovelace_def is_dict_def dict_get_def split: json.splits)

lemma extract_lovelace_error: "extract_lovelace j = Inl e \<Longrightarrow> e = OverflowError"
  by (auto simp: extract_lovelace_def int_or_0 split: json.splits if_splits)

end
