(* ===== verification/Frames.thy ===== *)
theory Frames
  imports Features
begin

text \<open>
  Recovery of undecodable response frames (\<open>src/backend/app/ingestion/ogmios_rpc.py\<close>): the lexical
  scan of a block header, the bracket matcher that cuts the transaction array into its elements, the
  element-wise decoding, and the nesting depth for the quarantine record.

  The two regular expressions for numbers and the one for the block id are written out as matchers;
  \<open>json.loads\<close> is the parameter \<open>loads\<close>, \<open>None\<close> standing for the errors the code catches.
\<close>

section \<open>Searching text\<close>

text \<open>\<open>raw.find(sub, start)\<close>.\<close>

fun find_at :: "string \<Rightarrow> string \<Rightarrow> nat \<Rightarrow> nat option" where
  "find_at sub [] i = (if sub = [] then Some i else None)"
| "find_at sub (c # cs) i = (if startswith (c # cs) sub then Some i else find_at sub cs (i + 1))"

definition find_sub :: "string \<Rightarrow> string \<Rightarrow> nat \<Rightarrow> nat option" where
  "find_sub raw sub start = find_at sub (drop start raw) start"

definition BLOCK_KEY :: string where
  "BLOCK_KEY = [CHR 0x22] @ ''block'' @ [CHR 0x22] @ '':''"

definition TRANSACTIONS_KEY :: string where
  "TRANSACTIONS_KEY = [CHR 0x22] @ ''transactions'' @ [CHR 0x22]"

text \<open>A pattern \<open>"name"\s*:\s*\<close> at the head of a text: what follows it.\<close>

definition match_name :: "string \<Rightarrow> string \<Rightarrow> string option" where
  "match_name name s =
     (let quoted = [CHR 0x22] @ name @ [CHR 0x22]
      in if startswith s quoted
         then (case dropWhile py_isspace (drop (length quoted) s) of
                 [] \<Rightarrow> None
               | c # r \<Rightarrow> (if c = CHR '':'' then Some (dropWhile py_isspace r) else None))
         else None)"

definition hex_lower :: "char \<Rightarrow> bool" where
  "hex_lower c \<longleftrightarrow> 48 \<le> py_ord c \<and> py_ord c \<le> 57 \<or> 97 \<le> py_ord c \<and> py_ord c \<le> 102"

definition digit :: "char \<Rightarrow> bool" where
  "digit c \<longleftrightarrow> 48 \<le> py_ord c \<and> py_ord c \<le> 57"

definition match_block_id :: "string \<Rightarrow> string option" where
  "match_block_id s =
     (case match_name ''id'' s of
        Some (q # r) \<Rightarrow>
          (if q = CHR 0x22 \<and> length (take 64 r) = 64 \<and> list_all hex_lower (take 64 r) \<and> startswith (drop 64 r) [CHR 0x22]
           then Some (take 64 r) else None)
      | _ \<Rightarrow> None)"

definition match_number :: "string \<Rightarrow> string \<Rightarrow> string option" where
  "match_number name s =
     (case match_name name s of
        Some r \<Rightarrow> (if takeWhile digit r = [] then None else Some (takeWhile digit r))
      | None \<Rightarrow> None)"

text \<open>\<open>re.search\<close>: the first position at which the pattern matches.\<close>

fun re_search :: "(string \<Rightarrow> 'a option) \<Rightarrow> string \<Rightarrow> 'a option" where
  "re_search m [] = m []"
| "re_search m (c # cs) = (case m (c # cs) of Some x \<Rightarrow> Some x | None \<Rightarrow> re_search m cs)"

record block_header =
  hdr_id :: "string option"
  hdr_slot :: "int option"
  hdr_height :: "int option"

definition opt_int :: "string option \<Rightarrow> int option result" where
  "opt_int m = (case m of None \<Rightarrow> Inr None | Some ds \<Rightarrow> rbind (py_int_str ds) (\<lambda>n. Inr (Some n)))"

definition header_segment :: "string \<Rightarrow> string option" where
  "header_segment raw =
     (case find_sub raw BLOCK_KEY 0 of
        None \<Rightarrow> None
      | Some start \<Rightarrow>
          (case find_sub raw TRANSACTIONS_KEY start of
             Some end' \<Rightarrow> (if end' > start then Some (take (end' - start) (drop start raw)) else Some (drop start raw))
           | None \<Rightarrow> Some (drop start raw)))"

definition scan_block_header :: "string \<Rightarrow> block_header result" where
  "scan_block_header raw =
     (case header_segment raw of
        None \<Rightarrow> Inr \<lparr>hdr_id = None, hdr_slot = None, hdr_height = None\<rparr>
      | Some header \<Rightarrow>
          rbind (opt_int (re_search (match_number ''slot'') header)) (\<lambda>s.
          rbind (opt_int (re_search (match_number ''height'') header)) (\<lambda>h.
            Inr \<lparr>hdr_id = re_search match_block_id header, hdr_slot = s, hdr_height = h\<rparr>)))"

section \<open>Cutting an array into its elements\<close>

definition opens :: "char \<Rightarrow> bool" where
  "opens c \<longleftrightarrow> c = CHR ''['' \<or> c = CHR ''{''"

definition closes :: "char \<Rightarrow> bool" where
  "closes c \<longleftrightarrow> c = CHR '']'' \<or> c = CHR ''}''"

text \<open>The loop from position \<open>i\<close> over the remaining characters of \<open>raw\<close>; \<open>es\<close> is \<open>element_start\<close>.\<close>

fun split_loop ::
  "string \<Rightarrow> nat \<Rightarrow> string \<Rightarrow> int \<Rightarrow> nat option \<Rightarrow> bool \<Rightarrow> bool \<Rightarrow> string list \<Rightarrow> string list" where
  "split_loop raw i [] depth es in_string escaped elements = elements"
| "split_loop raw i (ch # chs) depth es in_string escaped elements =
     (if in_string then
        (if escaped then split_loop raw (i + 1) chs depth es True False elements
         else if ch = CHR 0x5C then split_loop raw (i + 1) chs depth es True True elements
         else if ch = CHR 0x22 then split_loop raw (i + 1) chs depth es False False elements
         else split_loop raw (i + 1) chs depth es True False elements)
      else if ch = CHR 0x22 then split_loop raw (i + 1) chs depth es True escaped elements
      else if opens ch then
        split_loop raw (i + 1) chs (depth + 1) (if depth + 1 = 2 \<and> es = None then Some i else es) False escaped elements
      else if closes ch then
        (case es of
           Some st \<Rightarrow>
             (if depth - 1 = 1
              then split_loop raw (i + 1) chs (depth - 1) None False escaped (elements @ [take (i + 1 - st) (drop st raw)])
              else if depth - 1 = 0 then elements
              else split_loop raw (i + 1) chs (depth - 1) es False escaped elements)
         | None \<Rightarrow>
             (if depth - 1 = 0 then elements
              else split_loop raw (i + 1) chs (depth - 1) es False escaped elements))
      else split_loop raw (i + 1) chs depth es False escaped elements)"

definition split_array_elements :: "string \<Rightarrow> string \<Rightarrow> string list" where
  "split_array_elements raw key =
     (case find_sub raw key 0 of
        None \<Rightarrow> []
      | Some key_at \<Rightarrow>
          (case find_sub raw ''['' key_at of
             None \<Rightarrow> []
           | Some start \<Rightarrow> split_loop raw start (drop start raw) 0 None False False []))"

fun recover_elements :: "(string \<Rightarrow> json option) \<Rightarrow> string list \<Rightarrow> json list \<Rightarrow> int \<Rightarrow> json list \<times> int" where
  "recover_elements loads [] decoded lost = (decoded, lost)"
| "recover_elements loads (e # es) decoded lost =
     (case loads e of
        Some j \<Rightarrow> recover_elements loads es (decoded @ [j]) lost
      | None \<Rightarrow> recover_elements loads es decoded (lost + 1))"

definition recover_transactions :: "(string \<Rightarrow> json option) \<Rightarrow> string \<Rightarrow> json list \<times> int" where
  "recover_transactions loads raw = recover_elements loads (split_array_elements raw TRANSACTIONS_KEY) [] 0"

fun depth_loop :: "string \<Rightarrow> int \<Rightarrow> int \<Rightarrow> bool \<Rightarrow> bool \<Rightarrow> int" where
  "depth_loop [] depth deepest in_string escaped = deepest"
| "depth_loop (ch # chs) depth deepest in_string escaped =
     (if in_string then
        (if escaped then depth_loop chs depth deepest True False
         else if ch = CHR 0x5C then depth_loop chs depth deepest True True
         else if ch = CHR 0x22 then depth_loop chs depth deepest False False
         else depth_loop chs depth deepest True False)
      else if ch = CHR 0x22 then depth_loop chs depth deepest True escaped
      else if opens ch then depth_loop chs (depth + 1) (max deepest (depth + 1)) False escaped
      else if closes ch then depth_loop chs (depth - 1) deepest False escaped
      else depth_loop chs depth deepest False escaped)"

definition max_nesting_depth :: "string \<Rightarrow> int" where
  "max_nesting_depth raw = depth_loop raw 0 0 False False"

section \<open>Balanced texts\<close>

text \<open>The body of a JSON string, up to its closing quote; and the texts in which brackets outside
  strings match.  Every JSON value is such a text, whatever its depth.\<close>

inductive string_body :: "string \<Rightarrow> bool" where
  empty: "string_body []"
| plain: "c \<noteq> CHR 0x22 \<Longrightarrow> c \<noteq> CHR 0x5C \<Longrightarrow> string_body s \<Longrightarrow> string_body (c # s)"
| escape: "string_body s \<Longrightarrow> string_body (CHR 0x5C # c # s)"

definition bland :: "char \<Rightarrow> bool" where
  "bland c \<longleftrightarrow> c \<noteq> CHR 0x22 \<and> \<not> opens c \<and> \<not> closes c"

inductive balanced :: "string \<Rightarrow> bool" where
  empty: "balanced []"
| plain: "bland c \<Longrightarrow> balanced t \<Longrightarrow> balanced (c # t)"
| quoted: "string_body b \<Longrightarrow> balanced t \<Longrightarrow> balanced (CHR 0x22 # b @ CHR 0x22 # t)"
| nested: "opens o' \<Longrightarrow> closes k \<Longrightarrow> balanced s \<Longrightarrow> balanced t \<Longrightarrow> balanced (o' # s @ k # t)"

text \<open>An array or object.\<close>

definition element :: "string \<Rightarrow> bool" where
  "element e \<longleftrightarrow> (\<exists>o' s k. opens o' \<and> closes k \<and> balanced s \<and> e = o' # s @ [k])"

lemma opens_props: "opens c \<Longrightarrow> c \<noteq> CHR 0x22 \<and> \<not> closes c"
  by (auto simp: opens_def closes_def)

lemma closes_props: "closes c \<Longrightarrow> c \<noteq> CHR 0x22 \<and> \<not> opens c"
  by (auto simp: opens_def closes_def)

lemma split_string_body:
  "string_body b \<Longrightarrow>
     split_loop raw i (b @ CHR 0x22 # rest) depth es True False els =
       split_loop raw (i + length b + 1) rest depth es False False els"
  by (induction arbitrary: i rule: string_body.induct) auto

lemma split_balanced:
  "balanced s \<Longrightarrow> 2 \<le> depth \<Longrightarrow>
     split_loop raw i (s @ rest) depth (Some st) False False els =
       split_loop raw (i + length s) rest depth (Some st) False False els"
proof (induction arbitrary: i depth rest rule: balanced.induct)
  case (plain c t)
  then show ?case by (simp add: bland_def)
next
  case (quoted b t)
  then show ?case by (simp add: split_string_body ac_simps)
next
  case (nested o' k s t)
  then show ?case
    using opens_props [of o'] closes_props [of k] by (simp add: ac_simps)
qed simp

lemma split_bland:
  "list_all bland s \<Longrightarrow>
     split_loop raw i (s @ rest) depth es False False els = split_loop raw (i + length s) rest depth es False False els"
  by (induction s arbitrary: i) (auto simp: bland_def)

lemma split_element:
  assumes "element e" and "drop i raw = e @ rest"
  shows "split_loop raw i (e @ rest) 1 None False False els =
    split_loop raw (i + length e) rest 1 None False False (els @ [e])"
proof -
  obtain o' s k where e: "opens o'" "closes k" "balanced s" "e = o' # s @ [k]"
    using assms(1) by (auto simp: element_def)
  have "take (length e) (drop i raw) = e" by (simp add: assms(2))
  moreover have "Suc (Suc (i + length s)) - i = length e" by (simp add: e(4))
  ultimately show ?thesis
    using split_balanced [OF e(3), of 2 raw "i + 1" "k # rest" i els] opens_props [OF e(1)] closes_props [OF e(2)] e
    by simp
qed

text \<open>An array of elements, each after a bracket-free separator.\<close>

definition join_elements :: "(string \<times> string) list \<Rightarrow> string" where
  "join_elements ps = concat (map (\<lambda>(sep, e). sep @ e) ps)"

lemma split_elements:
  assumes "\<forall>(sep, e) \<in> set ps. list_all bland sep \<and> element e"
    and "drop i raw = join_elements ps @ rest"
  shows "split_loop raw i (join_elements ps @ rest) 1 None False False els =
    split_loop raw (i + length (join_elements ps)) rest 1 None False False (els @ map snd ps)"
  using assms
proof (induction ps arbitrary: i els)
  case (Cons p ps)
  obtain sep e where p: "p = (sep, e)" by fastforce
  have ok: "list_all bland sep" "element e" using Cons.prems(1) by (auto simp: p)
  have drop_i: "drop i raw = sep @ e @ join_elements ps @ rest"
    using Cons.prems(2) by (simp add: p join_elements_def)
  then have d1: "drop (i + length sep) raw = e @ join_elements ps @ rest"
    by (metis append_eq_conv_conj drop_drop add.commute)
  then have d2: "drop (i + length sep + length e) raw = join_elements ps @ rest"
    by (metis append_eq_conv_conj drop_drop add.commute)
  have "split_loop raw i (sep @ e @ join_elements ps @ rest) 1 None False False els =
      split_loop raw (i + length sep + length e) (join_elements ps @ rest) 1 None False False (els @ [e])"
    using split_bland [OF ok(1)] split_element [OF ok(2) d1] by simp
  also have "\<dots> = split_loop raw (i + length sep + length e + length (join_elements ps)) rest 1 None False False
      ((els @ [e]) @ map snd ps)"
    using Cons.prems(1) d2 by (intro Cons.IH) auto
  finally show ?case by (simp add: p join_elements_def ac_simps)
qed (simp add: join_elements_def)

lemma find_at_append:
  assumes "\<And>j. j < length pre \<Longrightarrow> \<not> startswith (drop j (pre @ sub @ rest)) sub" "sub \<noteq> []"
  shows "find_at sub (pre @ sub @ rest) i = Some (i + length pre)"
  using assms(1)
proof (induction pre arbitrary: i)
  case Nil
  obtain c cs where "sub = c # cs" using assms(2) by (cases sub) auto
  then show ?case by (simp add: startswith_def)
next
  case (Cons c pre)
  have "\<not> startswith (c # pre @ sub @ rest) sub" using Cons.prems [of 0] by simp
  moreover have "find_at sub (pre @ sub @ rest) (i + 1) = Some (i + 1 + length pre)"
    using Cons.prems [of "Suc j" for j] by (intro Cons.IH) auto
  ultimately show ?case by simp
qed

lemma recover_elements_eq:
  "recover_elements loads es decoded lost =
     (decoded @ List.map_filter loads es, lost + int (length (filter (\<lambda>e. loads e = None) es)))"
  by (induction es arbitrary: decoded lost) (auto simp: List.map_filter_def split: option.split)

lemma find_bracket:
  assumes "CHR ''['' \<notin> set gap"
  shows "find_at ''['' (gap @ CHR ''['' # rest) i = Some (i + length gap)"
  using find_at_append [of gap "''[''" rest i] assms
  by (auto simp: startswith_def nth_append take_Suc_conv_app_nth [of 0] Cons_nth_drop_Suc [symmetric] in_set_conv_nth)

text \<open>C32: recovery loses no transaction it could have kept.  For a frame whose transactions key stands
  before an array of JSON arrays or objects (nested to any depth, with brackets and escaped quotes in
  their strings), the cut returns exactly those elements in order; the transactions recovered are
  exactly those that decode, in order, and the count of lost ones is the number that do not.\<close>

theorem recover_transactions_spec:
  assumes frame: "raw = pre @ TRANSACTIONS_KEY @ gap @ ''['' @ join_elements ps @ sep @ '']'' @ post"
    and first: "\<forall>j < length pre. \<not> startswith (drop j raw) TRANSACTIONS_KEY"
    and gap: "CHR ''['' \<notin> set gap"
    and elems: "\<forall>(sep, e) \<in> set ps. list_all bland sep \<and> element e" and last_sep: "list_all bland sep"
  shows "split_array_elements raw TRANSACTIONS_KEY = map snd ps
    \<and> recover_transactions loads raw =
        (List.map_filter loads (map snd ps), int (length (filter (\<lambda>e. loads e = None) (map snd ps))))"
proof -
  let ?k = TRANSACTIONS_KEY and ?body = "join_elements ps @ sep @ '']'' @ post"
  have key: "find_sub raw ?k 0 = Some (length pre)"
    using find_at_append [of pre ?k "gap @ ''['' @ ?body" 0] first
    by (simp add: find_sub_def frame TRANSACTIONS_KEY_def)
  have "find_at ''['' ((?k @ gap) @ CHR ''['' # ?body) (length pre) = Some (length pre + length (?k @ gap))"
    by (rule find_bracket) (use gap in \<open>simp add: TRANSACTIONS_KEY_def\<close>)
  then have start: "find_sub raw ''['' (length pre) = Some (length pre + length (?k @ gap))"
    by (simp add: find_sub_def frame)
  define i where "i = length pre + length (?k @ gap)"
  have d: "drop i raw = ''['' @ ?body" by (simp add: i_def frame)
  then have d1: "drop (i + 1) raw = join_elements ps @ (sep @ '']'' @ post)"
    by (metis One_nat_def append_Cons append_Nil drop_Suc_Cons drop0 drop_drop plus_1_eq_Suc)
  have "split_loop raw i (''['' @ ?body) 0 None False False [] =
      split_loop raw (i + 1) (join_elements ps @ (sep @ '']'' @ post)) 1 None False False []"
    by (simp add: opens_def)
  also have "\<dots> = split_loop raw (i + 1 + length (join_elements ps)) (sep @ '']'' @ post) 1 None False False (map snd ps)"
    using split_elements [OF elems d1, of "[]"] by simp
  also have "\<dots> = map snd ps" using split_bland [OF last_sep] by (simp add: opens_def closes_def)
  finally have "split_array_elements raw ?k = map snd ps"
    using key start d by (simp add: split_array_elements_def i_def)
  then show ?thesis by (simp add: recover_transactions_def recover_elements_eq)
qed

definition sample_element :: string where
  "sample_element = ''{'' @ [CHR 0x22] @ '']'' @ [CHR 0x22] @ ''}''"

lemma sample_element_ok: "element sample_element" "element ''{[]}''"
proof -
  have b: "string_body '']''" by (intro string_body.intros) auto
  have s: "sample_element = CHR ''{'' # (CHR 0x22 # '']'' @ CHR 0x22 # []) @ [CHR ''}'']"
    by (simp add: sample_element_def)
  show "element sample_element"
    unfolding element_def s using balanced.quoted [OF b balanced.empty] by (blast intro: opens_def [THEN iffD2] closes_def [THEN iffD2])
  have "balanced (CHR ''['' # [] @ CHR '']'' # [])"
    by (intro balanced.nested balanced.empty) (simp_all add: opens_def closes_def)
  then show "element ''{[]}''"
    unfolding element_def by (intro exI [of _ "CHR ''{''"] exI [of _ "''[]''"] exI [of _ "CHR ''}''"])
      (simp add: opens_def closes_def)
qed

theorem recover_transactions_spec_witness:
  "split_array_elements (''{'' @ TRANSACTIONS_KEY @ '':'' @ ''['' @ join_elements [([], sample_element), ('','', ''{[]}'')] @ [] @ '']'' @ ''}'')
     TRANSACTIONS_KEY = [sample_element, ''{[]}'']"
proof -
  let ?raw = "''{'' @ TRANSACTIONS_KEY @ '':'' @ ''['' @ join_elements [([], sample_element), ('','', ''{[]}'')] @ [] @ '']'' @ ''}''"
  have "\<forall>j < length ''{''. \<not> startswith (drop j ?raw) TRANSACTIONS_KEY"
    by (simp add: startswith_def TRANSACTIONS_KEY_def)
  moreover have "\<forall>(sep, e) \<in> set [([], sample_element), ('','', ''{[]}'')]. list_all bland sep \<and> element e"
    using sample_element_ok by (simp add: bland_def opens_def closes_def)
  ultimately have "split_array_elements ?raw TRANSACTIONS_KEY = map snd [([], sample_element), ('','', ''{[]}'')]"
    using recover_transactions_spec [of ?raw "''{''" "'':''" "[([], sample_element), ('','', ''{[]}'')]" "[]" "''}''"]
    by simp
  then show ?thesis by simp
qed

end
