(* ===== verification/Transactions.thy ===== *)
theory Transactions
  imports Features
begin

text \<open>
  Normalised transactions (\<open>src/backend/app/models/transaction.py\<close>), the parser of Ogmios payloads
  (\<open>ingestion/ogmios_parser.py\<close>) and the resolution of input amounts
  (\<open>ingestion/input_enrichment.py\<close>).

  The models are validated by pydantic, which is not part of the program: \<open>vint\<close> stands for its
  validation of an \<open>int\<close> field (it returns the integer or raises), and the \<open>str\<close> fields accept exactly
  strings.  \<open>str_of\<close> is \<open>str\<close> of a JSON value that is not a string.  Sets of addresses are lists without
  repetition, in the order of insertion.
\<close>

section \<open>The models\<close>

type_synonym out_ref = "string \<times> int"

record tx_input =
  in_tx_hash :: string
  in_index :: int
  in_address :: string
  in_amount :: int
  in_assets :: "(string, int) dict option"
  is_reference :: bool
  in_is_collateral :: bool
  is_unspent_attempt :: bool

definition consumed_by_ledger :: "tx_input \<Rightarrow> bool \<Rightarrow> bool" where
  "consumed_by_ledger inp script_valid =
     (if is_reference inp then False
      else if script_valid then \<not> in_is_collateral inp \<and> \<not> is_unspent_attempt inp
      else in_is_collateral inp)"

record tx_output =
  out_address :: string
  out_amount :: int
  out_assets :: "(string, int) dict option"
  out_is_collateral :: bool
  output_index :: "int option"

record ntx =
  tx_hash :: string
  slot :: "int option"
  block_height :: "int option"
  block_hash :: "string option"
  block_index :: "int option"
  timestamp :: int
  fee :: int
  deposit :: "int option"
  inputs :: "tx_input list"
  outputs :: "tx_output list"
  input_count :: int
  output_count :: int
  total_input_value :: "int option"
  total_output_value :: int
  withdrawal_total :: int
  addresses :: "string list"
  metadata :: "(string, json) dict option"
  script_valid :: bool
  raw_data :: "(string, json) dict"

section \<open>The parser\<close>

definition vstr :: "json \<Rightarrow> string result" where
  "vstr j = (case j of JStr s \<Rightarrow> Inr s | _ \<Rightarrow> Inl ValueError)"

definition ogmios_input_ref :: "(json \<Rightarrow> string) \<Rightarrow> json \<Rightarrow> (json \<times> json) result" where
  "ogmios_input_ref str_of inp =
     rbind (jget inp ''transaction'' (JDict [])) (\<lambda>inp_tx.
     rbind (jget inp ''index'' (JInt 0)) (\<lambda>index.
       Inr (case inp_tx of
              JDict d \<Rightarrow> dict_get d ''id'' (JStr [])
            | JStr s \<Rightarrow> JStr s
            | _ \<Rightarrow> JStr (str_of inp_tx), index)))"

definition parse_input ::
  "(json \<Rightarrow> string) \<Rightarrow> (json \<Rightarrow> int result) \<Rightarrow> bool \<Rightarrow> bool \<Rightarrow> bool \<Rightarrow> json \<Rightarrow> tx_input result" where
  "parse_input str_of vint reference collateral attempt inp =
     rbind (ogmios_input_ref str_of inp) (\<lambda>(h, i).
     rbind (vstr h) (\<lambda>h. rbind (vint i) (\<lambda>i.
       Inr \<lparr>in_tx_hash = h, in_index = i, in_address = [], in_amount = 0, in_assets = None,
            is_reference = reference, in_is_collateral = collateral, is_unspent_attempt = attempt\<rparr>)))"

definition parse_inputs ::
  "(json \<Rightarrow> string) \<Rightarrow> (json \<Rightarrow> int result) \<Rightarrow> bool \<Rightarrow> (string, json) dict \<Rightarrow> tx_input list result" where
  "parse_inputs str_of vint valid tx_data =
     rbind (rbind (iter_json (dict_get tx_data ''inputs'' (JList [])))
              (rmap (parse_input str_of vint False False (\<not> valid)))) (\<lambda>regular.
     rbind (rbind (iter_json (dict_get tx_data ''references'' (JList [])))
              (rmap (parse_input str_of vint True False False))) (\<lambda>references.
     rbind (rbind (iter_json (dict_get tx_data ''collaterals'' (JList [])))
              (rmap (parse_input str_of vint False True False))) (\<lambda>collaterals.
       Inr (regular @ references @ collaterals))))"

definition some_if_any :: "(string, int) dict \<Rightarrow> (string, int) dict option" where
  "some_if_any assets = (if assets = [] then None else Some assets)"

definition hashable :: "json \<Rightarrow> bool" where
  "hashable j = (case j of JList _ \<Rightarrow> False | JDict _ \<Rightarrow> False | _ \<Rightarrow> True)"

definition parse_output :: "bool \<Rightarrow> int option \<Rightarrow> json \<Rightarrow> tx_output result" where
  "parse_output collateral index out =
     rbind (jget out ''address'' (JStr [])) (\<lambda>address.
     rbind (jget out ''value'' (JDict [])) (\<lambda>value.
     if \<not> hashable address then Inl TypeError
     else rbind (extract_lovelace value) (\<lambda>lovelace.
          rbind (flatten_assets value) (\<lambda>assets.
          rbind (vstr address) (\<lambda>address.
            Inr \<lparr>out_address = address, out_amount = lovelace, out_assets = some_if_any assets,
                 out_is_collateral = collateral, output_index = index\<rparr>)))))"

definition parse_outputs :: "bool \<Rightarrow> (string, json) dict \<Rightarrow> tx_output list result" where
  "parse_outputs valid tx_data =
     (if valid
      then rbind (iter_json (dict_get tx_data ''outputs'' (JList []))) (rmap (parse_output False None))
      else
        let collateral_return = field tx_data ''collateralReturn''
        in if \<not> truthy collateral_return then Inr []
           else case collateral_return of
                  JDict _ \<Rightarrow>
                    rbind (json_len (dict_get tx_data ''outputs'' (JList []))) (\<lambda>n.
                    rbind (parse_output True (Some n) collateral_return) (\<lambda>out. Inr [out]))
                | _ \<Rightarrow> Inl AttributeError)"

text \<open>\<open>s.add(x)\<close> on a set kept as a list.\<close>

definition set_add :: "'a list \<Rightarrow> 'a \<Rightarrow> 'a list" where
  "set_add xs x = (if x \<in> set xs then xs else xs @ [x])"

definition reward_addresses :: "(string, json) dict \<Rightarrow> string list" where
  "reward_addresses tx_data =
     (case field tx_data ''withdrawals'' of JDict ws \<Rightarrow> filter (\<lambda>a. a \<noteq> []) (map fst ws) | _ \<Rightarrow> [])"

definition parse_metadata :: "(string, json) dict \<Rightarrow> (string, json) dict option result" where
  "parse_metadata tx_data =
     (let meta_raw = field tx_data ''metadata''
      in if \<not> truthy meta_raw then Inr None
         else
           let labels = (case meta_raw of JDict d \<Rightarrow> dict_get d ''labels'' meta_raw | _ \<Rightarrow> JDict [])
           in if \<not> truthy labels then Inr None
              else case labels of
                     JDict ls \<Rightarrow>
                       Inr (Some (map (\<lambda>(label, content). (label,
                         case content of JDict c \<Rightarrow> dict_get c ''json'' content | _ \<Rightarrow> content)) ls))
                   | _ \<Rightarrow> Inl AttributeError)"

definition parse_ogmios_transaction ::
  "(json \<Rightarrow> string) \<Rightarrow> (json \<Rightarrow> int result) \<Rightarrow> (string, json) dict \<Rightarrow> int option \<Rightarrow> string option \<Rightarrow> int option \<Rightarrow>
     int option \<Rightarrow> int option \<Rightarrow> int \<Rightarrow> ntx result" where
  "parse_ogmios_transaction str_of vint tx_data b_slot b_hash b_height ts b_index now =
     (let valid = (dict_get tx_data ''spends'' (JStr ''inputs'') \<noteq> JStr ''collaterals'')
      in rbind (extract_fee (JDict tx_data)) (\<lambda>f.
         rbind (parse_inputs str_of vint valid tx_data) (\<lambda>ins.
         rbind (parse_outputs valid tx_data) (\<lambda>outs.
         rbind (total_withdrawal_lovelace (JDict tx_data)) (\<lambda>withdrawn.
         rbind (parse_metadata tx_data) (\<lambda>meta.
         rbind (case field tx_data ''deposit'' of JNull \<Rightarrow> Inr None | d \<Rightarrow> rbind (extract_lovelace d) (\<lambda>n. Inr (Some n))) (\<lambda>dep.
         rbind (vstr (dict_get tx_data ''id'' (JStr []))) (\<lambda>h.
           Inr \<lparr>tx_hash = h, slot = b_slot, block_height = b_height, block_hash = b_hash, block_index = b_index,
                timestamp = (case ts of None \<Rightarrow> now | Some t \<Rightarrow> t), fee = f, deposit = dep,
                inputs = ins, outputs = outs,
                input_count = int (length (filter (\<lambda>i. consumed_by_ledger i valid) ins)),
                output_count = int (length outs), total_input_value = None,
                total_output_value = sum_list (map out_amount outs), withdrawal_total = withdrawn,
                addresses = foldl set_add [] (map out_address outs @
                  filter (\<lambda>a. a \<noteq> []) (map in_address ins) @ reward_addresses tx_data),
                metadata = meta, script_valid = valid, raw_data = tx_data\<rparr>))))))))"

section \<open>Resolving inputs\<close>

type_synonym resolved_ref = "string \<times> int \<times> (string, int) dict option"

definition tx_withdrawal :: "ntx \<Rightarrow> int" where
  "tx_withdrawal tx = (if script_valid tx then withdrawal_total tx else 0)"

definition flow_addresses :: "bool \<Rightarrow> tx_input list \<Rightarrow> string list" where
  "flow_addresses valid ins =
     foldl set_add [] (map in_address (filter (\<lambda>i. in_address i \<noteq> [] \<and> \<not> is_reference i \<and>
       (\<not> in_is_collateral i \<or> \<not> valid)) ins))"

text \<open>The loop of \<open>_resolve_tx_inputs\<close> over the remaining inputs, with its accumulators.\<close>

fun resolve_loop ::
  "bool \<Rightarrow> (out_ref \<Rightarrow> resolved_ref option) \<Rightarrow> tx_input list \<Rightarrow> tx_input list \<Rightarrow> int \<Rightarrow> bool \<Rightarrow> tx_input list \<times> int \<times> bool" where
  "resolve_loop valid lookup [] new_inputs tot changed = (new_inputs, tot, changed)"
| "resolve_loop valid lookup (inp # rest) new_inputs tot changed =
     (if is_reference inp then resolve_loop valid lookup rest (new_inputs @ [inp]) tot changed
      else if in_amount inp > 0
      then resolve_loop valid lookup rest (new_inputs @ [inp])
             (if consumed_by_ledger inp valid then tot + in_amount inp else tot) changed
      else case lookup (in_tx_hash inp, in_index inp) of
             None \<Rightarrow> resolve_loop valid lookup rest (new_inputs @ [inp]) tot changed
           | Some (addr, amt, assets) \<Rightarrow>
               (let inp = inp\<lparr>in_address := addr, in_amount := amt,
                              in_assets := (case assets of None \<Rightarrow> in_assets inp | Some a \<Rightarrow> Some a)\<rparr>
                in resolve_loop valid lookup rest (new_inputs @ [inp])
                     (if consumed_by_ledger inp valid then tot + amt else tot) True))"

definition resolve_tx_inputs :: "ntx \<Rightarrow> (out_ref \<Rightarrow> resolved_ref option) \<Rightarrow> tx_input list \<times> int \<times> bool" where
  "resolve_tx_inputs tx lookup = resolve_loop (script_valid tx) lookup (inputs tx) [] (tx_withdrawal tx) False"

definition positive :: "int \<Rightarrow> int option" where
  "positive n = (if n > 0 then Some n else None)"

definition with_inputs :: "tx_input list \<Rightarrow> int \<Rightarrow> ntx \<Rightarrow> ntx" where
  "with_inputs new_inputs tot tx =
     tx\<lparr>inputs := new_inputs, total_input_value := positive tot,
        addresses := foldl set_add (addresses tx) (flow_addresses (script_valid tx) new_inputs)\<rparr>"

definition apply_resolved_inputs :: "ntx \<Rightarrow> (out_ref, resolved_ref) dict \<Rightarrow> ntx" where
  "apply_resolved_inputs tx resolved =
     (case resolve_tx_inputs tx (map_of resolved) of (new_inputs, tot, _) \<Rightarrow> with_inputs new_inputs tot tx)"

definition enumerate_outputs :: "ntx \<Rightarrow> (out_ref \<times> string \<times> int) list" where
  "enumerate_outputs tx =
     map (\<lambda>(idx, out). ((tx_hash tx, case output_index out of None \<Rightarrow> int idx | Some i \<Rightarrow> i), out_address out, out_amount out))
       (enumerate 0 (outputs tx))"

definition intra_block :: "ntx list \<Rightarrow> (out_ref, string \<times> int) dict" where
  "intra_block txs = foldl (\<lambda>m (r, v). AList.update r v m) [] (concat (map enumerate_outputs txs))"

definition cross_block_refs :: "ntx list \<Rightarrow> out_ref list" where
  "cross_block_refs txs =
     concat (map (\<lambda>tx. map (\<lambda>inp. (in_tx_hash inp, in_index inp))
       (filter (\<lambda>inp. \<not> is_reference inp \<and> \<not> (in_is_collateral inp \<and> script_valid tx) \<and> \<not> in_amount inp > 0 \<and>
          map_of (intra_block txs) (in_tx_hash inp, in_index inp) = None) (inputs tx))) txs)"

text \<open>\<open>get_outputs\<close> is the batch lookup in ClickHouse.\<close>

definition block_lookup ::
  "(out_ref list \<Rightarrow> (out_ref, string \<times> int) dict) \<Rightarrow> ntx list \<Rightarrow> out_ref \<Rightarrow> resolved_ref option" where
  "block_lookup get_outputs txs ref =
     (let refs = cross_block_refs txs;
          ch_resolved = (if refs = [] then [] else get_outputs refs)
      in map_option (\<lambda>(addr, amt). (addr, amt, None))
           (case map_of (intra_block txs) ref of Some v \<Rightarrow> Some v | None \<Rightarrow> map_of ch_resolved ref))"

definition resolve_input_amounts ::
  "(out_ref list \<Rightarrow> (out_ref, string \<times> int) dict) \<Rightarrow> ntx list \<Rightarrow> ntx list" where
  "resolve_input_amounts get_outputs txs =
     map (\<lambda>tx. case resolve_tx_inputs tx (block_lookup get_outputs txs) of
                 (new_inputs, tot, changed) \<Rightarrow>
                   if changed \<or> tx_withdrawal tx > 0 then with_inputs new_inputs tot tx else tx) txs"

definition parse_resolved_utxo :: "json \<Rightarrow> ((json \<times> json) \<times> json \<times> int \<times> (string, int) dict option) result" where
  "parse_resolved_utxo utxo =
     rbind (jget utxo ''transaction'' (JDict [])) (\<lambda>utxo_tx.
     rbind (jget utxo ''index'' (JInt 0)) (\<lambda>index.
     rbind (jget utxo ''value'' (JDict [])) (\<lambda>val.
     rbind (jget utxo ''address'' (JStr [])) (\<lambda>address.
     rbind (flatten_assets val) (\<lambda>assets.
     rbind (extract_lovelace val) (\<lambda>amount.
       Inr ((case utxo_tx of JDict d \<Rightarrow> dict_get d ''id'' (JStr []) | _ \<Rightarrow> JStr [], index),
            address, amount, some_if_any assets)))))))"

section \<open>What the ledger consumed\<close>

lemma parse_input_flags:
  "parse_input str_of vint r c a j = Inr i \<Longrightarrow>
     is_reference i = r \<and> in_is_collateral i = c \<and> is_unspent_attempt i = a \<and> in_amount i = 0 \<and> in_address i = []"
  by (auto simp: parse_input_def rbind_eq_Inr_iff)

lemma rmap_parse_input:
  assumes "rmap (parse_input str_of vint r c a) js = Inr xs"
  shows "length xs = length js"
    "filter (\<lambda>i. consumed_by_ledger i v) xs = (if \<not> r \<and> (if v then \<not> c \<and> \<not> a else c) then xs else [])"
    "\<forall>i \<in> set xs. in_amount i = 0"
proof -
  have all: "list_all2 (\<lambda>j i. parse_input str_of vint r c a j = Inr i) js xs"
    using assms by (simp add: rmap_Inr_iff)
  then show "length xs = length js" by (simp add: list_all2_lengthD)
  have flags: "is_reference i = r \<and> in_is_collateral i = c \<and> is_unspent_attempt i = a \<and> in_amount i = 0"
    if "i \<in> set xs" for i
  proof -
    from that obtain n where "n < length xs" "i = xs ! n" by (auto simp: in_set_conv_nth)
    then have "parse_input str_of vint r c a (js ! n) = Inr i" using list_all2_nthD2 [OF all] by simp
    then show ?thesis by (blast dest: parse_input_flags)
  qed
  then show "\<forall>i \<in> set xs. in_amount i = 0" by blast
  show "filter (\<lambda>i. consumed_by_ledger i v) xs = (if \<not> r \<and> (if v then \<not> c \<and> \<not> a else c) then xs else [])"
    using flags by (auto simp: consumed_by_ledger_def filter_empty_conv intro!: filter_True)
qed

text \<open>C31: of a payload that parses, exactly the regular inputs count as consumed when the scripts
  validated and exactly the collaterals when they failed, never a reference input; the input count is
  the number of those entries, the output total is the sum of the outputs recorded, and a failed
  transaction records at most the collateral return, at the index after its regular outputs.\<close>

theorem parser_consumption:
  assumes "parse_ogmios_transaction str_of vint tx_data b_slot b_hash b_height ts b_index now = Inr tx"
    and "dict_get tx_data ''inputs'' (JList []) = JList ins" and "dict_get tx_data ''collaterals'' (JList []) = JList cols"
    and "dict_get tx_data ''outputs'' (JList []) = JList outs"
  shows "script_valid tx = (dict_get tx_data ''spends'' (JStr ''inputs'') \<noteq> JStr ''collaterals'')
    \<and> input_count tx = int (length (if script_valid tx then ins else cols))
    \<and> input_count tx = int (length (filter (\<lambda>i. consumed_by_ledger i (script_valid tx)) (inputs tx)))
    \<and> total_output_value tx = sum_list (map out_amount (outputs tx))
    \<and> (if script_valid tx then length (outputs tx) = length outs
       else \<forall>out \<in> set (outputs tx). length (outputs tx) = 1 \<and> out_is_collateral out \<and> output_index out = Some (int (length outs)))"
proof -
  define v where "v = (dict_get tx_data ''spends'' (JStr ''inputs'') \<noteq> JStr ''collaterals'')"
  obtain xs os where ins: "parse_inputs str_of vint v tx_data = Inr xs"
    and os: "parse_outputs v tx_data = Inr os"
    and tx: "inputs tx = xs" "outputs tx = os" "script_valid tx = v"
      "input_count tx = int (length (filter (\<lambda>i. consumed_by_ledger i v) xs))"
      "total_output_value tx = sum_list (map out_amount os)"
    using assms(1) by (auto simp: parse_ogmios_transaction_def v_def Let_def rbind_eq_Inr_iff)
  obtain reg refs cs js where parts: "xs = reg @ refs @ cs"
    "rmap (parse_input str_of vint False False (\<not> v)) ins = Inr reg"
    "rmap (parse_input str_of vint True False False) js = Inr refs"
    "rmap (parse_input str_of vint False True False) cols = Inr cs"
    using ins assms(2,3) by (auto simp: parse_inputs_def rbind_eq_Inr_iff iter_json_def)
  have "length (filter (\<lambda>i. consumed_by_ledger i v) xs) = length (if v then ins else cols)"
    using rmap_parse_input(1,2) [OF parts(2)] rmap_parse_input(1,2) [OF parts(3)] rmap_parse_input(1,2) [OF parts(4)]
    by (simp add: parts(1))
  moreover have "if v then length os = length outs
     else \<forall>out \<in> set os. length os = 1 \<and> out_is_collateral out \<and> output_index out = Some (int (length outs))"
    using os assms(4)
    by (auto simp: parse_outputs_def parse_output_def Let_def iter_json_def rbind_eq_Inr_iff rmap_Inr_iff json_len_def
          list_all2_lengthD split: if_splits json.splits)
  ultimately show ?thesis by (simp add: tx v_def)
qed

section \<open>What enrichment adds up\<close>

definition resolve_one :: "(out_ref \<Rightarrow> resolved_ref option) \<Rightarrow> tx_input \<Rightarrow> tx_input" where
  "resolve_one lookup inp =
     (if is_reference inp \<or> in_amount inp > 0 then inp
      else case lookup (in_tx_hash inp, in_index inp) of None \<Rightarrow> inp
           | Some (addr, amt, assets) \<Rightarrow>
               inp\<lparr>in_address := addr, in_amount := amt,
                   in_assets := (case assets of None \<Rightarrow> in_assets inp | Some a \<Rightarrow> Some a)\<rparr>)"

lemma resolve_one_keeps [simp]:
  "is_reference (resolve_one lookup i) = is_reference i"
  "in_is_collateral (resolve_one lookup i) = in_is_collateral i"
  "is_unspent_attempt (resolve_one lookup i) = is_unspent_attempt i"
  "in_tx_hash (resolve_one lookup i) = in_tx_hash i" "in_index (resolve_one lookup i) = in_index i"
  by (auto simp: resolve_one_def split: option.split)

lemma consumed_resolve_one [simp]: "consumed_by_ledger (resolve_one lookup i) v = consumed_by_ledger i v"
  by (simp add: consumed_by_ledger_def)

definition consumed_total :: "bool \<Rightarrow> tx_input list \<Rightarrow> int" where
  "consumed_total v ins = sum_list (map in_amount (filter (\<lambda>i. consumed_by_ledger i v) ins))"

lemma consumed_total_simps [simp]:
  "consumed_total v [] = 0"
  "consumed_total v (i # ins) = (if consumed_by_ledger i v then in_amount i else 0) + consumed_total v ins"
  by (simp_all add: consumed_total_def)

lemma resolve_one_cases:
  "is_reference i \<or> in_amount i > 0 \<Longrightarrow> resolve_one lookup i = i"
  "lookup (in_tx_hash i, in_index i) = None \<Longrightarrow> resolve_one lookup i = i"
  by (simp_all add: resolve_one_def)

lemma resolve_loop_step:
  assumes "in_amount i \<ge> 0"
  shows "\<exists>c. resolve_loop v lookup (i # ins) acc tot changed =
    resolve_loop v lookup ins (acc @ [resolve_one lookup i])
      (tot + consumed_total v [resolve_one lookup i]) c"
proof (cases "is_reference i \<or> in_amount i > 0")
  case True
  then show ?thesis
    by (intro exI [of _ changed]) (auto simp: resolve_one_cases(1) consumed_by_ledger_def)
next
  case False
  then have z: "in_amount i = 0" "\<not> is_reference i" using assms by auto
  show ?thesis
  proof (cases "lookup (in_tx_hash i, in_index i)")
    case None
    then show ?thesis using z by (intro exI [of _ changed]) (simp add: resolve_one_cases(2))
  next
    case (Some r)
    obtain addr amt assets where r: "r = (addr, amt, assets)" by (cases r)
    let ?j = "i\<lparr>in_address := addr, in_amount := amt,
           in_assets := (case assets of None \<Rightarrow> in_assets i | Some a \<Rightarrow> Some a)\<rparr>"
    have "resolve_one lookup i = ?j" using Some z by (simp add: resolve_one_def r)
    then show ?thesis using Some z by (intro exI [of _ True]) (simp add: r Let_def)
  qed
qed

lemma resolve_loop_eq:
  assumes "\<forall>i \<in> set ins. in_amount i \<ge> 0"
  shows "\<exists>c. resolve_loop v lookup ins acc tot changed =
    (acc @ map (resolve_one lookup) ins, tot + consumed_total v (map (resolve_one lookup) ins), c)"
  using assms
proof (induction ins arbitrary: acc tot changed)
  case (Cons i ins)
  let ?j = "resolve_one lookup i"
  obtain c where "resolve_loop v lookup (i # ins) acc tot changed =
      resolve_loop v lookup ins (acc @ [?j]) (tot + consumed_total v [?j]) c"
    using resolve_loop_step Cons.prems by (metis list.set_intros(1))
  moreover have "\<exists>c'. resolve_loop v lookup ins (acc @ [?j]) (tot + consumed_total v [?j]) c =
      ((acc @ [?j]) @ map (resolve_one lookup) ins,
       (tot + consumed_total v [?j]) + consumed_total v (map (resolve_one lookup) ins), c')"
    using Cons.prems by (intro Cons.IH) simp
  ultimately show ?case by (auto simp: add.assoc)
qed simp

text \<open>Enriching a transaction from the mempool cache changes no flag and no reference of an input,
  so the consumed inputs stay the ones the parser counted; the stored input value is exactly the
  withdrawals (of a validated transaction) plus the amounts of the consumed inputs, absent when that
  is not positive; and reference inputs are never resolved.\<close>

theorem enrichment_accounting:
  assumes "\<forall>i \<in> set (inputs tx). in_amount i \<ge> 0"
  shows "total_input_value (apply_resolved_inputs tx resolved) =
      positive (tx_withdrawal tx + consumed_total (script_valid tx) (inputs (apply_resolved_inputs tx resolved)))
    \<and> map (\<lambda>i. (in_tx_hash i, in_index i, is_reference i, in_is_collateral i, is_unspent_attempt i))
        (inputs (apply_resolved_inputs tx resolved))
      = map (\<lambda>i. (in_tx_hash i, in_index i, is_reference i, in_is_collateral i, is_unspent_attempt i)) (inputs tx)
    \<and> filter is_reference (inputs (apply_resolved_inputs tx resolved)) = filter is_reference (inputs tx)
    \<and> script_valid (apply_resolved_inputs tx resolved) = script_valid tx"
proof -
  let ?new = "map (resolve_one (map_of resolved)) (inputs tx)"
  obtain c where "resolve_tx_inputs tx (map_of resolved) =
      (?new, tx_withdrawal tx + consumed_total (script_valid tx) ?new, c)"
    using resolve_loop_eq [OF assms, of "script_valid tx" "map_of resolved" "[]"] by (auto simp: resolve_tx_inputs_def)
  then have "apply_resolved_inputs tx resolved =
      with_inputs ?new (tx_withdrawal tx + consumed_total (script_valid tx) ?new) tx"
    by (simp add: apply_resolved_inputs_def)
  moreover have "filter is_reference (map (resolve_one l) is') = filter is_reference is'" for l is'
    by (induction is') (auto simp: resolve_one_cases(1))
  ultimately show ?thesis by (simp add: with_inputs_def comp_def)
qed

definition sample_tx :: ntx where
  "sample_tx = \<lparr>tx_hash = ''t'', slot = None, block_height = None, block_hash = None, block_index = None,
     timestamp = 0, fee = 1, deposit = None,
     inputs = [\<lparr>in_tx_hash = ''a'', in_index = 0, in_address = [], in_amount = 0, in_assets = None,
                is_reference = False, in_is_collateral = False, is_unspent_attempt = False\<rparr>],
     outputs = [], input_count = 1, output_count = 0, total_input_value = None, total_output_value = 0,
     withdrawal_total = 5, addresses = [], metadata = None, script_valid = True, raw_data = []\<rparr>"

theorem enrichment_accounting_witness:
  "total_input_value (apply_resolved_inputs sample_tx [((''a'', 0), (''addr'', 7, None))]) =
     positive (tx_withdrawal sample_tx +
       consumed_total True (inputs (apply_resolved_inputs sample_tx [((''a'', 0), (''addr'', 7, None))])))
   \<and> total_input_value (apply_resolved_inputs sample_tx [((''a'', 0), (''addr'', 7, None))]) = Some 12"
proof -
  have nonneg: "\<forall>i \<in> set (inputs sample_tx). in_amount i \<ge> 0" by (simp add: sample_tx_def)
  have v: "script_valid sample_tx = True" by (simp add: sample_tx_def)
  have "total_input_value (apply_resolved_inputs sample_tx [((''a'', 0), (''addr'', 7, None))]) = Some 12"
    by code_simp
  with enrichment_accounting [OF nonneg, of "[((''a'', 0), (''addr'', 7, None))]"] v show ?thesis by simp
qed

definition sample_payload :: "(string, json) dict" where
  "sample_payload = [(''id'', JStr ''t''), (''spends'', JStr ''collaterals''),
     (''inputs'', JList [JDict [(''transaction'', JDict [(''id'', JStr ''a'')]), (''index'', JInt 1)]]),
     (''collaterals'', JList [JDict [(''transaction'', JStr ''c'')], JDict [(''transaction'', JStr ''d'')]]),
     (''outputs'', JList [JDict [], JDict []]),
     (''collateralReturn'', JDict [(''address'', JStr ''r''), (''value'', JDict [(''lovelace'', JInt 9)])])]"

theorem parser_consumption_witness:
  "\<exists>tx. parse_ogmios_transaction (\<lambda>_. []) int_of_json sample_payload None None None None None 0 = Inr tx
     \<and> \<not> script_valid tx \<and> input_count tx = 2"
proof -
  have "case parse_ogmios_transaction (\<lambda>_. []) int_of_json sample_payload None None None None None 0 of
      Inl _ \<Rightarrow> False | Inr _ \<Rightarrow> True"
    by code_simp
  then obtain tx where tx: "parse_ogmios_transaction (\<lambda>_. []) int_of_json sample_payload None None None None None 0 = Inr tx"
    by (auto split: sum.splits)
  from parser_consumption [OF tx] show ?thesis using tx by (simp add: sample_payload_def dict_get_def)
qed

end
