(* ===== verification/Mempool.thy ===== *)
theory Mempool
  imports Transactions
begin

text \<open>
  The mempool monitor (\<open>src/backend/app/ingestion/mempool_monitor.py\<close>): the index of pending
  transactions by input reference, collision and displacement detection, settlement of confirmed
  transactions, the cache of resolved inputs and the sweep that prunes all of it.

  Python sets are lists without repetition (in the order of insertion), dicts association lists.
  Database writes and broadcasts are effects: an operation returns the list of those it attempted, and
  the arguments \<open>insert_ok\<close> and \<open>query_utxo\<close> say how the database and the node answer.  Times are
  integers (microseconds).  The handlers of one response and of one block run as one step.
\<close>

section \<open>The index of pending transactions\<close>

type_synonym ref = "json \<times> json"

record pending_entry =
  entry_refs :: "ref list"
  entry_seen :: int
  entry_fee :: int
  entry_addr :: json
  entry_ttl :: int

record pending_index =
  entries :: "(string, pending_entry) dict"
  ref_index :: "(ref, string list) dict"

definition pending_init :: pending_index where
  "pending_init = \<lparr>entries = [], ref_index = []\<rparr>"

definition add_holder :: "string \<Rightarrow> (ref, string list) dict \<Rightarrow> ref \<Rightarrow> (ref, string list) dict" where
  "add_holder tx_id m ref = AList.update ref (set_add (dict_get m ref []) tx_id) m"

definition track :: "string \<Rightarrow> pending_entry \<Rightarrow> pending_index \<Rightarrow> pending_index" where
  "track tx_id entry ix =
     ix\<lparr>entries := AList.update tx_id entry (entries ix),
        ref_index := foldl (add_holder tx_id) (ref_index ix) (entry_refs entry)\<rparr>"

definition drop_holder :: "string \<Rightarrow> (ref, string list) dict \<Rightarrow> ref \<Rightarrow> (ref, string list) dict" where
  "drop_holder tx_id m ref =
     (case map_of m ref of
        None \<Rightarrow> m
      | Some ids \<Rightarrow>
          (let ids = removeAll tx_id ids
           in if ids = [] then AList.delete ref m else AList.update ref ids m))"

definition untrack :: "string \<Rightarrow> pending_index \<Rightarrow> pending_index" where
  "untrack tx_id ix =
     (case map_of (entries ix) tx_id of
        None \<Rightarrow> ix
      | Some entry \<Rightarrow>
          ix\<lparr>entries := AList.delete tx_id (entries ix),
             ref_index := foldl (drop_holder tx_id) (ref_index ix) (entry_refs entry)\<rparr>)"

definition get_pending :: "string \<Rightarrow> pending_index \<Rightarrow> pending_entry option" where
  "get_pending tx_id ix = map_of (entries ix) tx_id"

definition add_shared :: "ref \<Rightarrow> (string, ref list) dict \<Rightarrow> string \<Rightarrow> (string, ref list) dict" where
  "add_shared ref out pending_id = AList.update pending_id (set_add (dict_get out pending_id []) ref) out"

definition sharing :: "ref list \<Rightarrow> pending_index \<Rightarrow> (string, ref list) dict" where
  "sharing refs ix = foldl (\<lambda>out ref. foldl (add_shared ref) out (dict_get (ref_index ix) ref [])) [] refs"

definition stale_ids :: "int \<Rightarrow> pending_index \<Rightarrow> string list" where
  "stale_ids cutoff ix = map fst (filter (\<lambda>(k, v). entry_seen v < cutoff) (entries ix))"

section \<open>The monitor\<close>

record monitor_settings =
  network :: string
  MEMPOOL_PRUNE_EVERY_N_TXS :: int
  MEMPOOL_PENDING_TTL :: int
  MEMPOOL_SEEN_TXS_MAX :: int
  RAW_STORE_ENABLED :: bool

record cached_utxo =
  cu_address :: json
  cu_amount :: int
  cu_assets :: "(string, int) dict option"

record monitor =
  pending :: pending_index
  seen_mempool_txs :: "string list"
  mempool_txs_since_prune :: int
  pending_input_cache :: "(string, (ref, cached_utxo) dict \<times> int) dict"
  undecodable_txs :: int

definition monitor_init :: monitor where
  "monitor_init = \<lparr>pending = pending_init, seen_mempool_txs = [], mempool_txs_since_prune = 0,
     pending_input_cache = [], undecodable_txs = 0\<rparr>"

record collision =
  tx_a :: string
  tx_b :: string
  shared_inputs :: "ref list"
  tx_a_seen_at :: int
  tx_b_seen_at :: int
  delta_ms :: rat
  tx_a_fee :: int
  tx_b_fee :: int
  tx_a_first_input_addr :: json
  tx_b_first_input_addr :: json
  tx_a_ttl :: int
  tx_b_ttl :: int

datatype effect =
    InsertCollision collision
  | UpdateOutcome string
  | EmitConfirmed string int
  | EmitPending string int
  | UpsertPending string int
  | WriteMempool string

definition peek_enrichment :: "string \<Rightarrow> monitor \<Rightarrow> ((ref, cached_utxo) dict \<times> int) option" where
  "peek_enrichment h m = map_of (pending_input_cache m) h"

definition consume_enrichment :: "string \<Rightarrow> monitor \<Rightarrow> monitor" where
  "consume_enrichment h m = m\<lparr>pending_input_cache := AList.delete h (pending_input_cache m)\<rparr>"

definition clear_on_rollback :: "monitor \<Rightarrow> monitor" where
  "clear_on_rollback m = m\<lparr>seen_mempool_txs := []\<rparr>"

definition input_ref :: "tx_input \<Rightarrow> ref" where
  "input_ref i = (JStr (in_tx_hash i), JInt (in_index i))"

definition consumed_refs :: "ntx \<Rightarrow> ref list" where
  "consumed_refs tx =
     remdups (map input_ref
       (if script_valid tx then filter (\<lambda>i. \<not> in_is_collateral i \<and> \<not> is_reference i) (inputs tx)
        else filter in_is_collateral (inputs tx)))"

text \<open>\<open>(b - a).total_seconds() * 1000\<close>.\<close>

definition millis_between :: "int \<Rightarrow> int \<Rightarrow> rat" where
  "millis_between a b = fmul (fdiv (fl (of_int (b - a))) 1000000) 1000"

definition displacement :: "int \<Rightarrow> ntx \<Rightarrow> string \<Rightarrow> ref list \<Rightarrow> pending_entry \<Rightarrow> collision" where
  "displacement now tx pending_id shared e =
     \<lparr>tx_a = pending_id, tx_b = tx_hash tx, shared_inputs = shared, tx_a_seen_at = entry_seen e,
      tx_b_seen_at = now, delta_ms = millis_between (entry_seen e) now, tx_a_fee = entry_fee e,
      tx_b_fee = fee tx, tx_a_first_input_addr = entry_addr e,
      tx_b_first_input_addr =
        (case find (\<lambda>i. \<not> in_is_collateral i \<and> \<not> is_reference i \<and> in_address i \<noteq> []) (inputs tx) of
           None \<Rightarrow> JStr [] | Some i \<Rightarrow> JStr (in_address i)),
      tx_a_ttl = entry_ttl e, tx_b_ttl = 0\<rparr>"

definition displacement_rows :: "int \<Rightarrow> string list \<Rightarrow> pending_index \<Rightarrow> ntx \<Rightarrow> collision list" where
  "displacement_rows now confirmed ix tx =
     (let conf_refs = consumed_refs tx
      in if conf_refs = [] then []
         else concat (map (\<lambda>(pending_id, shared).
           if pending_id \<in> set confirmed then []
           else case get_pending pending_id ix of
                  None \<Rightarrow> []
                | Some e \<Rightarrow> (if shared \<noteq> [] then [displacement now tx pending_id shared e] else []))
           (sharing conf_refs ix)))"

definition record_displacements ::
  "(collision \<Rightarrow> bool) \<Rightarrow> ntx list \<Rightarrow> int \<Rightarrow> monitor \<Rightarrow> effect list" where
  "record_displacements insert_ok txs now m =
     concat (map (\<lambda>tx. concat (map (\<lambda>row.
         InsertCollision row # (if insert_ok row then [UpdateOutcome (tx_hash tx)] else []))
       (displacement_rows now (map tx_hash txs) (pending m) tx))) txs)"

definition settle_confirmed :: "ntx list \<Rightarrow> int \<Rightarrow> monitor \<Rightarrow> effect list \<times> monitor" where
  "settle_confirmed txs now m =
     (map (\<lambda>tx. UpdateOutcome (tx_hash tx)) txs @ map (\<lambda>tx. EmitConfirmed (tx_hash tx) now) txs,
      m\<lparr>pending := foldl (\<lambda>ix tx. untrack (tx_hash tx) ix) (pending m) txs,
        seen_mempool_txs := filter (\<lambda>h. h \<notin> set (map tx_hash txs)) (seen_mempool_txs m)\<rparr>)"

section \<open>A transaction seen in the mempool\<close>

text \<open>\<open>(tx_data.get("inputs") or [None])[0]\<close>, and the address of that input.\<close>

definition first_input_addr :: "(string, json) dict \<Rightarrow> json result" where
  "first_input_addr tx_data =
     (let ins = field tx_data ''inputs''
      in if \<not> truthy ins then Inr (JStr [])
         else rbind (case ins of
                       JList (i # _) \<Rightarrow> Inr i
                     | JStr (c # _) \<Rightarrow> Inr (JStr [c])
                     | JDict _ \<Rightarrow> Inl KeyError
                     | _ \<Rightarrow> Inl TypeError)
                (\<lambda>i. if truthy i then jget i ''address'' (JStr []) else Inr (JStr [])))"

definition hashable_ref :: "ref \<Rightarrow> bool" where
  "hashable_ref r \<longleftrightarrow> hashable (fst r) \<and> hashable (snd r)"

definition mempool_refs :: "(json \<Rightarrow> string) \<Rightarrow> (string, json) dict \<Rightarrow> ref list result" where
  "mempool_refs str_of tx_data =
     rbind (iter_json (dict_get tx_data ''inputs'' (JList []))) (\<lambda>ins.
     rbind (rmap (\<lambda>i. rbind (ogmios_input_ref str_of i) (\<lambda>r. if hashable_ref r then Inr r else Inl TypeError)) ins) (\<lambda>rs.
       Inr (remdups rs)))"

definition pending_entry_of :: "(json \<Rightarrow> string) \<Rightarrow> (string, json) dict \<Rightarrow> int \<Rightarrow> pending_entry result" where
  "pending_entry_of str_of tx_data now =
     rbind (extract_fee (JDict tx_data)) (\<lambda>f.
     rbind (extract_ttl (JDict tx_data)) (\<lambda>ttl.
     rbind (first_input_addr tx_data) (\<lambda>addr.
     rbind (mempool_refs str_of tx_data) (\<lambda>refs.
       Inr \<lparr>entry_refs = refs, entry_seen = now, entry_fee = f, entry_addr = addr, entry_ttl = ttl\<rparr>))))"

definition collision_rows :: "string \<Rightarrow> pending_entry \<Rightarrow> pending_index \<Rightarrow> collision list" where
  "collision_rows tx_id e ix =
     concat (map (\<lambda>(other_id, shared).
       if other_id = tx_id then []
       else case get_pending other_id ix of
              None \<Rightarrow> []
            | Some o' \<Rightarrow>
                (if shared \<noteq> [] then
                   [\<lparr>tx_a = other_id, tx_b = tx_id, shared_inputs = shared, tx_a_seen_at = entry_seen o',
                     tx_b_seen_at = entry_seen e, delta_ms = millis_between (entry_seen o') (entry_seen e),
                     tx_a_fee = entry_fee o', tx_b_fee = entry_fee e, tx_a_first_input_addr = entry_addr o',
                     tx_b_first_input_addr = entry_addr e, tx_a_ttl = entry_ttl o', tx_b_ttl = entry_ttl e\<rparr>]
                 else []))
       (sharing (entry_refs e) ix))"

definition prune :: "monitor_settings \<Rightarrow> int \<Rightarrow> monitor \<Rightarrow> monitor" where
  "prune cfg now m =
     (let cutoff = now - MEMPOOL_PENDING_TTL cfg;
          stale = stale_ids cutoff (pending m);
          cache = foldl (\<lambda>c k. AList.delete k c) (pending_input_cache m) stale
      in m\<lparr>mempool_txs_since_prune := 0,
           pending := foldl (\<lambda>ix k. untrack k ix) (pending m) stale,
           pending_input_cache := filter (\<lambda>(k, (_, cached_at)). \<not> cached_at < cutoff) cache,
           seen_mempool_txs :=
             (if int (length (seen_mempool_txs m)) > MEMPOOL_SEEN_TXS_MAX cfg then [] else seen_mempool_txs m)\<rparr>)"

definition count_and_prune :: "monitor_settings \<Rightarrow> int \<Rightarrow> monitor \<Rightarrow> monitor" where
  "count_and_prune cfg now m =
     (let m = m\<lparr>mempool_txs_since_prune := mempool_txs_since_prune m + 1\<rparr>
      in if mempool_txs_since_prune m \<ge> MEMPOOL_PRUNE_EVERY_N_TXS cfg then prune cfg now m else m)"

text \<open>\<open>_record_mempool_collisions\<close>; an error in a malformed payload leaves the monitor as it was.\<close>

definition record_mempool_collisions ::
  "monitor_settings \<Rightarrow> (json \<Rightarrow> string) \<Rightarrow> string \<Rightarrow> (string, json) dict \<Rightarrow> int \<Rightarrow> monitor \<Rightarrow> effect list \<times> monitor" where
  "record_mempool_collisions cfg str_of tx_id tx_data now m =
     (case pending_entry_of str_of tx_data now of
        Inl _ \<Rightarrow> ([], m)
      | Inr e \<Rightarrow>
          (if entry_refs e = [] then ([], count_and_prune cfg now m)
           else (map InsertCollision (collision_rows tx_id e (pending m)),
                 count_and_prune cfg now (m\<lparr>pending := track tx_id e (pending m)\<rparr>))))"

definition resolution_refs :: "(string, json) dict \<Rightarrow> ref list result" where
  "resolution_refs tx_data =
     (let raw = dict_get tx_data ''inputs'' (JList [])
      in if \<not> truthy raw then Inr []
         else rbind (iter_json raw) (\<lambda>ins. rbind (rmap (\<lambda>i.
           rbind (jget i ''transaction'' (JDict [])) (\<lambda>t.
             case t of
               JDict d \<Rightarrow> (if truthy (field d ''id'')
                          then rbind (jget i ''index'' (JInt 0)) (\<lambda>ix. Inr [(field d ''id'', ix)]) else Inr [])
             | _ \<Rightarrow> Inr [])) ins) (\<lambda>rs. Inr (concat rs))))"

fun cache_utxos :: "json list \<Rightarrow> (ref, cached_utxo) dict \<Rightarrow> (ref, cached_utxo) dict result" where
  "cache_utxos [] c = Inr c"
| "cache_utxos (u # us) c =
     rbind (parse_resolved_utxo u) (\<lambda>(r, addr, amt, assets).
       if hashable_ref r
       then cache_utxos us (AList.update r \<lparr>cu_address = addr, cu_amount = amt, cu_assets = assets\<rparr> c)
       else Inl TypeError)"

definition resolve_mempool_inputs ::
  "(ref list \<Rightarrow> json list result) \<Rightarrow> string \<Rightarrow> (string, json) dict \<Rightarrow> int \<Rightarrow> monitor \<Rightarrow> monitor" where
  "resolve_mempool_inputs query_utxo tx_id tx_data now m =
     (case rbind (resolution_refs tx_data) (\<lambda>refs.
             if refs = [] then Inr [] else rbind (query_utxo refs) (\<lambda>utxos. cache_utxos utxos [])) of
        Inl _ \<Rightarrow> m
      | Inr c \<Rightarrow> (if c = [] then m
                 else m\<lparr>pending_input_cache := AList.update tx_id (c, now) (pending_input_cache m)\<rparr>))"

text \<open>A response carries the transaction's id (\<open>tx_data.get("id", "")\<close>) beside its payload.\<close>

datatype tx_response = Undecodable | Exhausted | NextTx string "(string, json) dict"

text \<open>One turn of the inner loop; the flag says that the snapshot goes on.\<close>

definition on_next_transaction ::
  "monitor_settings \<Rightarrow> (json \<Rightarrow> string) \<Rightarrow> (ref list \<Rightarrow> json list result) \<Rightarrow> int \<Rightarrow> tx_response \<Rightarrow> monitor \<Rightarrow>
     bool \<times> effect list \<times> monitor" where
  "on_next_transaction cfg str_of query_utxo now resp m =
     (case resp of
        Undecodable \<Rightarrow> (True, [], m\<lparr>undecodable_txs := undecodable_txs m + 1\<rparr>)
      | Exhausted \<Rightarrow> (False, [], m)
      | NextTx tx_id tx_data \<Rightarrow>
          (if tx_id = [] \<or> tx_id \<in> set (seen_mempool_txs m) then (True, [], m)
           else
             let m = m\<lparr>seen_mempool_txs := set_add (seen_mempool_txs m) tx_id\<rparr>;
                 (effs, m) = record_mempool_collisions cfg str_of tx_id tx_data now m;
                 m = resolve_mempool_inputs query_utxo tx_id tx_data now m
             in (True, effs @ (if RAW_STORE_ENABLED cfg then [WriteMempool tx_id] else [])
                       @ [UpsertPending tx_id now, EmitPending tx_id now], m)))"

text \<open>What \<open>_mempool_loop\<close> does when a session starts.\<close>

definition on_session_start :: "monitor \<Rightarrow> monitor" where
  "on_session_start m = m\<lparr>seen_mempool_txs := []\<rparr>"

section \<open>What the index promises\<close>

lemma set_set_add [simp]: "set (set_add xs x) = insert x (set xs)"
  by (auto simp: set_add_def)

lemma set_add_nonempty [simp]: "set_add xs x \<noteq> []"
  by (auto simp: set_add_def)

definition holders :: "(ref, string list) dict \<Rightarrow> ref \<Rightarrow> string set" where
  "holders m r = set (dict_get m r [])"

definition no_empty :: "('a, 'b list) dict \<Rightarrow> bool" where
  "no_empty m \<longleftrightarrow> (\<forall>k. map_of m k \<noteq> Some [])"

lemma holders_add: "holders (add_holder t m r) r' = (if r' = r then insert t (holders m r') else holders m r')"
  by (simp add: holders_def add_holder_def)

lemma holders_foldl_add:
  "holders (foldl (add_holder t) m rs) r = (if r \<in> set rs then insert t (holders m r) else holders m r)"
  by (induction rs arbitrary: m) (auto simp: holders_add)

lemma no_empty_add: "no_empty m \<Longrightarrow> no_empty (add_holder t m r)"
  by (simp add: no_empty_def add_holder_def)

lemma no_empty_foldl_add: "no_empty m \<Longrightarrow> no_empty (foldl (add_holder t) m rs)"
  by (induction rs arbitrary: m) (auto simp: no_empty_add)

lemma removeAll_Nil_iff: "removeAll t xs = [] \<longleftrightarrow> set xs \<subseteq> {t}"
  by (induction xs) auto

lemma holders_drop: "holders (drop_holder t m r) r' = (if r' = r then holders m r' - {t} else holders m r')"
  by (auto simp: holders_def drop_holder_def dict_get_def Let_def removeAll_Nil_iff split: option.splits if_splits)

lemma holders_foldl_drop:
  "holders (foldl (drop_holder t) m rs) r = (if r \<in> set rs then holders m r - {t} else holders m r)"
  by (induction rs arbitrary: m) (auto simp: holders_drop)

lemma no_empty_drop: "no_empty m \<Longrightarrow> no_empty (drop_holder t m r)"
  by (auto simp: no_empty_def drop_holder_def Let_def split: option.splits)

lemma no_empty_foldl_drop: "no_empty m \<Longrightarrow> no_empty (foldl (drop_holder t) m rs)"
  by (induction rs arbitrary: m) (auto simp: no_empty_drop)

text \<open>The two structures agree: a reference leads to exactly the pending transactions that spend it,
  and no reference is kept for none.\<close>

definition coherent :: "pending_index \<Rightarrow> bool" where
  "coherent ix \<longleftrightarrow>
     (\<forall>r p. p \<in> holders (ref_index ix) r \<longleftrightarrow> (\<exists>e. get_pending p ix = Some e \<and> r \<in> set (entry_refs e)))
     \<and> no_empty (ref_index ix)"

lemma coherentD:
  "coherent ix \<Longrightarrow> p \<in> holders (ref_index ix) r \<longleftrightarrow> (\<exists>e. get_pending p ix = Some e \<and> r \<in> set (entry_refs e))"
  unfolding coherent_def by blast

lemma coherent_init: "coherent pending_init"
  by (simp add: coherent_def pending_init_def holders_def dict_get_def get_pending_def no_empty_def)

lemma get_track [simp]:
  "get_pending p (track t e ix) = (if p = t then Some e else get_pending p ix)"
  by (simp add: get_pending_def track_def)

lemma get_untrack [simp]: "get_pending p (untrack t ix) = (if p = t then None else get_pending p ix)"
  by (auto simp: get_pending_def untrack_def split: option.split)

lemma coherent_track:
  assumes "coherent ix" and "\<And>old. get_pending t ix = Some old \<Longrightarrow> set (entry_refs old) \<subseteq> set (entry_refs e)"
  shows "coherent (track t e ix)"
proof -
  have "holders (ref_index (track t e ix)) r =
      (if r \<in> set (entry_refs e) then insert t (holders (ref_index ix) r) else holders (ref_index ix) r)" for r
    by (simp add: track_def holders_foldl_add)
  moreover have "no_empty (ref_index (track t e ix))"
    using assms(1) by (simp add: coherent_def track_def no_empty_foldl_add)
  ultimately show ?thesis
    using assms by (auto simp: coherent_def)
qed

lemma coherent_untrack:
  assumes "coherent ix"
  shows "coherent (untrack t ix)"
proof (cases "get_pending t ix")
  case None
  then show ?thesis using assms by (simp add: untrack_def get_pending_def)
next
  case (Some e)
  then have "ref_index (untrack t ix) = foldl (drop_holder t) (ref_index ix) (entry_refs e)"
    by (simp add: untrack_def get_pending_def)
  then show ?thesis
    using assms Some by (auto simp: coherent_def holders_foldl_drop no_empty_foldl_drop)
qed

definition shared_of :: "(string, ref list) dict \<Rightarrow> string \<Rightarrow> ref list" where
  "shared_of out p = dict_get out p []"

lemma set_shared_add:
  "set (shared_of (foldl (add_shared r) out ps) p) = (if p \<in> set ps then insert r (set (shared_of out p)) else set (shared_of out p))"
  by (induction ps arbitrary: out) (auto simp: shared_of_def add_shared_def)

lemma no_empty_shared: "no_empty out \<Longrightarrow> no_empty (foldl (add_shared r) out ps)"
  by (induction ps arbitrary: out) (auto simp: no_empty_def add_shared_def)

lemma set_sharing_acc:
  "set (shared_of (foldl (\<lambda>out ref. foldl (add_shared ref) out (dict_get m ref [])) out refs) p) =
     set (shared_of out p) \<union> {r \<in> set refs. p \<in> holders m r}"
  by (induction refs arbitrary: out) (auto simp: set_shared_add holders_def)

lemma no_empty_sharing_acc:
  "no_empty out \<Longrightarrow> no_empty (foldl (\<lambda>out ref. foldl (add_shared ref) out (dict_get m ref [])) out refs)"
  by (induction refs arbitrary: out) (auto simp: no_empty_shared)

lemma sharing_set: "set (shared_of (sharing refs ix) p) = {r \<in> set refs. p \<in> holders (ref_index ix) r}"
  unfolding sharing_def by (subst set_sharing_acc) (simp add: shared_of_def dict_get_def)

lemma sharing_no_empty: "no_empty (sharing refs ix)"
  unfolding sharing_def by (rule no_empty_sharing_acc) (simp add: no_empty_def)

text \<open>The contract of a store of pending transactions, for whoever asks it who shares inputs: the answer
  is what a scan over all pending transactions would give.\<close>

locale pending_store =
  fixes get :: "string \<Rightarrow> 's \<Rightarrow> pending_entry option"
    and put :: "string \<Rightarrow> pending_entry \<Rightarrow> 's \<Rightarrow> 's"
    and remove :: "string \<Rightarrow> 's \<Rightarrow> 's"
    and shared :: "ref list \<Rightarrow> 's \<Rightarrow> (string, ref list) dict"
    and ok :: "'s \<Rightarrow> bool"
  assumes get_put: "get p (put t e s) = (if p = t then Some e else get p s)"
    and get_remove: "get p (remove t s) = (if p = t then None else get p s)"
    and ok_put: "ok s \<Longrightarrow> (\<And>old. get t s = Some old \<Longrightarrow> set (entry_refs old) \<subseteq> set (entry_refs e)) \<Longrightarrow> ok (put t e s)"
    and ok_remove: "ok s \<Longrightarrow> ok (remove t s)"
    and shared_iff: "ok s \<Longrightarrow>
      (\<exists>rs. map_of (shared refs s) p = Some rs \<and> r \<in> set rs) \<longleftrightarrow>
      (\<exists>e. get p s = Some e \<and> r \<in> set refs \<and> r \<in> set (entry_refs e))"
    and shared_nonempty: "map_of (shared refs s) p \<noteq> Some []"
begin

lemma shared_spec:
  assumes "ok s"
  shows "map_option set (map_of (shared refs s) p) =
    (case get p s of None \<Rightarrow> None
     | Some e \<Rightarrow> (if set refs \<inter> set (entry_refs e) = {} then None else Some (set refs \<inter> set (entry_refs e))))"
proof (cases "map_of (shared refs s) p")
  case None
  then have "\<not> (\<exists>e. get p s = Some e \<and> r \<in> set refs \<and> r \<in> set (entry_refs e))" for r
    using shared_iff [OF assms, of refs p r] by simp
  then show ?thesis using None by (auto split: option.split)
next
  case (Some rs)
  then have iff: "r \<in> set rs \<longleftrightarrow> (\<exists>e. get p s = Some e \<and> r \<in> set refs \<and> r \<in> set (entry_refs e))" for r
    using shared_iff [OF assms, of refs p r] by simp
  have "rs \<noteq> []" using Some shared_nonempty by blast
  then obtain r where "r \<in> set rs" by (cases rs) auto
  with iff obtain e where "get p s = Some e" by blast
  with iff have "set rs = set refs \<inter> set (entry_refs e)" by auto
  then show ?thesis using Some \<open>rs \<noteq> []\<close> \<open>get p s = Some e\<close> by auto
qed

lemma ok_remove_all: "ok s \<Longrightarrow> ok (foldl (\<lambda>s t. remove (f t) s) s ts)"
  by (induction ts arbitrary: s) (auto simp: ok_remove)

lemma get_remove_all: "get p (foldl (\<lambda>s t. remove (f t) s) s ts) = (if p \<in> f ` set ts then None else get p s)"
  by (induction ts arbitrary: s) (auto simp: get_remove)

end

interpretation pend: pending_store get_pending track untrack sharing coherent
proof
  fix s :: pending_index and refs p r
  assume coh: "coherent s"
  have "(\<exists>rs. map_of (sharing refs s) p = Some rs \<and> r \<in> set rs) \<longleftrightarrow> r \<in> set (shared_of (sharing refs s) p)"
    by (cases "map_of (sharing refs s) p") (simp_all add: shared_of_def dict_get_def)
  also have "\<dots> \<longleftrightarrow> (\<exists>e. get_pending p s = Some e \<and> r \<in> set refs \<and> r \<in> set (entry_refs e))"
    using coherentD [OF coh, of p r] by (auto simp: sharing_set)
  finally show "(\<exists>rs. map_of (sharing refs s) p = Some rs \<and> r \<in> set rs) \<longleftrightarrow>
      (\<exists>e. get_pending p s = Some e \<and> r \<in> set refs \<and> r \<in> set (entry_refs e))" .
next
  fix refs p s
  show "map_of (sharing refs s) p \<noteq> Some []" using sharing_no_empty by (simp add: no_empty_def)
qed (use coherent_track coherent_untrack in auto)

section \<open>Displacements\<close>

lemma sharing_distinct_keys: "distinct (map fst (sharing refs ix))"
proof -
  have *: "distinct (map fst (foldl (add_shared r) out ps))" if "distinct (map fst out)" for r out ps
    using that by (induction ps arbitrary: out) (auto simp: add_shared_def distinct_keys_update)
  have "distinct (map fst (foldl (\<lambda>out ref. foldl (add_shared ref) out (dict_get m ref [])) out refs))"
    if "distinct (map fst out)" for m out
    using that by (induction refs arbitrary: out) (auto simp: *)
  then show ?thesis by (simp add: sharing_def)
qed

text \<open>The displacement rows of a confirmed transaction, as a scan over all pending transactions would
  find them.\<close>

definition displaces :: "ntx list \<Rightarrow> ntx \<Rightarrow> pending_index \<Rightarrow> string \<Rightarrow> pending_entry \<Rightarrow> bool" where
  "displaces txs tx ix p e \<longleftrightarrow>
     get_pending p ix = Some e \<and> p \<notin> set (map tx_hash txs) \<and>
     set (consumed_refs tx) \<inter> set (entry_refs e) \<noteq> {}"

lemma sharing_entry:
  assumes "coherent ix" and "(p, rs) \<in> set (sharing refs ix)"
  shows "\<exists>e. get_pending p ix = Some e \<and> set rs = set refs \<inter> set (entry_refs e) \<and> rs \<noteq> []"
proof -
  have m: "map_of (sharing refs ix) p = Some rs" using assms(2) sharing_distinct_keys by simp
  then have "rs \<noteq> []" using pend.shared_nonempty by blast
  moreover have "Some (set rs) = (case get_pending p ix of None \<Rightarrow> None
     | Some e \<Rightarrow> (if set refs \<inter> set (entry_refs e) = {} then None else Some (set refs \<inter> set (entry_refs e))))"
    using pend.shared_spec [OF assms(1), of refs p] m by simp
  ultimately show ?thesis by (auto split: option.splits if_splits)
qed

lemma sharing_mem:
  assumes "coherent ix" "get_pending p ix = Some e" "set refs \<inter> set (entry_refs e) \<noteq> {}"
  shows "\<exists>rs. (p, rs) \<in> set (sharing refs ix) \<and> set rs = set refs \<inter> set (entry_refs e) \<and> rs \<noteq> []"
proof -
  have "map_option set (map_of (sharing refs ix) p) = Some (set refs \<inter> set (entry_refs e))"
    using pend.shared_spec [OF assms(1), of refs p] assms(2,3) by simp
  then obtain rs where "map_of (sharing refs ix) p = Some rs" "set rs = set refs \<inter> set (entry_refs e)" by auto
  then show ?thesis using assms(3) by (metis empty_set map_of_SomeD)
qed

lemma distinct_keyed_rows:
  assumes "\<And>p v. map key (row (p, v)) \<in> {[], [p]}" and "distinct (map fst ps)"
  shows "distinct (map key (concat (map row ps)))"
proof -
  have sub: "set (map key (concat (map row qs))) \<subseteq> fst ` set qs" for qs
  proof (induction qs)
    case (Cons q qs)
    then show ?case using assms(1) [of "fst q" "snd q"] by auto
  qed simp
  show ?thesis
    using assms(2)
  proof (induction ps)
    case (Cons q ps)
    moreover have "key x \<in> fst ` set ps" if "x \<in> set (row p)" "p \<in> set ps" for x p
      using sub [of ps] that by auto
    ultimately show ?case using assms(1) [of "fst q" "snd q"] by fastforce
  qed simp
qed


definition demo_entry :: pending_entry where
  "demo_entry = \<lparr>entry_refs = [(JStr ''a'', JInt 0), (JStr ''b'', JInt 1)], entry_seen = 1000, entry_fee = 2,
     entry_addr = JStr [], entry_ttl = 0\<rparr>"

lemma demo_index_coherent: "coherent (track ''p'' demo_entry pending_init)"
  by (rule coherent_track [OF coherent_init]) (simp add: get_pending_def pending_init_def)


section \<open>No transaction collides with itself\<close>

lemma collision_rows_ids: "c \<in> set (collision_rows t e ix) \<Longrightarrow> tx_b c = t \<and> tx_a c \<noteq> t"
  by (auto simp: collision_rows_def split: if_splits option.splits)

lemma displacement_rows_ids:
  "c \<in> set (displacement_rows now confirmed ix tx) \<Longrightarrow> tx_b c = tx_hash tx \<and> tx_a c \<notin> set confirmed"
  by (auto simp: displacement_rows_def displacement_def Let_def split: if_splits option.splits)

text \<open>No collision row ever pairs a transaction with itself, neither when a transaction that is
  still indexed is seen again in the mempool (after a reconnect, a rollback or a trip of the cap) nor
  when a block confirms it.\<close>

theorem no_self_collision:
  "InsertCollision c \<in> set (fst (snd (on_next_transaction cfg str_of query now resp m))
      @ record_displacements insert_ok txs now' m') \<Longrightarrow> tx_a c \<noteq> tx_b c"
proof -
  assume "InsertCollision c \<in> set (fst (snd (on_next_transaction cfg str_of query now resp m))
      @ record_displacements insert_ok txs now' m')"
  then consider t e ix where "c \<in> set (collision_rows t e ix)"
    | tx ix where "tx \<in> set txs" "c \<in> set (displacement_rows now' (map tx_hash txs) ix tx)"
    by (auto simp: on_next_transaction_def record_mempool_collisions_def record_displacements_def Let_def
          case_prod_beta split: tx_response.splits if_splits sum.splits)
  then show ?thesis
  proof cases
    case 1
    then show ?thesis using collision_rows_ids by blast
  next
    case 2
    then show ?thesis using displacement_rows_ids by fastforce
  qed
qed

definition demo_monitor_settings :: monitor_settings where
  "demo_monitor_settings = \<lparr>network = ''preprod'', MEMPOOL_PRUNE_EVERY_N_TXS = 2, MEMPOOL_PENDING_TTL = 500,
     MEMPOOL_SEEN_TXS_MAX = 10, RAW_STORE_ENABLED = False\<rparr>"

definition demo_pending_tx :: "(string, json) dict" where
  "demo_pending_tx = [(''id'', JStr ''q''),
     (''inputs'', JList [JDict [(''transaction'', JDict [(''id'', JStr ''a'')]), (''index'', JInt 0)]])]"

definition demo_monitor :: monitor where
  "demo_monitor = monitor_init\<lparr>pending := track ''p'' demo_entry pending_init\<rparr>"

definition demo_collision :: collision where
  "demo_collision = hd (collision_rows ''q''
     \<lparr>entry_refs = [(JStr ''a'', JInt 0)], entry_seen = 1200, entry_fee = 0, entry_addr = JStr [], entry_ttl = 0\<rparr>
     (pending demo_monitor))"

theorem no_self_collision_witness: "tx_a demo_collision \<noteq> tx_b demo_collision"
proof (rule no_self_collision)
  show "InsertCollision demo_collision \<in> set (fst (snd (on_next_transaction demo_monitor_settings (\<lambda>_. [])
      (\<lambda>_. Inr []) 1200 (NextTx ''q'' demo_pending_tx) demo_monitor)) @ record_displacements (\<lambda>_. True) [] 0 demo_monitor)"
    by code_simp
qed

section \<open>The sweep\<close>

lemma untrack_entries: "entries (untrack t ix) = filter (\<lambda>(k, _). k \<noteq> t) (entries ix)"
proof (cases "map_of (entries ix) t")
  case None
  then have "\<forall>p \<in> set (entries ix). fst p \<noteq> t" by (auto simp: map_of_eq_None_iff)
  then have "filter (\<lambda>(k, _). k \<noteq> t) (entries ix) = entries ix" by (intro filter_True) auto
  then show ?thesis by (simp add: untrack_def None)
next
  case (Some e)
  have "AList.delete t d = filter (\<lambda>(k, _). k \<noteq> t) d" for d :: "(string, pending_entry) dict"
    by (induction d) auto
  then show ?thesis by (simp add: untrack_def Some)
qed

lemma untrack_all_entries:
  "entries (foldl (\<lambda>ix k. untrack k ix) ix ks) = filter (\<lambda>(k, _). k \<notin> set ks) (entries ix)"
  by (induction ks arbitrary: ix) (auto simp: untrack_entries intro: filter_cong)

lemma prune_entries: "entries (pending (prune cfg now m)) = filter (\<lambda>(k, v). k \<notin> set (stale_ids (now - MEMPOOL_PENDING_TTL cfg) (pending m))) (entries (pending m))"
  by (simp add: prune_def Let_def untrack_all_entries case_prod_beta')

definition swept :: "int \<Rightarrow> monitor \<Rightarrow> bool" where
  "swept cutoff m \<longleftrightarrow>
     (\<forall>(k, v) \<in> set (entries (pending m)). cutoff \<le> entry_seen v) \<and>
     (\<forall>(k, (_, cached_at)) \<in> set (pending_input_cache m). cutoff \<le> cached_at)"

lemma prune_swept: "swept (now - MEMPOOL_PENDING_TTL cfg) (prune cfg now m)"
proof -
  have "\<forall>(k, v) \<in> set (entries (pending (prune cfg now m))). now - MEMPOOL_PENDING_TTL cfg \<le> entry_seen v"
    by (force simp: prune_entries stale_ids_def)
  moreover have "\<forall>(k, (_, cached_at)) \<in> set (pending_input_cache (prune cfg now m)). now - MEMPOOL_PENDING_TTL cfg \<le> cached_at"
    by (auto simp: prune_def Let_def)
  ultimately show ?thesis by (simp add: swept_def)
qed

text \<open>The sweep runs at a fixed cadence.  Every transaction that parses moves the counter; it
  stays below the configured number, and the step at which it would reach it sweeps instead: then no
  indexed transaction and no cached resolution is older than the time to live, and a seen-set over its
  cap is emptied.\<close>

theorem sweep_cadence:
  assumes "1 \<le> MEMPOOL_PRUNE_EVERY_N_TXS cfg" and "mempool_txs_since_prune m < MEMPOOL_PRUNE_EVERY_N_TXS cfg"
    and "pending_entry_of str_of tx_data now = Inr e"
    and "snd (record_mempool_collisions cfg str_of t tx_data now m) = m'"
  shows "mempool_txs_since_prune m' < MEMPOOL_PRUNE_EVERY_N_TXS cfg
    \<and> (if mempool_txs_since_prune m + 1 = MEMPOOL_PRUNE_EVERY_N_TXS cfg
       then mempool_txs_since_prune m' = 0 \<and> swept (now - MEMPOOL_PENDING_TTL cfg) m'
            \<and> int (length (seen_mempool_txs m')) \<le> max 0 (MEMPOOL_SEEN_TXS_MAX cfg)
       else mempool_txs_since_prune m' = mempool_txs_since_prune m + 1)"
proof -
  obtain m1 where m1: "m' = count_and_prune cfg now m1" "mempool_txs_since_prune m1 = mempool_txs_since_prune m"
    using assms(3,4) by (cases "entry_refs e = []") (auto simp: record_mempool_collisions_def)
  show ?thesis
  proof (cases "mempool_txs_since_prune m + 1 = MEMPOOL_PRUNE_EVERY_N_TXS cfg")
    case True
    then obtain m2 where m2: "m' = prune cfg now m2"
      using m1 by (auto simp: count_and_prune_def)
    have "mempool_txs_since_prune m' = 0" "int (length (seen_mempool_txs m')) \<le> max 0 (MEMPOOL_SEEN_TXS_MAX cfg)"
      by (simp_all add: m2 prune_def Let_def)
    then show ?thesis
      using True assms(1) prune_swept [of now cfg m2] by (simp add: m2)
  next
    case False
    then show ?thesis using m1 assms(2) by (simp add: count_and_prune_def)
  qed
qed

theorem sweep_cadence_witness:
  "mempool_txs_since_prune (snd (record_mempool_collisions demo_monitor_settings (\<lambda>_. []) ''q'' demo_pending_tx 9000 demo_monitor)) = 1"
proof -
  obtain e where e: "pending_entry_of (\<lambda>_. []) demo_pending_tx 9000 = Inr e"
  proof -
    have "case pending_entry_of (\<lambda>_. []) demo_pending_tx 9000 of Inl _ \<Rightarrow> False | Inr _ \<Rightarrow> True" by code_simp
    then show ?thesis using that by (auto split: sum.splits)
  qed
  have "1 \<le> MEMPOOL_PRUNE_EVERY_N_TXS demo_monitor_settings"
    "mempool_txs_since_prune demo_monitor < MEMPOOL_PRUNE_EVERY_N_TXS demo_monitor_settings"
    by (simp_all add: demo_monitor_settings_def demo_monitor_def monitor_init_def)
  from sweep_cadence [OF this e refl] show ?thesis
    by (simp add: demo_monitor_settings_def demo_monitor_def monitor_init_def)
qed

section \<open>The index stays coherent\<close>

text \<open>The id of a transaction is the hash of its body, so two payloads with the same id spend the same
  inputs: \<open>spends\<close> maps an id to its inputs.\<close>

definition index_ok :: "(string \<Rightarrow> ref set) \<Rightarrow> pending_index \<Rightarrow> bool" where
  "index_ok spends ix \<longleftrightarrow> coherent ix \<and>
     (\<forall>p e. get_pending p ix = Some e \<longrightarrow> set (entry_refs e) = spends p)"

definition well_indexed :: "(string \<Rightarrow> ref set) \<Rightarrow> monitor \<Rightarrow> bool" where
  "well_indexed spends m = index_ok spends (pending m)"

inductive monitor_step :: "monitor_settings \<Rightarrow> (string \<Rightarrow> ref set) \<Rightarrow> monitor \<Rightarrow> monitor \<Rightarrow> bool" for cfg spends where
  session: "monitor_step cfg spends m (on_session_start m)"
| rollback: "monitor_step cfg spends m (clear_on_rollback m)"
| next_tx: "(\<And>t d e. resp = NextTx t d \<Longrightarrow> pending_entry_of str_of d now = Inr e \<Longrightarrow> set (entry_refs e) = spends t) \<Longrightarrow>
     monitor_step cfg spends m (snd (snd (on_next_transaction cfg str_of query now resp m)))"
| settle: "monitor_step cfg spends m (snd (settle_confirmed txs now m))"
| consume: "monitor_step cfg spends m (consume_enrichment h m)"

lemma index_ok_untrack_all:
  "index_ok spends ix \<Longrightarrow> index_ok spends (foldl (\<lambda>ix k. untrack (f k) ix) ix ks)"
  by (auto simp: index_ok_def pend.ok_remove_all pend.get_remove_all split: if_splits)

lemmas index_ok_sweep = index_ok_untrack_all [where f = "\<lambda>k. k"]

lemma well_indexed_cong: "pending m' = pending m \<Longrightarrow> well_indexed spends m \<Longrightarrow> well_indexed spends m'"
  by (simp add: well_indexed_def)

lemma well_indexed_prune: "well_indexed spends m \<Longrightarrow> well_indexed spends (count_and_prune cfg now m)"
  by (simp add: well_indexed_def count_and_prune_def prune_def Let_def index_ok_sweep)

lemma well_indexed_track:
  assumes "well_indexed spends m" "set (entry_refs e) = spends t"
  shows "well_indexed spends (m\<lparr>pending := track t e (pending m)\<rparr>)"
  using assms by (auto simp: well_indexed_def index_ok_def intro: coherent_track)

lemma well_indexed_record:
  assumes "well_indexed spends m" "\<And>e. pending_entry_of str_of d now = Inr e \<Longrightarrow> set (entry_refs e) = spends t"
  shows "well_indexed spends (snd (record_mempool_collisions cfg str_of t d now m))"
  using assms well_indexed_prune well_indexed_track
  by (auto simp: record_mempool_collisions_def split: sum.split)

lemma well_indexed_next:
  assumes "well_indexed spends m" "\<And>t d e. resp = NextTx t d \<Longrightarrow> pending_entry_of str_of d now = Inr e \<Longrightarrow> set (entry_refs e) = spends t"
  shows "well_indexed spends (snd (snd (on_next_transaction cfg str_of query now resp m)))"
proof (cases resp)
  case (NextTx t d)
  let ?m = "m\<lparr>seen_mempool_txs := set_add (seen_mempool_txs m) t\<rparr>"
  have "well_indexed spends ?m" using assms(1) by (rule well_indexed_cong [rotated]) simp
  then have "well_indexed spends (snd (record_mempool_collisions cfg str_of t d now ?m))"
    using assms(2) NextTx by (intro well_indexed_record) auto
  moreover have "pending (resolve_mempool_inputs query t d now x) = pending x" for x
    by (auto simp: resolve_mempool_inputs_def split: sum.split)
  ultimately show ?thesis
    using NextTx assms(1) by (auto simp: on_next_transaction_def Let_def case_prod_beta intro: well_indexed_cong [rotated])
qed (use assms(1) in \<open>auto simp: on_next_transaction_def well_indexed_def\<close>)

text \<open>C5: the inverted index never drifts from the entries.  From a monitor just started, through any
  sequence of sessions, mempool transactions, sweeps, settled blocks, rollbacks and consumed cache
  entries, a reference leads to exactly the pending transactions that spend it and no empty set stays
  behind, provided that a transaction seen again under the same id spends the same inputs.\<close>

theorem index_never_drifts:
  assumes "(monitor_step cfg spends)\<^sup>*\<^sup>* monitor_init m"
  shows "well_indexed spends m"
  using assms
proof induction
  case base
  then show ?case
    using coherent_init
    by (simp add: well_indexed_def index_ok_def monitor_init_def get_pending_def pending_init_def)
next
  case (step m m')
  from step.hyps(2) step.IH show ?case
  proof (induction rule: monitor_step.induct)
    case (next_tx resp str_of now m query)
    then show ?case by (blast intro: well_indexed_next)
  next
    case (settle m txs now)
    then show ?case
      by (simp add: settle_confirmed_def well_indexed_def index_ok_untrack_all)
  qed (auto simp: on_session_start_def clear_on_rollback_def consume_enrichment_def intro: well_indexed_cong [rotated])
qed

theorem index_never_drifts_witness:
  "well_indexed (\<lambda>_. {(JStr ''a'', JInt 0)}) (snd (snd (on_next_transaction demo_monitor_settings (\<lambda>_. []) (\<lambda>_. Inr []) 5
     (NextTx ''q'' demo_pending_tx) monitor_init)))"
proof (rule index_never_drifts [of demo_monitor_settings], rule r_into_rtranclp, rule monitor_step.next_tx)
  fix t d e
  assume "NextTx ''q'' demo_pending_tx = NextTx t d" and e: "pending_entry_of (\<lambda>_. []) d 5 = Inr e"
  then have d: "d = demo_pending_tx" by simp
  have "case pending_entry_of (\<lambda>_. []) demo_pending_tx 5 of Inl _ \<Rightarrow> False | Inr e \<Rightarrow> entry_refs e = [(JStr ''a'', JInt 0)]"
    by code_simp
  then show "set (entry_refs e) = {(JStr ''a'', JInt 0)}" using e by (simp add: d)
qed

text \<open>Tracking an id anew with fewer inputs would leave the old references behind.\<close>

lemma retrack_can_drift:
  "\<not> coherent (track ''p'' (demo_entry\<lparr>entry_refs := []\<rparr>) (track ''p'' demo_entry pending_init))"
proof -
  let ?ix = "track ''p'' (demo_entry\<lparr>entry_refs := []\<rparr>) (track ''p'' demo_entry pending_init)"
  have "''p'' \<in> holders (ref_index ?ix) (JStr ''a'', JInt 0)"
    by (simp add: track_def holders_foldl_add) (simp add: demo_entry_def)
  then show ?thesis using coherentD [of ?ix "''p''"] by fastforce
qed

end
