(* ===== verification/Chain_Sync.thy ===== *)
theory Chain_Sync
  imports Mempool Frames Resilience
begin

text \<open>
  Chain sync: the slot-to-time converter (\<open>src/backend/app/ingestion/chain_time.py\<close>) and the block
  handlers of \<open>src/backend/app/ingestion/ogmios_client.py\<close>: roll forward with its checkpoint-blocking
  writes, quarantine of undecodable frames, roll backward with the durable score repurge, and the
  health state derived from it all.

  The two databases and the raw store are one record \<open>world\<close> of what they hold; every write is an update
  of it, and the environment of a handler says which of the calls fail.  A handler returns the error
  that leaves it (if any), the effects of the mempool seams it calls, and the new client and world.
\<close>

section \<open>Chain time\<close>

record era =
  start_slot :: int
  start_offset :: rat
  slot_length :: rat
  end_slot :: "int option"

record converter =
  system_start :: int
  eras :: "era list"

definition converter_init :: "int \<Rightarrow> era list \<Rightarrow> converter" where
  "converter_init start es = \<lparr>system_start = start, eras = sort_key start_slot es\<rparr>"

text \<open>\<open>timedelta(seconds=x)\<close> of a float, in microseconds: the whole seconds exactly, the fraction through
  a rounded product, the sum rounded half to even.\<close>

definition timedelta_seconds :: "rat \<Rightarrow> int" where
  "timedelta_seconds x = rne (of_int (py_int x * 1000000) + fmul (x - of_int (py_int x)) 1000000)"

definition slot_to_utc :: "converter \<Rightarrow> int option \<Rightarrow> int option" where
  "slot_to_utc conv s =
     (case s of
        None \<Rightarrow> None
      | Some n \<Rightarrow>
          (if n < 0 then None
           else
             let covered = takeWhile (\<lambda>e. start_slot e \<le> n) (eras conv)
             in if covered = [] then None
                else
                  let era = last covered
                  in if length covered = length (eras conv) \<and>
                        (case end_slot era of None \<Rightarrow> False | Some e \<Rightarrow> e \<le> n)
                     then None
                     else Some (system_start conv + timedelta_seconds
                            (fadd (start_offset era) (fmul (fl (of_int (n - start_slot era))) (slot_length era))))))"

section \<open>Client, world, environment\<close>

definition SLOT_TIME_REFETCH_MIN_SECONDS :: int where
  "SLOT_TIME_REFETCH_MIN_SECONDS = 60"

definition BlockPersistError :: pyerr where
  "BlockPersistError = RuntimeFailure ''BlockPersistError''"

definition IntersectionNotFoundError :: pyerr where
  "IntersectionNotFoundError = RuntimeFailure ''IntersectionNotFoundError''"

definition StoreError :: pyerr where
  "StoreError = RuntimeFailure ''StoreError''"

record chain_settings = monitor_settings +
  RAW_DATA_MAX_BYTES :: int
  CLICKHOUSE_INSERT_MAX_RETRIES :: int
  INSERT_RETRY_BASE_DELAY :: rat
  INSERT_RETRY_MAX_DELAY :: rat
  ROLLBACK_CLEANUP_ENABLED :: bool
  PIPELINE_STARTUP_GRACE_SECONDS :: int
  PIPELINE_BLOCK_AGE_DOWN_SECONDS :: int
  PIPELINE_BLOCK_AGE_DEGRADED_SECONDS :: int

record chain_client =
  slot_time :: "converter option"
  slot_time_refetch_needed :: bool
  slot_time_fetched_at :: "int option"
  started_at :: int
  last_block_at :: "int option"
  last_processed_slot :: "int option"
  tip_slot :: "int option"
  chain_state :: circuit_state
  mempool :: monitor
  running :: bool
  repurge_tasks :: "string list list"

text \<open>The rows of one network.  Of the tables keyed by transaction hash alone (\<open>transaction_inputs\<close>,
  \<open>transaction_outputs\<close>, \<open>tx_class_scores\<close>) the hashes are kept.\<close>

datatype life = PENDING | CONFIRMED | ROLLED_BACK

record lifecycle =
  status :: life
  life_slot :: "int option"

record quarantine_row =
  q_slot :: int
  frame_bytes :: int
  nesting_depth :: int
  txs_recovered :: int
  txs_lost :: int

record world =
  tx_rows :: "ntx list"
  input_rows :: "string list"
  output_rows :: "string list"
  score_rows :: "string list"
  pending_score_repurges :: "string list"
  sync_point :: "(int \<times> string) option"
  tx_lifecycle :: "(string, lifecycle) dict"
  raw_payloads :: "string list"
  parse_failures :: "json list"
  quarantined_blocks :: "(string, quarantine_row) dict"

record block =
  blk_id :: string
  blk_slot :: "int option"
  blk_height :: int
  blk_txs :: "json list"

record forward_env =
  e_now_utc :: int
  e_now :: int
  e_tip :: "int option"
  e_resolve :: "(out_ref list \<Rightarrow> (out_ref, string \<times> int) dict) result"
  e_preserve_ok :: "json \<Rightarrow> bool"
  e_raw_ok :: "string \<Rightarrow> bool"
  e_inserts :: "nat \<Rightarrow> nat"
  e_lifecycle_ok :: bool
  e_collision_ok :: "collision \<Rightarrow> bool"
  e_save_ok :: bool

section \<open>Roll forward\<close>

definition upsert_rows :: "ntx list \<Rightarrow> ntx list \<Rightarrow> ntx list" where
  "upsert_rows txs rows = filter (\<lambda>r. tx_hash r \<notin> set (map tx_hash txs)) rows @ txs"

text \<open>\<open>insert_transactions_batch\<close>: the inserts into the three fact tables, in their order, of which the
  first \<open>k\<close> go through; the rows of a failed batch that went in stay.\<close>

definition insert_transactions_batch :: "nat \<Rightarrow> ntx list \<Rightarrow> world \<Rightarrow> bool \<times> world" where
  "insert_transactions_batch k txs w =
     (let w1 = (if k \<ge> 1 then w\<lparr>tx_rows := upsert_rows txs (tx_rows w)\<rparr> else w);
          w2 = (if k \<ge> 2 then w1\<lparr>input_rows := input_rows w1 @ map tx_hash txs\<rparr> else w1);
          w3 = (if k \<ge> 3 then w2\<lparr>output_rows := output_rows w2 @ map tx_hash txs\<rparr> else w2)
      in (k \<ge> 3, w3))"

text \<open>The loop of \<open>_insert_block_with_retry\<close> from attempt \<open>k\<close> on with \<open>left\<close> attempts to go: whether one
  succeeded, the sleeps between them, and the rows.\<close>

fun insert_loop ::
  "(nat \<Rightarrow> nat) \<Rightarrow> rat \<Rightarrow> ntx list \<Rightarrow> nat \<Rightarrow> nat \<Rightarrow> rat \<Rightarrow> world \<Rightarrow> bool \<times> rat list \<times> world" where
  "insert_loop inserts cap txs k 0 delay w = (False, [], w)"
| "insert_loop inserts cap txs k (Suc left) delay w =
     (case insert_transactions_batch (inserts k) txs w of
        (True, w) \<Rightarrow> (True, [], w)
      | (False, w) \<Rightarrow>
          (if left = 0 then (False, [], w)
           else case insert_loop inserts cap txs (k + 1) left (min (fmul delay 2) cap) w of
                  (r, sleeps, w) \<Rightarrow> (r, delay # sleeps, w)))"

definition insert_block_with_retry ::
  "'a chain_settings_scheme \<Rightarrow> (nat \<Rightarrow> nat) \<Rightarrow> ntx list \<Rightarrow> world \<Rightarrow> bool \<times> rat list \<times> world" where
  "insert_block_with_retry cfg inserts txs w =
     insert_loop inserts (INSERT_RETRY_MAX_DELAY cfg) txs 1 (nat (CLICKHOUSE_INSERT_MAX_RETRIES cfg))
       (INSERT_RETRY_BASE_DELAY cfg) w"

text \<open>The cached resolution of a transaction, as the enrichment reads it.\<close>

definition json_str :: "json \<Rightarrow> string" where
  "json_str j = (case j of JStr s \<Rightarrow> s | _ \<Rightarrow> [])"

fun cached_refs :: "(ref, cached_utxo) dict \<Rightarrow> (out_ref, resolved_ref) dict" where
  "cached_refs [] = []"
| "cached_refs ((r, u) # c) =
     (case r of
        (JStr h, JInt i) \<Rightarrow> ((h, i), (json_str (cu_address u), cu_amount u, cu_assets u)) # cached_refs c
      | _ \<Rightarrow> cached_refs c)"

definition apply_cached :: "monitor \<Rightarrow> ntx \<Rightarrow> ntx" where
  "apply_cached mon tx =
     (case peek_enrichment (tx_hash tx) mon of
        None \<Rightarrow> tx
      | Some (c, _) \<Rightarrow> apply_resolved_inputs tx (cached_refs c))"

text \<open>The loop of \<open>_parse_block_txs\<close>: the error that leaves it (if any), the transactions that parse, and
  the payloads that do not.  The error handler reads the id of the payload, which raises when the
  payload is no dict.\<close>

fun parse_loop ::
  "(json \<Rightarrow> string) \<Rightarrow> (json \<Rightarrow> int result) \<Rightarrow> monitor \<Rightarrow> block \<Rightarrow> int \<Rightarrow> nat \<Rightarrow> json list \<Rightarrow>
     pyerr option \<times> ntx list \<times> json list" where
  "parse_loop str_of vint mon blk ts i [] = (None, [], [])"
| "parse_loop str_of vint mon blk ts i (j # js) =
     (case j of
        JDict d \<Rightarrow>
          (case parse_loop str_of vint mon blk ts (i + 1) js of
             (err, txs, failed) \<Rightarrow>
               (case parse_ogmios_transaction str_of vint d (blk_slot blk) (Some (blk_id blk)) (Some (blk_height blk))
                       (Some ts) (Some (int i)) ts of
                  Inl _ \<Rightarrow> (err, txs, j # failed)
                | Inr tx \<Rightarrow> (err, apply_cached mon tx # txs, failed)))
      | _ \<Rightarrow> (Some AttributeError, [], []))"

definition block_time :: "chain_client \<Rightarrow> int option \<Rightarrow> int option" where
  "block_time c s = (case slot_time c of None \<Rightarrow> None | Some conv \<Rightarrow> slot_to_utc conv s)"

definition note_horizon :: "int option \<Rightarrow> chain_client \<Rightarrow> chain_client" where
  "note_horizon s c =
     (if block_time c s = None \<and> slot_time c \<noteq> None then c\<lparr>slot_time_refetch_needed := True\<rparr> else c)"

definition parse_block_txs ::
  "(json \<Rightarrow> string) \<Rightarrow> (json \<Rightarrow> int result) \<Rightarrow> block \<Rightarrow> int \<Rightarrow> chain_client \<Rightarrow>
     pyerr option \<times> ntx list \<times> json list" where
  "parse_block_txs str_of vint blk now c =
     parse_loop str_of vint (mempool c) blk (case block_time c (blk_slot blk) of None \<Rightarrow> now | Some t \<Rightarrow> t) 0 (blk_txs blk)"

text \<open>The writes of \<open>_write_raw_payloads\<close> are started together; those that fail do not stop the others.\<close>

definition write_raw_payloads ::
  "'a chain_settings_scheme \<Rightarrow> (string \<Rightarrow> bool) \<Rightarrow> ntx list \<Rightarrow> world \<Rightarrow> pyerr option \<times> world" where
  "write_raw_payloads cfg ok txs w =
     (if \<not> RAW_STORE_ENABLED cfg then (None, w)
      else
        let writes = map tx_hash (filter (\<lambda>tx. raw_data tx \<noteq> []) txs);
            w = w\<lparr>raw_payloads := raw_payloads w @ filter ok writes\<rparr>
        in if list_all ok writes then (None, w)
           else if RAW_DATA_MAX_BYTES cfg > 0 then (Some BlockPersistError, w)
           else (None, w))"

text \<open>The upsert of \<open>batch_upsert_lifecycle_confirmed\<close>: one row per transaction.\<close>

definition batch_upsert_lifecycle_confirmed :: "int \<Rightarrow> ntx list \<Rightarrow> world \<Rightarrow> world" where
  "batch_upsert_lifecycle_confirmed s txs w =
     w\<lparr>tx_lifecycle := foldl (\<lambda>rows tx. AList.update (tx_hash tx) \<lparr>status = CONFIRMED, life_slot = Some s\<rparr> rows)
        (tx_lifecycle w) txs\<rparr>"

definition save_sync_point :: "bool \<Rightarrow> int \<Rightarrow> string \<Rightarrow> world \<Rightarrow> pyerr option \<times> world" where
  "save_sync_point ok s h w = (if ok then (None, w\<lparr>sync_point := Some (s, h)\<rparr>) else (Some StoreError, w))"

definition consume_all :: "ntx list \<Rightarrow> monitor \<Rightarrow> monitor" where
  "consume_all txs mon = foldl (\<lambda>m tx. consume_enrichment (tx_hash tx) m) mon txs"

text \<open>The part of the handler between the parsed block and the checkpoint.\<close>

definition persist_block ::
  "'a chain_settings_scheme \<Rightarrow> forward_env \<Rightarrow> int \<Rightarrow> ntx list \<Rightarrow> chain_client \<Rightarrow> world \<Rightarrow>
     pyerr option \<times> effect list \<times> chain_client \<times> world" where
  "persist_block cfg env s txs c w =
     (case write_raw_payloads cfg (e_raw_ok env) txs w of
        (Some e, w) \<Rightarrow> (Some e, [], c, w)
      | (None, w) \<Rightarrow>
          (case insert_block_with_retry cfg (e_inserts env) txs w of
             (False, _, w) \<Rightarrow> (Some BlockPersistError, [], c, w)
           | (True, _, w) \<Rightarrow>
               (let w = (if e_lifecycle_ok env then batch_upsert_lifecycle_confirmed s txs w else w);
                    displaced = record_displacements (e_collision_ok env) txs (e_now_utc env) (mempool c);
                    (settled, mon) = settle_confirmed txs (e_now env) (mempool c)
                in (None, displaced @ settled, c\<lparr>mempool := mon\<rparr>, w))))"

text \<open>From the parsed transactions to the checkpoint, which is the last write.\<close>

definition resolve_block :: "forward_env \<Rightarrow> ntx list \<Rightarrow> ntx list" where
  "resolve_block env txs =
     (case e_resolve env of Inl _ \<Rightarrow> txs | Inr get_outputs \<Rightarrow> resolve_input_amounts get_outputs txs)"

definition ingest_parsed ::
  "'a chain_settings_scheme \<Rightarrow> forward_env \<Rightarrow> block \<Rightarrow> int \<Rightarrow> ntx list \<Rightarrow> chain_client \<Rightarrow> world \<Rightarrow>
     pyerr option \<times> effect list \<times> chain_client \<times> world" where
  "ingest_parsed cfg env blk s txs c w =
     (case (if txs \<noteq> [] then persist_block cfg env s txs c w else (None, [], c, w)) of
        (Some e, effs, c, w) \<Rightarrow> (Some e, effs, c, w)
      | (None, effs, c, w) \<Rightarrow>
          (case save_sync_point (e_save_ok env) s (blk_id blk) w of
             (Some e, w) \<Rightarrow> (Some e, effs, c, w)
           | (None, w) \<Rightarrow> (None, effs, c\<lparr>mempool := consume_all txs (mempool c)\<rparr>, w)))"

definition keep_failures :: "'a chain_settings_scheme \<Rightarrow> (json \<Rightarrow> bool) \<Rightarrow> json list \<Rightarrow> world \<Rightarrow> world" where
  "keep_failures cfg ok failed w =
     (if RAW_STORE_ENABLED cfg then w\<lparr>parse_failures := parse_failures w @ filter ok failed\<rparr> else w)"

definition handle_roll_forward ::
  "'a chain_settings_scheme \<Rightarrow> (json \<Rightarrow> string) \<Rightarrow> (json \<Rightarrow> int result) \<Rightarrow> forward_env \<Rightarrow> block \<Rightarrow> chain_client \<Rightarrow> world \<Rightarrow>
     pyerr option \<times> effect list \<times> chain_client \<times> world" where
  "handle_roll_forward cfg str_of vint env blk c w =
     (case blk_slot blk of
        None \<Rightarrow> (if blk_txs blk \<noteq> [] then (Some BlockPersistError, [], c, w) else (None, [], c, w))
      | Some s \<Rightarrow>
          (let c = c\<lparr>tip_slot := (case e_tip env of None \<Rightarrow> tip_slot c | Some t \<Rightarrow> Some t),
                     last_block_at := Some (e_now_utc env), last_processed_slot := Some s\<rparr>
           in if blk_txs blk = []
              then (case save_sync_point (e_save_ok env) s (blk_id blk) w of (r, w) \<Rightarrow> (r, [], c, w))
              else case parse_block_txs str_of vint blk (e_now env) c of
                     (Some e, _, failed) \<Rightarrow>
                       (Some e, [], note_horizon (Some s) c, keep_failures cfg (e_preserve_ok env) failed w)
                   | (None, txs, failed) \<Rightarrow>
                       ingest_parsed cfg env blk s (resolve_block env txs) (note_horizon (Some s) c)
                         (keep_failures cfg (e_preserve_ok env) failed w)))"

section \<open>Quarantine\<close>

definition quarantine_undecodable_block ::
  "'a chain_settings_scheme \<Rightarrow> (json \<Rightarrow> string) \<Rightarrow> (json \<Rightarrow> int result) \<Rightarrow> (string \<Rightarrow> json option) \<Rightarrow> bool \<Rightarrow> forward_env \<Rightarrow>
     string \<Rightarrow> chain_client \<Rightarrow> world \<Rightarrow> pyerr option \<times> effect list \<times> chain_client \<times> world" where
  "quarantine_undecodable_block cfg str_of vint loads record_ok env raw c w =
     (case scan_block_header raw of
        Inl e \<Rightarrow> (Some e, [], c, w)
      | Inr header \<Rightarrow>
          (case (hdr_id header, hdr_slot header) of
             (Some bid, Some s) \<Rightarrow>
               (if bid = [] then (Some BlockPersistError, [], c, w)
                else
                  let (recovered, lost) = recover_transactions loads raw;
                      depth = max_nesting_depth raw
                  in if \<not> record_ok then (Some StoreError, [], c, w)
                     else
                       let w = w\<lparr>quarantined_blocks := AList.update bid
                             \<lparr>q_slot = s, frame_bytes = int (length raw), nesting_depth = depth,
                              txs_recovered = int (length recovered), txs_lost = lost\<rparr> (quarantined_blocks w)\<rparr>
                       in handle_roll_forward cfg str_of vint (env\<lparr>e_tip := None\<rparr>)
                            \<lparr>blk_id = bid, blk_slot = Some s,
                             blk_height = (case hdr_height header of None \<Rightarrow> 0 | Some h \<Rightarrow> h),
                             blk_txs = recovered\<rparr> c w)
           | _ \<Rightarrow> (Some BlockPersistError, [], c, w)))"

section \<open>Roll backward and the score repurge\<close>

datatype point = Origin | Point int string

record backward_env =
  b_tip :: "int option"
  b_mark_ok :: bool
  b_select_ok :: bool
  b_delete_ok :: "string \<Rightarrow> bool"
  b_repurge_save_ok :: bool
  b_clustering_ok :: bool
  b_save_ok :: bool

definition ROLLBACK_CLEANUP_TABLES :: "string list" where
  "ROLLBACK_CLEANUP_TABLES =
     [''transaction_inputs'', ''transaction_outputs'', ''utxo_features'', ''tx_script_features'',
      ''address_transactions'', ''tx_class_scores'', ''transactions'']"

text \<open>\<open>DELETE FROM table WHERE tx_hash IN hashes\<close>; the feature and address tables are not in the world.\<close>

definition delete_from :: "string \<Rightarrow> string list \<Rightarrow> world \<Rightarrow> world" where
  "delete_from table hashes w =
     (if table = ''transaction_inputs'' then w\<lparr>input_rows := filter (\<lambda>h. h \<notin> set hashes) (input_rows w)\<rparr>
      else if table = ''transaction_outputs'' then w\<lparr>output_rows := filter (\<lambda>h. h \<notin> set hashes) (output_rows w)\<rparr>
      else if table = ''tx_class_scores'' then w\<lparr>score_rows := filter (\<lambda>h. h \<notin> set hashes) (score_rows w)\<rparr>
      else if table = ''transactions'' then w\<lparr>tx_rows := filter (\<lambda>tx. tx_hash tx \<notin> set hashes) (tx_rows w)\<rparr>
      else w)"

fun delete_tables :: "(string \<Rightarrow> bool) \<Rightarrow> string list \<Rightarrow> string list \<Rightarrow> world \<Rightarrow> bool \<times> world" where
  "delete_tables ok hashes [] w = (True, w)"
| "delete_tables ok hashes (t # ts) w =
     (if ok t then delete_tables ok hashes ts (delete_from t hashes w) else (False, w))"

definition orphaned :: "int \<Rightarrow> world \<Rightarrow> string list" where
  "orphaned s w = remdups (map tx_hash (filter (\<lambda>tx. case slot tx of None \<Rightarrow> False | Some n \<Rightarrow> n > s) (tx_rows w)))"

definition delete_rolled_back_txs ::
  "bool \<Rightarrow> (string \<Rightarrow> bool) \<Rightarrow> int \<Rightarrow> world \<Rightarrow> string list result \<times> world" where
  "delete_rolled_back_txs select_ok ok s w =
     (if \<not> select_ok then (Inl StoreError, w)
      else
        let hashes = orphaned s w
        in if hashes = [] then (Inr [], w)
           else case delete_tables ok hashes ROLLBACK_CLEANUP_TABLES w of
                  (True, w) \<Rightarrow> (Inr hashes, w)
                | (False, w) \<Rightarrow> (Inl StoreError, w))"

definition mark_lifecycle_rolled_back :: "int \<Rightarrow> world \<Rightarrow> world" where
  "mark_lifecycle_rolled_back s w =
     w\<lparr>tx_lifecycle := map (\<lambda>(h, r).
          (h, if status r = CONFIRMED \<and> (case life_slot r of None \<Rightarrow> False | Some n \<Rightarrow> n > s)
              then r\<lparr>status := ROLLED_BACK\<rparr> else r)) (tx_lifecycle w)\<rparr>"

definition add_pending_score_repurges :: "string list \<Rightarrow> world \<Rightarrow> world" where
  "add_pending_score_repurges hashes w =
     w\<lparr>pending_score_repurges := foldl (\<lambda>q h. if h \<in> set q then q else q @ [h]) (pending_score_repurges w) hashes\<rparr>"

definition cleanup_rollback :: "backward_env \<Rightarrow> int \<Rightarrow> chain_client \<Rightarrow> world \<Rightarrow> pyerr option \<times> chain_client \<times> world" where
  "cleanup_rollback env s c w =
     (case delete_rolled_back_txs (b_select_ok env) (b_delete_ok env) s w of
        (Inl e, w) \<Rightarrow> (Some e, c, w)
      | (Inr hashes, w) \<Rightarrow>
          (if hashes = [] then (None, c, w)
           else if \<not> b_repurge_save_ok env then (Some StoreError, c, w)
           else
             let w = add_pending_score_repurges hashes w;
                 c = c\<lparr>repurge_tasks := repurge_tasks c @ [hashes]\<rparr>
             in (if b_clustering_ok env then None else Some StoreError, c, w)))"

definition handle_roll_backward ::
  "'a chain_settings_scheme \<Rightarrow> backward_env \<Rightarrow> point \<Rightarrow> chain_client \<Rightarrow> world \<Rightarrow> pyerr option \<times> chain_client \<times> world" where
  "handle_roll_backward cfg env p c w =
     (let (s, h) = (case p of Origin \<Rightarrow> (0, []) | Point s h \<Rightarrow> (s, h));
          c = c\<lparr>tip_slot := (case b_tip env of None \<Rightarrow> tip_slot c | Some t \<Rightarrow> Some t)\<rparr>;
          w = (if p \<noteq> Origin \<and> b_mark_ok env then mark_lifecycle_rolled_back s w else w)
      in case (if ROLLBACK_CLEANUP_ENABLED cfg \<and> p \<noteq> Origin then cleanup_rollback env s c w else (None, c, w)) of
           (Some e, c, w) \<Rightarrow> (Some e, c, w)
         | (None, c, w) \<Rightarrow>
             (case (if h \<noteq> [] then save_sync_point (b_save_ok env) s h w else (None, w)) of
                (Some e, w) \<Rightarrow> (Some e, c, w)
              | (None, w) \<Rightarrow> (None, c\<lparr>mempool := clear_on_rollback (mempool c)\<rparr>, w)))"

text \<open>The two database calls of a repurge: the delete in ClickHouse and, if it succeeded, the clearing
  of the queue.\<close>

definition delete_score_rows :: "string list \<Rightarrow> world \<Rightarrow> world" where
  "delete_score_rows hashes w = w\<lparr>score_rows := filter (\<lambda>h. h \<notin> set hashes) (score_rows w)\<rparr>"

definition clear_pending_score_repurges :: "string list \<Rightarrow> world \<Rightarrow> world" where
  "clear_pending_score_repurges hashes w = w\<lparr>pending_score_repurges := filter (\<lambda>h. h \<notin> set hashes) (pending_score_repurges w)\<rparr>"

definition repurge :: "bool \<Rightarrow> bool \<Rightarrow> string list \<Rightarrow> world \<Rightarrow> world" where
  "repurge delete_ok clear_ok hashes w =
     (if \<not> delete_ok then w
      else if \<not> clear_ok then delete_score_rows hashes w else clear_pending_score_repurges hashes (delete_score_rows hashes w))"

definition delayed_score_repurge :: "bool \<Rightarrow> bool \<Rightarrow> string list \<Rightarrow> chain_client \<Rightarrow> world \<Rightarrow> chain_client \<times> world" where
  "delayed_score_repurge delete_ok clear_ok hashes c w =
     (c\<lparr>repurge_tasks := remove1 hashes (repurge_tasks c)\<rparr>,
      if running c then repurge delete_ok clear_ok hashes w else w)"

definition replay_pending_score_repurges :: "bool \<Rightarrow> bool \<Rightarrow> bool \<Rightarrow> world \<Rightarrow> world" where
  "replay_pending_score_repurges read_ok delete_ok clear_ok w =
     (if \<not> read_ok \<or> pending_score_repurges w = [] then w
      else repurge delete_ok clear_ok (pending_score_repurges w) w)"

section \<open>Telemetry\<close>

definition fetch_slot_time_converter :: "converter option \<Rightarrow> int \<Rightarrow> chain_client \<Rightarrow> chain_client" where
  "fetch_slot_time_converter fetched now c =
     c\<lparr>slot_time_fetched_at := Some now, slot_time_refetch_needed := False,
       slot_time := (case fetched of None \<Rightarrow> slot_time c | Some conv \<Rightarrow> Some conv)\<rparr>"

definition total_seconds :: "int \<Rightarrow> rat" where
  "total_seconds us = fl (of_int us / 1000000)"

definition slot_time_refetch_due :: "int \<Rightarrow> chain_client \<Rightarrow> bool" where
  "slot_time_refetch_due now c =
     (case slot_time_fetched_at c of None \<Rightarrow> True
      | Some t \<Rightarrow> total_seconds (now - t) \<ge> of_int SLOT_TIME_REFETCH_MIN_SECONDS)"

datatype health = OK | DEGRADED | DOWN

definition pipeline_state :: "'a chain_settings_scheme \<Rightarrow> int \<Rightarrow> chain_client \<Rightarrow> health" where
  "pipeline_state cfg now c =
     (if chain_state c = OPEN then DOWN
      else case last_block_at c of
             None \<Rightarrow> (if total_seconds (now - started_at c) < of_int (PIPELINE_STARTUP_GRACE_SECONDS cfg) then OK else DEGRADED)
           | Some t \<Rightarrow>
               (let age = total_seconds (now - t)
                in if age > of_int (PIPELINE_BLOCK_AGE_DOWN_SECONDS cfg) then DOWN
                   else if age > of_int (PIPELINE_BLOCK_AGE_DEGRADED_SECONDS cfg) \<or> chain_state c = HALF_OPEN then DEGRADED
                   else OK))"

definition sync_lag :: "chain_client \<Rightarrow> int option" where
  "sync_lag c = (case (tip_slot c, last_processed_slot c) of (Some t, Some s) \<Rightarrow> Some (max 0 (t - s)) | _ \<Rightarrow> None)"

section \<open>The session\<close>

text \<open>The start of \<open>_chain_sync_loop\<close>: the repurges left over, the era summaries, and the intersection.
  \<open>found\<close> says which points the node's chain has, \<open>tip\<close> is the tip it reports on a first run; the point
  in the result is where the node's read pointer stands.\<close>

definition start_session ::
  "bool \<Rightarrow> bool \<Rightarrow> bool \<Rightarrow> converter option \<Rightarrow> int \<Rightarrow> bool \<Rightarrow> (point \<Rightarrow> bool) \<Rightarrow> point option \<Rightarrow> chain_client \<Rightarrow> world \<Rightarrow>
     point result \<times> chain_client \<times> world" where
  "start_session read_ok delete_ok clear_ok fetched now get_ok found tip c w =
     (let w = replay_pending_score_repurges read_ok delete_ok clear_ok w;
          c = fetch_slot_time_converter fetched now c
      in if \<not> get_ok then (Inl StoreError, c, w)
         else case sync_point w of
                Some (s, h) \<Rightarrow>
                  (if found (Point s h) then Inr (Point s h) else Inl IntersectionNotFoundError, c, w)
              | None \<Rightarrow>
                  (case tip of
                     None \<Rightarrow> (Inr Origin, c, w)
                   | Some p \<Rightarrow> (Inr (if found p then p else Origin), c, w)))"

datatype message =
    Forward forward_env block
  | Backward backward_env point
  | Undecodable forward_env bool string
  | Neither

text \<open>One turn of its loop.\<close>

definition chain_sync_turn ::
  "'a chain_settings_scheme \<Rightarrow> (json \<Rightarrow> string) \<Rightarrow> (json \<Rightarrow> int result) \<Rightarrow> (string \<Rightarrow> json option) \<Rightarrow>
     converter option \<Rightarrow> int \<Rightarrow> message \<Rightarrow> chain_client \<Rightarrow> world \<Rightarrow> pyerr option \<times> chain_client \<times> world" where
  "chain_sync_turn cfg str_of vint loads fetched now msg c w =
     (let c = (if slot_time_refetch_needed c \<and> slot_time_refetch_due now c
               then fetch_slot_time_converter fetched now c else c)
      in case msg of
           Forward env blk \<Rightarrow>
             (case handle_roll_forward cfg str_of vint env blk c w of (r, _, c, w) \<Rightarrow> (r, c, w))
         | Backward env p \<Rightarrow> handle_roll_backward cfg env p c w
         | Undecodable env record_ok raw \<Rightarrow>
             (case quarantine_undecodable_block cfg str_of vint loads record_ok env raw c w of (r, _, c, w) \<Rightarrow> (r, c, w))
         | Neither \<Rightarrow> (None, c, w))"

section \<open>What a block leaves in the store\<close>

text \<open>What of a payload makes its hash, apart from the block it came in.\<close>

definition payload_hash :: "(json \<Rightarrow> string) \<Rightarrow> (json \<Rightarrow> int result) \<Rightarrow> json \<Rightarrow> string option" where
  "payload_hash str_of vint j =
     (case j of
        JDict d \<Rightarrow> (case parse_ogmios_transaction str_of vint d None None None None None 0 of
                     Inl _ \<Rightarrow> None | Inr tx \<Rightarrow> Some (tx_hash tx))
      | _ \<Rightarrow> None)"

definition block_hashes :: "(json \<Rightarrow> string) \<Rightarrow> (json \<Rightarrow> int result) \<Rightarrow> block \<Rightarrow> string set" where
  "block_hashes str_of vint blk = set (List.map_filter (payload_hash str_of vint) (blk_txs blk))"

text \<open>The transactions whose rows are in all three fact tables, and those of them at one slot only.\<close>

definition stored :: "world \<Rightarrow> string set" where
  "stored w = tx_hash ` set (tx_rows w) \<inter> set (input_rows w) \<inter> set (output_rows w)"

definition only_at :: "int option \<Rightarrow> string \<Rightarrow> world \<Rightarrow> bool" where
  "only_at s h w \<longleftrightarrow> (\<forall>r \<in> set (tx_rows w). tx_hash r = h \<longrightarrow> slot r = s)"

lemma parse_hash_independent:
  "(case parse_ogmios_transaction str_of vint d s h ht ts i now of Inl _ \<Rightarrow> None | Inr tx \<Rightarrow> Some (tx_hash tx)) =
   (case parse_ogmios_transaction str_of vint d None None None None None 0 of Inl _ \<Rightarrow> None | Inr tx \<Rightarrow> Some (tx_hash tx))"
  unfolding parse_ogmios_transaction_def Let_def rbind_def by (simp split: sum.split)

lemma parse_slot: "parse_ogmios_transaction str_of vint d s h ht ts i now = Inr tx \<Longrightarrow> slot tx = s"
  unfolding parse_ogmios_transaction_def Let_def rbind_def by (auto split: sum.splits)

lemma apply_cached_hash [simp]: "tx_hash (apply_cached mon tx) = tx_hash tx" "slot (apply_cached mon tx) = slot tx"
  by (auto simp: apply_cached_def apply_resolved_inputs_def with_inputs_def split: option.split prod.split)

lemma resolve_input_amounts_keys:
  "map tx_hash (resolve_input_amounts get txs) = map tx_hash txs" "map slot (resolve_input_amounts get txs) = map slot txs"
  by (simp_all add: resolve_input_amounts_def with_inputs_def split: prod.split)

lemma resolve_block_keys:
  "map tx_hash (resolve_block env txs) = map tx_hash txs" "map slot (resolve_block env txs) = map slot txs"
  by (simp_all add: resolve_block_def resolve_input_amounts_keys split: sum.split)

lemma parse_loop_Cons:
  assumes "parse_loop str_of vint mon blk ts i (j # js) = (None, txs, failed)"
  obtains txs' failed' where "parse_loop str_of vint mon blk ts (i + 1) js = (None, txs', failed')"
    "map tx_hash txs = (case payload_hash str_of vint j of None \<Rightarrow> [] | Some h \<Rightarrow> [h]) @ map tx_hash txs'"
    "slot ` set txs \<subseteq> insert (blk_slot blk) (slot ` set txs')"
proof -
  obtain d where j: "j = JDict d" using assms by (cases j) simp_all
  obtain err txs' failed' where rest: "parse_loop str_of vint mon blk ts (i + 1) js = (err, txs', failed')"
    by (metis prod_cases3)
  define p where "p = parse_ogmios_transaction str_of vint d (blk_slot blk) (Some (blk_id blk)) (Some (blk_height blk))
      (Some ts) (Some (int i)) ts"
  have h: "payload_hash str_of vint j = (case p of Inl _ \<Rightarrow> None | Inr tx \<Rightarrow> Some (tx_hash tx))"
    unfolding payload_hash_def j json.case p_def by (rule parse_hash_independent [symmetric])
  have eq: "(case p of Inl _ \<Rightarrow> (err, txs', j # failed') | Inr tx \<Rightarrow> (err, apply_cached mon tx # txs', failed'))
      = (None, txs, failed)"
    using assms unfolding j parse_loop.simps json.case rest prod.case p_def .
  show ?thesis
  proof (cases p)
    case (Inl e)
    then show ?thesis using that [of txs' failed'] rest eq h by auto
  next
    case (Inr tx)
    then have "slot tx = blk_slot blk" unfolding p_def by (rule parse_slot)
    then show ?thesis using that [of txs' failed'] rest eq h Inr by auto
  qed
qed

lemma parse_loop_keys:
  "parse_loop str_of vint mon blk ts i js = (None, txs, failed) \<Longrightarrow>
     map tx_hash txs = List.map_filter (payload_hash str_of vint) js \<and> slot ` set txs \<subseteq> {blk_slot blk}"
proof (induction js arbitrary: i txs failed)
  case (Cons j js)
  from Cons.prems obtain txs' failed' where "parse_loop str_of vint mon blk ts (i + 1) js = (None, txs', failed')"
    "map tx_hash txs = (case payload_hash str_of vint j of None \<Rightarrow> [] | Some h \<Rightarrow> [h]) @ map tx_hash txs'"
    "slot ` set txs \<subseteq> insert (blk_slot blk) (slot ` set txs')"
    by (rule parse_loop_Cons)
  then show ?case using Cons.IH [of "i + 1" txs' failed'] by (auto simp: List.map_filter_def split: option.split)
qed (simp add: List.map_filter_def)

section \<open>The inserts\<close>

text \<open>What a batch of transactions can have done to the fact tables, whether or not it went through.\<close>

definition grown :: "ntx list \<Rightarrow> world \<Rightarrow> world \<Rightarrow> bool" where
  "grown txs w w' \<longleftrightarrow>
     (tx_rows w' = tx_rows w \<or> tx_rows w' = upsert_rows txs (tx_rows w)) \<and>
     set (input_rows w) \<subseteq> set (input_rows w') \<and> set (output_rows w) \<subseteq> set (output_rows w') \<and>
     sync_point w' = sync_point w"

definition complete :: "ntx list \<Rightarrow> world \<Rightarrow> world \<Rightarrow> bool" where
  "complete txs w w' \<longleftrightarrow>
     tx_rows w' = upsert_rows txs (tx_rows w) \<and>
     tx_hash ` set txs \<subseteq> set (input_rows w') \<and> tx_hash ` set txs \<subseteq> set (output_rows w')"

lemma upsert_rows_idem [simp]: "upsert_rows txs (upsert_rows txs rows) = upsert_rows txs rows"
  by (simp add: upsert_rows_def filter_empty_conv)

lemma upsert_rows_hashes: "tx_hash ` set (upsert_rows txs rows) = tx_hash ` set txs \<union> tx_hash ` set rows"
  by (auto simp: upsert_rows_def)

lemma grown_refl [simp, intro]: "grown txs w w"
  by (simp add: grown_def)

lemma grown_trans: "grown txs w w1 \<Longrightarrow> grown txs w1 w2 \<Longrightarrow> grown txs w w2"
  by (auto simp: grown_def)

lemma grown_complete: "grown txs w w1 \<Longrightarrow> complete txs w1 w2 \<Longrightarrow> complete txs w w2"
  by (auto simp: grown_def complete_def)

lemma batch_grown:
  assumes "insert_transactions_batch k txs w = (r, w')"
  shows "grown txs w w'" "r \<Longrightarrow> complete txs w w'" "r \<longleftrightarrow> k \<ge> 3"
  using assms by (auto simp: insert_transactions_batch_def Let_def grown_def complete_def split: if_splits)

lemma insert_loop_grown:
  "insert_loop inserts cap txs k left delay w = (r, sleeps, w') \<Longrightarrow> grown txs w w' \<and> (r \<longrightarrow> complete txs w w')"
proof (induction left arbitrary: k delay w r sleeps w')
  case (Suc left)
  obtain b w1 where batch: "insert_transactions_batch (inserts k) txs w = (b, w1)" by fastforce
  note one = batch_grown [OF batch]
  consider "b" "r" "w' = w1" | "\<not> b" "left = 0" "\<not> r" "w' = w1"
    | sl where "\<not> b" "insert_loop inserts cap txs (k + 1) left (min (fmul delay 2) cap) w1 = (r, sl, w')"
    using Suc.prems by (cases b; cases "left = 0") (auto simp: batch split: prod.splits)
  then show ?case
  proof cases
    case 3
    then show ?thesis using Suc.IH one by (meson grown_complete grown_trans)
  qed (use one in auto)
qed simp

text \<open>An insert succeeds exactly when one of its attempts does; the sleeps between them are at most the
  attempts less one.\<close>

lemma insert_loop_outcome:
  "fst (insert_loop inserts cap txs k left delay w) \<longleftrightarrow> (\<exists>i<left. inserts (k + i) \<ge> 3)"
proof (induction left arbitrary: k delay w)
  case (Suc left)
  obtain b w1 where batch: "insert_transactions_batch (inserts k) txs w = (b, w1)" by fastforce
  have b: "b \<longleftrightarrow> inserts k \<ge> 3" using batch_grown(3) [OF batch] .
  have ex: "(\<exists>i<Suc left. inserts (k + i) \<ge> 3) \<longleftrightarrow> b \<or> (\<exists>i<left. inserts (k + 1 + i) \<ge> 3)"
    by (auto simp: Ex_less_Suc2 b)
  show ?case
    unfolding ex Suc.IH [of "k + 1" "min (fmul delay 2) cap" w1, symmetric]
    by (cases b; cases "left = 0") (auto simp: batch split: prod.splits)
qed simp

fun backoff_delays :: "rat \<Rightarrow> rat \<Rightarrow> nat \<Rightarrow> rat list" where
  "backoff_delays cap delay 0 = []"
| "backoff_delays cap delay (Suc n) = delay # backoff_delays cap (min (fmul delay 2) cap) n"

lemma backoff_delays_capped: "delay \<le> cap \<Longrightarrow> \<forall>d \<in> set (backoff_delays cap delay n). d \<le> cap"
proof (induction n arbitrary: delay)
  case (Suc n)
  show ?case using Suc.IH [of "min (fmul delay 2) cap"] Suc.prems by simp
qed simp

lemma backoff_delays_length [simp]: "length (backoff_delays cap delay n) = n"
  by (induction n arbitrary: delay) simp_all

lemma insert_loop_sleeps:
  "fst (snd (insert_loop inserts cap txs k (Suc left) delay w)) =
     backoff_delays cap delay (length (takeWhile (\<lambda>i. inserts (k + i) < 3) [0..<left]))"
proof (induction left arbitrary: k delay w)
  case 0
  then show ?case by (simp split: prod.split bool.split)
next
  case (Suc left)
  obtain b w1 where batch: "insert_transactions_batch (inserts k) txs w = (b, w1)" by fastforce
  have b: "b \<longleftrightarrow> inserts k \<ge> 3" using batch_grown(3) [OF batch] .
  have shift: "length (takeWhile (\<lambda>i. inserts (k + i) < 3) [0..<Suc left]) =
      (if b then 0 else Suc (length (takeWhile (\<lambda>i. inserts (k + 1 + i) < 3) [0..<left])))"
    by (simp add: upt_conv_Cons map_Suc_upt [symmetric] takeWhile_map comp_def b del: upt_Suc)
  obtain r sl w2 where rest: "insert_loop inserts cap txs (k + 1) (Suc left) (min (fmul delay 2) cap) w1 = (r, sl, w2)"
    by (metis prod_cases3)
  from Suc.IH [of "k + 1" "min (fmul delay 2) cap" w1]
  have "sl = backoff_delays cap (min (fmul delay 2) cap) (length (takeWhile (\<lambda>i. inserts (k + 1 + i) < 3) [0..<left]))"
    unfolding rest by simp
  then show ?case
    unfolding shift insert_loop.simps(2) [of _ _ _ k] batch prod.case rest by (cases b) simp_all
qed

section \<open>The block handler\<close>

text \<open>What a handler does to the checkpoint, to the rows of the block and of every other transaction, and
  to the enrichment cache.\<close>

definition sound_outcome ::
  "string set \<Rightarrow> int option \<Rightarrow> (int \<times> string) option \<Rightarrow> pyerr option \<Rightarrow> chain_client \<Rightarrow> chain_client \<Rightarrow> world \<Rightarrow> world \<Rightarrow> bool" where
  "sound_outcome hashes s p r c c' w w' \<longleftrightarrow>
     stored w \<subseteq> stored w' \<and>
     (\<forall>h n. h \<notin> hashes \<longrightarrow> only_at n h w \<longrightarrow> only_at n h w') \<and>
     (if r = None
      then hashes \<subseteq> stored w' \<and> (\<forall>h \<in> hashes. only_at s h w') \<and> sync_point w' = p
      else sync_point w' = sync_point w \<and> pending_input_cache (mempool c') = pending_input_cache (mempool c))"

lemma grown_stored: "grown txs w w' \<Longrightarrow> stored w \<subseteq> stored w'"
  by (auto simp: grown_def stored_def upsert_rows_hashes)

lemma complete_stored: "complete txs w w' \<Longrightarrow> tx_hash ` set txs \<subseteq> stored w'"
  by (auto simp: complete_def stored_def upsert_rows_hashes)

lemma grown_only_at: "grown txs w w' \<Longrightarrow> h \<notin> tx_hash ` set txs \<Longrightarrow> only_at n h w \<Longrightarrow> only_at n h w'"
  by (auto simp: grown_def only_at_def upsert_rows_def)

lemma complete_only_at:
  "complete txs w w' \<Longrightarrow> slot ` set txs \<subseteq> {s} \<Longrightarrow> h \<in> tx_hash ` set txs \<Longrightarrow> only_at s h w'"
  by (auto simp: complete_def only_at_def upsert_rows_def)

lemma write_raw_payloads_frame:
  assumes "write_raw_payloads cfg ok txs w = (r, w')"
  shows "grown txs' w w'" "grown txs' w' w"
  using assms by (auto simp: write_raw_payloads_def Let_def grown_def split: if_splits)

lemma lifecycle_frame [simp]:
  "grown txs w (batch_upsert_lifecycle_confirmed s txs' w')  = grown txs w w'"
  "complete txs w (batch_upsert_lifecycle_confirmed s txs' w') = complete txs w w'"
  by (simp_all add: batch_upsert_lifecycle_confirmed_def grown_def complete_def)

lemma settle_confirmed_cache [simp]:
  "pending_input_cache (snd (settle_confirmed txs now mon)) = pending_input_cache mon"
  by (simp add: settle_confirmed_def Let_def)

lemma persist_block_sound:
  assumes "persist_block cfg env s txs c w = (r, effs, c', w')"
  shows "grown txs w w'" "r = None \<Longrightarrow> complete txs w w'"
    "pending_input_cache (mempool c') = pending_input_cache (mempool c)"
proof -
  obtain r1 w1 where raw: "write_raw_payloads cfg (e_raw_ok env) txs w = (r1, w1)" by fastforce
  obtain ok sl w2 where ins: "insert_block_with_retry cfg (e_inserts env) txs w1 = (ok, sl, w2)"
    by (metis prod_cases3)
  note g1 = write_raw_payloads_frame [OF raw, of txs]
  have g2: "grown txs w1 w2 \<and> (ok \<longrightarrow> complete txs w1 w2)"
    using ins unfolding insert_block_with_retry_def by (rule insert_loop_grown)
  have g: "grown txs w w2" "ok \<Longrightarrow> complete txs w w2"
    using g1(1) g2 by (auto intro: grown_trans grown_complete)
  obtain settled mon where set: "settle_confirmed txs (e_now env) (mempool c) = (settled, mon)" by fastforce
  define W where "W = (if e_lifecycle_ok env then batch_upsert_lifecycle_confirmed s txs w2 else w2)"
  have W: "grown txs w W" "ok \<Longrightarrow> complete txs w W" using g by (simp_all add: W_def)
  have eq: "(r, c', w') = (if r1 \<noteq> None then (r1, c, w1)
      else if ok then (None, c\<lparr>mempool := snd (settle_confirmed txs (e_now env) (mempool c))\<rparr>, W)
      else (Some BlockPersistError, c, w2))"
  proof (cases r1)
    case None
    then show ?thesis
      using assms unfolding persist_block_def raw
      by (cases ok) (simp_all only: prod.case option.case ins bool.case Let_def set W_def [symmetric]
        prod.inject fst_conv snd_conv simp_thms option.distinct if_True if_False)
  next
    case (Some e)
    then show ?thesis using assms unfolding persist_block_def raw by auto
  qed
  show "grown txs w w'" using eq g(1) g1(1) W(1) by (simp split: if_splits)
  show "complete txs w w'" if "r = None" using eq that W(2) by (simp split: if_splits)
  show "pending_input_cache (mempool c') = pending_input_cache (mempool c)" using eq by (simp split: if_splits)
qed

lemma sync_point_update_frame [simp]:
  "stored (w\<lparr>sync_point := p\<rparr>) = stored w" "only_at n h (w\<lparr>sync_point := p\<rparr>) = only_at n h w"
  by (simp_all add: stored_def only_at_def)

lemma ingest_parsed_sound:
  assumes run: "ingest_parsed cfg env blk s txs c w = (r, effs, c', w')" and slots: "slot ` set txs \<subseteq> {Some s}"
  shows "sound_outcome (tx_hash ` set txs) (Some s) (Some (s, blk_id blk)) r c c' w w'"
proof -
  obtain r1 e1 c1 w1 where per: "(if txs \<noteq> [] then persist_block cfg env s txs c w else (None, [], c, w)) = (r1, e1, c1, w1)"
    by (metis prod_cases4)
  have one: "grown txs w w1" "r1 = None \<Longrightarrow> txs \<noteq> [] \<Longrightarrow> complete txs w w1"
      "pending_input_cache (mempool c1) = pending_input_cache (mempool c)"
    using per persist_block_sound [of cfg env s txs c w r1 e1 c1 w1] by (auto split: if_splits)
  have all_in: "tx_hash ` set txs \<subseteq> stored w1 \<and> (\<forall>h \<in> tx_hash ` set txs. only_at (Some s) h w1)" if "r1 = None"
    using one(2) [OF that] slots by (cases "txs = []") (simp_all add: complete_stored complete_only_at)
  have sp: "sync_point w1 = sync_point w" using one(1) by (simp add: grown_def)
  have keep: "stored w \<subseteq> stored w1" "\<And>h n. h \<notin> tx_hash ` set txs \<Longrightarrow> only_at n h w \<Longrightarrow> only_at n h w1"
    using one(1) grown_stored grown_only_at by auto
  show ?thesis
  proof (cases r1)
    case None
    then show ?thesis
      using run keep sp one(3) all_in unfolding ingest_parsed_def per prod.case
      by (cases "e_save_ok env") (auto simp: save_sync_point_def sound_outcome_def StoreError_def)
  next
    case (Some e)
    then show ?thesis
      using run keep sp one(3) unfolding ingest_parsed_def per prod.case by (auto simp: sound_outcome_def)
  qed
qed

lemma keep_failures_frame [simp]:
  "stored (keep_failures cfg ok failed w) = stored w" "only_at n h (keep_failures cfg ok failed w) = only_at n h w"
  "sync_point (keep_failures cfg ok failed w) = sync_point w"
  by (simp_all add: keep_failures_def stored_def only_at_def)

lemma mempool_note_horizon [simp]: "mempool (note_horizon s c) = mempool c"
  by (simp add: note_horizon_def)

text \<open>The handler, once for every block with a slot.\<close>

definition stamped :: "forward_env \<Rightarrow> int \<Rightarrow> chain_client \<Rightarrow> chain_client" where
  "stamped env s c = c\<lparr>tip_slot := (case e_tip env of None \<Rightarrow> tip_slot c | Some t \<Rightarrow> Some t),
                     last_block_at := Some (e_now_utc env), last_processed_slot := Some s\<rparr>"

lemma mempool_stamped [simp]: "mempool (stamped env s c) = mempool c"
  by (simp add: stamped_def)

lemma roll_forward_slotted:
  assumes "blk_slot blk = Some s"
  shows "handle_roll_forward cfg str_of vint env blk c w =
     (if blk_txs blk = []
      then (case save_sync_point (e_save_ok env) s (blk_id blk) w of (r, w) \<Rightarrow> (r, [], stamped env s c, w))
      else case parse_block_txs str_of vint blk (e_now env) (stamped env s c) of
             (Some e, _, failed) \<Rightarrow>
               (Some e, [], note_horizon (Some s) (stamped env s c), keep_failures cfg (e_preserve_ok env) failed w)
           | (None, txs, failed) \<Rightarrow>
               ingest_parsed cfg env blk s (resolve_block env txs) (note_horizon (Some s) (stamped env s c))
                 (keep_failures cfg (e_preserve_ok env) failed w))"
  unfolding handle_roll_forward_def assms option.case Let_def stamped_def [symmetric] ..

lemma parsed_block_keys:
  assumes "parse_block_txs str_of vint blk now c = (None, txs, failed)"
  shows "tx_hash ` set (resolve_block env txs) = block_hashes str_of vint blk"
    "slot ` set (resolve_block env txs) \<subseteq> {blk_slot blk}"
proof -
  have keys: "map tx_hash txs = List.map_filter (payload_hash str_of vint) (blk_txs blk) \<and> slot ` set txs \<subseteq> {blk_slot blk}"
    using assms unfolding parse_block_txs_def by (rule parse_loop_keys)
  then show "tx_hash ` set (resolve_block env txs) = block_hashes str_of vint blk"
    unfolding block_hashes_def by (metis list.set_map resolve_block_keys(1))
  show "slot ` set (resolve_block env txs) \<subseteq> {blk_slot blk}"
    using keys by (metis list.set_map resolve_block_keys(2))
qed

lemma roll_forward_sound:
  assumes run: "handle_roll_forward cfg str_of vint env blk c w = (r, effs, c', w')"
  shows "sound_outcome (block_hashes str_of vint blk) (blk_slot blk)
    (case blk_slot blk of None \<Rightarrow> sync_point w | Some s \<Rightarrow> Some (s, blk_id blk)) r c c' w w'"
proof (cases "blk_slot blk")
  case None
  then show ?thesis
    using run
    by (auto simp: handle_roll_forward_def block_hashes_def List.map_filter_def sound_outcome_def split: if_splits)
next
  case (Some s)
  obtain e txs failed where p: "parse_block_txs str_of vint blk (e_now env) (stamped env s c) = (e, txs, failed)"
    by (metis prod_cases3)
  show ?thesis
  proof (cases "blk_txs blk = []")
    case True
    then show ?thesis
      using run unfolding roll_forward_slotted [OF Some] Some
      by (auto simp: save_sync_point_def sound_outcome_def block_hashes_def List.map_filter_def split: if_splits)
  next
    case txs: False
    show ?thesis
    proof (cases e)
      case None
      have "ingest_parsed cfg env blk s (resolve_block env txs) (note_horizon (Some s) (stamped env s c))
          (keep_failures cfg (e_preserve_ok env) failed w) = (r, effs, c', w')"
        using run txs unfolding roll_forward_slotted [OF Some] p None by simp
      from ingest_parsed_sound [OF this] parsed_block_keys [OF p [unfolded None], of env] Some
      show ?thesis by (simp add: sound_outcome_def)
    next
      case (Some e)
      then show ?thesis
        using run txs unfolding roll_forward_slotted [OF \<open>blk_slot blk = Some s\<close>] p by (auto simp: sound_outcome_def)
    qed
  qed
qed

section \<open>The purge\<close>

lemma delete_from_other:
  assumes "h \<notin> set hashes"
  shows "h \<in> stored (delete_from t hashes w) \<longleftrightarrow> h \<in> stored w" "only_at n h (delete_from t hashes w) \<longleftrightarrow> only_at n h w"
  using assms by (auto simp: delete_from_def stored_def only_at_def)

lemma delete_tables_other:
  "delete_tables ok hashes ts w = (r, w') \<Longrightarrow> h \<notin> set hashes \<Longrightarrow>
     (h \<in> stored w' \<longleftrightarrow> h \<in> stored w) \<and> (only_at n h w' \<longleftrightarrow> only_at n h w)"
  by (induction ts arbitrary: w) (auto simp: delete_from_other split: if_splits)

lemma delete_from_frame [simp]:
  "sync_point (delete_from t hashes w) = sync_point w"
  "pending_score_repurges (delete_from t hashes w) = pending_score_repurges w"
  by (simp_all add: delete_from_def)

lemma delete_tables_frame:
  "delete_tables ok hashes ts w = (r, w') \<Longrightarrow>
     sync_point w' = sync_point w \<and> pending_score_repurges w' = pending_score_repurges w"
  by (induction ts arbitrary: w) (auto split: if_splits)

text \<open>The whole purge at once, and that it does not matter what part of it was done before.\<close>

definition purge_all :: "string list \<Rightarrow> world \<Rightarrow> world" where
  "purge_all hashes w =
     w\<lparr>tx_rows := filter (\<lambda>tx. tx_hash tx \<notin> set hashes) (tx_rows w),
       input_rows := filter (\<lambda>h. h \<notin> set hashes) (input_rows w),
       output_rows := filter (\<lambda>h. h \<notin> set hashes) (output_rows w),
       score_rows := filter (\<lambda>h. h \<notin> set hashes) (score_rows w)\<rparr>"

lemma delete_tables_all: "delete_tables (\<lambda>_. True) hashes ROLLBACK_CLEANUP_TABLES w = (True, purge_all hashes w)"
  by (simp add: ROLLBACK_CLEANUP_TABLES_def delete_from_def purge_all_def)

lemma delete_tables_ok: "delete_tables ok hashes ts w = (True, w') \<Longrightarrow> delete_tables (\<lambda>_. True) hashes ts w = (True, w')"
  by (induction ts arbitrary: w) (auto split: if_splits)

lemma purge_after_delete [simp]: "purge_all hashes (delete_from t hashes w) = purge_all hashes w"
  by (simp add: delete_from_def purge_all_def)

lemma purge_after_tables: "delete_tables ok hashes ts w = (r, w') \<Longrightarrow> purge_all hashes w' = purge_all hashes w"
  by (induction ts arbitrary: w) (auto split: if_splits)

lemma failed_purge_keeps_rows:
  "delete_tables ok hashes (ts @ [''transactions'']) w = (False, w') \<Longrightarrow> ''transactions'' \<notin> set ts \<Longrightarrow> tx_rows w' = tx_rows w"
  by (induction ts arbitrary: w) (auto simp: delete_from_def split: if_splits)

lemma failed_cleanup_keeps_rows:
  "delete_tables ok hashes ROLLBACK_CLEANUP_TABLES w = (False, w') \<Longrightarrow> tx_rows w' = tx_rows w"
  using failed_purge_keeps_rows [of ok hashes "butlast ROLLBACK_CLEANUP_TABLES" w w']
  by (simp add: ROLLBACK_CLEANUP_TABLES_def)

lemma orphaned_past: "set (orphaned s w) = {tx_hash r | r. r \<in> set (tx_rows w) \<and> (\<exists>n > s. slot r = Some n)}"
  by (auto simp: orphaned_def split: option.splits)

lemma not_orphaned: "only_at (Some n) h w \<Longrightarrow> n \<le> s \<Longrightarrow> h \<notin> set (orphaned s w)"
  by (auto simp: orphaned_past only_at_def)

lemma orphaned_purged: "orphaned s (purge_all (orphaned s w) w) = []"
proof -
  have "set (orphaned s (purge_all (orphaned s w) w)) = {}"
    unfolding orphaned_past [of s "purge_all (orphaned s w) w"] by (auto simp: purge_all_def orphaned_past)
  then show ?thesis by simp
qed

lemma delete_rolled_back_txs_other:
  assumes "delete_rolled_back_txs select_ok ok s w = (r, w')" "only_at (Some n) h w" "n \<le> s"
  shows "h \<in> stored w' \<longleftrightarrow> h \<in> stored w" "only_at (Some n) h w'"
proof -
  have "h \<notin> set (orphaned s w)" using assms(2,3) by (rule not_orphaned)
  note other = delete_tables_other [OF _ this]
  show "h \<in> stored w' \<longleftrightarrow> h \<in> stored w" "only_at (Some n) h w'"
    using assms(1,2) other
    by (auto simp: delete_rolled_back_txs_def Let_def split: if_splits prod.splits bool.splits)
qed

lemma delete_rolled_back_txs_frame:
  assumes "delete_rolled_back_txs select_ok ok s w = (r, w')"
  shows "sync_point w' = sync_point w" "pending_score_repurges w' = pending_score_repurges w"
  using assms delete_tables_frame
  by (auto simp: delete_rolled_back_txs_def Let_def split: if_splits prod.splits bool.splits)

section \<open>The rollback handler\<close>

lemma cleanup_rollback_other:
  assumes "cleanup_rollback env s c w = (r, c', w')" "only_at (Some n) h w" "n \<le> s"
  shows "h \<in> stored w' \<longleftrightarrow> h \<in> stored w" "only_at (Some n) h w'"
proof -
  obtain q w1 where d: "delete_rolled_back_txs (b_select_ok env) (b_delete_ok env) s w = (q, w1)" by fastforce
  have "w' = w1 \<or> (\<exists>hs. w' = add_pending_score_repurges hs w1)"
    using assms(1) unfolding cleanup_rollback_def d by (auto simp: Let_def split: sum.splits if_splits)
  then show "h \<in> stored w' \<longleftrightarrow> h \<in> stored w" "only_at (Some n) h w'"
    using delete_rolled_back_txs_other [OF d assms(2,3)]
    by (auto simp: add_pending_score_repurges_def stored_def only_at_def)
qed

lemma set_add_pending:
  "set (pending_score_repurges (add_pending_score_repurges hs w)) = set (pending_score_repurges w) \<union> set hs"
proof -
  have "set (foldl (\<lambda>q h. if h \<in> set q then q else q @ [h]) q hs) = set q \<union> set hs" for q :: "string list"
    by (induction hs arbitrary: q) auto
  then show ?thesis by (simp add: add_pending_score_repurges_def)
qed

lemma add_pending_sync_point: "sync_point (add_pending_score_repurges hs w) = sync_point w"
  by (simp add: add_pending_score_repurges_def)

lemma cleanup_rollback_frame:
  assumes "cleanup_rollback env s c w = (r, c', w')"
  shows "sync_point w' = sync_point w" "set (pending_score_repurges w) \<subseteq> set (pending_score_repurges w')"
    "mempool c' = mempool c"
proof -
  obtain q w1 where d: "delete_rolled_back_txs (b_select_ok env) (b_delete_ok env) s w = (q, w1)" by fastforce
  have "(w' = w1 \<or> (\<exists>hs. w' = add_pending_score_repurges hs w1)) \<and> mempool c' = mempool c"
    using assms(1) unfolding cleanup_rollback_def d by (auto simp: Let_def split: sum.splits if_splits)
  then show "sync_point w' = sync_point w" "set (pending_score_repurges w) \<subseteq> set (pending_score_repurges w')"
    "mempool c' = mempool c"
    using delete_rolled_back_txs_frame [OF d] set_add_pending by (auto simp: add_pending_sync_point)
qed

lemma mark_lifecycle_frame [simp]:
  "stored (mark_lifecycle_rolled_back s w) = stored w" "only_at n h (mark_lifecycle_rolled_back s w) = only_at n h w"
  "sync_point (mark_lifecycle_rolled_back s w) = sync_point w"
  "pending_score_repurges (mark_lifecycle_rolled_back s w) = pending_score_repurges w"
  "score_rows (mark_lifecycle_rolled_back s w) = score_rows w" "tx_rows (mark_lifecycle_rolled_back s w) = tx_rows w"
  by (simp_all add: mark_lifecycle_rolled_back_def stored_def only_at_def)

lemma point_guard: "(Point s i \<noteq> Origin \<and> x) = x" "(x \<and> Point s i \<noteq> Origin) = x"
  by simp_all

text \<open>The three stages of the handler: lifecycle and cleanup, the checkpoint, the mempool.\<close>

lemma roll_backward_stages:
  assumes "handle_roll_backward cfg env (Point s i) c w = (r, c', w')"
  obtains r1 c1 w1 where
    "(if ROLLBACK_CLEANUP_ENABLED cfg
      then cleanup_rollback env s (c\<lparr>tip_slot := (case b_tip env of None \<Rightarrow> tip_slot c | Some t \<Rightarrow> Some t)\<rparr>)
             (if b_mark_ok env then mark_lifecycle_rolled_back s w else w)
      else (None, c\<lparr>tip_slot := (case b_tip env of None \<Rightarrow> tip_slot c | Some t \<Rightarrow> Some t)\<rparr>,
             if b_mark_ok env then mark_lifecycle_rolled_back s w else w)) = (r1, c1, w1)"
    "repurge_tasks c' = repurge_tasks c1"
    "r \<noteq> None \<Longrightarrow> w' = w1"
    "r = None \<Longrightarrow> r1 = None \<and> w' = (if i = [] then w1 else w1\<lparr>sync_point := Some (s, i)\<rparr>)"
proof -
  obtain r1 c1 w1 where st: "(if ROLLBACK_CLEANUP_ENABLED cfg
      then cleanup_rollback env s (c\<lparr>tip_slot := (case b_tip env of None \<Rightarrow> tip_slot c | Some t \<Rightarrow> Some t)\<rparr>)
             (if b_mark_ok env then mark_lifecycle_rolled_back s w else w)
      else (None, c\<lparr>tip_slot := (case b_tip env of None \<Rightarrow> tip_slot c | Some t \<Rightarrow> Some t)\<rparr>,
             if b_mark_ok env then mark_lifecycle_rolled_back s w else w)) = (r1, c1, w1)"
    by (metis prod_cases3)
  have "(case (r1, c1, w1) of
           (Some e, c, w) \<Rightarrow> (Some e, c, w)
         | (None, c, w) \<Rightarrow>
             (case (if i \<noteq> [] then save_sync_point (b_save_ok env) s i w else (None, w)) of
                (Some e, w) \<Rightarrow> (Some e, c, w)
              | (None, w) \<Rightarrow> (None, c\<lparr>mempool := clear_on_rollback (mempool c)\<rparr>, w))) = (r, c', w')"
    using assms unfolding handle_roll_backward_def Let_def point.case prod.case st [symmetric] point_guard .
  then have "repurge_tasks c' = repurge_tasks c1 \<and> (r \<noteq> None \<longrightarrow> w' = w1) \<and>
      (r = None \<longrightarrow> r1 = None \<and> w' = (if i = [] then w1 else w1\<lparr>sync_point := Some (s, i)\<rparr>))"
    by (cases r1; cases "i = []"; cases "b_save_ok env") (auto simp: save_sync_point_def)
  with st show ?thesis using that by blast
qed

lemma roll_backward_other:
  assumes run: "handle_roll_backward cfg env (Point s i) c w = (r, c', w')" and row: "only_at (Some n) h w" "n \<le> s"
  shows "h \<in> stored w' \<longleftrightarrow> h \<in> stored w" "only_at (Some n) h w'"
proof -
  let ?w = "if b_mark_ok env then mark_lifecycle_rolled_back s w else w"
  have w: "only_at (Some n) h ?w" "h \<in> stored ?w \<longleftrightarrow> h \<in> stored w" using row by auto
  obtain r1 c1 w1 where st: "(if ROLLBACK_CLEANUP_ENABLED cfg
      then cleanup_rollback env s (c\<lparr>tip_slot := (case b_tip env of None \<Rightarrow> tip_slot c | Some t \<Rightarrow> Some t)\<rparr>) ?w
      else (None, c\<lparr>tip_slot := (case b_tip env of None \<Rightarrow> tip_slot c | Some t \<Rightarrow> Some t)\<rparr>, ?w)) = (r1, c1, w1)"
    and out: "r \<noteq> None \<Longrightarrow> w' = w1" "r = None \<Longrightarrow> w' = (if i = [] then w1 else w1\<lparr>sync_point := Some (s, i)\<rparr>)"
    using roll_backward_stages [OF run] by metis
  have "(h \<in> stored w1 \<longleftrightarrow> h \<in> stored w) \<and> only_at (Some n) h w1"
    using st w cleanup_rollback_other [OF _ w(1) row(2)] by (cases "ROLLBACK_CLEANUP_ENABLED cfg") auto
  then show "h \<in> stored w' \<longleftrightarrow> h \<in> stored w" "only_at (Some n) h w'"
    using out by (cases r; simp)+
qed

end
