(* ===== verification/Chain_Follow.thy ===== *)
theory Chain_Follow
  imports Chain_Sync
begin

text \<open>
  Chain sync follows the node's chain: the runs of the client of \<open>Chain_Sync\<close> as a relation over the blocks
  delivered so far, the refinement of the abstract chain they give, and the durability of the score
  repurge.  The abstract state is the list of blocks on the chain the node has sent; the concrete one is the
  client with what the stores hold.
\<close>

section \<open>The blocks a message carries\<close>

text \<open>The block an undecodable frame is rebuilt into.\<close>

definition rebuilt_block :: "(string \<Rightarrow> json option) \<Rightarrow> string \<Rightarrow> block option" where
  "rebuilt_block loads raw =
     (case scan_block_header raw of
        Inl _ \<Rightarrow> None
      | Inr header \<Rightarrow>
          (case (hdr_id header, hdr_slot header) of
             (Some bid, Some s) \<Rightarrow>
               (if bid = [] then None
                else Some \<lparr>blk_id = bid, blk_slot = Some s,
                           blk_height = (case hdr_height header of None \<Rightarrow> 0 | Some h \<Rightarrow> h),
                           blk_txs = fst (recover_transactions loads raw)\<rparr>)
           | _ \<Rightarrow> None))"

definition message_block :: "(string \<Rightarrow> json option) \<Rightarrow> message \<Rightarrow> block option" where
  "message_block loads msg =
     (case msg of Forward env blk \<Rightarrow> Some blk | Undecodable env ok raw \<Rightarrow> rebuilt_block loads raw | _ \<Rightarrow> None)"

lemma quarantine_rebuilt:
  assumes "rebuilt_block loads raw = Some blk"
  obtains row where "quarantine_undecodable_block cfg str_of vint loads record_ok env raw c w =
    (if record_ok
     then handle_roll_forward cfg str_of vint (env\<lparr>e_tip := None\<rparr>) blk c
            (w\<lparr>quarantined_blocks := AList.update (blk_id blk) row (quarantined_blocks w)\<rparr>)
     else (Some StoreError, [], c, w))"
proof -
  obtain header bid s where hd: "scan_block_header raw = Inr header" "hdr_id header = Some bid" "hdr_slot header = Some s"
      "bid \<noteq> []" and blk: "blk = \<lparr>blk_id = bid, blk_slot = Some s,
         blk_height = (case hdr_height header of None \<Rightarrow> 0 | Some h \<Rightarrow> h), blk_txs = fst (recover_transactions loads raw)\<rparr>"
    using assms unfolding rebuilt_block_def by (auto split: sum.splits option.splits if_splits)
  obtain txs lost where rec: "recover_transactions loads raw = (txs, lost)" by fastforce
  show ?thesis
    by (rule that [of "\<lparr>q_slot = s, frame_bytes = int (length raw), nesting_depth = max_nesting_depth raw,
        txs_recovered = int (length txs), txs_lost = lost\<rparr>"])
      (simp add: quarantine_undecodable_block_def hd blk rec Let_def)
qed

lemma quarantine_unidentified:
  "rebuilt_block loads raw = None \<Longrightarrow>
     \<exists>e. quarantine_undecodable_block cfg str_of vint loads record_ok env raw c w = (Some e, [], c, w)"
  unfolding rebuilt_block_def quarantine_undecodable_block_def
  by (auto simp: Let_def split_beta split: sum.splits option.splits if_splits)

lemma fetch_mempool [simp]: "mempool (fetch_slot_time_converter fetched now c) = mempool c"
  by (simp add: fetch_slot_time_converter_def)

lemma sound_outcome_cong:
  assumes "sound_outcome hs s p r c c' w w'" "mempool c0 = mempool c"
    "stored w0 = stored w" "\<And>n h. only_at n h w0 = only_at n h w" "sync_point w0 = sync_point w"
  shows "sound_outcome hs s p r c0 c' w0 w'"
  using assms by (simp add: sound_outcome_def)

text \<open>Every message that carries a block has the outcome of the block handler.\<close>

lemma turn_block_sound:
  assumes blk: "message_block loads msg = Some blk"
    and run: "chain_sync_turn cfg str_of vint loads fetched now msg c w = (r, c', w')"
  shows "sound_outcome (block_hashes str_of vint blk) (blk_slot blk)
    (case blk_slot blk of None \<Rightarrow> sync_point w | Some s \<Rightarrow> Some (s, blk_id blk)) r c c' w w'"
proof -
  define c0 where "c0 = (if slot_time_refetch_needed c \<and> slot_time_refetch_due now c
               then fetch_slot_time_converter fetched now c else c)"
  have c0: "mempool c = mempool c0" by (simp add: c0_def)
  show ?thesis
  proof (cases msg)
    case (Forward env b)
    then have "b = blk" using blk by (simp add: message_block_def)
    then obtain effs where "handle_roll_forward cfg str_of vint env blk c0 w = (r, effs, c', w')"
      using run unfolding chain_sync_turn_def Let_def Forward message.case c0_def [symmetric] by (auto split: prod.splits)
    from sound_outcome_cong [OF roll_forward_sound [OF this] c0 refl refl refl] show ?thesis .
  next
    case (Undecodable env ok raw)
    then have "rebuilt_block loads raw = Some blk" using blk by (simp add: message_block_def)
    then obtain row where q: "quarantine_undecodable_block cfg str_of vint loads ok env raw c0 w =
      (if ok then handle_roll_forward cfg str_of vint (env\<lparr>e_tip := None\<rparr>) blk c0
            (w\<lparr>quarantined_blocks := AList.update (blk_id blk) row (quarantined_blocks w)\<rparr>)
       else (Some StoreError, [], c0, w))" by (rule quarantine_rebuilt)
    let ?w = "w\<lparr>quarantined_blocks := AList.update (blk_id blk) row (quarantined_blocks w)\<rparr>"
    have w: "stored w = stored ?w" "only_at n h w = only_at n h ?w" "sync_point w = sync_point ?w" for n h
      by (simp_all add: stored_def only_at_def)
    have ans: "(case quarantine_undecodable_block cfg str_of vint loads ok env raw c0 w of (r, _, c, w) \<Rightarrow> (r, c, w))
        = (r, c', w')"
      using run unfolding chain_sync_turn_def Let_def Undecodable message.case c0_def [symmetric] .
    show ?thesis
    proof (cases ok)
      case True
      then obtain effs where "handle_roll_forward cfg str_of vint (env\<lparr>e_tip := None\<rparr>) blk c0 ?w = (r, effs, c', w')"
        using ans unfolding q by (auto split: prod.splits)
      from sound_outcome_cong [OF roll_forward_sound [OF this] c0 w] show ?thesis unfolding w(3) .
    next
      case False
      then show ?thesis using ans unfolding q by (auto simp: sound_outcome_def c0)
    qed
  qed (use blk in \<open>simp_all add: message_block_def\<close>)
qed

section \<open>Runs\<close>

text \<open>The abstract chain: what the node has sent and not taken back.  A rollback keeps the blocks up to
  its point; the tip is the last block with a slot.\<close>

definition above :: "int \<Rightarrow> block \<Rightarrow> bool" where
  "above s b \<longleftrightarrow> (case blk_slot b of None \<Rightarrow> False | Some n \<Rightarrow> n > s)"

definition kept_to :: "point \<Rightarrow> block list \<Rightarrow> block list" where
  "kept_to p past = (case p of Origin \<Rightarrow> [] | Point s h \<Rightarrow> takeWhile (\<lambda>b. \<not> above s b) past)"

fun tip_point :: "block list \<Rightarrow> (int \<times> string) option" where
  "tip_point [] = None"
| "tip_point (b # bs) =
     (case tip_point bs of
        Some p \<Rightarrow> Some p
      | None \<Rightarrow> (case blk_slot b of None \<Rightarrow> None | Some s \<Rightarrow> Some (s, blk_id b)))"

definition fresh :: "(json \<Rightarrow> string) \<Rightarrow> (json \<Rightarrow> int result) \<Rightarrow> block list \<Rightarrow> block \<Rightarrow> bool" where
  "fresh str_of vint past blk \<longleftrightarrow> (\<forall>b \<in> set past. block_hashes str_of vint b \<inter> block_hashes str_of vint blk = {})"

definition on_chain :: "point \<Rightarrow> block list \<Rightarrow> bool" where
  "on_chain p past \<longleftrightarrow>
     (case p of Origin \<Rightarrow> True
      | Point s h \<Rightarrow> h \<noteq> [] \<and> (tip_point (kept_to p past) = None \<or> tip_point (kept_to p past) = Some (s, h)))"

text \<open>A run, with whether the session is up, the chain delivered, the client and the stores.  A failed
  message ends the session; the next one starts at the checkpoint.  Between messages the delayed
  repurges run, the analysis engine adds score rows and the mempool monitor changes its state.\<close>

inductive sync_run ::
  "'a chain_settings_scheme \<Rightarrow> (json \<Rightarrow> string) \<Rightarrow> (json \<Rightarrow> int result) \<Rightarrow> (string \<Rightarrow> json option) \<Rightarrow>
     bool \<Rightarrow> block list \<Rightarrow> chain_client \<Rightarrow> world \<Rightarrow> bool"
  for cfg str_of vint loads where
  begin_run: "sync_run cfg str_of vint loads False [] c w"
| session: "sync_run cfg str_of vint loads False past c' w'"
    if "sync_run cfg str_of vint loads live past c w"
      "start_session rd del clr fetched now get_ok found tip c w = (Inl e, c', w')"
| session_up: "sync_run cfg str_of vint loads True past c' w'"
    if "sync_run cfg str_of vint loads False past c w"
      "start_session rd del clr fetched now get_ok found tip c w = (Inr p, c', w')"
| block_in: "sync_run cfg str_of vint loads True (past @ [blk]) c' w'"
    if "sync_run cfg str_of vint loads True past c w" "message_block loads msg = Some blk" "fresh str_of vint past blk"
      "chain_sync_turn cfg str_of vint loads fetched now msg c w = (None, c', w')"
| block_failed: "sync_run cfg str_of vint loads False past c' w'"
    if "sync_run cfg str_of vint loads True past c w" "message_block loads msg = Some blk" "fresh str_of vint past blk"
      "chain_sync_turn cfg str_of vint loads fetched now msg c w = (Some e, c', w')"
| roll_back: "sync_run cfg str_of vint loads True (kept_to p past) c' w'"
    if "sync_run cfg str_of vint loads True past c w" "on_chain p past"
      "chain_sync_turn cfg str_of vint loads fetched now (Backward env p) c w = (None, c', w')"
| repurged: "sync_run cfg str_of vint loads live past c' w'"
    if "sync_run cfg str_of vint loads live past c w" "delayed_score_repurge del clr hashes c w = (c', w')"
| engine_scored: "sync_run cfg str_of vint loads live past c (w\<lparr>score_rows := score_rows w @ hashes\<rparr>)"
    if "sync_run cfg str_of vint loads live past c w"
| mempool_moved: "sync_run cfg str_of vint loads live past (c\<lparr>mempool := mon\<rparr>) w"
    if "sync_run cfg str_of vint loads live past c w"

text \<open>The refinement relation: every block of the chain has its rows, at its slot, and the checkpoint
  is the tip.\<close>

definition follows :: "(json \<Rightarrow> string) \<Rightarrow> (json \<Rightarrow> int result) \<Rightarrow> block list \<Rightarrow> world \<Rightarrow> bool" where
  "follows str_of vint past w \<longleftrightarrow>
     (\<forall>b \<in> set past. \<forall>h \<in> block_hashes str_of vint b. h \<in> stored w \<and> blk_slot b \<noteq> None \<and> only_at (blk_slot b) h w) \<and>
     (tip_point past = None \<or> sync_point w = tip_point past)"

lemma tip_point_append:
  "tip_point (bs @ [b]) = (case blk_slot b of None \<Rightarrow> tip_point bs | Some s \<Rightarrow> Some (s, blk_id b))"
  by (induction bs) (auto split: option.splits)

lemma follows_frame:
  "follows str_of vint past w \<Longrightarrow> tx_rows w' = tx_rows w \<Longrightarrow> input_rows w' = input_rows w \<Longrightarrow>
     output_rows w' = output_rows w \<Longrightarrow> sync_point w' = sync_point w \<Longrightarrow> follows str_of vint past w'"
  by (simp add: follows_def stored_def only_at_def)

lemma repurge_frame:
  "tx_rows (repurge del clr hs w) = tx_rows w" "input_rows (repurge del clr hs w) = input_rows w"
  "output_rows (repurge del clr hs w) = output_rows w" "sync_point (repurge del clr hs w) = sync_point w"
  by (simp_all add: repurge_def delete_score_rows_def clear_pending_score_repurges_def)

lemma session_world:
  "start_session rd del clr fetched now get_ok found tip c w = (r, c', w') \<Longrightarrow>
     w' = replay_pending_score_repurges rd del clr w"
  by (auto simp: start_session_def Let_def split: if_splits option.splits)

lemma follows_session:
  assumes "follows str_of vint past w" "start_session rd del clr fetched now get_ok found tip c w = (r, c', w')"
  shows "follows str_of vint past w'"
  unfolding session_world [OF assms(2)] replay_pending_score_repurges_def
  using assms(1) by (auto intro: follows_frame simp: repurge_frame)

lemma follows_block:
  assumes past: "follows str_of vint past w" and fresh: "fresh str_of vint past blk"
    and out: "sound_outcome (block_hashes str_of vint blk) (blk_slot blk)
      (case blk_slot blk of None \<Rightarrow> sync_point w | Some s \<Rightarrow> Some (s, blk_id blk)) r c c' w w'"
    and slotless: "blk_slot blk = None \<Longrightarrow> r = None \<Longrightarrow> block_hashes str_of vint blk = {}"
  shows "follows str_of vint (if r = None then past @ [blk] else past) w'"
proof -
  have old: "h \<in> stored w' \<and> blk_slot b \<noteq> None \<and> only_at (blk_slot b) h w'"
    if "b \<in> set past" "h \<in> block_hashes str_of vint b" for b h
  proof -
    have "h \<notin> block_hashes str_of vint blk" using fresh that by (auto simp: fresh_def)
    then show ?thesis using past out that by (auto simp: follows_def sound_outcome_def)
  qed
  show ?thesis
  proof (cases r)
    case None
    have new: "h \<in> stored w' \<and> blk_slot blk \<noteq> None \<and> only_at (blk_slot blk) h w'" if "h \<in> block_hashes str_of vint blk" for h
      using that out slotless None by (auto simp: sound_outcome_def)
    have "tip_point (past @ [blk]) = None \<or> sync_point w' = tip_point (past @ [blk])"
      using past out None unfolding tip_point_append follows_def sound_outcome_def by (cases "blk_slot blk") auto
    then show ?thesis unfolding follows_def using old new None by auto
  next
    case (Some e)
    then have "sync_point w' = sync_point w" using out by (simp add: sound_outcome_def)
    then show ?thesis unfolding follows_def using old past Some by (auto simp: follows_def)
  qed
qed
lemma turn_slotless:
  assumes "message_block loads msg = Some blk" "blk_slot blk = None"
    and run: "chain_sync_turn cfg str_of vint loads fetched now msg c w = (None, c', w')"
  shows "block_hashes str_of vint blk = {}"
proof -
  obtain env where msg: "msg = Forward env blk"
    using assms(1,2) by (auto simp: message_block_def rebuilt_block_def split: message.splits sum.splits option.splits if_splits)
  have "blk_txs blk = []"
    using run assms(2) unfolding msg chain_sync_turn_def Let_def message.case handle_roll_forward_def
    by (auto split: if_splits)
  then show ?thesis by (simp add: block_hashes_def List.map_filter_def)
qed

lemma follows_rollback:
  assumes past: "follows str_of vint past w" and on: "on_chain p past"
    and run: "handle_roll_backward cfg env p c w = (None, c', w')"
  shows "follows str_of vint (kept_to p past) w'"
proof (cases p)
  case Origin
  then show ?thesis by (simp add: follows_def kept_to_def)
next
  case (Point s i)
  note run = run [unfolded Point]
  have "i \<noteq> []" using on by (simp add: on_chain_def Point)
  then have sp: "sync_point w' = Some (s, i)"
    by - (rule roll_backward_stages [OF run], simp)
  have "h \<in> stored w' \<and> blk_slot b \<noteq> None \<and> only_at (blk_slot b) h w'"
    if b: "b \<in> set (kept_to p past)" and h: "h \<in> block_hashes str_of vint b" for b h
  proof -
    have in_past: "b \<in> set past" "\<not> above s b" using b by (auto simp: kept_to_def Point dest: set_takeWhileD)
    then obtain n where n: "blk_slot b = Some n" "h \<in> stored w" "only_at (Some n) h w"
      using past h by (fastforce simp: follows_def)
    then have "n \<le> s" using in_past(2) by (simp add: above_def)
    from roll_backward_other [OF run n(3) this] n show ?thesis by simp
  qed
  moreover have "tip_point (kept_to p past) = None \<or> sync_point w' = tip_point (kept_to p past)"
    using on sp by (auto simp: on_chain_def Point)
  ultimately show ?thesis unfolding follows_def by blast
qed

lemma turn_backward:
  assumes "chain_sync_turn cfg str_of vint loads fetched now (Backward env p) c w = (r, c', w')"
  obtains c0 where "handle_roll_backward cfg env p c0 w = (r, c', w')" "repurge_tasks c0 = repurge_tasks c"
  using assms unfolding chain_sync_turn_def Let_def message.case
  by (cases "slot_time_refetch_needed c \<and> slot_time_refetch_due now c") (auto simp: fetch_slot_time_converter_def)

lemma run_follows: "sync_run cfg str_of vint loads live past c w \<Longrightarrow> follows str_of vint past w"
proof (induction rule: sync_run.induct)
  case begin_run
  show ?case by (simp add: follows_def)
next
  case session
  then show ?case by (auto intro: follows_session)
next
  case session_up
  then show ?case by (auto intro: follows_session)
next
  case (block_in past c w msg blk fetched now c' w')
  from follows_block [OF block_in.IH block_in.hyps(3) turn_block_sound [OF block_in.hyps(2,4)] turn_slotless [OF block_in.hyps(2) _ block_in.hyps(4)]]
  show ?case by simp
next
  case (block_failed past c w msg blk fetched now e c' w')
  from follows_block [OF block_failed.IH block_failed.hyps(3) turn_block_sound [OF block_failed.hyps(2,4)]]
  show ?case by simp
next
  case (roll_back past c w p fetched now env c' w')
  from roll_back.hyps(3) obtain c0 where "handle_roll_backward cfg env p c0 w = (None, c', w')" by (rule turn_backward)
  with roll_back.IH roll_back.hyps(2) show ?case by (rule follows_rollback)
next
  case (repurged live past c w del clr hashes c' w')
  then show ?case by (auto simp: delayed_score_repurge_def repurge_frame intro: follows_frame)
qed (auto intro: follows_frame)

text \<open>So a session that comes up again is at the tip.\<close>

lemma session_at_tip:
  assumes "follows str_of vint past w" "tip_point past = Some (s, i)"
    "start_session rd del clr fetched now get_ok found tip c w = (Inr p, c', w')"
  shows "p = Point s i"
proof -
  have "sync_point (replay_pending_score_repurges rd del clr w) = Some (s, i)"
    using assms(1,2) by (auto simp: follows_def replay_pending_score_repurges_def repurge_frame)
  then show ?thesis using assms(3) by (auto simp: start_session_def Let_def split: if_splits)
qed

section \<open>The score repurge\<close>

lemma repurge_clears:
  "h \<in> set (pending_score_repurges w) \<Longrightarrow> h \<notin> set (pending_score_repurges (repurge del clr hs w)) \<Longrightarrow>
     h \<notin> set (score_rows (repurge del clr hs w))"
  by (auto simp: repurge_def delete_score_rows_def clear_pending_score_repurges_def split: if_splits)

lemma insert_loop_pending:
  "insert_loop inserts cap txs k left delay w = (r, sleeps, w') \<Longrightarrow> pending_score_repurges w' = pending_score_repurges w"
proof (induction left arbitrary: k delay w r sleeps w')
  case (Suc left)
  obtain b w1 where batch: "insert_transactions_batch (inserts k) txs w = (b, w1)" by fastforce
  have one: "pending_score_repurges w1 = pending_score_repurges w"
    using batch by (auto simp: insert_transactions_batch_def Let_def split: if_splits)
  show ?case using Suc.prems one by (cases b; cases "left = 0") (auto simp: batch dest!: Suc.IH split: prod.splits)
qed simp

lemma ingest_parsed_pending:
  assumes "ingest_parsed cfg env blk s txs c w = (r, effs, c', w')"
  shows "pending_score_repurges w' = pending_score_repurges w"
proof -
  obtain r1 e1 c1 w1 where per: "(if txs \<noteq> [] then persist_block cfg env s txs c w else (None, [], c, w)) = (r1, e1, c1, w1)"
    by (metis prod_cases4)
  have "pending_score_repurges w1 = pending_score_repurges w"
  proof (cases "txs = []")
    case False
    obtain r2 w2 where raw: "write_raw_payloads cfg (e_raw_ok env) txs w = (r2, w2)" by fastforce
    have w2: "pending_score_repurges w2 = pending_score_repurges w"
      using raw by (auto simp: write_raw_payloads_def Let_def split: if_splits)
    obtain ok sl w3 where ins: "insert_block_with_retry cfg (e_inserts env) txs w2 = (ok, sl, w3)"
      by (metis prod_cases3)
    have w3: "pending_score_repurges w3 = pending_score_repurges w2"
      using ins unfolding insert_block_with_retry_def by (rule insert_loop_pending)
    have "w1 = w2 \<or> w1 = w3 \<or> w1 = batch_upsert_lifecycle_confirmed s txs w3"
      using per False unfolding persist_block_def raw
      by (cases r2; cases ok; cases "e_lifecycle_ok env") (auto simp: ins Let_def split: prod.splits)
    then show ?thesis using w2 w3 by (auto simp: batch_upsert_lifecycle_confirmed_def)
  qed (use per in simp)
  then show ?thesis
    using assms unfolding ingest_parsed_def per prod.case
    by (cases r1; cases "e_save_ok env") (auto simp: save_sync_point_def)
qed

lemma roll_forward_pending:
  assumes "handle_roll_forward cfg str_of vint env blk c w = (r, effs, c', w')"
  shows "pending_score_repurges w' = pending_score_repurges w"
proof (cases "blk_slot blk")
  case None
  then show ?thesis using assms by (auto simp: handle_roll_forward_def split: if_splits)
next
  case (Some s)
  obtain e txs failed where p: "parse_block_txs str_of vint blk (e_now env) (stamped env s c) = (e, txs, failed)"
    by (metis prod_cases3)
  have kf: "pending_score_repurges (keep_failures cfg ok failed w) = pending_score_repurges w" for ok
    by (simp add: keep_failures_def)
  note run = assms [unfolded roll_forward_slotted [OF Some] p]
  consider "blk_txs blk = []" | "blk_txs blk \<noteq> []" "e = None" | "blk_txs blk \<noteq> []" "e \<noteq> None" by blast
  then show ?thesis
  proof cases
    case 1
    then show ?thesis using run by (auto simp: save_sync_point_def split: if_splits)
  next
    case 2
    then have "ingest_parsed cfg env blk s (resolve_block env txs) (note_horizon (Some s) (stamped env s c))
        (keep_failures cfg (e_preserve_ok env) failed w) = (r, effs, c', w')" using run by simp
    from ingest_parsed_pending [OF this] kf show ?thesis by simp
  next
    case 3
    then show ?thesis using run kf by auto
  qed
qed

lemma roll_backward_pending:
  assumes "handle_roll_backward cfg env p c w = (r, c', w')"
  shows "set (pending_score_repurges w) \<subseteq> set (pending_score_repurges w')"
proof (cases p)
  case Origin
  then show ?thesis using assms by (auto simp: handle_roll_backward_def Let_def)
next
  case (Point s i)
  let ?w = "if b_mark_ok env then mark_lifecycle_rolled_back s w else w"
  from assms [unfolded Point] show ?thesis
  proof (rule roll_backward_stages)
    fix r1 c1 w1
    assume st: "(if ROLLBACK_CLEANUP_ENABLED cfg
      then cleanup_rollback env s (c\<lparr>tip_slot := (case b_tip env of None \<Rightarrow> tip_slot c | Some t \<Rightarrow> Some t)\<rparr>) ?w
      else (None, c\<lparr>tip_slot := (case b_tip env of None \<Rightarrow> tip_slot c | Some t \<Rightarrow> Some t)\<rparr>, ?w)) = (r1, c1, w1)"
      and out: "r \<noteq> None \<Longrightarrow> w' = w1" "r = None \<Longrightarrow> r1 = None \<and> w' = (if i = [] then w1 else w1\<lparr>sync_point := Some (s, i)\<rparr>)"
    have "set (pending_score_repurges ?w) \<subseteq> set (pending_score_repurges w1)"
      using st cleanup_rollback_frame(2) by (cases "ROLLBACK_CLEANUP_ENABLED cfg") auto
    moreover have "pending_score_repurges ?w = pending_score_repurges w" by simp
    moreover have "pending_score_repurges w' = pending_score_repurges w1" using out by (cases r) simp_all
    ultimately show ?thesis by simp
  qed
qed

lemma turn_pending:
  assumes run: "chain_sync_turn cfg str_of vint loads fetched now msg c w = (r, c', w')"
  shows "set (pending_score_repurges w) \<subseteq> set (pending_score_repurges w')"
proof (cases msg)
  case (Forward env blk)
  then show ?thesis
    using run unfolding chain_sync_turn_def Let_def by (auto dest: roll_forward_pending split: prod.splits)
next
  case (Backward env p)
  with run show ?thesis by (auto elim: turn_backward dest: roll_backward_pending)
next
  case (Undecodable env ok raw)
  have "pending_score_repurges w' = pending_score_repurges w"
    if "quarantine_undecodable_block cfg str_of vint loads ok env raw c0 w = (r, effs, c', w')" for c0 effs
  proof (cases "rebuilt_block loads raw")
    case None
    then show ?thesis using quarantine_unidentified [OF None, of cfg str_of vint ok env c0 w] that by auto
  next
    case (Some blk)
    obtain row where "quarantine_undecodable_block cfg str_of vint loads ok env raw c0 w =
      (if ok then handle_roll_forward cfg str_of vint (env\<lparr>e_tip := None\<rparr>) blk c0
            (w\<lparr>quarantined_blocks := AList.update (blk_id blk) row (quarantined_blocks w)\<rparr>)
       else (Some StoreError, [], c0, w))" using Some by (rule quarantine_rebuilt)
    then show ?thesis using that by (auto dest!: roll_forward_pending [OF sym] roll_forward_pending split: if_splits)
  qed
  then show ?thesis using run Undecodable unfolding chain_sync_turn_def Let_def by (auto split: prod.splits)
qed (use run in \<open>auto simp: chain_sync_turn_def Let_def\<close>)

text \<open>The steps that touch the queue of repurges.\<close>

inductive store_step ::
  "'a chain_settings_scheme \<Rightarrow> (json \<Rightarrow> string) \<Rightarrow> (json \<Rightarrow> int result) \<Rightarrow> (string \<Rightarrow> json option) \<Rightarrow>
     chain_client \<times> world \<Rightarrow> chain_client \<times> world \<Rightarrow> bool"
  for cfg str_of vint loads where
  step_session: "store_step cfg str_of vint loads (c, w) (c', w')"
    if "start_session rd del clr fetched now get_ok found tip c w = (r, c', w')"
| step_turn: "store_step cfg str_of vint loads (c, w) (c', w')"
    if "chain_sync_turn cfg str_of vint loads fetched now msg c w = (r, c', w')"
| step_repurge: "store_step cfg str_of vint loads (c, w) (c', w')"
    if "delayed_score_repurge del clr hashes c w = (c', w')"
| step_engine: "store_step cfg str_of vint loads (c, w) (c, w\<lparr>score_rows := score_rows w @ hashes\<rparr>)"

inductive_cases store_stepE: "store_step cfg str_of vint loads (c, w) (c', w')"

lemma store_step_clears:
  assumes "store_step cfg str_of vint loads (c, w) (c', w')"
    and "h \<in> set (pending_score_repurges w)" "h \<notin> set (pending_score_repurges w')"
  shows "h \<notin> set (score_rows w')"
  using assms(1)
proof (rule store_stepE)
  fix rd del clr fetched now get_ok found tip r
  assume "start_session rd del clr fetched now get_ok found tip c w = (r, c', w')"
  from session_world [OF this] have "w' = w \<or> w' = repurge del clr (pending_score_repurges w) w"
    by (auto simp: replay_pending_score_repurges_def)
  then show ?thesis using assms(2,3) repurge_clears by blast
next
  fix fetched now msg r
  assume "chain_sync_turn cfg str_of vint loads fetched now msg c w = (r, c', w')"
  then show ?thesis using turn_pending assms(2,3) by blast
next
  fix del clr hashes
  assume "delayed_score_repurge del clr hashes c w = (c', w')"
  then have "w' = w \<or> w' = repurge del clr hashes w" by (auto simp: delayed_score_repurge_def split: if_splits)
  then show ?thesis using assms(2,3) repurge_clears by blast
next
  fix hashes
  assume "w' = w\<lparr>score_rows := score_rows w @ hashes\<rparr>"
  then show ?thesis using assms(2,3) by simp
qed

section \<open>Properties\<close>


definition demo_chain_settings :: chain_settings where
  "demo_chain_settings =
     \<lparr>network = ''preprod'', MEMPOOL_PRUNE_EVERY_N_TXS = 2, MEMPOOL_PENDING_TTL = 10, MEMPOOL_SEEN_TXS_MAX = 100,
      RAW_STORE_ENABLED = True, RAW_DATA_MAX_BYTES = 0, CLICKHOUSE_INSERT_MAX_RETRIES = 3, INSERT_RETRY_BASE_DELAY = 1,
      INSERT_RETRY_MAX_DELAY = 8, ROLLBACK_CLEANUP_ENABLED = True, PIPELINE_STARTUP_GRACE_SECONDS = 60,
      PIPELINE_BLOCK_AGE_DOWN_SECONDS = 600, PIPELINE_BLOCK_AGE_DEGRADED_SECONDS = 120\<rparr>"

definition demo_client :: chain_client where
  "demo_client =
     \<lparr>slot_time = None, slot_time_refetch_needed = False, slot_time_fetched_at = None, started_at = 0, last_block_at = None,
      last_processed_slot = None, tip_slot = None, chain_state = CLOSED, mempool = monitor_init, running = True,
      repurge_tasks = []\<rparr>"

definition empty_world :: world where
  "empty_world =
     \<lparr>tx_rows = [], input_rows = [], output_rows = [], score_rows = [], pending_score_repurges = [], sync_point = None,
      tx_lifecycle = [], raw_payloads = [], parse_failures = [], quarantined_blocks = []\<rparr>"

definition demo_forward :: "nat \<Rightarrow> forward_env" where
  "demo_forward k =
     \<lparr>e_now_utc = 10, e_now = 11, e_tip = Some 9, e_resolve = Inl StoreError, e_preserve_ok = (\<lambda>_. True),
      e_raw_ok = (\<lambda>_. True), e_inserts = (\<lambda>_. k), e_lifecycle_ok = True, e_collision_ok = (\<lambda>_. True), e_save_ok = True\<rparr>"

definition demo_block :: block where
  "demo_block = \<lparr>blk_id = ''b'', blk_slot = Some 7, blk_height = 1, blk_txs = [JDict sample_payload]\<rparr>"

definition demo_turn :: "nat \<Rightarrow> chain_client \<Rightarrow> world \<Rightarrow> pyerr option \<times> chain_client \<times> world" where
  "demo_turn k c w =
     chain_sync_turn demo_chain_settings (\<lambda>_. []) int_of_json (\<lambda>_. None) None 0 (Forward (demo_forward k) demo_block) c w"

definition demo_session :: "chain_client \<Rightarrow> world \<Rightarrow> point result \<times> chain_client \<times> world" where
  "demo_session c w = start_session True True True None 0 True (\<lambda>_. True) None c w"

text \<open>A run in which the first insert of a block fails at its third table, and the block comes again.\<close>

definition demo_first :: "pyerr option \<times> chain_client \<times> world" where
  "demo_first = (case demo_session demo_client empty_world of (_, c, w) \<Rightarrow> demo_turn 2 c w)"

definition demo_second :: "pyerr option \<times> chain_client \<times> world" where
  "demo_second = (case demo_first of (_, c, w) \<Rightarrow> case demo_session c w of (_, c, w) \<Rightarrow> demo_turn 3 c w)"

lemma demo_run:
  "sync_run demo_chain_settings (\<lambda>_. []) int_of_json (\<lambda>_. None) True [demo_block] (fst (snd demo_second)) (snd (snd demo_second))"
proof -
  obtain q1 c1 w1 where s1: "demo_session demo_client empty_world = (q1, c1, w1)" by (metis prod_cases3)
  obtain q2 c2 w2 where t1: "demo_turn 2 c1 w1 = (q2, c2, w2)" by (metis prod_cases3)
  obtain q3 c3 w3 where s2: "demo_session c2 w2 = (q3, c3, w3)" by (metis prod_cases3)
  obtain q4 c4 w4 where t2: "demo_turn 3 c3 w3 = (q4, c4, w4)" by (metis prod_cases3)
  have "fst (demo_session demo_client empty_world) = Inr Origin" by code_simp
  then have q1: "q1 = Inr Origin" by (simp add: s1)
  have "fst demo_first = Some BlockPersistError" by code_simp
  then have q2: "q2 = Some BlockPersistError" by (simp add: demo_first_def s1 t1)
  have "fst (case demo_first of (_, c, w) \<Rightarrow> demo_session c w) = Inr Origin" by code_simp
  then have q3: "q3 = Inr Origin" by (simp add: demo_first_def s1 t1 s2)
  have "fst demo_second = None" by code_simp
  then have q4: "q4 = None" by (simp add: demo_first_def demo_second_def s1 t1 s2 t2)
  have fresh: "fresh str_of vint [] demo_block" for str_of vint by (simp add: fresh_def)
  have blk: "message_block loads (Forward env demo_block) = Some demo_block" for loads env by (simp add: message_block_def)
  note run = sync_run.begin_run
    [THEN sync_run.session_up, OF s1 [unfolded q1 demo_session_def],
     THEN sync_run.block_failed, OF blk fresh t1 [unfolded q2 demo_turn_def],
     THEN sync_run.session_up, OF s2 [unfolded q3 demo_session_def],
     THEN sync_run.block_in, OF blk fresh t2 [unfolded q4 demo_turn_def]]
  show ?thesis using run by (simp add: demo_first_def demo_second_def s1 t1 s2 t2)
qed

lemma demo_hashes: "block_hashes (\<lambda>_. []) int_of_json demo_block = {''t''}"
  by code_simp


text \<open>The insert of a block succeeds exactly when one of its first \<open>CLICKHOUSE_INSERT_MAX_RETRIES\<close>
  attempts does; between the attempts it sleeps the doubled delays up to the cap, one sleep per failed
  attempt before the last; a success leaves every row of the block in all three tables, and a failure can
  only have added rows of the block.\<close>

theorem insert_block_retries:
  "case insert_block_with_retry cfg inserts txs w of (ok, sleeps, w') \<Rightarrow>
     (ok \<longleftrightarrow> (\<exists>i \<in> {1..nat (CLICKHOUSE_INSERT_MAX_RETRIES cfg)}. inserts i \<ge> 3)) \<and>
     sleeps = backoff_delays (INSERT_RETRY_MAX_DELAY cfg) (INSERT_RETRY_BASE_DELAY cfg)
       (length (takeWhile (\<lambda>i. inserts i < 3) [1..<nat (CLICKHOUSE_INSERT_MAX_RETRIES cfg)])) \<and>
     (if ok then complete txs w w' else grown txs w w')"
proof -
  obtain ok sleeps w' where run: "insert_block_with_retry cfg inserts txs w = (ok, sleeps, w')" by (metis prod_cases3)
  let ?m = "nat (CLICKHOUSE_INSERT_MAX_RETRIES cfg)"
  note run' = run [unfolded insert_block_with_retry_def]
  have ok: "ok \<longleftrightarrow> (\<exists>i<?m. inserts (1 + i) \<ge> 3)"
    using insert_loop_outcome [of inserts _ txs 1 ?m _ w] run' by (metis fst_conv)
  have range: "(\<exists>i<?m. inserts (1 + i) \<ge> 3) \<longleftrightarrow> (\<exists>i \<in> {1..?m}. inserts i \<ge> 3)"
  proof
    assume "\<exists>i \<in> {1..?m}. inserts i \<ge> 3"
    then obtain i where "1 \<le> i" "i \<le> ?m" "inserts i \<ge> 3" by auto
    then have "i - 1 < ?m \<and> inserts (1 + (i - 1)) \<ge> 3" by simp
    then show "\<exists>i<?m. inserts (1 + i) \<ge> 3" by blast
  qed (auto simp: Suc_le_eq)
  have sl: "sleeps = backoff_delays (INSERT_RETRY_MAX_DELAY cfg) (INSERT_RETRY_BASE_DELAY cfg)
      (length (takeWhile (\<lambda>i. inserts i < 3) [1..<?m]))"
  proof (cases ?m)
    case 0
    then show ?thesis using run' by simp
  next
    case (Suc n)
    have "takeWhile (\<lambda>i. inserts i < 3) [1..<Suc n] = map Suc (takeWhile (\<lambda>i. inserts (1 + i) < 3) [0..<n])"
      by (simp add: map_Suc_upt [symmetric] takeWhile_map comp_def del: upt_Suc)
    moreover have "sleeps = fst (snd (insert_loop inserts (INSERT_RETRY_MAX_DELAY cfg) txs 1 (Suc n) (INSERT_RETRY_BASE_DELAY cfg) w))"
      using run' unfolding Suc by simp
    ultimately show ?thesis unfolding Suc insert_loop_sleeps by simp
  qed
  have "grown txs w w' \<and> (ok \<longrightarrow> complete txs w w')" using run' by (rule insert_loop_grown)
  then show ?thesis unfolding run prod.case using ok range sl by auto
qed

text \<open>C26.  The rollback purge is idempotent under partial failure: whichever \<open>DELETE\<close> of it fails, the next
  purge finds the same orphans and ends in the state a purge without the failure would have left.\<close>

theorem purge_retry:
  assumes "delete_rolled_back_txs True ok s w = (Inl e, w')"
  shows "delete_rolled_back_txs True (\<lambda>_. True) s w' = delete_rolled_back_txs True (\<lambda>_. True) s w"
proof -
  have del: "delete_tables ok (orphaned s w) ROLLBACK_CLEANUP_TABLES w = (False, w')" and ne: "orphaned s w \<noteq> []"
    using assms by (auto simp: delete_rolled_back_txs_def Let_def split: if_splits prod.splits bool.splits)
  have "orphaned s w' = orphaned s w" using failed_cleanup_keeps_rows [OF del] by (simp add: orphaned_def)
  then show ?thesis
    using ne purge_after_tables [OF del] by (simp add: delete_rolled_back_txs_def delete_tables_all Let_def)
qed

definition demo_world :: world where
  "demo_world = (snd (snd demo_second))\<lparr>score_rows := [''t'']\<rparr>"

theorem purge_retry_witness:
  "case delete_rolled_back_txs True (\<lambda>t. t \<noteq> ''tx_class_scores'') 5 demo_world of
     (_, w') \<Rightarrow> delete_rolled_back_txs True (\<lambda>_. True) 5 w' = delete_rolled_back_txs True (\<lambda>_. True) 5 demo_world"
proof -
  obtain r w' where d: "delete_rolled_back_txs True (\<lambda>t. t \<noteq> ''tx_class_scores'') 5 demo_world = (r, w')" by fastforce
  have "fst (delete_rolled_back_txs True (\<lambda>t. t \<noteq> ''tx_class_scores'') 5 demo_world) = Inl StoreError" by code_simp
  then have "r = Inl StoreError" by (simp add: d)
  from purge_retry [OF d [unfolded this]] show ?thesis by (simp add: d)
qed



text \<open>A repurge that could not be queued is lost: when the purge went through and writing the queue
  failed, the rollback that comes again finds no orphans, so that it neither queues nor schedules the
  second pass that the first one owed.\<close>

theorem unqueued_repurge_is_lost:
  assumes cleanup: "ROLLBACK_CLEANUP_ENABLED cfg"
    and env: "b_select_ok env" "\<forall>t \<in> set ROLLBACK_CLEANUP_TABLES. b_delete_ok env t" "\<not> b_repurge_save_ok env"
    and first: "handle_roll_backward cfg env (Point s i) c w = (r, c1, w1)" and orphans: "orphaned s w \<noteq> []"
    and again: "handle_roll_backward cfg env' (Point s i) c1 w1 = (r', c2, w2)"
  shows "r \<noteq> None \<and> pending_score_repurges w2 = pending_score_repurges w \<and> repurge_tasks c2 = repurge_tasks c"
proof -
  have tables: "delete_tables (b_delete_ok env) hs ROLLBACK_CLEANUP_TABLES v = (True, purge_all hs v)" for hs v
    using env(2) by (simp add: ROLLBACK_CLEANUP_TABLES_def delete_from_def purge_all_def)
  define w0 where "w0 = (if b_mark_ok env then mark_lifecycle_rolled_back s w else w)"
  have w0: "orphaned s w0 = orphaned s w" "pending_score_repurges w0 = pending_score_repurges w"
    by (simp_all add: w0_def orphaned_def)
  have c1: "cleanup_rollback env s c0 w0 = (Some StoreError, c0, purge_all (orphaned s w0) w0)" for c0
    using orphans env(1,3) by (simp add: cleanup_rollback_def delete_rolled_back_txs_def Let_def tables w0)
  have one: "r \<noteq> None \<and> w1 = purge_all (orphaned s w0) w0 \<and> repurge_tasks c1 = repurge_tasks c"
    by (rule roll_backward_stages [OF first]) (use cleanup c1 in \<open>auto simp: w0_def [symmetric]\<close>)
  have none: "orphaned s (if b_mark_ok env' then mark_lifecycle_rolled_back s w1 else w1) = []"
    using one orphaned_purged [of s w0] by (simp add: orphaned_def)
  have c2: "cleanup_rollback env' s c0 (if b_mark_ok env' then mark_lifecycle_rolled_back s w1 else w1) =
      (if b_select_ok env' then None else Some StoreError, c0, if b_mark_ok env' then mark_lifecycle_rolled_back s w1 else w1)" for c0
    unfolding cleanup_rollback_def delete_rolled_back_txs_def Let_def none by simp
  have "pending_score_repurges w2 = pending_score_repurges w1 \<and> repurge_tasks c2 = repurge_tasks c1"
    by (rule roll_backward_stages [OF again]) (use cleanup c2 in \<open>cases r'; auto\<close>)
  then show ?thesis using one w0 by (simp add: purge_all_def)
qed

definition demo_backward :: "bool \<Rightarrow> backward_env" where
  "demo_backward queue_ok =
     \<lparr>b_tip = None, b_mark_ok = True, b_select_ok = True, b_delete_ok = (\<lambda>_. True), b_repurge_save_ok = queue_ok,
      b_clustering_ok = True, b_save_ok = True\<rparr>"

theorem unqueued_repurge_is_lost_witness:
  "case handle_roll_backward demo_chain_settings (demo_backward False) (Point 5 ''a'') demo_client demo_world of
     (r, c1, w1) \<Rightarrow> r \<noteq> None \<and>
       (case handle_roll_backward demo_chain_settings (demo_backward True) (Point 5 ''a'') c1 w1 of
          (r', c2, w2) \<Rightarrow> r' = None \<and> pending_score_repurges w2 = [] \<and> repurge_tasks c2 = [])"
proof -
  obtain r c1 w1 where one: "handle_roll_backward demo_chain_settings (demo_backward False) (Point 5 ''a'') demo_client demo_world = (r, c1, w1)"
    by (metis prod_cases3)
  obtain r' c2 w2 where two: "handle_roll_backward demo_chain_settings (demo_backward True) (Point 5 ''a'') c1 w1 = (r', c2, w2)"
    by (metis prod_cases3)
  have env: "b_select_ok (demo_backward False)" "\<forall>t \<in> set ROLLBACK_CLEANUP_TABLES. b_delete_ok (demo_backward False) t"
    "\<not> b_repurge_save_ok (demo_backward False)" by (simp_all add: demo_backward_def)
  have cl: "ROLLBACK_CLEANUP_ENABLED demo_chain_settings" by (simp add: demo_chain_settings_def)
  have orph: "orphaned 5 demo_world \<noteq> []" by code_simp
  have "fst (case handle_roll_backward demo_chain_settings (demo_backward False) (Point 5 ''a'') demo_client demo_world of
     (r, c1, w1) \<Rightarrow> handle_roll_backward demo_chain_settings (demo_backward True) (Point 5 ''a'') c1 w1) = None" by code_simp
  then have "r' = None" by (simp add: one two)
  moreover have "pending_score_repurges demo_world = []" "repurge_tasks demo_client = []" by code_simp+
  ultimately show ?thesis using unqueued_repurge_is_lost [OF cl env one orph two] by (simp add: one two)
qed

text \<open>A rollback that fails is not sent again: its checkpoint stays on the abandoned fork, and every
  later session start raises (the intersection is not found, or the checkpoint cannot be read) for as
  long as the node's chain is without that block.\<close>

theorem failed_rollback_is_stuck:
  assumes "handle_roll_backward cfg env p c w = (Some e, c1, w1)" "sync_point w = Some (s, i)" "\<not> found (Point s i)"
  shows "sync_point w1 = Some (s, i) \<and>
    fst (start_session rd del clr fetched now get_ok found tip c2 w1) \<in> {Inl IntersectionNotFoundError, Inl StoreError}"
proof -
  have sp: "sync_point w1 = sync_point w"
  proof (cases p)
    case Origin
    then show ?thesis using assms(1) by (auto simp: handle_roll_backward_def Let_def)
  next
    case (Point s i)
    show ?thesis
    proof (rule roll_backward_stages [OF assms(1) [unfolded Point]])
      fix r1 c0 w0
      assume st: "(if ROLLBACK_CLEANUP_ENABLED cfg
        then cleanup_rollback env s (c\<lparr>tip_slot := (case b_tip env of None \<Rightarrow> tip_slot c | Some t \<Rightarrow> Some t)\<rparr>)
               (if b_mark_ok env then mark_lifecycle_rolled_back s w else w)
        else (None, c\<lparr>tip_slot := (case b_tip env of None \<Rightarrow> tip_slot c | Some t \<Rightarrow> Some t)\<rparr>,
               if b_mark_ok env then mark_lifecycle_rolled_back s w else w)) = (r1, c0, w0)"
        and "Some e \<noteq> None \<Longrightarrow> w1 = w0"
      then have "w1 = w0" by simp
      moreover have "sync_point w0 = sync_point (if b_mark_ok env then mark_lifecycle_rolled_back s w else w)"
        using st cleanup_rollback_frame(1) by (cases "ROLLBACK_CLEANUP_ENABLED cfg") auto
      ultimately show ?thesis by simp
    qed
  qed
  then have "sync_point (replay_pending_score_repurges rd del clr w1) = Some (s, i)"
    using assms(2) by (simp add: replay_pending_score_repurges_def repurge_frame)
  then show ?thesis using sp assms(2,3) by (simp add: start_session_def Let_def)
qed

theorem failed_rollback_is_stuck_witness:
  "case handle_roll_backward demo_chain_settings (demo_backward False) (Point 5 ''a'') demo_client demo_world of
     (_, c1, w1) \<Rightarrow> orphaned 5 w1 = [] \<and> fst (start_session True True True None 0 True (\<lambda>p. p = Point 5 ''a'') None c1 w1) \<noteq> Inr (Point 7 ''b'')"
proof -
  obtain r c1 w1 where one: "handle_roll_backward demo_chain_settings (demo_backward False) (Point 5 ''a'') demo_client demo_world = (r, c1, w1)"
    by (metis prod_cases3)
  have "fst (handle_roll_backward demo_chain_settings (demo_backward False) (Point 5 ''a'') demo_client demo_world) = Some StoreError"
    by code_simp
  then have r: "r = Some StoreError" by (simp add: one)
  have sp: "sync_point demo_world = Some (7, ''b'')" by code_simp
  have "orphaned 5 (snd (snd (handle_roll_backward demo_chain_settings (demo_backward False) (Point 5 ''a'') demo_client demo_world))) = []"
    by code_simp
  then have "orphaned 5 w1 = []" by (simp add: one)
  moreover have "fst (start_session True True True None 0 True (\<lambda>p. p = Point 5 ''a'') None c1 w1)
      \<in> {Inl IntersectionNotFoundError, Inl StoreError}"
    using failed_rollback_is_stuck [OF one [unfolded r] sp, of "\<lambda>p. p = Point 5 ''a''" True True True None 0 True None c1] by simp
  ultimately show ?thesis by (auto simp: one)
qed

end
