(* ===== verification/Scoring.thy ===== *)
theory Scoring
  imports Features
begin

text \<open>
  The scoring framework of the analysis package: percentile normalisation, baseline resolution and risk
  bands (\<open>src/backend/app/analysis/normalise.py\<close>), the result type and reductions of the scorers
  (\<open>src/backend/app/analysis/scorers/base.py\<close>) and the contract identity of an alert
  (\<open>src/backend/app/analysis/contract_identity.py\<close>).  Scores are finite doubles (\<open>Pyfloat\<close>); the baselines
  table is a parameter.
\<close>

section \<open>Normalisation\<close>

definition normalise :: "rat \<Rightarrow> rat \<Rightarrow> rat \<Rightarrow> rat" where
  "normalise v p50 p99 =
     (let denom = fsub p99 p50
      in if denom \<le> 0 then 0 else max 0 (min 1 (fdiv (fsub v p50) (fadd denom EPSILON))))"

definition normalise_inverted :: "rat \<Rightarrow> rat \<Rightarrow> rat \<Rightarrow> rat" where
  "normalise_inverted v p50 p99 = (if fsub p99 p50 \<le> 0 then 0 else fsub 1 (normalise v p50 p99))"

section \<open>Baselines\<close>

record baseline =
  base_p50 :: rat
  base_p99 :: rat
  sample_count :: int

definition baseline_is_usable :: "rat \<Rightarrow> baseline \<Rightarrow> bool" where
  "baseline_is_usable min_spread row =
     (if base_p50 row \<le> 0 then base_p99 row > 0
      else fdiv (fsub (base_p99 row) (base_p50 row)) (base_p50 row) \<ge> min_spread)"

text \<open>\<open>get\<close> is \<open>clickhouse.get_baseline\<close> on one network: scope type, scope id, feature.\<close>

definition resolve_baseline ::
  "(string \<Rightarrow> string \<Rightarrow> string \<Rightarrow> baseline option) \<Rightarrow> rat \<Rightarrow> int \<Rightarrow> string \<Rightarrow> string \<Rightarrow> string \<Rightarrow> int \<Rightarrow> string list option \<Rightarrow>
     rat \<times> rat \<times> string" where
  "resolve_baseline get min_spread BASELINE_MIN_SAMPLES feature scope_type scope_id min_samples allowed =
     (let min_samples = (if min_samples = 0 then BASELINE_MIN_SAMPLES else min_samples);
          tier = (\<lambda>st si. if allowed = None \<or> st \<in> set (the allowed)
                  then (case get st si feature of
                          None \<Rightarrow> None
                        | Some row \<Rightarrow> if sample_count row \<ge> min_samples \<and> baseline_is_usable min_spread row
                                      then Some row else None)
                  else None)
      in case tier scope_type scope_id of
           Some row \<Rightarrow> (base_p50 row, base_p99 row, scope_type)
         | None \<Rightarrow>
             (case (if scope_type \<noteq> ''global'' then tier ''global'' ''__global__'' else None) of
                Some row \<Rightarrow> (base_p50 row, base_p99 row, ''global'')
              | None \<Rightarrow> (0, 1, ''missing'')))"

section \<open>Bands\<close>

definition BAND_CRITICAL_THRESHOLD :: rat where "BAND_CRITICAL_THRESHOLD = 80"
definition BAND_HIGH_THRESHOLD :: rat where "BAND_HIGH_THRESHOLD = 60"
definition BAND_MODERATE_THRESHOLD :: rat where "BAND_MODERATE_THRESHOLD = 31"
definition BAND_MODERATE_MAX :: rat where "BAND_MODERATE_MAX = fsub BAND_HIGH_THRESHOLD 1"
definition BAND_LOW_MAX :: rat where "BAND_LOW_MAX = fsub BAND_MODERATE_THRESHOLD 1"
definition BAND_INFORMATIONAL_MAX :: rat where "BAND_INFORMATIONAL_MAX = fsub BAND_MODERATE_THRESHOLD 1"

definition score_to_band :: "rat \<Rightarrow> string" where
  "score_to_band s =
     (if s \<ge> BAND_CRITICAL_THRESHOLD then ''Critical''
      else if s \<ge> BAND_HIGH_THRESHOLD then ''High''
      else if s > BAND_INFORMATIONAL_MAX then ''Moderate''
      else ''Informational'')"

section \<open>Scorer results\<close>

record scorer_result =
  score :: rat
  sub_scores :: "(string, json) dict"
  reasons :: "string list"
  baseline_source :: string
  severity :: "string option"
  evidence :: "(string, json) dict"

definition ScorerResult :: scorer_result where
  "ScorerResult = \<lparr>score = 0, sub_scores = [], reasons = [], baseline_source = ''missing'', severity = None, evidence = []\<rparr>"

definition no_finding :: "(string, json) dict \<Rightarrow> string \<Rightarrow> (string, json) dict \<Rightarrow> scorer_result" where
  "no_finding subs source ev = ScorerResult\<lparr>score := -1, sub_scores := subs, baseline_source := source, evidence := ev\<rparr>"

definition reduce_to_best :: "scorer_result list \<Rightarrow> scorer_result" where
  "reduce_to_best results = foldl (\<lambda>best r. if score r > score best then r else best) ScorerResult results"

definition finalise_score :: "rat \<Rightarrow> int \<Rightarrow> nat \<Rightarrow> rat" where
  "finalise_score raw scale ndigits = fround (fmul (max 0 (min 1 raw)) (fl (of_int scale))) ndigits"

section \<open>Contract identity\<close>

definition CONTRACT_EVIDENCE_KEYS :: "(string, string) dict" where
  "CONTRACT_EVIDENCE_KEYS =
     [(''token_dust'', ''target_script_address''), (''large_value'', ''target_script_address''),
      (''large_datum'', ''target_script_address''), (''multiple_sat'', ''target_script_address''),
      (''contract_anomaly'', ''target'')]"

definition NO_CONTRACT :: string where "NO_CONTRACT = []"

definition contract_address_of :: "string \<Rightarrow> (string, (string, json) dict) dict \<Rightarrow> string" where
  "contract_address_of max_class ev =
     (case map_of CONTRACT_EVIDENCE_KEYS max_class of
        None \<Rightarrow> NO_CONTRACT
      | Some key \<Rightarrow>
          (case map_of ev max_class of
             None \<Rightarrow> NO_CONTRACT
           | Some cls \<Rightarrow> (case map_of cls key of Some (JStr v) \<Rightarrow> py_strip v | _ \<Rightarrow> NO_CONTRACT)))"

section \<open>Facts\<close>

lemma EPSILON_pos: "0 < EPSILON"
proof -
  have le: "(of_int 1 * 2 powi (-21) :: rat) \<le> 1 / 10 ^ 6" by (simp add: power_int_def power_divide)
  have "fl (of_int 1 * 2 powi (-21)) \<le> EPSILON" unfolding EPSILON_def using le by (rule fl_mono)
  moreover have "fl (of_int 1 * 2 powi (-21)) = (of_int 1 * 2 powi (-21) :: rat)" by (rule fl_representable) simp_all
  moreover have "(0::rat) < of_int 1 * 2 powi (-21)" by simp
  ultimately show ?thesis by linarith
qed

lemma fsub_mono: "x \<le> y \<Longrightarrow> fsub x z \<le> fsub y z"
  unfolding fsub_def by (rule fl_mono) simp

lemma fdiv_mono: "x \<le> y \<Longrightarrow> 0 \<le> d \<Longrightarrow> fdiv x d \<le> fdiv y d"
  unfolding fdiv_def by (rule fl_mono) (simp add: divide_right_mono)

lemma fadd_nonneg: "0 \<le> x \<Longrightarrow> 0 \<le> y \<Longrightarrow> 0 \<le> fadd x y"
  unfolding fadd_def by (rule fl_nonneg) simp

lemma normalise_bounds: "0 \<le> normalise v p50 p99" "normalise v p50 p99 \<le> 1"
  by (simp_all add: normalise_def Let_def)

lemma normalise_mono: "v \<le> v' \<Longrightarrow> normalise v p50 p99 \<le> normalise v' p50 p99"
proof -
  assume v: "v \<le> v'"
  have "fdiv (fsub v p50) (fadd (fsub p99 p50) EPSILON) \<le> fdiv (fsub v' p50) (fadd (fsub p99 p50) EPSILON)"
    if "0 < fsub p99 p50"
    using that EPSILON_pos by (intro fdiv_mono fsub_mono v fadd_nonneg) simp_all
  then show ?thesis by (auto simp: normalise_def Let_def intro: min.mono max.mono)
qed

lemma fsub_one_bounds: "0 \<le> x \<Longrightarrow> x \<le> 1 \<Longrightarrow> 0 \<le> fsub 1 x \<and> fsub 1 x \<le> 1"
proof -
  assume "0 \<le> x" "x \<le> 1"
  then show ?thesis using fl_mono [of "1 - x" 1] by (simp add: fsub_def fl_nonneg)
qed

lemma fround_mono: "x \<le> y \<Longrightarrow> fround x n \<le> fround y n"
  unfolding fround_def by (intro fl_mono divide_right_mono) (simp_all add: rne_mono mult_right_mono)

lemma fround_0 [simp]: "fround 0 n = 0"
  using rne_of_int [of 0] by (simp add: fround_def)

lemma fround_100: "fround 100 2 = 100"
  using rne_of_int [of 10000] by (simp add: fround_def)

lemma finalise_score_mono: "raw \<le> raw' \<Longrightarrow> finalise_score raw 100 2 \<le> finalise_score raw' 100 2"
  unfolding finalise_score_def fmul_def by (intro fround_mono fl_mono mult_right_mono) (auto simp: fl_nonneg)

lemma finalise_score_bounds: "0 \<le> finalise_score raw 100 2 \<and> finalise_score raw 100 2 \<le> 100"
proof -
  let ?x = "fmul (max 0 (min 1 raw)) (fl (of_int 100))"
  have hundred: "fl (of_int 100) = (100::rat)" using fl_of_int [of 100] by simp
  have "0 \<le> ?x" unfolding fmul_def hundred by (rule fl_nonneg) simp
  moreover have "?x \<le> fl 100" unfolding fmul_def hundred by (rule fl_mono) simp
  ultimately have "fround 0 2 \<le> fround ?x 2" "fround ?x 2 \<le> fround 100 2" by (intro fround_mono; simp)+
  then show ?thesis unfolding finalise_score_def fround_0 fround_100 by simp
qed

definition band_rank_of :: "string \<Rightarrow> nat" where
  "band_rank_of b =
     (if b = ''Critical'' then 3 else if b = ''High'' then 2 else if b = ''Moderate'' then 1 else 0)"

lemma band_max [simp]: "BAND_INFORMATIONAL_MAX = 30" "BAND_MODERATE_MAX = 59" "BAND_LOW_MAX = 30"
  by (simp_all add: BAND_INFORMATIONAL_MAX_def BAND_MODERATE_MAX_def BAND_LOW_MAX_def BAND_MODERATE_THRESHOLD_def
      BAND_HIGH_THRESHOLD_def fsub_def)

lemma score_to_band_rank:
  "band_rank_of (score_to_band s) = (if s \<ge> 80 then 3 else if s \<ge> 60 then 2 else if s > 30 then 1 else 0)"
  by (simp add: score_to_band_def band_rank_of_def BAND_CRITICAL_THRESHOLD_def BAND_HIGH_THRESHOLD_def)

lemma score_to_band_mono: "s \<le> s' \<Longrightarrow> band_rank_of (score_to_band s) \<le> band_rank_of (score_to_band s')"
  by (simp add: score_to_band_rank)

lemma reduce_to_best_aux:
  assumes "foldl (\<lambda>best r. if score r > score best then r else best) b rs = x"
  shows "x \<in> insert b (set rs)" "score b \<le> score x" "\<forall>r \<in> set rs. score r \<le> score x"
  using assms by (induction rs arbitrary: b) (force split: if_splits)+

section \<open>Properties\<close>

text \<open>Scoring is monotone and bounded end to end: a larger feature value never gets a smaller normalised
  value, and, as both normalisations stay in [0, 1] and the final score in [0, 100], a larger raw score
  never gets a smaller final score or a lower band.\<close>

theorem scoring_monotone:
  assumes "v \<le> v'" "raw \<le> raw'"
  shows "normalise v p50 p99 \<le> normalise v' p50 p99 \<and> normalise_inverted v' p50 p99 \<le> normalise_inverted v p50 p99 \<and>
    {normalise v p50 p99, normalise_inverted v p50 p99} \<subseteq> {0..1} \<and>
    finalise_score raw 100 2 \<le> finalise_score raw' 100 2 \<and> finalise_score raw 100 2 \<in> {0..100} \<and>
    band_rank_of (score_to_band (finalise_score raw 100 2)) \<le> band_rank_of (score_to_band (finalise_score raw' 100 2))"
proof (intro conjI)
  show n: "normalise v p50 p99 \<le> normalise v' p50 p99" using assms(1) by (rule normalise_mono)
  show "normalise_inverted v' p50 p99 \<le> normalise_inverted v p50 p99"
    using n by (simp add: normalise_inverted_def fsub_def fl_mono)
  show "{normalise v p50 p99, normalise_inverted v p50 p99} \<subseteq> {0..1}"
    using normalise_bounds fsub_one_bounds by (auto simp: normalise_inverted_def)
  show f: "finalise_score raw 100 2 \<le> finalise_score raw' 100 2" using assms(2) by (rule finalise_score_mono)
  show "finalise_score raw 100 2 \<in> {0..100}" using finalise_score_bounds by simp
  show "band_rank_of (score_to_band (finalise_score raw 100 2)) \<le> band_rank_of (score_to_band (finalise_score raw' 100 2))"
    using f by (rule score_to_band_mono)
qed

theorem scoring_monotone_witness:
  "normalise 3 1 5 \<le> normalise 4 1 5 \<and> finalise_score (1 / 4) 100 2 \<le> finalise_score (1 / 2) 100 2"
  using scoring_monotone [of 3 4 "1 / 4" "1 / 2" 1 5] by simp

definition tier_row ::
  "(string \<Rightarrow> string \<Rightarrow> string \<Rightarrow> baseline option) \<Rightarrow> rat \<Rightarrow> int \<Rightarrow> string \<Rightarrow> string list option \<Rightarrow> string \<Rightarrow> string \<Rightarrow> baseline \<Rightarrow> bool" where
  "tier_row get min_spread samples feature allowed st si row \<longleftrightarrow>
     (allowed = None \<or> st \<in> set (the allowed)) \<and> get st si feature = Some row \<and> sample_count row \<ge> samples \<and>
     baseline_is_usable min_spread row"

lemma tier_row_unique: "tier_row get m n f al st si row \<Longrightarrow> tier_row get m n f al st si row' \<Longrightarrow> row = row'"
  by (simp add: tier_row_def)

text \<open>Baseline resolution returns a learned pair only from a tier that is allowed, has enough samples
  and a usable spread, the requested scope before the global one, and the neutral anchors exactly when no
  such tier exists.\<close>

theorem resolve_baseline_spec:
  "let samples = (if min_samples = 0 then dflt else min_samples);
       own = tier_row get min_spread samples feature allowed scope_type scope_id;
       glob = tier_row get min_spread samples feature allowed ''global'' ''__global__''
   in case resolve_baseline get min_spread dflt feature scope_type scope_id min_samples allowed of
        (p50, p99, source) \<Rightarrow>
          (if Ex own then \<exists>row. own row \<and> p50 = base_p50 row \<and> p99 = base_p99 row \<and> source = scope_type
           else if scope_type \<noteq> ''global'' \<and> Ex glob
           then \<exists>row. glob row \<and> p50 = base_p50 row \<and> p99 = base_p99 row \<and> source = ''global''
           else p50 = 0 \<and> p99 = 1 \<and> source = ''missing'')"
proof -
  define samples where "samples = (if min_samples = 0 then dflt else min_samples)"
  define tier where "tier st si = (if allowed = None \<or> st \<in> set (the allowed)
      then (case get st si feature of None \<Rightarrow> None
            | Some row \<Rightarrow> if sample_count row \<ge> samples \<and> baseline_is_usable min_spread row then Some row else None)
      else None)" for st si
  have tier: "tier st si = Some row \<longleftrightarrow> tier_row get min_spread samples feature allowed st si row" for st si row
    by (auto simp: tier_def tier_row_def split: option.splits)
  have run: "resolve_baseline get min_spread dflt feature scope_type scope_id min_samples allowed =
      (case tier scope_type scope_id of
         Some row \<Rightarrow> (base_p50 row, base_p99 row, scope_type)
       | None \<Rightarrow> (case (if scope_type \<noteq> ''global'' then tier ''global'' ''__global__'' else None) of
                    Some row \<Rightarrow> (base_p50 row, base_p99 row, ''global'') | None \<Rightarrow> (0, 1, ''missing'')))"
    unfolding resolve_baseline_def Let_def samples_def [symmetric] tier_def ..
  show ?thesis
    unfolding Let_def samples_def [symmetric] run
    by (cases "tier scope_type scope_id"; cases "tier ''global'' ''__global__''"; cases "scope_type = ''global''")
      (auto simp: tier [symmetric])
qed

end
