(* ===== verification/Engine.thy ===== *)
theory Engine
  imports Scoring "HOL-Library.List_Lexorder" "HOL-Library.Char_ord"
begin

text \<open>
  The analysis engine (\<open>src/backend/app/analysis/engine.py\<close>): scoring of one transaction by all scorers,
  recovery and deferral of payloads, deferral of incomplete scores, the poll cursor, and one batch.

  The module's dicts are the record \<open>engine_state\<close>.  The scorers are records of their two methods; the
  unanalyzed query, the raw store, \<open>json.loads\<close>, the enrichments and the clocks are parameters of a batch.
\<close>

section \<open>State\<close>

record engine_settings =
  ANALYSIS_ENABLED :: bool
  RAW_FALLBACK_ENABLED :: bool
  RAW_FALLBACK_RETRY_SECONDS :: rat
  RAW_FALLBACK_MAX_ATTEMPTS :: int
  ANALYSIS_DEFER_ENABLED :: bool
  ANALYSIS_DEFER_RETRY_SECONDS :: rat
  ANALYSIS_DEFER_MAX_ATTEMPTS :: int
  UNANALYZED_FULL_RESCAN_INTERVAL_SECONDS :: rat
  UNANALYZED_FULL_RESCAN_WINDOW_SECONDS :: int
  UNANALYZED_OVERLAP_SECONDS :: int
  CORROBORATION_THRESHOLD :: rat

type_synonym attempts = "(string \<times> string, int \<times> rat) dict"

record engine_state =
  raw_fallback_attempts :: attempts
  analysis_defer_attempts :: attempts
  unanalyzed_watermark :: "(string, int) dict"
  last_full_rescan :: "(string, rat) dict"

text \<open>A row of the unanalyzed query.  Times are microseconds; a time that is no datetime is \<open>None\<close>, an
  absent payload \<open>JNull\<close>; \<open>r_fields\<close> has the columns the engine only passes on.\<close>

record row =
  r_tx_hash :: string
  r_network :: string
  r_raw :: json
  r_truncated :: bool
  r_timestamp :: "int option"
  r_ingested :: "int option"
  r_metadata :: json
  r_unavailable :: bool
  r_enrichment_failed :: "string list"
  r_fields :: "(string, json) dict"

record scorer =
  scorer_name :: string
  gate :: "(string, json) dict \<Rightarrow> bool result"
  run_score :: "(string, json) dict \<Rightarrow> (scorer_result \<times> json list) result"

record scored =
  s_tx_hash :: string
  s_network :: string
  scores :: "(string, rat) dict"
  max_score :: rat
  max_class :: string
  risk_band :: string
  s_baseline_source :: string
  corroborating :: "string list"
  contract_address :: string
  s_sub_scores :: "(string, (string, json) dict) dict"
  s_evidence :: "(string, (string, json) dict) dict"
  failed_scorers :: "string list"
  enrichment_failed :: "string list"

section \<open>Scoring one transaction\<close>

definition CLASS_NAMES :: "string list" where
  "CLASS_NAMES =
     [''token_dust'', ''large_value'', ''large_datum'', ''multiple_sat'', ''front_running'', ''sandwich'', ''circular'',
      ''fake_token'', ''phishing'']"

definition BASELINE_EVIDENCE_KEY :: string where
  "BASELINE_EVIDENCE_KEY = ''_baselines''"

definition features_of :: "row \<Rightarrow> (string, json) dict" where
  "features_of r =
     (let f = r_fields r
      in [(''tx_hash'', JStr (r_tx_hash r)), (''network'', JStr (r_network r)), (''fee'', dict_get f ''fee'' (JInt 0)),
          (''input_count'', dict_get f ''input_count'' (JInt 0)), (''output_count'', dict_get f ''output_count'' (JInt 0)),
          (''total_output_value'', dict_get f ''total_output_value'' (JInt 0)), (''metadata'', r_metadata r),
          (''addresses'', let a = dict_get f ''addresses'' JNull in if truthy a then a else JList []),
          (''raw_data'', r_raw r), (''slot'', dict_get f ''slot'' JNull), (''block_height'', dict_get f ''block_height'' JNull),
          (''timestamp'', case r_timestamp r of None \<Rightarrow> JNull | Some t \<Rightarrow> JInt t),
          (''collision'', dict_get f ''collision'' JNull), (''cycle'', dict_get f ''cycle'' JNull),
          (''sandwich'', dict_get f ''sandwich'' JNull)])"

text \<open>What the loop over the scorers builds.\<close>

record tally =
  t_scores :: "(string, rat) dict"
  t_sub_scores :: "(string, (string, json) dict) dict"
  t_sources :: "(string, string) dict"
  t_evidence :: "(string, (string, json) dict) dict"
  t_failed :: "string list"

definition class_evidence :: "scorer_result \<Rightarrow> json list \<Rightarrow> (string, json) dict" where
  "class_evidence r used =
     (if used \<noteq> [] then AList.update BASELINE_EVIDENCE_KEY (JList used) (evidence r) else evidence r)"

definition run_scorer :: "(string, json) dict \<Rightarrow> tally \<Rightarrow> scorer \<Rightarrow> tally" where
  "run_scorer features t sc =
     (case rbind (gate sc features) (\<lambda>open. if open then rbind (run_score sc features) (\<lambda>r. Inr (Some r)) else Inr None) of
        Inl _ \<Rightarrow> t\<lparr>t_failed := t_failed t @ [scorer_name sc]\<rparr>
      | Inr None \<Rightarrow> t
      | Inr (Some (r, used)) \<Rightarrow>
          t\<lparr>t_scores := AList.update (scorer_name sc) (score r) (t_scores t),
            t_sub_scores := AList.update (scorer_name sc) (sub_scores r) (t_sub_scores t),
            t_sources := AList.update (scorer_name sc) (baseline_source r) (t_sources t),
            t_evidence := (if evidence r \<noteq> [] \<or> used \<noteq> []
              then AList.update (scorer_name sc) (class_evidence r used) (t_evidence t) else t_evidence t)\<rparr>)"

text \<open>\<open>max(applicable, key=\<dots>)\<close>: the first class with the largest score.\<close>

fun best_of :: "string \<times> rat \<Rightarrow> (string, rat) dict \<Rightarrow> string \<times> rat" where
  "best_of b [] = b"
| "best_of b (x # xs) = best_of (if snd x > snd b then x else b) xs"

definition winner :: "(string, rat) dict \<Rightarrow> string \<times> rat" where
  "winner applicable = (case applicable of [] \<Rightarrow> ([], 0) | x # xs \<Rightarrow> best_of x xs)"

definition tally_of :: "scorer list \<Rightarrow> row \<Rightarrow> tally" where
  "tally_of scorers r =
     foldl (run_scorer (features_of r))
       \<lparr>t_scores = map (\<lambda>n. (n, -1)) CLASS_NAMES, t_sub_scores = [], t_sources = [],
        t_evidence = (if r_unavailable r then [(''_meta'', [(''raw_data_unavailable'', JBool True)])] else []),
        t_failed = []\<rparr> scorers"

definition score_transaction :: "'a engine_settings_scheme \<Rightarrow> scorer list \<Rightarrow> row \<Rightarrow> scored" where
  "score_transaction cfg scorers r =
     (let t = tally_of scorers r;
          applicable = filter (\<lambda>(_, v). v \<ge> 0) (t_scores t);
          (cls, mx) = winner applicable
      in \<lparr>s_tx_hash = r_tx_hash r, s_network = r_network r, scores = t_scores t, max_score = fround mx 2, max_class = cls,
          risk_band = score_to_band mx, s_baseline_source = dict_get (t_sources t) cls ''missing'',
          corroborating = sort (map fst (filter (\<lambda>(_, v). v \<ge> CORROBORATION_THRESHOLD cfg) applicable)),
          contract_address = contract_address_of cls (t_evidence t), s_sub_scores = t_sub_scores t, s_evidence = t_evidence t,
          failed_scorers = t_failed t, enrichment_failed = r_enrichment_failed r\<rparr>)"

section \<open>Pacing\<close>

text \<open>The bookkeeping that \<open>_resolve_raw_data\<close> and \<open>_handle_incomplete_scoring\<close> share: inside the pacing
  window a poll does not count; a counted attempt defers until the budget is spent.\<close>

datatype verdict = Wait | Count int | Spent

definition pace :: "rat \<Rightarrow> int \<Rightarrow> rat \<Rightarrow> (int \<times> rat) option \<Rightarrow> verdict" where
  "pace retry budget now entry =
     (if (case entry of None \<Rightarrow> False | Some (_, t) \<Rightarrow> fsub now t < retry) then Wait
      else let attempts = (case entry of None \<Rightarrow> 0 | Some (n, _) \<Rightarrow> n) + 1
           in if attempts < budget then Count attempts else Spent)"

section \<open>Payload recovery\<close>

definition parse_raw :: "(string \<Rightarrow> json option) \<Rightarrow> json \<Rightarrow> json" where
  "parse_raw loads rd =
     (case rd of
        JDict d \<Rightarrow> JDict d
      | JStr s \<Rightarrow> (if s \<noteq> [] then (case loads s of None \<Rightarrow> JNull | Some j \<Rightarrow> j) else JNull)
      | _ \<Rightarrow> JNull)"

definition needs_recovery :: "(string \<Rightarrow> json option) \<Rightarrow> row \<Rightarrow> bool" where
  "needs_recovery loads r \<longleftrightarrow>
     parse_raw loads (r_raw r) = JNull \<and>
     (r_truncated r \<or> (case r_raw r of JStr s \<Rightarrow> s \<noteq> [] | _ \<Rightarrow> False))"

text \<open>One row: the row to score (if it is not deferred) and the attempts.  \<open>read\<close> is
  \<open>raw_store.read_confirmed\<close>, with \<open>JNull\<close> for no payload.\<close>

definition resolve_row ::
  "'a engine_settings_scheme \<Rightarrow> (string \<Rightarrow> json option) \<Rightarrow> (string \<Rightarrow> int \<Rightarrow> json result) \<Rightarrow> string \<Rightarrow> rat \<Rightarrow> row \<Rightarrow> attempts \<Rightarrow>
     row option \<times> attempts" where
  "resolve_row cfg loads read net now r att =
     (let key = (net, r_tx_hash r);
          recover = needs_recovery loads r;
          parsed = (case r_timestamp r of
                      Some ts \<Rightarrow> (if recover \<and> RAW_FALLBACK_ENABLED cfg then rcatch (read (r_tx_hash r) ts) JNull
                                  else parse_raw loads (r_raw r))
                    | None \<Rightarrow> parse_raw loads (r_raw r))
      in if recover \<and> parsed = JNull
         then (case pace (RAW_FALLBACK_RETRY_SECONDS cfg) (RAW_FALLBACK_MAX_ATTEMPTS cfg) now (map_of att key) of
                 Wait \<Rightarrow> (None, att)
               | Count n \<Rightarrow> (None, AList.update key (n, now) att)
               | Spent \<Rightarrow> (Some (r\<lparr>r_unavailable := True, r_raw := JNull\<rparr>), AList.delete key att))
         else (Some (r\<lparr>r_raw := parsed\<rparr>), if recover then AList.delete key att else att))"

fun resolve_raw_data ::
  "'a engine_settings_scheme \<Rightarrow> (string \<Rightarrow> json option) \<Rightarrow> (string \<Rightarrow> int \<Rightarrow> json result) \<Rightarrow> string \<Rightarrow> (string \<Rightarrow> rat) \<Rightarrow>
     row list \<Rightarrow> attempts \<Rightarrow> row list \<times> attempts" where
  "resolve_raw_data cfg loads read net clock [] att = ([], att)"
| "resolve_raw_data cfg loads read net clock (r # rs) att =
     (case resolve_row cfg loads read net (clock (r_tx_hash r)) r att of
        (kept, att) \<Rightarrow>
          (case resolve_raw_data cfg loads read net clock rs att of
             (rest, att) \<Rightarrow> (case kept of None \<Rightarrow> rest | Some r \<Rightarrow> r # rest, att)))"

definition parse_row_metadata :: "(string \<Rightarrow> json option) \<Rightarrow> row \<Rightarrow> row" where
  "parse_row_metadata loads r =
     r\<lparr>r_metadata :=
        (case r_metadata r of
           JStr s \<Rightarrow> (if s \<noteq> [] \<and> s \<noteq> ''{}'' then (case loads s of None \<Rightarrow> JNull | Some j \<Rightarrow> j) else JNull)
         | md \<Rightarrow> if truthy md then md else JNull)\<rparr>"

section \<open>Incomplete scores\<close>

definition degrade :: "scored \<Rightarrow> scored" where
  "degrade r =
     (let m = dict_get (s_evidence r) ''_meta'' [];
          m = (if failed_scorers r \<noteq> [] then AList.update ''scorer_failed'' (JList (map JStr (failed_scorers r))) m else m);
          m = (if enrichment_failed r \<noteq> []
               then AList.update ''enrichment_unavailable'' (JList (map JStr (enrichment_failed r))) m else m)
      in r\<lparr>s_evidence := AList.update ''_meta'' m (s_evidence r)\<rparr>)"

definition pop_transient :: "scored \<Rightarrow> scored" where
  "pop_transient r = r\<lparr>failed_scorers := [], enrichment_failed := []\<rparr>"

fun handle_loop ::
  "'a engine_settings_scheme \<Rightarrow> string \<Rightarrow> rat \<Rightarrow> scored list \<Rightarrow> attempts \<Rightarrow> scored list \<times> attempts" where
  "handle_loop cfg net now [] att = ([], att)"
| "handle_loop cfg net now (r # rs) att =
     (let key = (net, s_tx_hash r)
      in if failed_scorers r = [] \<and> enrichment_failed r = []
         then (case handle_loop cfg net now rs (AList.delete key att) of (kept, att) \<Rightarrow> (r # kept, att))
         else case pace (ANALYSIS_DEFER_RETRY_SECONDS cfg) (ANALYSIS_DEFER_MAX_ATTEMPTS cfg) now (map_of att key) of
                Wait \<Rightarrow> handle_loop cfg net now rs att
              | Count n \<Rightarrow> handle_loop cfg net now rs (AList.update key (n, now) att)
              | Spent \<Rightarrow>
                  (case handle_loop cfg net now rs (AList.delete key att) of
                     (kept, att) \<Rightarrow> (pop_transient (degrade r) # kept, att)))"

definition handle_incomplete_scoring ::
  "'a engine_settings_scheme \<Rightarrow> string \<Rightarrow> rat \<Rightarrow> scored list \<Rightarrow> attempts \<Rightarrow> scored list \<times> attempts" where
  "handle_incomplete_scoring cfg net now results att =
     (if \<not> ANALYSIS_DEFER_ENABLED cfg then (map pop_transient results, att)
      else handle_loop cfg net now results att)"

section \<open>The poll cursor\<close>

definition seconds :: "int \<Rightarrow> int" where
  "seconds n = n * 1000000"

definition poll_since :: "'a engine_settings_scheme \<Rightarrow> rat \<Rightarrow> int \<Rightarrow> string \<Rightarrow> engine_state \<Rightarrow> int option \<times> bool" where
  "poll_since cfg clock now net st =
     (if (case map_of (last_full_rescan st) net of None \<Rightarrow> True
          | Some prev \<Rightarrow> fsub clock prev \<ge> UNANALYZED_FULL_RESCAN_INTERVAL_SECONDS cfg)
      then (let window = UNANALYZED_FULL_RESCAN_WINDOW_SECONDS cfg
            in if window > 0 then (Some (now - seconds window), True) else (None, True))
      else (map_of (unanalyzed_watermark st) net, False))"

definition advance_watermark :: "'a engine_settings_scheme \<Rightarrow> string \<Rightarrow> row list \<Rightarrow> engine_state \<Rightarrow> engine_state" where
  "advance_watermark cfg net rows st =
     (case List.map_filter r_ingested rows of
        [] \<Rightarrow> st
      | t # ts \<Rightarrow>
          (let candidate = foldl max t ts - seconds (UNANALYZED_OVERLAP_SECONDS cfg)
           in if (case map_of (unanalyzed_watermark st) net of None \<Rightarrow> True | Some current \<Rightarrow> candidate > current)
              then st\<lparr>unanalyzed_watermark := AList.update net candidate (unanalyzed_watermark st)\<rparr> else st))"

section \<open>One batch\<close>

record engine_env =
  en_poll_mono :: rat
  en_now_utc :: int
  en_fetch :: "int option \<Rightarrow> row list result"
  en_refetch :: "int option \<Rightarrow> row list result"
  en_loads :: "string \<Rightarrow> json option"
  en_read :: "string \<Rightarrow> int \<Rightarrow> json result"
  en_row_mono :: "string \<Rightarrow> rat"
  en_enrich :: "row list \<Rightarrow> row list result"
  en_scorers :: "scorer list"
  en_defer_mono :: rat
  en_insert :: "unit result"
  en_arm_mono :: rat

definition arm_rescan :: "engine_env \<Rightarrow> string \<Rightarrow> bool \<Rightarrow> engine_state \<Rightarrow> engine_state" where
  "arm_rescan env net full st =
     (if full then st\<lparr>last_full_rescan := AList.update net (en_arm_mono env) (last_full_rescan st)\<rparr> else st)"

text \<open>The batch after the poll: the count or the error, the score rows it inserts (which are also the ones it
  announces), and the state.\<close>

definition run_batch ::
  "'a engine_settings_scheme \<Rightarrow> engine_env \<Rightarrow> string \<Rightarrow> bool \<Rightarrow> row list \<Rightarrow> engine_state \<Rightarrow>
     int result \<times> scored list \<times> engine_state" where
  "run_batch cfg env net full fetched st =
     (if fetched = [] then (Inr 0, [], arm_rescan env net full st)
      else
        let (rows, raw_att) = resolve_raw_data cfg (en_loads env) (en_read env) net (en_row_mono env) fetched
                                (raw_fallback_attempts st);
            st = st\<lparr>raw_fallback_attempts := raw_att\<rparr>
        in if rows = [] then (Inr 0, [], arm_rescan env net full st)
           else case en_enrich env (map (parse_row_metadata (en_loads env)) rows) of
                  Inl e \<Rightarrow> (Inl e, [], st)
                | Inr rows \<Rightarrow>
                    let (results, defer_att) = handle_incomplete_scoring cfg net (en_defer_mono env)
                          (map (score_transaction cfg (en_scorers env)) rows) (analysis_defer_attempts st);
                        st = st\<lparr>analysis_defer_attempts := defer_att\<rparr>
                    in if results = []
                       then (Inr (int (length fetched)), [], arm_rescan env net full (advance_watermark cfg net fetched st))
                       else case en_insert env of
                              Inl e \<Rightarrow> (Inl e, [], st)
                            | Inr _ \<Rightarrow> (Inr (int (length fetched)), results,
                                arm_rescan env net full (advance_watermark cfg net fetched st)))"

definition run_once ::
  "'a engine_settings_scheme \<Rightarrow> engine_env \<Rightarrow> string \<Rightarrow> engine_state \<Rightarrow> int result \<times> scored list \<times> engine_state" where
  "run_once cfg env net st =
     (if \<not> ANALYSIS_ENABLED cfg then (Inr 0, [], st)
      else
        let (since, full) = poll_since cfg (en_poll_mono env) (en_now_utc env) net st
        in case en_fetch env since of
             Inr fetched \<Rightarrow> run_batch cfg env net full fetched st
           | Inl e \<Rightarrow>
               (case map_of (unanalyzed_watermark st) net of
                  None \<Rightarrow> (Inl e, [], st)
                | Some watermark \<Rightarrow>
                    if \<not> full then (Inl e, [], st)
                    else
                      let st = st\<lparr>last_full_rescan := AList.update net (en_arm_mono env) (last_full_rescan st)\<rparr>
                      in case en_refetch env (Some watermark) of
                           Inl e \<Rightarrow> (Inl e, [], st)
                         | Inr fetched \<Rightarrow> run_batch cfg env net False fetched st))"

section \<open>Facts\<close>

subsection \<open>Aggregation\<close>

lemma best_of_spec:
  "best_of b xs \<in> insert b (set xs) \<and> snd b \<le> snd (best_of b xs) \<and> (\<forall>x \<in> set xs. snd x \<le> snd (best_of b xs))"
proof (induction xs arbitrary: b)
  case (Cons x xs)
  show ?case
    using Cons.IH [of x] Cons.IH [of b] by (cases "snd x > snd b") (auto intro: order_trans)
qed simp

text \<open>The classes that apply, and the winner among them.\<close>

definition applicable_of :: "scored \<Rightarrow> (string, rat) dict" where
  "applicable_of s = filter (\<lambda>(_, v). v \<ge> 0) (scores s)"

lemma score_transaction_fields:
  fixes cfg :: "'a engine_settings_scheme" and scorers :: "scorer list" and r :: row
  defines "s \<equiv> score_transaction cfg scorers r"
  shows "s_tx_hash s = r_tx_hash r" "enrichment_failed s = r_enrichment_failed r"
    "applicable_of s = [] \<Longrightarrow> max_class s = [] \<and> max_score s = 0 \<and> risk_band s = score_to_band 0"
    "applicable_of s \<noteq> [] \<Longrightarrow> \<exists>v. (max_class s, v) \<in> set (applicable_of s) \<and> (\<forall>x \<in> set (applicable_of s). snd x \<le> v) \<and>
        max_score s = fround v 2 \<and> risk_band s = score_to_band v"
    "corroborating s = sort (map fst (filter (\<lambda>(_, v). v \<ge> CORROBORATION_THRESHOLD cfg) (applicable_of s)))"
proof -
  let ?a = "applicable_of s"
  have a: "?a = filter (\<lambda>(_, v). v \<ge> 0) (t_scores (tally_of scorers r))"
    unfolding applicable_of_def s_def score_transaction_def Let_def by (simp add: split_beta)
  obtain cls mx where win: "winner ?a = (cls, mx)" by fastforce
  have s: "s_tx_hash s = r_tx_hash r" "enrichment_failed s = r_enrichment_failed r" "max_class s = cls" "max_score s = fround mx 2"
    "risk_band s = score_to_band mx"
    "corroborating s = sort (map fst (filter (\<lambda>(_, v). v \<ge> CORROBORATION_THRESHOLD cfg) ?a))"
    using win unfolding a unfolding s_def score_transaction_def Let_def by simp_all
  then show "s_tx_hash s = r_tx_hash r" "enrichment_failed s = r_enrichment_failed r"
    "corroborating s = sort (map fst (filter (\<lambda>(_, v). v \<ge> CORROBORATION_THRESHOLD cfg) ?a))" by blast+
  show "?a = [] \<Longrightarrow> max_class s = [] \<and> max_score s = 0 \<and> risk_band s = score_to_band 0" using s win by (simp add: winner_def)
  show "\<exists>v. (max_class s, v) \<in> set ?a \<and> (\<forall>x \<in> set ?a. snd x \<le> v) \<and> max_score s = fround v 2 \<and> risk_band s = score_to_band v"
    if "?a \<noteq> []"
  proof -
    obtain x xs where a: "?a = x # xs" using \<open>?a \<noteq> []\<close> by (cases ?a) auto
    then have "best_of x xs = (cls, mx)" using win by (simp add: winner_def)
    with best_of_spec [of x xs] s show ?thesis unfolding a by fastforce
  qed
qed

subsection \<open>Pacing\<close>

lemma pace_Count: "pace retry budget now entry = Count n \<Longrightarrow> 1 \<le> n \<and> n < budget" if "\<And>n t. entry = Some (n, t) \<Longrightarrow> 0 \<le> n"
  using that by (auto simp: pace_def Let_def split: option.splits if_splits)

lemma pace_outside:
  assumes "\<And>n t. entry = Some (n, t) \<Longrightarrow> \<not> fsub now t < retry"
  shows "pace retry budget now entry =
    (let attempts = (case entry of None \<Rightarrow> 0 | Some (n, _) \<Rightarrow> n) + 1 in if attempts < budget then Count attempts else Spent)"
  using assms by (auto simp: pace_def Let_def split: option.splits)

subsection \<open>Deferral\<close>

lemma handle_loop_other:
  "handle_loop cfg net now rs att = (kept, att') \<Longrightarrow> k \<notin> (\<lambda>r. (net, s_tx_hash r)) ` set rs \<Longrightarrow> map_of att' k = map_of att k"
  by (induction rs arbitrary: kept att)
    (auto simp: Let_def split: if_splits verdict.splits prod.splits)

text \<open>Every result is kept, with its transient keys gone, or has an entry.\<close>

lemma handle_loop_accounts:
  assumes "handle_loop cfg net now rs att = (kept, att')" "distinct (map s_tx_hash rs)" "r \<in> set rs"
  shows "s_tx_hash r \<in> s_tx_hash ` set kept \<or> map_of att' (net, s_tx_hash r) \<noteq> None"
  using assms
proof (induction rs arbitrary: kept att)
  case (Cons x rs)
  have tail: "map_of att' (net, s_tx_hash x) = map_of a (net, s_tx_hash x)" if "handle_loop cfg net now rs a = (k, att')" for a k
    using handle_loop_other [OF that, of "(net, s_tx_hash x)"] Cons.prems(2) by auto
  have keep: "s_tx_hash (pop_transient (degrade x)) = s_tx_hash x" by (simp add: pop_transient_def degrade_def Let_def)
  consider (complete) k where "failed_scorers x = [] \<and> enrichment_failed x = []"
      "handle_loop cfg net now rs (AList.delete (net, s_tx_hash x) att) = (k, att')" "kept = x # k"
    | (wait) "handle_loop cfg net now rs att = (kept, att')" "map_of att (net, s_tx_hash x) \<noteq> None"
    | (counted) n where "handle_loop cfg net now rs (AList.update (net, s_tx_hash x) (n, now) att) = (kept, att')"
    | (spent) k where "handle_loop cfg net now rs (AList.delete (net, s_tx_hash x) att) = (k, att')"
        "kept = pop_transient (degrade x) # k"
  proof -
    have "pace (ANALYSIS_DEFER_RETRY_SECONDS cfg) (ANALYSIS_DEFER_MAX_ATTEMPTS cfg) now (map_of att (net, s_tx_hash x)) = Wait \<Longrightarrow>
        map_of att (net, s_tx_hash x) \<noteq> None"
      by (auto simp: pace_def Let_def split: option.splits if_splits)
    then show ?thesis
      using Cons.prems(1) that by (auto simp: Let_def split: if_splits verdict.splits prod.splits)
  qed
  then show ?case
  proof cases
    case complete
    then show ?thesis using Cons.IH [OF complete(2)] Cons.prems(2,3) by auto
  next
    case wait
    then show ?thesis using Cons.IH [OF wait(1)] tail [OF wait(1)] Cons.prems(2,3) by auto
  next
    case counted
    then show ?thesis using Cons.IH [OF counted] tail [OF counted] Cons.prems(2,3) by auto
  next
    case spent
    then show ?thesis using Cons.IH [OF spent(1)] keep Cons.prems(2,3) by auto
  qed
qed simp

text \<open>A kept result that was incomplete carries the markers of what failed.\<close>

definition marked :: "scored \<Rightarrow> scored \<Rightarrow> bool" where
  "marked r s \<longleftrightarrow>
     (case map_of (s_evidence s) ''_meta'' of
        None \<Rightarrow> failed_scorers r = [] \<and> enrichment_failed r = []
      | Some m \<Rightarrow>
          (failed_scorers r = [] \<or> map_of m ''scorer_failed'' = Some (JList (map JStr (failed_scorers r)))) \<and>
          (enrichment_failed r = [] \<or> map_of m ''enrichment_unavailable'' = Some (JList (map JStr (enrichment_failed r)))))"

lemma marked_degrade: "marked r (pop_transient (degrade r))"
  by (simp add: marked_def pop_transient_def degrade_def Let_def)

lemma marked_complete: "failed_scorers r = [] \<Longrightarrow> enrichment_failed r = [] \<Longrightarrow> marked r r"
  by (simp add: marked_def split: option.split)

lemma handle_loop_marked:
  "handle_loop cfg net now rs att = (kept, att') \<Longrightarrow> s \<in> set kept \<Longrightarrow>
     \<exists>r \<in> set rs. s_tx_hash s = s_tx_hash r \<and> marked r s \<and> failed_scorers s = [] \<and> enrichment_failed s = []"
proof (induction rs arbitrary: kept att)
  case (Cons x rs)
  have keep: "s_tx_hash (pop_transient (degrade x)) = s_tx_hash x" "failed_scorers (pop_transient (degrade x)) = []"
    "enrichment_failed (pop_transient (degrade x)) = []"
    by (simp_all add: pop_transient_def degrade_def Let_def)
  consider k a where "handle_loop cfg net now rs a = (k, att')" "s \<in> set k"
    | "s = x" "failed_scorers x = []" "enrichment_failed x = []" | "s = pop_transient (degrade x)"
    using Cons.prems by (auto simp: Let_def split: if_splits verdict.splits prod.splits)
  then show ?case
    using Cons.IH keep marked_degrade [of x] marked_complete [of x] by cases fastforce+
qed simp

subsection \<open>Recovery\<close>

lemma resolve_row_hash: "resolve_row cfg loads read net now r att = (Some r', att') \<Longrightarrow> r_tx_hash r' = r_tx_hash r"
  by (auto simp: resolve_row_def Let_def split: if_splits verdict.splits)

lemma resolve_row_None:
  "resolve_row cfg loads read net now r att = (None, att') \<Longrightarrow> map_of att' (net, r_tx_hash r) \<noteq> None"
  by (auto simp: resolve_row_def Let_def pace_def split: if_splits verdict.splits option.splits)

lemma resolve_row_other:
  "resolve_row cfg loads read net now r att = (k, att') \<Longrightarrow> key \<noteq> (net, r_tx_hash r) \<Longrightarrow> map_of att' key = map_of att key"
  by (auto simp: resolve_row_def Let_def split: if_splits verdict.splits)

lemma resolve_raw_other:
  "resolve_raw_data cfg loads read net clock rs att = (kept, att') \<Longrightarrow> key \<notin> (\<lambda>r. (net, r_tx_hash r)) ` set rs \<Longrightarrow>
     map_of att' key = map_of att key"
  by (induction rs arbitrary: kept att) (auto dest: resolve_row_other split: prod.splits)

lemma resolve_raw_accounts:
  assumes "resolve_raw_data cfg loads read net clock rs att = (kept, att')" "distinct (map r_tx_hash rs)" "r \<in> set rs"
  shows "r_tx_hash r \<in> r_tx_hash ` set kept \<or> map_of att' (net, r_tx_hash r) \<noteq> None"
  using assms
proof (induction rs arbitrary: kept att)
  case (Cons x rs)
  obtain k a where one: "resolve_row cfg loads read net (clock (r_tx_hash x)) x att = (k, a)" by fastforce
  obtain rest where rest: "resolve_raw_data cfg loads read net clock rs a = (rest, att')" and
      kept: "kept = (case k of None \<Rightarrow> rest | Some r \<Rightarrow> r # rest)"
    using Cons.prems(1) by (auto simp: one split: prod.splits)
  have tail: "map_of att' (net, r_tx_hash x) = map_of a (net, r_tx_hash x)"
    using resolve_raw_other [OF rest, of "(net, r_tx_hash x)"] Cons.prems(2) by auto
  show ?case
  proof (cases "r = x")
    case True
    then show ?thesis
    proof (cases k)
      case None
      then have "map_of a (net, r_tx_hash x) \<noteq> None" using one resolve_row_None by blast
      then show ?thesis using True tail by simp
    next
      case (Some y)
      then have "r_tx_hash y = r_tx_hash x" using one resolve_row_hash by blast
      then show ?thesis using True kept Some by simp
    qed
  next
    case False
    then show ?thesis using Cons.IH [OF rest] Cons.prems(2,3) kept by (auto split: option.splits)
  qed
qed simp

lemma resolve_raw_distinct:
  assumes "resolve_raw_data cfg loads read net clock rs att = (kept, att')" "distinct (map r_tx_hash rs)"
  shows "distinct (map r_tx_hash kept) \<and> r_tx_hash ` set kept \<subseteq> r_tx_hash ` set rs"
  using assms
proof (induction rs arbitrary: kept att)
  case (Cons x rs)
  obtain k a where one: "resolve_row cfg loads read net (clock (r_tx_hash x)) x att = (k, a)" by fastforce
  obtain rest where rest: "resolve_raw_data cfg loads read net clock rs a = (rest, att')" and
      kept: "kept = (case k of None \<Rightarrow> rest | Some r \<Rightarrow> r # rest)"
    using Cons.prems(1) by (auto simp: one split: prod.splits)
  have IH: "distinct (map r_tx_hash rest) \<and> r_tx_hash ` set rest \<subseteq> r_tx_hash ` set rs"
    using Cons.IH [OF rest] Cons.prems(2) by simp
  show ?case
  proof (cases k)
    case None
    then show ?thesis using IH kept by auto
  next
    case (Some y)
    then have "r_tx_hash y = r_tx_hash x" using one resolve_row_hash by simp
    moreover have "r_tx_hash x \<notin> r_tx_hash ` set rest" using IH Cons.prems(2) by auto
    ultimately show ?thesis using IH kept Some by auto
  qed
qed simp

subsection \<open>A batch\<close>

lemma handle_incomplete_hashes:
  assumes "handle_incomplete_scoring cfg net now rs att = (kept, att')" "s \<in> set kept"
  shows "s_tx_hash s \<in> s_tx_hash ` set rs"
  using assms handle_loop_marked [of cfg net now rs att kept att' s]
  by (auto simp: handle_incomplete_scoring_def pop_transient_def split: if_splits)

lemma handle_incomplete_accounts:
  assumes "handle_incomplete_scoring cfg net now rs att = (kept, att')" "distinct (map s_tx_hash rs)" "r \<in> set rs"
  shows "s_tx_hash r \<in> s_tx_hash ` set kept \<or> map_of att' (net, s_tx_hash r) \<noteq> None"
  using assms handle_loop_accounts [of cfg net now rs att kept att' r]
  by (auto simp: handle_incomplete_scoring_def pop_transient_def image_image split: if_splits)

lemma advance_watermark_frame [simp]:
  "raw_fallback_attempts (advance_watermark cfg net rows st) = raw_fallback_attempts st"
  "analysis_defer_attempts (advance_watermark cfg net rows st) = analysis_defer_attempts st"
  "last_full_rescan (advance_watermark cfg net rows st) = last_full_rescan st"
  by (simp_all add: advance_watermark_def Let_def split: list.split)

lemma arm_rescan_frame [simp]:
  "raw_fallback_attempts (arm_rescan env net full st) = raw_fallback_attempts st"
  "analysis_defer_attempts (arm_rescan env net full st) = analysis_defer_attempts st"
  "unanalyzed_watermark (arm_rescan env net full st) = unanalyzed_watermark st"
  by (simp_all add: arm_rescan_def)

lemma parse_row_metadata_hash [simp]: "r_tx_hash (parse_row_metadata loads r) = r_tx_hash r"
  by (simp add: parse_row_metadata_def)

text \<open>What became of a fetched transaction.\<close>

definition scored_or_deferred :: "string \<Rightarrow> scored list \<Rightarrow> engine_state \<Rightarrow> string \<Rightarrow> bool" where
  "scored_or_deferred net inserted st h \<longleftrightarrow>
     h \<in> s_tx_hash ` set inserted \<or> map_of (raw_fallback_attempts st) (net, h) \<noteq> None \<or>
     map_of (analysis_defer_attempts st) (net, h) \<noteq> None"

lemma run_batch_accounts:
  assumes run: "run_batch cfg env net full fetched st = (Inr n, inserted, st')"
    and distinct: "distinct (map r_tx_hash fetched)"
    and enrich: "\<And>rows rows'. en_enrich env rows = Inr rows' \<Longrightarrow> map r_tx_hash rows' = map r_tx_hash rows"
    and r: "r \<in> set fetched"
  shows "scored_or_deferred net inserted st' (r_tx_hash r)"
proof -
  obtain rows att where raw: "resolve_raw_data cfg (en_loads env) (en_read env) net (en_row_mono env) fetched
      (raw_fallback_attempts st) = (rows, att)" by fastforce
  have acc: "r_tx_hash r \<in> r_tx_hash ` set rows \<or> map_of att (net, r_tx_hash r) \<noteq> None"
    using resolve_raw_accounts [OF raw distinct r] .
  have drows: "distinct (map r_tx_hash rows)" using resolve_raw_distinct [OF raw distinct] by blast
  have ne: "fetched \<noteq> []" using r by auto
  note run = run [unfolded run_batch_def raw Let_def prod.case]
  show ?thesis
  proof (cases "rows = []")
    case True
    then have "raw_fallback_attempts st' = att" using run ne by auto
    then show ?thesis using acc True by (simp add: scored_or_deferred_def)
  next
    case False
    obtain rows' where en: "en_enrich env (map (parse_row_metadata (en_loads env)) rows) = Inr rows'"
      using run ne False by (auto split: sum.splits)
    have hs: "map r_tx_hash rows' = map r_tx_hash rows" using enrich [OF en] by (simp add: comp_def)
    let ?rs = "map (score_transaction cfg (en_scorers env)) rows'"
    have hss: "map s_tx_hash ?rs = map r_tx_hash rows" using hs by (simp add: score_transaction_fields comp_def)
    obtain kept datt where h: "handle_incomplete_scoring cfg net (en_defer_mono env) ?rs (analysis_defer_attempts st) = (kept, datt)"
      by fastforce
    have st': "raw_fallback_attempts st' = att \<and> analysis_defer_attempts st' = datt \<and> inserted = kept"
      using run ne False h by (auto simp: en split: if_splits sum.splits)
    have "s_tx_hash x \<in> s_tx_hash ` set kept \<or> map_of datt (net, s_tx_hash x) \<noteq> None" if "x \<in> set ?rs" for x
      using handle_incomplete_accounts [OF h _ that] hss drows by simp
    moreover have "s_tx_hash ` set ?rs = r_tx_hash ` set rows" using arg_cong [OF hss, of set] by (simp add: image_image)
    ultimately have "h \<in> r_tx_hash ` set rows \<Longrightarrow> h \<in> s_tx_hash ` set kept \<or> map_of datt (net, h) \<noteq> None" for h
      by (metis imageE)
    then show ?thesis using acc st' by (auto simp: scored_or_deferred_def)
  qed
qed

lemma run_batch_error:
  assumes "run_batch cfg env net full fetched st = (Inl e, inserted, st')"
  shows "inserted = [] \<and> unanalyzed_watermark st' = unanalyzed_watermark st \<and> last_full_rescan st' = last_full_rescan st"
  using assms by (auto simp: run_batch_def Let_def split: if_splits prod.splits sum.splits)

lemma run_batch_marked:
  assumes run: "run_batch cfg env net full fetched st = (Inr n, inserted, st')" and on: "ANALYSIS_DEFER_ENABLED cfg"
    and s: "s \<in> set inserted"
  shows "\<exists>rows rows'. en_enrich env rows = Inr rows' \<and>
    (\<exists>r \<in> set rows'. s_tx_hash s = r_tx_hash r \<and> marked (score_transaction cfg (en_scorers env) r) s)"
proof -
  obtain rows rows' where en: "en_enrich env rows = Inr rows'" and rs: "\<exists>datt. handle_incomplete_scoring cfg net (en_defer_mono env)
      (map (score_transaction cfg (en_scorers env)) rows') (analysis_defer_attempts st) = (inserted, datt)"
    using run s by (auto simp: run_batch_def Let_def split: if_splits prod.splits sum.splits)
  then obtain datt where h: "handle_loop cfg net (en_defer_mono env) (map (score_transaction cfg (en_scorers env)) rows')
      (analysis_defer_attempts st) = (inserted, datt)" using on by (auto simp: handle_incomplete_scoring_def)
  from handle_loop_marked [OF h s] en show ?thesis by (auto simp: score_transaction_fields)
qed

lemma run_once_cases:
  assumes "run_once cfg env net st = out" "ANALYSIS_ENABLED cfg"
  obtains (refused) e st' where "out = (Inl e, [], st')" "unanalyzed_watermark st' = unanalyzed_watermark st"
  | (polled) full fetched st0 where "out = run_batch cfg env net full fetched st0"
      "unanalyzed_watermark st0 = unanalyzed_watermark st"
      "en_fetch env (fst (poll_since cfg (en_poll_mono env) (en_now_utc env) net st)) = Inr fetched \<or>
       (\<exists>w. en_refetch env (Some w) = Inr fetched)"
proof -
  obtain since full where p: "poll_since cfg (en_poll_mono env) (en_now_utc env) net st = (since, full)" by fastforce
  note run = assms(1) [unfolded run_once_def p Let_def prod.case]
  show ?thesis
  proof (cases "en_fetch env since")
    case (Inr fetched)
    then show ?thesis using run assms(2) by (intro polled [of full fetched st]) (auto simp: p)
  next
    case (Inl e)
    show ?thesis
    proof (cases "map_of (unanalyzed_watermark st) net")
      case None
      then show ?thesis using run assms(2) Inl by (intro refused) auto
    next
      case (Some w)
      let ?st = "st\<lparr>last_full_rescan := AList.update net (en_arm_mono env) (last_full_rescan st)\<rparr>"
      show ?thesis
      proof (cases full)
        case False
        then show ?thesis using run assms(2) Inl Some by (intro refused) auto
      next
        case True
        show ?thesis
        proof (cases "en_refetch env (Some w)")
          case (Inl e')
          then show ?thesis using run assms(2) \<open>en_fetch env since = Inl e\<close> Some True by (intro refused [of e' ?st]) auto
        next
          case (Inr fetched)
          then show ?thesis
            using run assms(2) \<open>en_fetch env since = Inl e\<close> Some True by (intro polled [of False fetched ?st]) auto
        qed
      qed
    qed
  qed
qed

text \<open>The watermark of a network does not go back.\<close>

definition not_back :: "string \<Rightarrow> engine_state \<Rightarrow> engine_state \<Rightarrow> bool" where
  "not_back net st st' \<longleftrightarrow>
     (case map_of (unanalyzed_watermark st) net of None \<Rightarrow> True
      | Some t \<Rightarrow> (case map_of (unanalyzed_watermark st') net of None \<Rightarrow> False | Some t' \<Rightarrow> t \<le> t'))"

lemma not_back_cong: "unanalyzed_watermark st = unanalyzed_watermark st0 \<Longrightarrow> not_back net st st' = not_back net st0 st'"
  by (simp add: not_back_def)

lemma not_back_same: "unanalyzed_watermark st' = unanalyzed_watermark st \<Longrightarrow> not_back net st st'"
  by (simp add: not_back_def split: option.split)

lemma not_back_advance: "not_back net st (advance_watermark cfg net rows st)"
  by (auto simp: not_back_def advance_watermark_def Let_def split: list.split option.split)

lemma not_back_arm: "not_back net st (arm_rescan env net full st') = not_back net st st'"
  unfolding not_back_def arm_rescan_frame ..

lemma run_batch_watermark:
  assumes "run_batch cfg env net full fetched st = (Inr n, inserted, st')"
  shows "not_back net st st'"
proof -
  have adv: "not_back net st (advance_watermark cfg net fetched (st\<lparr>raw_fallback_attempts := a, analysis_defer_attempts := b\<rparr>))"
    for a b
    using not_back_advance [of net "st\<lparr>raw_fallback_attempts := a, analysis_defer_attempts := b\<rparr>" cfg fetched]
    by (simp add: not_back_def)
  have "\<exists>x. st' = arm_rescan env net full x \<and> (unanalyzed_watermark x = unanalyzed_watermark st \<or>
      (\<exists>a b. x = advance_watermark cfg net fetched (st\<lparr>raw_fallback_attempts := a, analysis_defer_attempts := b\<rparr>)))"
    using assms by (auto simp: run_batch_def Let_def split: if_splits prod.splits sum.splits)
  then show ?thesis using adv by (auto simp: not_back_arm not_back_same)
qed

subsection \<open>Repeated polls of one incomplete result\<close>

fun defer_polls :: "'a engine_settings_scheme \<Rightarrow> string \<Rightarrow> scored \<Rightarrow> rat list \<Rightarrow> attempts \<Rightarrow> bool list" where
  "defer_polls cfg net r [] att = []"
| "defer_polls cfg net r (t # ts) att =
     (case handle_incomplete_scoring cfg net t [r] att of (kept, att) \<Rightarrow> (kept \<noteq> []) # defer_polls cfg net r ts att)"

lemma defer_polls_from:
  assumes "ANALYSIS_DEFER_ENABLED cfg" "failed_scorers r \<noteq> [] \<or> enrichment_failed r \<noteq> []"
    and "map_of att (net, s_tx_hash r) = entry" "n = (case entry of None \<Rightarrow> 0 | Some (k, _) \<Rightarrow> k)"
    and "\<And>k t. entry = Some (k, t) \<Longrightarrow> \<not> fsub (hd ts) t < ANALYSIS_DEFER_RETRY_SECONDS cfg"
    and "successively (\<lambda>a b. \<not> fsub b a < ANALYSIS_DEFER_RETRY_SECONDS cfg) ts"
    and "int (length ts) = ANALYSIS_DEFER_MAX_ATTEMPTS cfg - n" "ts \<noteq> []"
  shows "defer_polls cfg net r ts att = replicate (length ts - 1) False @ [True]"
  using assms(3-)
proof (induction ts arbitrary: att entry n)
  case (Cons t ts)
  let ?key = "(net, s_tx_hash r)"
  have pc: "pace (ANALYSIS_DEFER_RETRY_SECONDS cfg) (ANALYSIS_DEFER_MAX_ATTEMPTS cfg) t (map_of att ?key) =
      (if n + 1 < ANALYSIS_DEFER_MAX_ATTEMPTS cfg then Count (n + 1) else Spent)"
    unfolding Cons.prems(1) using pace_outside [of entry t] Cons.prems(2,3) by (simp add: Let_def)
  show ?case
  proof (cases "ts = []")
    case True
    then show ?thesis
      using pc Cons.prems(5) assms(1,2) by (auto simp: handle_incomplete_scoring_def)
  next
    case False
    then have len: "n + 1 < ANALYSIS_DEFER_MAX_ATTEMPTS cfg" using Cons.prems(5) by (cases ts) auto
    have step: "handle_incomplete_scoring cfg net t [r] att = ([], AList.update ?key (n + 1, t) att)"
      using pc len assms(1,2) by (auto simp: handle_incomplete_scoring_def)
    have "defer_polls cfg net r ts (AList.update ?key (n + 1, t) att) = replicate (length ts - 1) False @ [True]"
      using Cons.prems(4,5) False by (intro Cons.IH [of _ "Some (n + 1, t)" "n + 1"]) (auto simp: successively_Cons)
    then show ?thesis using step False by (cases ts) simp_all
  qed
qed simp

section \<open>Properties\<close>

text \<open>What the engine relies on: an enrichment that returns has the rows it was given, in their order.\<close>

locale batch_enrichment =
  fixes enrich :: "row list \<Rightarrow> row list result"
  assumes keeps_hashes: "enrich rows = Inr rows' \<Longrightarrow> map r_tx_hash rows' = map r_tx_hash rows"
begin

text \<open>No transaction is skipped: a batch that raises inserts nothing and leaves the watermark where it was; otherwise
  every transaction the poll returned has its score row inserted or is on one of the two deferral ledgers, and the
  watermark does not go back.\<close>

lemma never_skips:
  assumes "ANALYSIS_ENABLED cfg" "run_once cfg env net st = (r, inserted, st')"
    and unique: "\<And>since rows. en_fetch env since = Inr rows \<or> en_refetch env since = Inr rows \<Longrightarrow> distinct (map r_tx_hash rows)"
    and enrich: "en_enrich env = enrich"
  shows "case r of
      Inl _ \<Rightarrow> inserted = [] \<and> unanalyzed_watermark st' = unanalyzed_watermark st
    | Inr _ \<Rightarrow>
        (\<exists>fetched.
           (en_fetch env (fst (poll_since cfg (en_poll_mono env) (en_now_utc env) net st)) = Inr fetched \<or>
            (\<exists>w. en_refetch env (Some w) = Inr fetched)) \<and>
           (\<forall>x \<in> set fetched. scored_or_deferred net inserted st' (r_tx_hash x))) \<and>
        not_back net st st'"
  using assms(2) assms(1)
proof (cases rule: run_once_cases)
  case (refused e st0)
  then show ?thesis by simp
next
  case (polled full fetched st0)
  note run = polled(1) [symmetric]
  show ?thesis
  proof (cases r)
    case (Inl e)
    then show ?thesis using run_batch_error [of cfg env net full fetched st0 e inserted st'] run polled(2) by simp
  next
    case (Inr n)
    note run = run [unfolded Inr]
    have "distinct (map r_tx_hash fetched)" using unique polled(3) by auto
    note acc = run_batch_accounts [OF run this keeps_hashes, folded enrich]
    have "not_back net st st'" using run_batch_watermark [OF run] not_back_cong [OF polled(2)] by simp
    then show ?thesis using polled(3) acc Inr by auto
  qed
qed

end

definition demo_engine_settings :: engine_settings where
  "demo_engine_settings =
     \<lparr>ANALYSIS_ENABLED = True, RAW_FALLBACK_ENABLED = True, RAW_FALLBACK_RETRY_SECONDS = 30, RAW_FALLBACK_MAX_ATTEMPTS = 3,
      ANALYSIS_DEFER_ENABLED = True, ANALYSIS_DEFER_RETRY_SECONDS = 30, ANALYSIS_DEFER_MAX_ATTEMPTS = 3,
      UNANALYZED_FULL_RESCAN_INTERVAL_SECONDS = 600, UNANALYZED_FULL_RESCAN_WINDOW_SECONDS = 0,
      UNANALYZED_OVERLAP_SECONDS = 120, CORROBORATION_THRESHOLD = 50\<rparr>"

definition demo_engine_state :: engine_state where
  "demo_engine_state =
     \<lparr>raw_fallback_attempts = [], analysis_defer_attempts = [], unanalyzed_watermark = [], last_full_rescan = []\<rparr>"

definition demo_row :: "string \<Rightarrow> json \<Rightarrow> row" where
  "demo_row h raw =
     \<lparr>r_tx_hash = h, r_network = ''preprod'', r_raw = raw, r_truncated = False, r_timestamp = Some 0, r_ingested = Some 900000000,
      r_metadata = JNull, r_unavailable = False, r_enrichment_failed = [], r_fields = []\<rparr>"

definition demo_scorer :: "string \<Rightarrow> rat result \<Rightarrow> scorer" where
  "demo_scorer n out =
     \<lparr>scorer_name = n, gate = (\<lambda>_. Inr True),
      run_score = (\<lambda>_. case out of Inl e \<Rightarrow> Inl e | Inr x \<Rightarrow> Inr (ScorerResult\<lparr>score := x\<rparr>, []))\<rparr>"

text \<open>A batch of two: the payload of the second cannot be read, and the sandwich scorer raises on the first.\<close>

definition demo_engine_env :: engine_env where
  "demo_engine_env =
     \<lparr>en_poll_mono = 0, en_now_utc = 0, en_fetch = (\<lambda>_. Inr [demo_row ''t'' (JDict []), demo_row ''u'' (JStr ''{'')]),
      en_refetch = (\<lambda>_. Inr [demo_row ''t'' (JDict []), demo_row ''u'' (JStr ''{'')]), en_loads = (\<lambda>_. None), en_read = (\<lambda>_ _. Inl TypeError), en_row_mono = (\<lambda>_. 0),
      en_enrich = Inr, en_scorers = [demo_scorer ''circular'' (Inr 70), demo_scorer ''sandwich'' (Inl KeyError)],
      en_defer_mono = 0, en_insert = Inr (), en_arm_mono = 0\<rparr>"

text \<open>C30.  Deferral is bounded: a result whose scoring is incomplete at every poll is held back at the first
  \<open>ANALYSIS_DEFER_MAX_ATTEMPTS - 1\<close> polls that are a pacing interval apart, and kept at the next one.\<close>

theorem deferral_is_bounded:
  assumes "ANALYSIS_DEFER_ENABLED cfg" "failed_scorers r \<noteq> [] \<or> enrichment_failed r \<noteq> []"
    and "map_of att (net, s_tx_hash r) = None"
    and "successively (\<lambda>a b. \<not> fsub b a < ANALYSIS_DEFER_RETRY_SECONDS cfg) ts"
    and "int (length ts) = ANALYSIS_DEFER_MAX_ATTEMPTS cfg" "ts \<noteq> []"
  shows "defer_polls cfg net r ts att = replicate (length ts - 1) False @ [True]"
  using assms by (intro defer_polls_from [of cfg r att net None 0]) simp_all

theorem deferral_is_bounded_witness:
  "defer_polls demo_engine_settings ''preprod''
     (score_transaction demo_engine_settings [demo_scorer ''sandwich'' (Inl KeyError)] (demo_row ''t'' JNull)) [0, 30, 60] [] =
   [False, False, True]"
proof -
  let ?s = "score_transaction demo_engine_settings [demo_scorer ''sandwich'' (Inl KeyError)] (demo_row ''t'' JNull)"
  have "failed_scorers ?s = [''sandwich'']" by code_simp
  moreover have "successively (\<lambda>a b. \<not> fsub b a < ANALYSIS_DEFER_RETRY_SECONDS demo_engine_settings) [0, 30, 60]" by code_simp
  ultimately show ?thesis
    using deferral_is_bounded [of demo_engine_settings ?s "[]" "''preprod''" "[0, 30, 60]"]
    by (simp add: demo_engine_settings_def)
qed


definition spent_state :: engine_state where
  "spent_state = demo_engine_state\<lparr>analysis_defer_attempts := [((''preprod'', ''t''), (2, -60))]\<rparr>"


text \<open>The verdict of a transaction: its class is one with the largest applicable score, its score that
  score rounded, its band the band of that score (nothing and the bottom band when no class applies), and
  the corroborating classes are exactly the applicable ones at the threshold, sorted.\<close>

theorem verdict_is_the_maximum:
  "let s = score_transaction cfg scorers r; a = applicable_of s
   in (if a = [] then max_class s = [] \<and> max_score s = 0 \<and> risk_band s = ''Informational''
       else \<exists>v. (max_class s, v) \<in> set a \<and> v = Max (snd ` set a) \<and> max_score s = fround v 2 \<and> risk_band s = score_to_band v) \<and>
      sorted (corroborating s) \<and> set (corroborating s) = {k. \<exists>v. (k, v) \<in> set a \<and> v \<ge> CORROBORATION_THRESHOLD cfg}"
proof -
  let ?s = "score_transaction cfg scorers r"
  have bottom: "score_to_band 0 = ''Informational''" by (simp add: score_to_band_def BAND_CRITICAL_THRESHOLD_def BAND_HIGH_THRESHOLD_def)
  have "\<exists>v. (max_class ?s, v) \<in> set (applicable_of ?s) \<and> v = Max (snd ` set (applicable_of ?s)) \<and>
      max_score ?s = fround v 2 \<and> risk_band ?s = score_to_band v" if "applicable_of ?s \<noteq> []"
  proof -
    from score_transaction_fields(4) [OF that] obtain v where v: "(max_class ?s, v) \<in> set (applicable_of ?s)"
      "\<forall>x \<in> set (applicable_of ?s). snd x \<le> v" "max_score ?s = fround v 2" "risk_band ?s = score_to_band v" by blast
    then have "Max (snd ` set (applicable_of ?s)) = v" by (intro Max_eqI) (auto simp: image_iff intro: bexI [of _ "(max_class ?s, v)"])
    with v show ?thesis by blast
  qed
  moreover have "set (corroborating ?s) = {k. \<exists>v. (k, v) \<in> set (applicable_of ?s) \<and> v \<ge> CORROBORATION_THRESHOLD cfg}"
    unfolding score_transaction_fields(5) by force
  moreover have "sorted (corroborating ?s)" unfolding score_transaction_fields(5) by simp
  ultimately show ?thesis using score_transaction_fields(3) [of cfg scorers r] bottom by (auto simp: Let_def)
qed

end
