(* ===== verification/Notify_Config.thy ===== *)
theory Notify_Config
  imports Prelude
begin

text \<open>
  The notification config document (\<open>src/backend/app/notifications/config.py\<close>) and the trigger rules that read
  it (\<open>src/backend/app/notifications/triggers.py\<close>).  The document is a JSON value; the validator and the
  accessors raise where the code does.  Whether a URL names an internal host (\<open>urlparse\<close>, \<open>ipaddress\<close>) is
  a parameter.
\<close>

section \<open>Vocabulary\<close>

definition VALID_BANDS :: "string list" where
  "VALID_BANDS = [''Informational'', ''Moderate'', ''High'', ''Critical'']"

definition VALID_CLASSES :: "string list" where
  "VALID_CLASSES =
     [''token_dust'', ''large_value'', ''large_datum'', ''multiple_sat'', ''front_running'', ''sandwich'', ''circular'',
      ''fake_token'', ''phishing'', ''contract_anomaly'']"

definition VALID_FREQUENCIES :: "string list" where
  "VALID_FREQUENCIES = [''daily'', ''weekly'', ''monthly'']"

definition GROUP_PREFIX :: string where
  "GROUP_PREFIX = ''group:''"

definition FORBIDDEN_KEY_NORMS :: "string list" where
  "FORBIDDEN_KEY_NORMS =
     [''password'', ''passwd'', ''pass'', ''secret'', ''secretkey'', ''signingsecret'', ''webhooksigningsecret'',
      ''smtppassword'', ''apikey'', ''apitoken'', ''accesstoken'', ''authtoken'', ''token'', ''credential'',
      ''credentials'', ''creds'', ''privatekey'', ''privkey'']"

definition looks_like_secret :: "string \<Rightarrow> bool" where
  "looks_like_secret key =
     (let norm = filter (\<lambda>c. c \<in> set ''abcdefghijklmnopqrstuvwxyz0123456789'') (py_lower key)
      in startswith norm ''smtp'' \<or> norm \<in> set FORBIDDEN_KEY_NORMS)"

definition ConfigError :: pyerr where
  "ConfigError = RuntimeFailure ''config''"

section \<open>Checks\<close>

definition require :: "bool \<Rightarrow> unit result" where
  "require b = (if b then Inr () else Inl ConfigError)"

lemma require_ok [simp]: "require b = Inr () \<longleftrightarrow> b"
  by (simp add: require_def)

text \<open>\<open>j in {names}\<close>: hashing a list or a dict raises.\<close>

definition in_names :: "json \<Rightarrow> string list \<Rightarrow> bool result" where
  "in_names j names = (case j of JStr s \<Rightarrow> Inr (s \<in> set names) | JList _ \<Rightarrow> Inl TypeError | JDict _ \<Rightarrow> Inl TypeError | _ \<Rightarrow> Inr False)"

definition require_in :: "json \<Rightarrow> string list \<Rightarrow> unit result" where
  "require_in j names = rbind (in_names j names) require"

lemma require_in_ok: "require_in j names = Inr () \<longleftrightarrow> (\<exists>s. j = JStr s \<and> s \<in> set names)"
  by (auto simp: require_in_def in_names_def split: json.splits)

definition py_or :: "json \<Rightarrow> json \<Rightarrow> json" where
  "py_or a b = (if truthy a then a else b)"

definition is_str :: "json \<Rightarrow> bool" where
  "is_str j = (case j of JStr _ \<Rightarrow> True | _ \<Rightarrow> False)"

fun reject_secret_keys :: "json \<Rightarrow> unit result" where
  "reject_secret_keys (JDict d) =
     rall (\<lambda>kv. case kv of (k, v) \<Rightarrow> and_then (require (\<not> looks_like_secret k)) (reject_secret_keys v)) d"
| "reject_secret_keys (JList xs) = rall reject_secret_keys xs"
| "reject_secret_keys _ = Inr ()"

definition check_channel_list :: "string list \<Rightarrow> json \<Rightarrow> unit result" where
  "check_channel_list known j = (case j of JList xs \<Rightarrow> rall (\<lambda>n. require_in n known) xs | _ \<Rightarrow> Inl ConfigError)"

definition check_recipient :: "string list \<Rightarrow> json \<Rightarrow> unit result" where
  "check_recipient groups r =
     (case r of
        JStr s \<Rightarrow> require (\<not> startswith s GROUP_PREFIX \<or> drop (length GROUP_PREFIX) s \<in> set groups)
      | _ \<Rightarrow> Inl ConfigError)"

definition check_recipients :: "string list \<Rightarrow> json \<Rightarrow> unit result" where
  "check_recipients groups j = (case j of JList xs \<Rightarrow> rall (check_recipient groups) xs | _ \<Rightarrow> Inl ConfigError)"

definition http_url :: "string \<Rightarrow> bool" where
  "http_url url \<longleftrightarrow> startswith url ''http://'' \<or> startswith url ''https://''"

definition check_webhook_url :: "bool \<Rightarrow> (string \<Rightarrow> bool) \<Rightarrow> json \<Rightarrow> unit result" where
  "check_webhook_url allow_internal internal j =
     (case j of
        JStr url \<Rightarrow> and_then (require (url = [] \<or> http_url url)) (require (url = [] \<or> \<not> internal url \<or> allow_internal))
      | _ \<Rightarrow> Inl ConfigError)"

text \<open>A check of a key that may be absent.\<close>

definition if_present :: "(string, json) dict \<Rightarrow> string \<Rightarrow> (json \<Rightarrow> unit result) \<Rightarrow> unit result" where
  "if_present d k f = (case map_of d k of None \<Rightarrow> Inr () | Some j \<Rightarrow> f j)"

lemma if_present_ok: "if_present d k f = Inr () \<longleftrightarrow> (\<forall>j. map_of d k = Some j \<longrightarrow> f j = Inr ())"
  by (auto simp: if_present_def split: option.splits)

section \<open>The validator\<close>

definition check_channel :: "json \<Rightarrow> unit result" where
  "check_channel spec =
     (case spec of
        JDict d \<Rightarrow> (case map_of d ''enabled'' of Some (JBool _) \<Rightarrow> Inr () | _ \<Rightarrow> Inl ConfigError)
      | _ \<Rightarrow> Inl ConfigError)"

definition check_group :: "json \<Rightarrow> unit result" where
  "check_group members = (case members of JList ms \<Rightarrow> require (list_all is_str ms) | _ \<Rightarrow> Inl ConfigError)"

definition check_rule :: "bool \<Rightarrow> (string \<Rightarrow> bool) \<Rightarrow> string list \<Rightarrow> string list \<Rightarrow> json \<Rightarrow> unit result" where
  "check_rule allow_internal internal known groups rule =
     (case rule of
        JDict d \<Rightarrow>
          and_then (require_in (dict_get d ''band'' JNull) VALID_BANDS)
          (and_then (case dict_get d ''attack_classes'' JNull of
                       JList cs \<Rightarrow> and_then (require (cs \<noteq> [])) (rall (\<lambda>c. require_in c VALID_CLASSES) cs)
                     | _ \<Rightarrow> Inl ConfigError)
          (and_then (check_channel_list known (dict_get d ''channels'' (JList [])))
          (and_then (case dict_get d ''recipients'' JNull of
                       JNull \<Rightarrow> Inr ()
                     | JDict rs \<Rightarrow> rall (\<lambda>kv. case kv of (cname, l) \<Rightarrow>
                           and_then (require (cname \<in> set known)) (check_recipients groups l)) rs
                     | _ \<Rightarrow> Inl ConfigError)
            (if_present d ''webhook_url'' (check_webhook_url allow_internal internal)))))
      | _ \<Rightarrow> Inl ConfigError)"

definition check_report :: "string list \<Rightarrow> string list \<Rightarrow> json \<Rightarrow> unit result" where
  "check_report known groups report =
     (case report of
        JNull \<Rightarrow> Inr ()
      | JDict d \<Rightarrow>
          and_then (case dict_get d ''enabled'' (JBool False) of JBool _ \<Rightarrow> Inr () | _ \<Rightarrow> Inl ConfigError)
          (and_then (require_in (dict_get d ''frequency'' (JStr ''weekly'')) VALID_FREQUENCIES)
          (and_then (case dict_get d ''window_days'' (JInt 7) of JInt n \<Rightarrow> require (n > 0) | _ \<Rightarrow> Inl ConfigError)
          (and_then (check_channel_list known (dict_get d ''channels'' (JList [])))
          (and_then (if_present d ''recipients'' (check_recipients groups))
          (and_then (case dict_get d ''attack_classes'' (JStr ''all'') of
                       JStr s \<Rightarrow> require (s = ''all'')
                     | JList cs \<Rightarrow> and_then (require (list_all is_str cs)) (rall (\<lambda>c. require_in c VALID_CLASSES) cs)
                     | _ \<Rightarrow> Inl ConfigError)
            (require_in (dict_get d ''min_band'' (JStr ''Moderate'')) VALID_BANDS))))))
      | _ \<Rightarrow> Inl ConfigError)"

definition check_triggers :: "bool \<Rightarrow> (string \<Rightarrow> bool) \<Rightarrow> string list \<Rightarrow> string list \<Rightarrow> json \<Rightarrow> unit result" where
  "check_triggers allow_internal internal known groups triggers =
     (case triggers of
        JDict t \<Rightarrow>
          and_then (case dict_get t ''defaults'' JNull of
                      JDict ds \<Rightarrow> rall (\<lambda>kv. case kv of (band, chans) \<Rightarrow>
                          and_then (require (band \<in> set VALID_BANDS)) (check_channel_list known chans)) ds
                    | _ \<Rightarrow> Inl ConfigError)
            (case py_or (dict_get t ''rules'' JNull) (JList []) of
               JList rules \<Rightarrow> rall (check_rule allow_internal internal known groups) rules
             | _ \<Rightarrow> Inl ConfigError)
      | _ \<Rightarrow> Inl ConfigError)"

definition version_ok :: "json \<Rightarrow> bool" where
  "version_ok j \<longleftrightarrow> j = JInt 1 \<or> j = JBool True \<or> j = JFloat 1"

definition validate :: "bool \<Rightarrow> (string \<Rightarrow> bool) \<Rightarrow> json \<Rightarrow> unit result" where
  "validate allow_internal internal doc =
     and_then (reject_secret_keys doc)
     (case doc of
        JDict d \<Rightarrow>
          and_then (require (version_ok (dict_get d ''version'' (JInt 1))))
          (case dict_get d ''channels'' JNull of
             JDict channels \<Rightarrow>
               and_then (require (channels \<noteq> []))
               (and_then (rall (\<lambda>kv. check_channel (snd kv)) channels)
               (case py_or (dict_get d ''groups'' JNull) (JDict []) of
                  JDict groups \<Rightarrow>
                    and_then (rall (\<lambda>kv. check_group (snd kv)) groups)
                    (and_then (rall (\<lambda>kv. case snd kv of
                         JDict spec \<Rightarrow>
                           and_then (if_present spec ''recipients'' (check_recipients (map fst groups)))
                             (if_present spec ''default_url'' (check_webhook_url allow_internal internal))
                       | _ \<Rightarrow> Inl TypeError) channels)
                    (and_then (check_triggers allow_internal internal (map fst channels) (map fst groups)
                                 (dict_get d ''triggers'' JNull))
                      (check_report (map fst channels) (map fst groups) (dict_get d ''periodic_report'' JNull))))
                | _ \<Rightarrow> Inl ConfigError))
           | _ \<Rightarrow> Inl ConfigError)
      | _ \<Rightarrow> Inl AttributeError)"

section \<open>Accessors\<close>

definition channel_spec :: "json \<Rightarrow> json \<Rightarrow> json result" where
  "channel_spec doc name =
     rbind (jget doc ''channels'' (JDict [])) (\<lambda>chs.
       case chs of
         JDict d \<Rightarrow> (case name of JStr s \<Rightarrow> Inr (dict_get d s JNull) | JList _ \<Rightarrow> Inl TypeError | JDict _ \<Rightarrow> Inl TypeError | _ \<Rightarrow> Inr JNull)
       | _ \<Rightarrow> Inl AttributeError)"

definition channel_enabled :: "json \<Rightarrow> json \<Rightarrow> bool result" where
  "channel_enabled doc name =
     rbind (channel_spec doc name) (\<lambda>spec.
       if truthy spec then rbind (jget spec ''enabled'' JNull) (\<lambda>e. Inr (truthy e)) else Inr False)"

text \<open>\<open>for m in members: if m not in seen: \<dots>\<close>.\<close>

fun add_unseen :: "json list \<Rightarrow> json list \<Rightarrow> json list result" where
  "add_unseen [] out = Inr out"
| "add_unseen (m # ms) out =
     (case m of
        JList _ \<Rightarrow> Inl TypeError
      | JDict _ \<Rightarrow> Inl TypeError
      | _ \<Rightarrow> add_unseen ms (if m \<in> set out then out else out @ [m]))"

fun expand_recipients :: "json \<Rightarrow> json list \<Rightarrow> json list \<Rightarrow> json list result" where
  "expand_recipients groups [] out = Inr out"
| "expand_recipients groups (r # rs) out =
     (case r of
        JStr s \<Rightarrow>
          rbind (if startswith s GROUP_PREFIX
                 then rbind (jget groups (drop (length GROUP_PREFIX) s) (JList [])) iter_json else Inr [r]) (\<lambda>members.
          rbind (add_unseen members out) (expand_recipients groups rs))
      | _ \<Rightarrow> Inl AttributeError)"

definition resolve_recipients :: "json \<Rightarrow> json \<Rightarrow> json list result" where
  "resolve_recipients doc recipients =
     rbind (jget doc ''groups'' (JDict [])) (\<lambda>groups.
     rbind (iter_json (py_or recipients (JList []))) (\<lambda>rs.
       expand_recipients (py_or groups (JDict [])) rs []))"

definition channel_recipients :: "json \<Rightarrow> json \<Rightarrow> json list result" where
  "channel_recipients doc name =
     rbind (channel_spec doc name) (\<lambda>spec.
     rbind (jget (py_or spec (JDict [])) ''recipients'' (JList [])) (resolve_recipients doc))"

definition webhook_default_url :: "json \<Rightarrow> json result" where
  "webhook_default_url doc =
     rbind (channel_spec doc (JStr ''webhook'')) (\<lambda>spec.
     rbind (jget (py_or spec (JDict [])) ''default_url'' (JStr [])) (\<lambda>u. Inr (py_or u (JStr []))))"

section \<open>Trigger rules\<close>

record dispatch =
  d_channel :: json
  d_recipients :: "json list"
  d_webhook_url :: json

text \<open>\<open>s in xs\<close> for a string \<open>s\<close> and a JSON value.\<close>

definition str_in :: "string \<Rightarrow> json \<Rightarrow> bool result" where
  "str_in s xs =
     (case xs of
        JList js \<Rightarrow> Inr (JStr s \<in> set js)
      | JDict d \<Rightarrow> Inr (s \<in> fst ` set d)
      | JStr t \<Rightarrow> Inr (\<exists>pre \<in> set (map (\<lambda>i. drop i t) [0..<length t + 1]). startswith pre s)
      | _ \<Rightarrow> Inl TypeError)"

fun match_rule :: "string \<Rightarrow> string \<Rightarrow> json list \<Rightarrow> json option \<Rightarrow> json option result" where
  "match_rule band cls [] matched = Inr matched"
| "match_rule band cls (rule # rules) matched =
     rbind (jget rule ''band'' JNull) (\<lambda>b.
       if b = JStr band
       then rbind (jget rule ''attack_classes'' JNull) (\<lambda>cs.
            rbind (str_in cls (py_or cs (JList []))) (\<lambda>hit.
              match_rule band cls rules (if hit then Some rule else matched)))
       else match_rule band cls rules matched)"

definition selection :: "json \<Rightarrow> string \<Rightarrow> string \<Rightarrow> (json option \<times> json list) result" where
  "selection doc band cls =
     rbind (jget doc ''triggers'' (JDict [])) (\<lambda>triggers.
     rbind (jget triggers ''rules'' JNull) (\<lambda>rules.
     rbind (iter_json (py_or rules (JList []))) (\<lambda>rules.
     rbind (match_rule band cls rules None) (\<lambda>rule.
     rbind (case rule of
              Some r \<Rightarrow> rbind (jget r ''channels'' JNull) (\<lambda>c. Inr (py_or c (JList [])))
            | None \<Rightarrow> rbind (jget triggers ''defaults'' JNull) (\<lambda>ds.
                      rbind (jget (py_or ds (JDict [])) band JNull) (\<lambda>c. Inr (py_or c (JList []))))) (\<lambda>names.
     rbind (iter_json names) (\<lambda>names. Inr (rule, names)))))))"

definition selected_channels :: "json \<Rightarrow> string \<Rightarrow> string \<Rightarrow> json list result" where
  "selected_channels doc band cls = rbind (selection doc band cls) (\<lambda>(_, names). Inr names)"

definition rule_recipients :: "json \<Rightarrow> json \<Rightarrow> json option \<Rightarrow> json list result" where
  "rule_recipients doc name rule =
     (case rule of
        None \<Rightarrow> channel_recipients doc name
      | Some r \<Rightarrow>
          rbind (jget r ''recipients'' JNull) (\<lambda>rs.
          rbind (case (py_or rs (JDict []), name) of
                   (JDict d, JStr s) \<Rightarrow> Inr (dict_get d s JNull)
                 | (JDict d, _) \<Rightarrow> Inr JNull
                 | _ \<Rightarrow> Inl AttributeError) (\<lambda>override.
            if override \<noteq> JNull then resolve_recipients doc override else channel_recipients doc name)))"

definition rule_webhook_url :: "json \<Rightarrow> json \<Rightarrow> json option \<Rightarrow> json result" where
  "rule_webhook_url doc name rule =
     (if name \<noteq> JStr ''webhook'' then Inr JNull
      else rbind (case rule of None \<Rightarrow> Inr JNull | Some r \<Rightarrow> jget r ''webhook_url'' JNull) (\<lambda>u.
             if truthy u then Inr u else rbind (webhook_default_url doc) (\<lambda>d. Inr (py_or d JNull))))"

fun dispatch_loop :: "json \<Rightarrow> json option \<Rightarrow> json list \<Rightarrow> dispatch list result" where
  "dispatch_loop doc rule [] = Inr []"
| "dispatch_loop doc rule (name # names) =
     rbind (channel_enabled doc name) (\<lambda>on.
       if \<not> on then dispatch_loop doc rule names
       else
         rbind (rule_recipients doc name rule) (\<lambda>rs.
         rbind (rule_webhook_url doc name rule) (\<lambda>url.
         rbind (dispatch_loop doc rule names) (\<lambda>rest.
           Inr (if rs = [] \<and> \<not> truthy url then rest
                else \<lparr>d_channel = name, d_recipients = rs, d_webhook_url = url\<rparr> # rest)))))"

definition resolve_dispatch :: "json \<Rightarrow> string \<Rightarrow> string \<Rightarrow> dispatch list result" where
  "resolve_dispatch doc band cls =
     rbind (selection doc band cls) (\<lambda>(rule, names). dispatch_loop doc rule names)"

section \<open>What a validated document guarantees\<close>

fun json_keys :: "json \<Rightarrow> string list" where
  "json_keys (JDict d) = concat (map (\<lambda>kv. case kv of (k, v) \<Rightarrow> k # json_keys v) d)"
| "json_keys (JList xs) = concat (map json_keys xs)"
| "json_keys _ = []"

lemma reject_secret_keys_iff:
  "reject_secret_keys j = Inr () \<longleftrightarrow> (\<forall>k \<in> set (json_keys j). \<not> looks_like_secret k)"
proof (induction j rule: reject_secret_keys.induct)
  case (1 d)
  have "(case kv of (k, v) \<Rightarrow> and_then (require (\<not> looks_like_secret k)) (reject_secret_keys v)) = Inr () \<longleftrightarrow>
      (\<forall>k \<in> set (case kv of (k, v) \<Rightarrow> k # json_keys v). \<not> looks_like_secret k)" if "kv \<in> set d" for kv
  proof (cases kv)
    case (Pair k v)
    then have "reject_secret_keys v = Inr () \<longleftrightarrow> (\<forall>k \<in> set (json_keys v). \<not> looks_like_secret k)" using 1 that by simp
    then show ?thesis by (simp add: Pair)
  qed
  then show ?case by (simp only: reject_secret_keys.simps rall_ok json_keys.simps set_concat set_map ball_UN ball_simps image_iff) simp
next
  case (2 xs)
  then show ?case by simp
qed simp_all

lemma dict_get_present: "dict_get d k JNull = x \<Longrightarrow> x \<noteq> JNull \<Longrightarrow> dict_get d k v = x"
  by (auto simp: dict_get_def split: option.splits)

lemma py_or_default [simp]: "py_or (dict_get d k (JDict [])) (JDict []) = py_or (dict_get d k JNull) (JDict [])"
  by (auto simp: py_or_def dict_get_def split: option.splits)

lemma dict_get_in: "dict_get d k JNull = x \<Longrightarrow> x \<noteq> JNull \<Longrightarrow> (k, x) \<in> set d"
  by (auto simp: dict_get_def dest: map_of_SomeD split: option.splits)

text \<open>The parts of a validated document.\<close>

lemma validateE:
  assumes "validate allow internal doc = Inr ()"
  obtains d channels groups t ds rules where
    "doc = JDict d" "dict_get d ''channels'' JNull = JDict channels"
    "py_or (dict_get d ''groups'' JNull) (JDict []) = JDict groups"
    "dict_get d ''triggers'' JNull = JDict t" "dict_get t ''defaults'' JNull = JDict ds"
    "py_or (dict_get t ''rules'' JNull) (JList []) = JList rules"
    "\<And>k spec. (k, spec) \<in> set channels \<Longrightarrow> check_channel spec = Inr ()"
    "\<And>k spec. (k, JDict spec) \<in> set channels \<Longrightarrow> if_present spec ''recipients'' (check_recipients (map fst groups)) = Inr ()
        \<and> if_present spec ''default_url'' (check_webhook_url allow internal) = Inr ()"
    "\<And>k ms. (k, ms) \<in> set groups \<Longrightarrow> check_group ms = Inr ()"
    "\<And>b l. (b, l) \<in> set ds \<Longrightarrow> check_channel_list (map fst channels) l = Inr ()"
    "\<And>r. r \<in> set rules \<Longrightarrow> check_rule allow internal (map fst channels) (map fst groups) r = Inr ()"
proof -
  obtain d where doc: "doc = JDict d" using assms by (cases doc) (auto simp: validate_def)
  note v = assms [unfolded validate_def doc, simplified]
  obtain channels where ch: "dict_get d ''channels'' JNull = JDict channels"
    using v by (cases "dict_get d ''channels'' JNull") auto
  note v = v [unfolded ch, simplified]
  obtain groups where gr: "py_or (dict_get d ''groups'' JNull) (JDict []) = JDict groups"
    using v by (cases "py_or (dict_get d ''groups'' JNull) (JDict [])") auto
  note v = v [unfolded gr, simplified]
  obtain t where t: "dict_get d ''triggers'' JNull = JDict t"
    using v by (cases "dict_get d ''triggers'' JNull") (auto simp: check_triggers_def)
  note tr = v [unfolded t check_triggers_def, simplified]
  obtain ds where ds: "dict_get t ''defaults'' JNull = JDict ds"
    using tr by (cases "dict_get t ''defaults'' JNull") auto
  obtain rules where ru: "py_or (dict_get t ''rules'' JNull) (JList []) = JList rules"
    using tr by (cases "py_or (dict_get t ''rules'' JNull) (JList [])") auto
  note tr = tr [unfolded ds ru, simplified]
  show ?thesis by (rule that [OF doc ch gr t ds ru]) (use tr in \<open>fastforce+\<close>)
qed

lemma check_recipient_ok:
  "check_recipient gs r = Inr () \<longleftrightarrow> (\<exists>s. r = JStr s \<and> (\<not> startswith s GROUP_PREFIX \<or> drop (length GROUP_PREFIX) s \<in> set gs))"
  by (cases r) (simp_all add: check_recipient_def)

lemma check_recipients_list:
  "check_recipients gs j = Inr () \<Longrightarrow> \<exists>rs. j = JList rs \<and> (\<forall>r \<in> set rs. \<exists>s. r = JStr s \<and>
     (\<not> startswith s GROUP_PREFIX \<or> drop (length GROUP_PREFIX) s \<in> set gs))"
  by (cases j) (auto simp: check_recipients_def check_recipient_ok)

lemma add_unseen_strings: "list_all is_str ms \<Longrightarrow> list_all is_str out \<Longrightarrow> \<exists>out'. add_unseen ms out = Inr out' \<and> list_all is_str out'"
  by (induction ms arbitrary: out) (auto simp: is_str_def split: json.splits)

lemma expand_recipients_ok:
  assumes groups: "\<And>k ms. (k, ms) \<in> set gs \<Longrightarrow> check_group ms = Inr ()"
    and rs: "\<forall>r \<in> set rs. \<exists>s. r = JStr s" and out: "list_all is_str out"
  shows "\<exists>out'. expand_recipients (JDict gs) rs out = Inr out' \<and> list_all is_str out'"
  using rs out
proof (induction rs arbitrary: out)
  case (Cons r rs)
  obtain s where r: "r = JStr s" using Cons.prems by auto
  have "\<exists>ms. (if startswith s GROUP_PREFIX then rbind (jget (JDict gs) (drop (length GROUP_PREFIX) s) (JList [])) iter_json
      else Inr [r]) = Inr ms \<and> list_all is_str ms"
  proof (cases "startswith s GROUP_PREFIX")
    case True
    show ?thesis
    proof (cases "map_of gs (drop (length GROUP_PREFIX) s)")
      case None
      then show ?thesis using True by (simp add: jget_def dict_get_def iter_json_def)
    next
      case (Some ms)
      then have "check_group ms = Inr ()" using groups map_of_SomeD by metis
      then show ?thesis using True Some by (cases ms) (simp_all add: check_group_def jget_def dict_get_def iter_json_def)
    qed
  next
    case False
    then show ?thesis by (simp add: r is_str_def)
  qed
  then obtain ms where ms: "(if startswith s GROUP_PREFIX then rbind (jget (JDict gs) (drop (length GROUP_PREFIX) s) (JList [])) iter_json
      else Inr [r]) = Inr ms" "list_all is_str ms" by blast
  obtain out1 where o1: "add_unseen ms out = Inr out1" "list_all is_str out1"
    using add_unseen_strings [OF ms(2) Cons.prems(2)] by blast
  have "expand_recipients (JDict gs) (r # rs) out = expand_recipients (JDict gs) rs out1"
    unfolding r expand_recipients.simps json.case ms(1) [unfolded r] rbind_simps o1(1) ..
  then show ?case using Cons.IH [OF _ o1(2)] Cons.prems(1) by simp
qed simp

definition known_channel :: "(string, json) dict \<Rightarrow> json \<Rightarrow> bool" where
  "known_channel channels name \<longleftrightarrow> (\<exists>s. name = JStr s \<and> s \<in> fst ` set channels)"

definition good_url :: "bool \<Rightarrow> (string \<Rightarrow> bool) \<Rightarrow> json \<Rightarrow> bool" where
  "good_url allow internal u \<longleftrightarrow> u = JNull \<or> (\<exists>s. u = JStr s \<and> http_url s \<and> (\<not> internal s \<or> allow))"

definition good_dispatch :: "bool \<Rightarrow> (string \<Rightarrow> bool) \<Rightarrow> json \<Rightarrow> dispatch \<Rightarrow> bool" where
  "good_dispatch allow internal doc x \<longleftrightarrow>
     channel_enabled doc (d_channel x) = Inr True \<and> list_all is_str (d_recipients x) \<and>
     good_url allow internal (d_webhook_url x) \<and> (d_recipients x \<noteq> [] \<or> d_webhook_url x \<noteq> JNull)"

text \<open>The same, as a locale that fixes the document and its parts: every step of the routing is total
  under it.\<close>

locale valid_config =
  fixes allow :: bool and internal :: "string \<Rightarrow> bool" and doc :: json
    and d channels groups t ds :: "(string, json) dict" and rules :: "json list"
  assumes doc: "doc = JDict d" and channels: "dict_get d ''channels'' JNull = JDict channels"
    and groups: "py_or (dict_get d ''groups'' JNull) (JDict []) = JDict groups"
    and triggers: "dict_get d ''triggers'' JNull = JDict t" and defaults: "dict_get t ''defaults'' JNull = JDict ds"
    and rules: "py_or (dict_get t ''rules'' JNull) (JList []) = JList rules"
    and channel_ok: "(k, spec) \<in> set channels \<Longrightarrow> check_channel spec = Inr ()"
    and spec_ok: "(k, JDict sp) \<in> set channels \<Longrightarrow> if_present sp ''recipients'' (check_recipients (map fst groups)) = Inr ()
        \<and> if_present sp ''default_url'' (check_webhook_url allow internal) = Inr ()"
    and group_ok: "(k, ms) \<in> set groups \<Longrightarrow> check_group ms = Inr ()"
    and default_ok: "(b, l) \<in> set ds \<Longrightarrow> check_channel_list (map fst channels) l = Inr ()"
    and rule_ok: "r \<in> set rules \<Longrightarrow> check_rule allow internal (map fst channels) (map fst groups) r = Inr ()"
begin

lemma channels_of_doc: "jget doc ''channels'' v = Inr (JDict channels)"
  using dict_get_present [OF channels] by (simp add: doc jget_def)

lemma spec_of_known:
  assumes "known_channel channels name"
  obtains sp b where "channel_spec doc name = Inr (JDict sp)" "map_of sp ''enabled'' = Some (JBool b)"
    "(the_elem {s. name = JStr s}, JDict sp) \<in> set channels"
proof -
  obtain s where s: "name = JStr s" "s \<in> fst ` set channels" using assms by (auto simp: known_channel_def)
  then obtain spec where spec: "map_of channels s = Some spec" by (metis map_of_eq_None_iff not_None_eq)
  then have inn: "(s, spec) \<in> set channels" by (rule map_of_SomeD)
  obtain sp b where sp: "spec = JDict sp" "map_of sp ''enabled'' = Some (JBool b)"
    using channel_ok [OF inn] by (auto simp: check_channel_def split: json.splits option.splits)
  have "channel_spec doc name = Inr (JDict sp)"
    using spec sp s by (simp add: channel_spec_def channels_of_doc dict_get_def)
  moreover have "{s'. name = JStr s'} = {s}" using s by auto
  ultimately show ?thesis using that sp inn by simp
qed

lemma unknown_spec: "channel_spec doc (JStr s) = Inr JNull" if "s \<notin> fst ` set channels"
proof -
  have "map_of channels s = None" using that by (simp add: map_of_eq_None_iff)
  then show ?thesis by (simp add: channel_spec_def channels_of_doc dict_get_def)
qed

lemma enabled_total: "known_channel channels name \<Longrightarrow> \<exists>b. channel_enabled doc name = Inr b"
  by (erule spec_of_known) (auto simp: channel_enabled_def jget_def)

lemma resolve_recipients_total:
  assumes "check_recipients (map fst groups) rs = Inr ()"
  shows "\<exists>out. resolve_recipients doc rs = Inr out \<and> list_all is_str out"
proof -
  obtain xs where xs: "rs = JList xs" "\<forall>r \<in> set xs. \<exists>s. r = JStr s" using check_recipients_list [OF assms] by blast
  have it: "iter_json (py_or rs (JList [])) = Inr xs" by (simp add: xs py_or_def iter_json_def)
  have g: "\<exists>g. jget doc ''groups'' (JDict []) = Inr g \<and> py_or g (JDict []) = JDict groups"
    using groups by (simp add: doc jget_def)
  obtain out where "expand_recipients (JDict groups) xs [] = Inr out" "list_all is_str out"
    using expand_recipients_ok [of groups xs "[]"] group_ok xs(2) by auto
  then show ?thesis using g it by (auto simp: resolve_recipients_def)
qed

lemma no_recipients: "resolve_recipients doc (JList []) = Inr []"
  by (auto simp: resolve_recipients_def doc jget_def py_or_def iter_json_def)

lemma channel_recipients_total:
  assumes "known_channel channels name"
  shows "\<exists>out. channel_recipients doc name = Inr out \<and> list_all is_str out"
proof -
  obtain sp b where sp: "channel_spec doc name = Inr (JDict sp)" "map_of sp ''enabled'' = Some (JBool b)"
    "(the_elem {s. name = JStr s}, JDict sp) \<in> set channels" using assms by (rule spec_of_known)
  have "sp \<noteq> []" using sp(2) by auto
  then have g: "channel_recipients doc name = resolve_recipients doc (dict_get sp ''recipients'' (JList []))"
    by (simp add: channel_recipients_def sp(1) py_or_def jget_def)
  show ?thesis
  proof (cases "map_of sp ''recipients''")
    case None
    then show ?thesis using g no_recipients by (simp add: dict_get_def)
  next
    case (Some rs)
    then have "check_recipients (map fst groups) rs = Inr ()" using spec_ok [OF sp(3)] by (simp add: if_present_def)
    then show ?thesis using g Some resolve_recipients_total by (simp add: dict_get_def)
  qed
qed

lemma url_ok:
  assumes "check_webhook_url allow internal u = Inr ()" "truthy u"
  shows "good_url allow internal u"
  using assms by (cases u) (auto simp: check_webhook_url_def good_url_def)

lemma default_url_total: "\<exists>u. webhook_default_url doc = Inr u \<and> good_url allow internal (py_or u JNull)"
proof (cases "''webhook'' \<in> fst ` set channels")
  case False
  then show ?thesis by (simp add: webhook_default_url_def unknown_spec py_or_def jget_def dict_get_def good_url_def)
next
  case True
  then have "known_channel channels (JStr ''webhook'')" by (simp add: known_channel_def)
  then obtain sp b where sp: "channel_spec doc (JStr ''webhook'') = Inr (JDict sp)" "map_of sp ''enabled'' = Some (JBool b)"
    "(the_elem {s. JStr ''webhook'' = JStr s}, JDict sp) \<in> set channels" by (rule spec_of_known)
  have "sp \<noteq> []" using sp(2) by auto
  then have g: "webhook_default_url doc = Inr (py_or (dict_get sp ''default_url'' (JStr [])) (JStr []))"
    by (simp add: webhook_default_url_def sp(1) py_or_def jget_def)
  show ?thesis
  proof (cases "map_of sp ''default_url''")
    case None
    then show ?thesis using g by (simp add: dict_get_def py_or_def good_url_def)
  next
    case (Some u)
    then have "check_webhook_url allow internal u = Inr ()" using spec_ok [OF sp(3)] by (simp add: if_present_def)
    then show ?thesis using g Some url_ok [of u] by (auto simp: dict_get_def py_or_def good_url_def)
  qed
qed

text \<open>A rule of the document, by its parts.\<close>

lemma rule_parts:
  assumes "r \<in> set rules"
  obtains rd cs where "r = JDict rd" "dict_get rd ''attack_classes'' JNull = JList cs" "cs \<noteq> []"
    "check_channel_list (map fst channels) (dict_get rd ''channels'' (JList [])) = Inr ()"
    "dict_get rd ''recipients'' JNull = JNull \<or> (\<exists>rs. dict_get rd ''recipients'' JNull = JDict rs \<and>
       (\<forall>kv \<in> set rs. check_recipients (map fst groups) (snd kv) = Inr ()))"
    "if_present rd ''webhook_url'' (check_webhook_url allow internal) = Inr ()"
proof -
  note ok = rule_ok [OF assms]
  obtain rd where r: "r = JDict rd" using ok by (cases r) (simp_all add: check_rule_def)
  note ok = ok [unfolded r check_rule_def, simplified]
  obtain cs where cs: "dict_get rd ''attack_classes'' JNull = JList cs" using ok by (cases "dict_get rd ''attack_classes'' JNull") auto
  have "dict_get rd ''recipients'' JNull = JNull \<or> (\<exists>rs. dict_get rd ''recipients'' JNull = JDict rs \<and>
       (\<forall>kv \<in> set rs. check_recipients (map fst groups) (snd kv) = Inr ()))"
    using ok by (cases "dict_get rd ''recipients'' JNull") (auto split: prod.splits)
  then show ?thesis using that r cs ok by simp
qed

lemma rule_recipients_total:
  assumes "known_channel channels name" "case rule of None \<Rightarrow> True | Some r \<Rightarrow> r \<in> set rules"
  shows "\<exists>out. rule_recipients doc name rule = Inr out \<and> list_all is_str out"
proof (cases rule)
  case None
  then show ?thesis using channel_recipients_total [OF assms(1)] by (simp add: rule_recipients_def)
next
  case (Some r)
  obtain s where name: "name = JStr s" using assms(1) by (auto simp: known_channel_def)
  have "r \<in> set rules" using assms(2) Some by simp
  then obtain rd where r: "r = JDict rd" and rs: "dict_get rd ''recipients'' JNull = JNull \<or>
      (\<exists>rs. dict_get rd ''recipients'' JNull = JDict rs \<and> (\<forall>kv \<in> set rs. check_recipients (map fst groups) (snd kv) = Inr ()))"
    by (rule rule_parts) auto
  have self: "py_or (JDict x) (JDict []) = JDict x" "py_or JNull (JDict []) = JDict []" for x by (simp_all add: py_or_def)
  obtain m where m: "py_or (dict_get rd ''recipients'' JNull) (JDict []) = JDict m"
    "\<forall>kv \<in> set m. check_recipients (map fst groups) (snd kv) = Inr ()"
    using rs self by (metis empty_iff empty_set)
  have eq: "rule_recipients doc name rule = (let ov = dict_get m s JNull
      in if ov \<noteq> JNull then resolve_recipients doc ov else channel_recipients doc name)"
    using m(1) by (simp add: rule_recipients_def Some r jget_def name Let_def)
  show ?thesis
  proof (cases "dict_get m s JNull = JNull")
    case True
    then show ?thesis using eq channel_recipients_total [OF assms(1)] by simp
  next
    case False
    then have "check_recipients (map fst groups) (dict_get m s JNull) = Inr ()" using dict_get_in m(2) by fastforce
    then show ?thesis using eq False resolve_recipients_total by (simp add: Let_def)
  qed
qed

lemma rule_url_total:
  assumes "case rule of None \<Rightarrow> True | Some r \<Rightarrow> r \<in> set rules"
  shows "\<exists>u. rule_webhook_url doc name rule = Inr u \<and> good_url allow internal u"
proof (cases "name = JStr ''webhook''")
  case False
  then show ?thesis by (simp add: rule_webhook_url_def good_url_def)
next
  case True
  obtain u where u: "(case rule of None \<Rightarrow> Inr JNull | Some r \<Rightarrow> jget r ''webhook_url'' JNull) = Inr u" "truthy u \<Longrightarrow> good_url allow internal u"
  proof (cases rule)
    case None
    then show ?thesis using that by simp
  next
    case (Some r)
    then have "r \<in> set rules" using assms by simp
    then obtain rd where r: "r = JDict rd" "if_present rd ''webhook_url'' (check_webhook_url allow internal) = Inr ()"
      by (rule rule_parts) auto
    have "truthy (dict_get rd ''webhook_url'' JNull) \<Longrightarrow> good_url allow internal (dict_get rd ''webhook_url'' JNull)"
      using r(2) url_ok by (auto simp: if_present_def dict_get_def split: option.splits)
    then show ?thesis using that Some r(1) by (simp add: jget_def)
  qed
  then show ?thesis using True default_url_total by (auto simp: rule_webhook_url_def)
qed
lemma match_rule_total:
  assumes "set rs \<subseteq> set rules" "case m of None \<Rightarrow> True | Some r \<Rightarrow> r \<in> set rules"
  shows "\<exists>rule. match_rule band cls rs m = Inr rule \<and> (case rule of None \<Rightarrow> True | Some r \<Rightarrow> r \<in> set rules)"
  using assms
proof (induction rs arbitrary: m)
  case (Cons r rs)
  have "r \<in> set rules" using Cons.prems(1) by simp
  then obtain rd cs where r: "r = JDict rd" "dict_get rd ''attack_classes'' JNull = JList cs" "cs \<noteq> []"
    by (rule rule_parts) auto
  have step: "match_rule band cls (r # rs) m =
      match_rule band cls rs (if dict_get rd ''band'' JNull = JStr band \<and> JStr cls \<in> set cs then Some r else m)"
    using r by (simp add: jget_def py_or_def str_in_def)
  show ?case
    unfolding step using Cons.prems \<open>r \<in> set rules\<close> by (intro Cons.IH) auto
qed simp

lemma known_list: "check_channel_list (map fst channels) l = Inr () \<Longrightarrow> \<exists>xs. l = JList xs \<and> (\<forall>n \<in> set xs. known_channel channels n)"
  by (cases l) (auto simp: check_channel_list_def require_in_ok known_channel_def)

lemma selection_total:
  "\<exists>rule names. selection doc band cls = Inr (rule, names) \<and> (\<forall>n \<in> set names. known_channel channels n) \<and>
     (case rule of None \<Rightarrow> True | Some r \<Rightarrow> r \<in> set rules)"
proof -
  obtain rule where rule: "match_rule band cls rules None = Inr rule" "case rule of None \<Rightarrow> True | Some r \<Rightarrow> r \<in> set rules"
    using match_rule_total [of rules None] by auto
  have t: "jget doc ''triggers'' (JDict []) = Inr (JDict t)" using dict_get_present [OF triggers] by (simp add: doc jget_def)
  have ru: "iter_json (py_or (dict_get t ''rules'' JNull) (JList [])) = Inr rules" by (simp add: rules iter_json_def)
  have "\<exists>l xs. (case rule of
              Some r \<Rightarrow> rbind (jget r ''channels'' JNull) (\<lambda>c. Inr (py_or c (JList [])))
            | None \<Rightarrow> rbind (jget (JDict t) ''defaults'' JNull) (\<lambda>ds.
                      rbind (jget (py_or ds (JDict [])) band JNull) (\<lambda>c. Inr (py_or c (JList []))))) = Inr l \<and>
      l = JList xs \<and> (\<forall>n \<in> set xs. known_channel channels n)"
  proof (cases rule)
    case None
    have ds: "py_or (JDict ds) (JDict []) = JDict ds" "py_or (JList xs) (JList []) = JList xs" "py_or JNull (JList []) = JList []" for xs
      by (simp_all add: py_or_def)
    have get: "jget (JDict t) ''defaults'' JNull = Inr (JDict ds)" "jget (JDict ds) band JNull = Inr (dict_get ds band JNull)"
      by (simp_all add: jget_def defaults)
    show ?thesis
    proof (cases "dict_get ds band JNull = JNull")
      case True
      then show ?thesis unfolding None option.case get rbind_simps ds by simp (simp add: ds)
    next
      case False
      then have "check_channel_list (map fst channels) (dict_get ds band JNull) = Inr ()"
        by (rule default_ok [OF dict_get_in [OF refl]])
      then obtain xs where xs: "dict_get ds band JNull = JList xs" "\<forall>n \<in> set xs. known_channel channels n" using known_list by blast
      then show ?thesis unfolding None option.case get rbind_simps ds by (simp add: ds)
    qed
  next
    case (Some r)
    then have "r \<in> set rules" using rule(2) by simp
    then obtain rd where r: "r = JDict rd" "check_channel_list (map fst channels) (dict_get rd ''channels'' (JList [])) = Inr ()"
      by (rule rule_parts) auto
    obtain xs where xs: "dict_get rd ''channels'' (JList []) = JList xs" "\<forall>n \<in> set xs. known_channel channels n" using known_list [OF r(2)] by blast
    have "py_or (dict_get rd ''channels'' JNull) (JList []) = JList xs"
      using xs(1) by (auto simp: py_or_def dict_get_def split: option.splits)
    then show ?thesis using Some r(1) xs(2) by (simp add: jget_def)
  qed
  then obtain xs where l: "(case rule of
              Some r \<Rightarrow> rbind (jget r ''channels'' JNull) (\<lambda>c. Inr (py_or c (JList [])))
            | None \<Rightarrow> rbind (jget (JDict t) ''defaults'' JNull) (\<lambda>ds.
                      rbind (jget (py_or ds (JDict [])) band JNull) (\<lambda>c. Inr (py_or c (JList []))))) = Inr (JList xs)"
    "\<forall>n \<in> set xs. known_channel channels n" by blast
  have jr: "jget (JDict t) ''rules'' JNull = Inr (dict_get t ''rules'' JNull)" by (simp add: jget_def)
  have "selection doc band cls = Inr (rule, xs)"
    unfolding selection_def t rbind_simps jr ru rule(1) l(1) by (simp add: iter_json_def)
  then show ?thesis using l(2) rule(2) by blast
qed

lemma dispatch_loop_total:
  assumes "\<forall>n \<in> set names. known_channel channels n" "case rule of None \<Rightarrow> True | Some r \<Rightarrow> r \<in> set rules"
  shows "\<exists>xs. dispatch_loop doc rule names = Inr xs \<and> (\<forall>x \<in> set xs. good_dispatch allow internal doc x)"
  using assms(1)
proof (induction names)
  case (Cons n names)
  obtain b where b: "channel_enabled doc n = Inr b" using enabled_total Cons.prems by auto
  obtain rs where rs: "rule_recipients doc n rule = Inr rs" "list_all is_str rs"
    using rule_recipients_total [OF _ assms(2), of n] Cons.prems by auto
  obtain u where u: "rule_webhook_url doc n rule = Inr u" "good_url allow internal u" using rule_url_total [OF assms(2)] by blast
  obtain xs where xs: "dispatch_loop doc rule names = Inr xs" "\<forall>x \<in> set xs. good_dispatch allow internal doc x" using Cons by auto
  show ?case using b rs u xs by (cases b) (auto simp: good_dispatch_def)
qed simp

lemma resolve_dispatch_total: "\<exists>xs. resolve_dispatch doc band cls = Inr xs \<and> (\<forall>x \<in> set xs. good_dispatch allow internal doc x)"
proof -
  obtain rule names where s: "selection doc band cls = Inr (rule, names)" "\<forall>n \<in> set names. known_channel channels n"
    "case rule of None \<Rightarrow> True | Some r \<Rightarrow> r \<in> set rules"
    using selection_total [of band cls] by blast
  then show ?thesis using dispatch_loop_total [OF s(2,3)] by (simp add: resolve_dispatch_def)
qed

end

section \<open>The shipped document\<close>

definition REPORT_DEFAULTS :: "(string, json) dict" where
  "REPORT_DEFAULTS =
     [(''enabled'', JBool False), (''frequency'', JStr ''weekly''), (''window_days'', JInt 7), (''channels'', JList [JStr ''email'']),
      (''recipients'', JList []), (''attack_classes'', JStr ''all''), (''min_band'', JStr ''Moderate'')]"

definition DEFAULT_CHANNELS :: "(string, json) dict" where
  "DEFAULT_CHANNELS =
     [(''email'', JDict [(''enabled'', JBool True), (''recipients'', JList [JStr ''ops@example.com''])]),
      (''webhook'', JDict [(''enabled'', JBool False), (''default_url'', JStr [])])]"

definition DEFAULT_GROUPS :: "(string, json) dict" where
  "DEFAULT_GROUPS = [(''soc-team'', JList [JStr ''ops@example.com''])]"

definition DEFAULT_DEFAULTS :: "(string, json) dict" where
  "DEFAULT_DEFAULTS =
     [(''Critical'', JList [JStr ''email'', JStr ''webhook'']), (''High'', JList [JStr ''email'', JStr ''webhook'']),
      (''Moderate'', JList []), (''Informational'', JList [])]"

definition DEFAULT_TRIGGERS :: "(string, json) dict" where
  "DEFAULT_TRIGGERS = [(''defaults'', JDict DEFAULT_DEFAULTS), (''rules'', JList [])]"

definition DEFAULT_FIELDS :: "(string, json) dict" where
  "DEFAULT_FIELDS =
     [(''version'', JInt 1), (''channels'', JDict DEFAULT_CHANNELS), (''groups'', JDict DEFAULT_GROUPS),
      (''triggers'', JDict DEFAULT_TRIGGERS), (''periodic_report'', JDict REPORT_DEFAULTS)]"

definition DEFAULT_CONFIG :: json where
  "DEFAULT_CONFIG = JDict DEFAULT_FIELDS"

text \<open>Any check of the locale, on any validated document.\<close>

lemma validated_is_valid:
  assumes "validate allow internal doc = Inr ()"
  obtains d channels groups t ds rules where "valid_config allow internal doc d channels groups t ds rules"
  using assms by (rule validateE) (rule that, rule valid_config.intro; assumption)

lemma default_config_validates: "validate allow internal DEFAULT_CONFIG = Inr ()"
  by code_simp

interpretation shipped: valid_config allow internal DEFAULT_CONFIG DEFAULT_FIELDS DEFAULT_CHANNELS DEFAULT_GROUPS
    DEFAULT_TRIGGERS DEFAULT_DEFAULTS "[]" for allow internal
  by unfold_locales
    (auto simp: DEFAULT_CONFIG_def DEFAULT_FIELDS_def DEFAULT_CHANNELS_def DEFAULT_GROUPS_def DEFAULT_TRIGGERS_def
      DEFAULT_DEFAULTS_def dict_get_def py_or_def check_channel_def check_group_def is_str_def if_present_def
      check_recipients_def check_recipient_def check_webhook_url_def check_channel_list_def require_in_def in_names_def
      GROUP_PREFIX_def startswith_def require_def)

section \<open>Properties\<close>

text \<open>C8.  Routing is total on validated documents: for every band and class the trigger evaluation returns, and
  every delivery instruction is for an enabled channel, has string recipients, an absent URL or an
  http(s) one that is not internal unless internal targets are allowed, and at least one destination.\<close>

theorem validated_config_routes:
  assumes "validate allow internal doc = Inr ()"
  shows "\<exists>xs. resolve_dispatch doc band cls = Inr xs \<and> (\<forall>x \<in> set xs. good_dispatch allow internal doc x)"
proof -
  obtain d channels groups t ds rules where "valid_config allow internal doc d channels groups t ds rules"
    using assms by (rule validated_is_valid)
  then show ?thesis by (rule valid_config.resolve_dispatch_total)
qed

theorem validated_config_routes_witness:
  "resolve_dispatch DEFAULT_CONFIG ''High'' ''phishing'' =
     Inr [\<lparr>d_channel = JStr ''email'', d_recipients = [JStr ''ops@example.com''], d_webhook_url = JNull\<rparr>] \<and>
   (\<exists>xs. resolve_dispatch DEFAULT_CONFIG ''High'' ''phishing'' = Inr xs \<and>
      list_all (good_dispatch False (\<lambda>_. True) DEFAULT_CONFIG) xs)"
proof
  show "resolve_dispatch DEFAULT_CONFIG ''High'' ''phishing'' =
     Inr [\<lparr>d_channel = JStr ''email'', d_recipients = [JStr ''ops@example.com''], d_webhook_url = JNull\<rparr>]" by code_simp
  show "\<exists>xs. resolve_dispatch DEFAULT_CONFIG ''High'' ''phishing'' = Inr xs \<and>
      list_all (good_dispatch False (\<lambda>_. True) DEFAULT_CONFIG) xs"
    unfolding list_all_iff by (rule validated_config_routes [OF default_config_validates])
qed

text \<open>No secret survives validation: a document is accepted only if no key in it, at any depth, looks like
  the name of a secret.\<close>

theorem no_secret_keys:
  assumes "validate allow internal doc = Inr ()"
  shows "\<forall>k \<in> set (json_keys doc). \<not> looks_like_secret k"
  using assms unfolding validate_def by (simp add: reject_secret_keys_iff)

theorem no_secret_keys_witness:
  "list_all (\<lambda>k. \<not> looks_like_secret k) (json_keys DEFAULT_CONFIG) \<and> looks_like_secret ''Smtp-Password''"
proof
  show "list_all (\<lambda>k. \<not> looks_like_secret k) (json_keys DEFAULT_CONFIG)"
    unfolding list_all_iff by (rule no_secret_keys [OF default_config_validates])
  show "looks_like_secret ''Smtp-Password''" by code_simp
qed

text \<open>A value that cannot be hashed defeats the validator: it raises a type error, which the endpoint does
  not turn into a rejection.\<close>

lemma unhashable_band_raises:
  "check_rule allow internal known groups (JDict [(''band'', JList [])]) = Inl TypeError"
  by (simp add: check_rule_def dict_get_def require_in_def in_names_def)

end
