(* ===== verification/Notify.thy ===== *)
theory Notify
  imports Engine Notify_Config Bech32
begin

text \<open>
  Alert delivery: payloads and grouping (\<open>src/backend/app/notifications/payloads.py\<close>, \<open>grouping.py\<close>), the fan-out
  to channels (\<open>dispatcher.py\<close>), the entry point and the de-duplicated delivery (\<open>__init__.py\<close>), its ledgers
  in PostgreSQL (\<open>src/backend/app/db/postgres.py\<close>), and the retry sweep (\<open>src/backend/app/tasks/notifications.py\<close>).

  The three ledger tables are one record; times are microseconds.  A delivery is given which of its database
  calls work and what each channel answers.
\<close>

section \<open>Payloads\<close>

record alert =
  a_attack_class :: string
  a_risk_score :: rat
  a_risk_band :: string
  a_tx_hash :: string
  a_network :: string
  contributing_features :: "(string, rat) dict"
  a_baseline_source :: string
  dashboard_url :: string

record notify_settings =
  APP_BASE_URL :: string
  NOTIFY_TOP_FEATURES :: int
  NOTIFY_GROUP_WINDOW_MINUTES :: int
  NOTIFY_RETRY_BACKOFF_SECONDS :: rat
  NOTIFY_RETRY_MAX_PER_TICK :: nat
  NOTIFY_RETRY_MAX_ATTEMPTS :: int

text \<open>Sub-scores are numbers, but a scorer may add a label among them; such entries are skipped.\<close>

definition numeric :: "json \<Rightarrow> rat option" where
  "numeric j = (case j of JInt n \<Rightarrow> Some (fl (of_int n)) | JFloat x \<Rightarrow> Some x | _ \<Rightarrow> None)"

definition top_features :: "(string, (string, json) dict) dict \<Rightarrow> string \<Rightarrow> int \<Rightarrow> (string, rat) dict" where
  "top_features subs cls n =
     map (\<lambda>(k, v). (k, fround v 4))
       (take (nat (max 0 n)) (sort_key (\<lambda>(_, v). - v)
         (List.map_filter (\<lambda>(k, j). map_option (Pair k) (numeric j)) (dict_get subs cls []))))"

definition spec_baseline_source :: "string \<Rightarrow> string" where
  "spec_baseline_source raw = (if raw \<in> {''per_script'', ''per_policy''} then raw else ''global_fallback'')"

definition rstrip_slash :: "string \<Rightarrow> string" where
  "rstrip_slash s = rev (dropWhile (\<lambda>c. c = CHR ''/'') (rev s))"

definition build_immediate_alert :: "'a notify_settings_scheme \<Rightarrow> string \<Rightarrow> scored \<Rightarrow> alert" where
  "build_immediate_alert cfg net r =
     \<lparr>a_attack_class = max_class r, a_risk_score = max_score r, a_risk_band = risk_band r, a_tx_hash = s_tx_hash r,
      a_network = net, contributing_features = top_features (s_sub_scores r) (max_class r) (NOTIFY_TOP_FEATURES cfg),
      a_baseline_source = spec_baseline_source (s_baseline_source r),
      dashboard_url = rstrip_slash (APP_BASE_URL cfg) @ ''/attacks/'' @ s_tx_hash r\<rparr>"

section \<open>Grouping\<close>

definition GROUP_BY_EVIDENCE_KEY :: "(string, string) dict" where
  "GROUP_BY_EVIDENCE_KEY = [(''large_datum'', ''target_script_address'')]"

definition group_key :: "string \<Rightarrow> (string, (string, json) dict) dict \<Rightarrow> string option" where
  "group_key cls ev =
     (case map_of GROUP_BY_EVIDENCE_KEY cls of
        None \<Rightarrow> None
      | Some key \<Rightarrow>
          (case map_of ev cls of
             None \<Rightarrow> None
           | Some ce \<Rightarrow>
               (case map_of ce key of
                  Some (JStr identity) \<Rightarrow>
                    (if identity = [] then None else Some (cls @ '':'' @ payment_credential_or_raw identity))
                | _ \<Rightarrow> None)))"

section \<open>The ledgers\<close>

type_synonym stream_key = "string \<times> string \<times> string"

record failed_row =
  f_key :: stream_key
  f_band :: string
  f_rank :: int
  f_group :: "string option"
  f_payload :: alert
  f_attempts :: int
  f_abandoned :: bool
  f_first :: int
  f_last :: int

record ledger =
  notified_alerts :: "(stream_key, int \<times> int) dict"
  notified_alert_groups :: "(stream_key, int \<times> int) dict"
  failed_notifications :: "failed_row list"

definition BAND_RANK :: "(string, int) dict" where
  "BAND_RANK = [(''Informational'', 0), (''Moderate'', 1), (''High'', 2), (''Critical'', 3)]"

definition rank_of :: "string \<Rightarrow> int" where
  "rank_of band = dict_get BAND_RANK band (-1)"

definition claim_notification :: "int \<Rightarrow> stream_key \<Rightarrow> string \<Rightarrow> ledger \<Rightarrow> bool \<times> ledger" where
  "claim_notification now key band led =
     (if rank_of band < 0 then (False, led)
      else case map_of (notified_alerts led) key of
             None \<Rightarrow> (True, led\<lparr>notified_alerts := AList.update key (rank_of band, now) (notified_alerts led)\<rparr>)
           | Some (r, _) \<Rightarrow>
               if r < rank_of band
               then (True, led\<lparr>notified_alerts := AList.update key (rank_of band, now) (notified_alerts led)\<rparr>)
               else (False, led))"

definition already_notified :: "stream_key \<Rightarrow> string \<Rightarrow> ledger \<Rightarrow> bool" where
  "already_notified key band led \<longleftrightarrow>
     rank_of band < 0 \<or> (case map_of (notified_alerts led) key of None \<Rightarrow> False | Some (r, _) \<Rightarrow> r \<ge> rank_of band)"

definition minutes :: "int \<Rightarrow> int" where
  "minutes n = n * 60000000"

definition already_notified_group :: "int \<Rightarrow> int \<Rightarrow> stream_key \<Rightarrow> string \<Rightarrow> ledger \<Rightarrow> bool" where
  "already_notified_group window now key band led \<longleftrightarrow>
     window > 0 \<and> rank_of band \<ge> 0 \<and>
     (case map_of (notified_alert_groups led) key of
        None \<Rightarrow> False | Some (r, t) \<Rightarrow> r \<ge> rank_of band \<and> t > now - minutes window)"

definition claim_notification_group :: "int \<Rightarrow> stream_key \<Rightarrow> string \<Rightarrow> ledger \<Rightarrow> ledger" where
  "claim_notification_group now key band led =
     (if rank_of band < 0 then led
      else led\<lparr>notified_alert_groups := AList.update key
             (case map_of (notified_alert_groups led) key of
                None \<Rightarrow> (rank_of band, now) | Some (r, _) \<Rightarrow> (max r (rank_of band), now)) (notified_alert_groups led)\<rparr>)"

definition days :: "int \<Rightarrow> int" where
  "days n = n * 86400000000"

definition prune_notified_alert_groups :: "int \<Rightarrow> int \<Rightarrow> ledger \<Rightarrow> ledger" where
  "prune_notified_alert_groups older now led =
     led\<lparr>notified_alert_groups := filter (\<lambda>(_, _, t). \<not> t < now - days older) (notified_alert_groups led)\<rparr>"

definition prune_notified_alerts :: "int \<Rightarrow> int \<Rightarrow> ledger \<Rightarrow> ledger" where
  "prune_notified_alerts older now led =
     led\<lparr>notified_alerts := filter (\<lambda>((_, _, source), _, t). \<not> (t < now - days older \<and> source = ''scorer'')) (notified_alerts led)\<rparr>"

definition RETRY_BACKOFF_MAX_DOUBLINGS :: int where
  "RETRY_BACKOFF_MAX_DOUBLINGS = 6"

text \<open>The upsert of a dead letter: a new row, or the payload of a higher band in an old one.\<close>

definition escalate :: "string \<Rightarrow> string option \<Rightarrow> alert \<Rightarrow> failed_row \<Rightarrow> failed_row" where
  "escalate band grp payload row =
     (if f_rank row < rank_of band
      then row\<lparr>f_band := band, f_rank := rank_of band, f_group := grp, f_payload := payload, f_abandoned := False\<rparr>
      else row)"

definition record_failed_notification ::
  "int \<Rightarrow> stream_key \<Rightarrow> string \<Rightarrow> alert \<Rightarrow> string option \<Rightarrow> ledger \<Rightarrow> ledger" where
  "record_failed_notification now key band payload grp led =
     (if rank_of band < 0 then led
      else if key \<in> f_key ` set (failed_notifications led)
      then led\<lparr>failed_notifications :=
             map (\<lambda>row. if f_key row = key then escalate band grp payload row else row) (failed_notifications led)\<rparr>
      else led\<lparr>failed_notifications := failed_notifications led @
             [\<lparr>f_key = key, f_band = band, f_rank = rank_of band, f_group = grp, f_payload = payload, f_attempts = 1,
               f_abandoned = False, f_first = now, f_last = now\<rparr>]\<rparr>)"

definition row_due :: "rat \<Rightarrow> int \<Rightarrow> failed_row \<Rightarrow> bool" where
  "row_due backoff now row \<longleftrightarrow>
     \<not> f_abandoned row \<and>
     of_int (f_last row) + backoff * 2 powi (min (f_attempts row - 1) RETRY_BACKOFF_MAX_DOUBLINGS) * 1000000 \<le> (of_int now :: rat)"

definition due_failed_notifications :: "rat \<Rightarrow> nat \<Rightarrow> int \<Rightarrow> ledger \<Rightarrow> failed_row list" where
  "due_failed_notifications backoff limit now led =
     take limit (sort_key f_first (filter (row_due backoff now) (failed_notifications led)))"

definition mark_failed_attempt :: "int \<Rightarrow> stream_key \<Rightarrow> bool \<Rightarrow> ledger \<Rightarrow> ledger" where
  "mark_failed_attempt now key abandoned led =
     led\<lparr>failed_notifications := map (\<lambda>row. if f_key row = key
          then row\<lparr>f_attempts := f_attempts row + 1, f_last := now, f_abandoned := abandoned\<rparr> else row)
        (failed_notifications led)\<rparr>"

definition delete_failed_notification :: "stream_key \<Rightarrow> ledger \<Rightarrow> ledger" where
  "delete_failed_notification key led =
     led\<lparr>failed_notifications := filter (\<lambda>row. f_key row \<noteq> key) (failed_notifications led)\<rparr>"

definition prune_failed_notifications :: "int \<Rightarrow> int \<Rightarrow> ledger \<Rightarrow> ledger" where
  "prune_failed_notifications older now led =
     led\<lparr>failed_notifications := filter (\<lambda>row. \<not> (f_abandoned row \<and> f_last row < now - days older)) (failed_notifications led)\<rparr>"

section \<open>Fan-out\<close>

record send_result =
  ok :: bool
  skipped :: bool

record channel =
  is_enabled :: bool
  handles :: "alert \<Rightarrow> bool"
  send :: "dispatch \<Rightarrow> alert \<Rightarrow> send_result result"

definition send_one :: "(json \<Rightarrow> channel option) \<Rightarrow> alert \<Rightarrow> dispatch \<Rightarrow> send_result" where
  "send_one get_channel payload d =
     (case get_channel (d_channel d) of
        None \<Rightarrow> \<lparr>ok = False, skipped = True\<rparr>
      | Some ch \<Rightarrow>
          if \<not> is_enabled ch \<or> \<not> handles ch payload then \<lparr>ok = False, skipped = True\<rparr>
          else case send ch d payload of Inl _ \<Rightarrow> \<lparr>ok = False, skipped = False\<rparr> | Inr r \<Rightarrow> r)"

text \<open>Whether a channel delivered, and the channels the audit record names as sent and as failed.\<close>

definition dispatch_all :: "(json \<Rightarrow> channel option) \<Rightarrow> alert \<Rightarrow> dispatch list \<Rightarrow> bool \<times> json list \<times> json list" where
  "dispatch_all get_channel payload ds =
     (let rs = map (\<lambda>d. (d_channel d, send_one get_channel payload d)) ds;
          sent = map fst (filter (\<lambda>(_, r). ok r) rs);
          failed = map fst (filter (\<lambda>(_, r). \<not> ok r \<and> \<not> skipped r) rs)
      in (sent \<noteq> [], sent, failed))"

section \<open>Delivery\<close>

datatype delivery = DELIVER_DUPLICATE | DELIVER_SENT | DELIVER_FAILED

record notify_env =
  n_now :: int
  n_channels :: "json \<Rightarrow> channel option"
  n_check_ok :: bool
  n_group_check_ok :: bool
  n_record_ok :: bool
  n_claim_ok :: bool
  n_group_claim_ok :: bool
  n_delete_ok :: bool
  n_mark_ok :: bool

definition deliver_with_dedup ::
  "'a notify_settings_scheme \<Rightarrow> notify_env \<Rightarrow> string \<Rightarrow> string \<Rightarrow> string \<Rightarrow> alert \<Rightarrow> dispatch list \<Rightarrow> string \<Rightarrow> string option \<Rightarrow>
     bool \<Rightarrow> ledger \<Rightarrow> delivery \<times> ledger" where
  "deliver_with_dedup cfg env net tx band payload dispatches source grp record_failure led =
     (let key = (net, tx, source);
          grp = (if NOTIFY_GROUP_WINDOW_MINUTES cfg \<le> 0 then None else grp)
      in if n_check_ok env \<and> already_notified key band led then (DELIVER_DUPLICATE, led)
         else if n_group_check_ok env \<and>
                 (case grp of None \<Rightarrow> False
                  | Some g \<Rightarrow> already_notified_group (NOTIFY_GROUP_WINDOW_MINUTES cfg) (n_now env) (net, g, source) band led)
         then (DELIVER_DUPLICATE, led)
         else if \<not> fst (dispatch_all (n_channels env) payload dispatches)
         then (DELIVER_FAILED,
               if record_failure \<and> n_record_ok env
               then record_failed_notification (n_now env) key band payload grp led else led)
         else
           let led = (if n_claim_ok env then snd (claim_notification (n_now env) key band led) else led);
               led = (case grp of None \<Rightarrow> led
                      | Some g \<Rightarrow> if n_group_claim_ok env then claim_notification_group (n_now env) (net, g, source) band led else led)
           in (DELIVER_SENT, led))"

text \<open>The entry point of the engine: the deliveries it schedules.\<close>

record job =
  j_tx :: string
  j_band :: string
  j_payload :: alert
  j_dispatches :: "dispatch list"
  j_group :: "string option"

definition alert_job :: "'a notify_settings_scheme \<Rightarrow> json \<Rightarrow> string \<Rightarrow> scored \<Rightarrow> job option" where
  "alert_job cfg doc net r =
     (if risk_band r = [] \<or> max_class r = [] \<or> max_score r \<le> 0 then None
      else case resolve_dispatch doc (risk_band r) (max_class r) of
             Inl _ \<Rightarrow> None
           | Inr ds \<Rightarrow>
               if ds = [] then None
               else Some \<lparr>j_tx = s_tx_hash r, j_band = risk_band r, j_payload = build_immediate_alert cfg net r,
                          j_dispatches = ds, j_group = group_key (max_class r) (s_evidence r)\<rparr>)"

definition on_new_scores :: "'a notify_settings_scheme \<Rightarrow> bool \<Rightarrow> json \<Rightarrow> string \<Rightarrow> scored list \<Rightarrow> job list" where
  "on_new_scores cfg loop_running doc net results =
     (if loop_running then List.map_filter (alert_job cfg doc net) results else [])"

definition run_job :: "'a notify_settings_scheme \<Rightarrow> notify_env \<Rightarrow> string \<Rightarrow> job \<Rightarrow> ledger \<Rightarrow> delivery \<times> ledger" where
  "run_job cfg env net j led =
     deliver_with_dedup cfg env net (j_tx j) (j_band j) (j_payload j) (j_dispatches j) ''scorer'' (j_group j) True led"

section \<open>The retry sweep\<close>

definition count_failed_attempt :: "'a notify_settings_scheme \<Rightarrow> notify_env \<Rightarrow> failed_row \<Rightarrow> ledger \<Rightarrow> ledger" where
  "count_failed_attempt cfg env row led =
     (if n_mark_ok env
      then mark_failed_attempt (n_now env) (f_key row) (f_attempts row + 1 \<ge> NOTIFY_RETRY_MAX_ATTEMPTS cfg) led
      else led)"

text \<open>One row of the sweep, as it was read, against the ledger as it is.  \<open>valid\<close> says whether the stored
  payload still validates.  A delete that fails is an exception, and so one more failed attempt.\<close>

definition withdraw :: "'a notify_settings_scheme \<Rightarrow> notify_env \<Rightarrow> failed_row \<Rightarrow> ledger \<Rightarrow> ledger" where
  "withdraw cfg env row led =
     (if n_delete_ok env then delete_failed_notification (f_key row) led else count_failed_attempt cfg env row led)"

definition retry_row ::
  "'a notify_settings_scheme \<Rightarrow> notify_env \<Rightarrow> (alert \<Rightarrow> bool) \<Rightarrow> json \<Rightarrow> failed_row \<Rightarrow> ledger \<Rightarrow> ledger" where
  "retry_row cfg env valid doc row led =
     (if \<not> valid (f_payload row) then count_failed_attempt cfg env row led
      else case resolve_dispatch doc (f_band row) (a_attack_class (f_payload row)) of
             Inl _ \<Rightarrow> count_failed_attempt cfg env row led
           | Inr [] \<Rightarrow>
               (case selected_channels doc (f_band row) (a_attack_class (f_payload row)) of
                  Inl _ \<Rightarrow> count_failed_attempt cfg env row led
                | Inr [] \<Rightarrow> withdraw cfg env row led
                | Inr _ \<Rightarrow> count_failed_attempt cfg env row led)
           | Inr ds \<Rightarrow>
               (case f_key row of
                  (net, tx, source) \<Rightarrow>
                    (case deliver_with_dedup cfg env net tx (f_band row) (f_payload row) ds source (f_group row) False led of
                       (DELIVER_FAILED, led) \<Rightarrow> count_failed_attempt cfg env row led
                     | (_, led) \<Rightarrow> withdraw cfg env row led)))"

fun retry_rows ::
  "'a notify_settings_scheme \<Rightarrow> (failed_row \<Rightarrow> notify_env) \<Rightarrow> (alert \<Rightarrow> bool) \<Rightarrow> json \<Rightarrow> failed_row list \<Rightarrow> ledger \<Rightarrow> ledger" where
  "retry_rows cfg env valid doc [] led = led"
| "retry_rows cfg env valid doc (row # rows) led =
     retry_rows cfg env valid doc rows (retry_row cfg (env row) valid doc row led)"

definition retry_tick ::
  "'a notify_settings_scheme \<Rightarrow> int \<Rightarrow> (failed_row \<Rightarrow> notify_env) \<Rightarrow> (alert \<Rightarrow> bool) \<Rightarrow> json \<Rightarrow> ledger \<Rightarrow> ledger" where
  "retry_tick cfg now env valid doc led =
     retry_rows cfg env valid doc
       (due_failed_notifications (NOTIFY_RETRY_BACKOFF_SECONDS cfg) (NOTIFY_RETRY_MAX_PER_TICK cfg) now led) led"

section \<open>What a delivery does\<close>

lemmas delivery_defs = deliver_with_dedup_def Let_def

definition notified_rank :: "stream_key \<Rightarrow> ledger \<Rightarrow> int" where
  "notified_rank key led = (case map_of (notified_alerts led) key of None \<Rightarrow> - 1 | Some (r, _) \<Rightarrow> r)"

lemma rank_of_le: "rank_of band \<le> 3"
  by (simp add: rank_of_def BAND_RANK_def dict_get_def)

lemma already_notified_rank:
  "already_notified key band led \<longleftrightarrow> rank_of band < 0 \<or> rank_of band \<le> notified_rank key led"
  by (auto simp: already_notified_def notified_rank_def split: option.splits)

lemma claim_rank:
  "rank_of band \<ge> 0 \<Longrightarrow> notified_rank key (snd (claim_notification now key' band led)) =
     (if key = key' then max (notified_rank key led) (rank_of band) else notified_rank key led)"
  by (auto simp: claim_notification_def notified_rank_def split: option.splits)

lemma claim_keeps_failed [simp]: "failed_notifications (snd (claim_notification now key band led)) = failed_notifications led"
  by (simp add: claim_notification_def split: option.splits)

lemma group_claim_keeps [simp]:
  "notified_rank key (claim_notification_group now g band led) = notified_rank key led"
  "failed_notifications (claim_notification_group now g band led) = failed_notifications led"
  by (simp_all add: claim_notification_group_def notified_rank_def)

lemma record_keeps_rank [simp]:
  "notified_rank key (record_failed_notification now key' band payload grp led) = notified_rank key led"
  by (simp add: record_failed_notification_def notified_rank_def)

lemma mark_keeps_rank [simp]: "notified_rank key (mark_failed_attempt now key' b led) = notified_rank key led"
  by (simp add: mark_failed_attempt_def notified_rank_def)

lemma delete_keeps_rank [simp]: "notified_rank key (delete_failed_notification key' led) = notified_rank key led"
  by (simp add: delete_failed_notification_def notified_rank_def)

lemma record_has_letter:
  assumes "rank_of band \<ge> 0"
  shows "\<exists>row \<in> set (failed_notifications (record_failed_notification now key band payload grp led)).
           f_key row = key \<and> f_rank row \<ge> rank_of band"
proof (cases "key \<in> f_key ` set (failed_notifications led)")
  case True
  then obtain row where row: "row \<in> set (failed_notifications led)" "f_key row = key" by auto
  then have "escalate band grp payload row \<in> set (failed_notifications (record_failed_notification now key band payload grp led))"
    using assms True by (force simp: record_failed_notification_def)
  moreover have "f_key (escalate band grp payload row) = key" "f_rank (escalate band grp payload row) \<ge> rank_of band"
    using row by (simp_all add: escalate_def)
  ultimately show ?thesis by blast
next
  case False
  then show ?thesis using assms by (simp add: record_failed_notification_def)
qed

text \<open>The four ends of a delivery.\<close>

definition in_open_group :: "'a notify_settings_scheme \<Rightarrow> int \<Rightarrow> string \<Rightarrow> string \<Rightarrow> string option \<Rightarrow> string \<Rightarrow> ledger \<Rightarrow> bool" where
  "in_open_group cfg now net source grp band led =
     (case grp of None \<Rightarrow> False
      | Some g \<Rightarrow> already_notified_group (NOTIFY_GROUP_WINDOW_MINUTES cfg) now (net, g, source) band led)"

lemma deliver_eq:
  "deliver_with_dedup cfg env net tx band payload ds source grp rec led =
     (if n_check_ok env \<and> already_notified (net, tx, source) band led \<or>
         n_group_check_ok env \<and> in_open_group cfg (n_now env) net source grp band led
      then (DELIVER_DUPLICATE, led)
      else if \<not> fst (dispatch_all (n_channels env) payload ds)
      then (DELIVER_FAILED, if rec \<and> n_record_ok env
              then record_failed_notification (n_now env) (net, tx, source) band payload
                     (if NOTIFY_GROUP_WINDOW_MINUTES cfg \<le> 0 then None else grp) led
              else led)
      else (DELIVER_SENT,
            let led = (if n_claim_ok env then snd (claim_notification (n_now env) (net, tx, source) band led) else led)
            in if NOTIFY_GROUP_WINDOW_MINUTES cfg \<le> 0 then led
               else case grp of None \<Rightarrow> led
                    | Some g \<Rightarrow> if n_group_claim_ok env then claim_notification_group (n_now env) (net, g, source) band led else led))"
  by (auto simp: delivery_defs in_open_group_def already_notified_group_def split: option.splits)

lemma deliver_sent_rank:
  assumes "deliver_with_dedup cfg env net tx band payload ds source grp rec led = (DELIVER_SENT, led')"
    and "rank_of band \<ge> 0"
  shows "notified_rank key led' =
    (if n_claim_ok env \<and> key = (net, tx, source) then max (notified_rank key led) (rank_of band) else notified_rank key led)"
  using assms by (auto simp: deliver_eq claim_rank Let_def split: if_splits option.splits)

lemma deliver_unsent_rank:
  assumes "deliver_with_dedup cfg env net tx band payload ds source grp rec led = (d, led')" "d \<noteq> DELIVER_SENT"
  shows "notified_rank key led' = notified_rank key led"
  using assms by (auto simp: deliver_eq split: if_splits)

section \<open>Every alert ends as a claim or as a dead letter\<close>

definition ledger_up :: "notify_env \<Rightarrow> bool" where
  "ledger_up env \<longleftrightarrow> n_check_ok env \<and> n_group_check_ok env \<and> n_record_ok env \<and> n_claim_ok env \<and> n_group_claim_ok env"

definition dead_lettered :: "stream_key \<Rightarrow> int \<Rightarrow> ledger \<Rightarrow> bool" where
  "dead_lettered key rank led \<longleftrightarrow> (\<exists>row \<in> set (failed_notifications led). f_key row = key \<and> f_rank row \<ge> rank)"

text \<open>C3. With the ledgers up, a delivery on the scorer path has one of three ends: it is a duplicate, and then the
  ledgers are untouched and the transaction was claimed at this band or above, or its group's window is open at this
  band or above, or the band is none of the four; it is sent, and then some channel delivered and the transaction
  is now claimed at this band or above; it failed, and then no channel delivered, nothing was claimed, and a dead
  letter of this band or above is stored for the transaction.\<close>

theorem delivery_outcome:
  assumes "ledger_up env"
    and "deliver_with_dedup cfg env net tx band payload ds source grp True led = (d, led')"
  shows "case d of
     DELIVER_DUPLICATE \<Rightarrow> led' = led \<and>
       (rank_of band < 0 \<or> rank_of band \<le> notified_rank (net, tx, source) led \<or> in_open_group cfg (n_now env) net source grp band led)
   | DELIVER_SENT \<Rightarrow> fst (dispatch_all (n_channels env) payload ds) \<and> 0 \<le> rank_of band \<and>
       rank_of band \<le> notified_rank (net, tx, source) led' \<and> failed_notifications led' = failed_notifications led
   | DELIVER_FAILED \<Rightarrow> \<not> fst (dispatch_all (n_channels env) payload ds) \<and>
       (\<forall>key. notified_rank key led' = notified_rank key led) \<and> dead_lettered (net, tx, source) (rank_of band) led'"
proof (cases d)
  case DELIVER_DUPLICATE
  with assms show ?thesis by (auto simp: deliver_eq already_notified_rank split: if_splits)
next
  case DELIVER_SENT
  with assms have r: "0 \<le> rank_of band" and f: "fst (dispatch_all (n_channels env) payload ds)"
    by (auto simp: deliver_eq already_notified_rank ledger_up_def split: if_splits)
  moreover have "rank_of band \<le> notified_rank (net, tx, source) led'"
    using deliver_sent_rank [OF assms(2) [unfolded DELIVER_SENT] r] assms(1) by (simp add: ledger_up_def)
  moreover have "failed_notifications led' = failed_notifications led"
    using assms DELIVER_SENT by (auto simp: deliver_eq Let_def split: if_splits option.splits)
  ultimately show ?thesis using DELIVER_SENT by simp
next
  case DELIVER_FAILED
  with assms have r: "0 \<le> rank_of band" and f: "\<not> fst (dispatch_all (n_channels env) payload ds)"
    and l: "led' = record_failed_notification (n_now env) (net, tx, source) band payload
                     (if NOTIFY_GROUP_WINDOW_MINUTES cfg \<le> 0 then None else grp) led"
    by (auto simp: deliver_eq already_notified_rank ledger_up_def split: if_splits)
  then show ?thesis using DELIVER_FAILED record_has_letter [OF r] by (simp add: dead_lettered_def)
qed

definition example_settings :: notify_settings where
  "example_settings = \<lparr>APP_BASE_URL = ''https://tms/'', NOTIFY_TOP_FEATURES = 3, NOTIFY_GROUP_WINDOW_MINUTES = 60,
     NOTIFY_RETRY_BACKOFF_SECONDS = 60, NOTIFY_RETRY_MAX_PER_TICK = 10, NOTIFY_RETRY_MAX_ATTEMPTS = 2\<rparr>"

definition example_alert :: "string \<Rightarrow> alert" where
  "example_alert band = \<lparr>a_attack_class = ''phishing'', a_risk_score = 80, a_risk_band = band, a_tx_hash = ''aa'', a_network = ''preprod'',
     contributing_features = [], a_baseline_source = ''global_fallback'', dashboard_url = ''https://tms/attacks/aa''\<rparr>"

definition example_dispatch :: dispatch where
  "example_dispatch = \<lparr>d_channel = JStr ''webhook'', d_recipients = [], d_webhook_url = JStr ''https://siem.example''\<rparr>"

definition example_env :: "int \<Rightarrow> bool \<Rightarrow> notify_env" where
  "example_env now up = \<lparr>n_now = now,
     n_channels = (\<lambda>_. Some \<lparr>is_enabled = True, handles = (\<lambda>_. True), send = (\<lambda>_ _. Inr \<lparr>ok = up, skipped = False\<rparr>)\<rparr>),
     n_check_ok = True, n_group_check_ok = True, n_record_ok = True, n_claim_ok = True, n_group_claim_ok = True,
     n_delete_ok = True, n_mark_ok = True\<rparr>"

definition no_ledger :: ledger where
  "no_ledger = \<lparr>notified_alerts = [], notified_alert_groups = [], failed_notifications = []\<rparr>"

definition example_deliver :: "int \<Rightarrow> bool \<Rightarrow> string \<Rightarrow> bool \<Rightarrow> ledger \<Rightarrow> delivery \<times> ledger" where
  "example_deliver now up band rec led = deliver_with_dedup example_settings (example_env now up) ''preprod'' ''aa'' band
     (example_alert band) [example_dispatch] ''scorer'' None rec led"

lemma example_up: "ledger_up (example_env now up)"
  by (simp add: ledger_up_def example_env_def)

lemma example_dispatched: "fst (dispatch_all (n_channels (example_env now up)) payload [example_dispatch]) = up"
  by (simp add: dispatch_all_def send_one_def example_env_def)

lemma example_first:
  "example_deliver now True ''High'' rec no_ledger = (DELIVER_SENT, no_ledger\<lparr>notified_alerts := [((''preprod'', ''aa'', ''scorer''), 2, now)]\<rparr>)"
  "example_deliver now False ''High'' True no_ledger = (DELIVER_FAILED, no_ledger\<lparr>failed_notifications :=
     [\<lparr>f_key = (''preprod'', ''aa'', ''scorer''), f_band = ''High'', f_rank = 2, f_group = None, f_payload = example_alert ''High'',
       f_attempts = 1, f_abandoned = False, f_first = now, f_last = now\<rparr>]\<rparr>)"
  by (simp_all add: example_deliver_def deliver_eq example_dispatched in_open_group_def already_notified_rank notified_rank_def
        no_ledger_def rank_of_def BAND_RANK_def dict_get_def claim_notification_def record_failed_notification_def)
    (simp_all add: example_env_def example_settings_def)

theorem delivery_outcome_witness:
  "ledger_up (example_env 5 True) \<and> rank_of ''High'' \<le> notified_rank (''preprod'', ''aa'', ''scorer'') (snd (example_deliver 5 True ''High'' True no_ledger))
   \<and> dead_lettered (''preprod'', ''aa'', ''scorer'') (rank_of ''High'') (snd (example_deliver 5 False ''High'' True no_ledger))"
  using delivery_outcome [OF example_up example_first(1) [unfolded example_deliver_def]]
    delivery_outcome [OF example_up example_first(2) [unfolded example_deliver_def]]
  by (simp add: example_up example_first)


end
