(* ===== verification/Notify_Ledger.thy ===== *)
theory Notify_Ledger
  imports Notify
begin

text \<open>
  The history of the notification ledgers under the operations of the delivery path, the retry sweep and the
  retention job: how often a transaction can be announced, how often a dead letter is retried, and the two ways
  in which an escalated dead letter is not retried as its documentation says.
\<close>

section \<open>Histories\<close>

datatype notify_op =
    Deliver notify_settings notify_env stream_key string alert "dispatch list" "string option" bool
  | Mark int stream_key bool
  | Drop stream_key
  | Prune_alerts int int
  | Prune_groups int int
  | Prune_failed int int

text \<open>One operation on the ledgers, and whether it put an alert of the stream \<open>key\<close> on the wire.\<close>

fun notify_step :: "stream_key \<Rightarrow> notify_op \<Rightarrow> ledger \<Rightarrow> bool \<times> ledger" where
  "notify_step key (Deliver cfg env (net, tx, source) band payload ds grp rec) led =
     (let (d, led') = deliver_with_dedup cfg env net tx band payload ds source grp rec led
      in (d = DELIVER_SENT \<and> (net, tx, source) = key, led'))"
| "notify_step key (Mark now k b) led = (False, mark_failed_attempt now k b led)"
| "notify_step key (Drop k) led = (False, delete_failed_notification k led)"
| "notify_step key (Prune_alerts older now) led = (False, prune_notified_alerts older now led)"
| "notify_step key (Prune_groups older now) led = (False, prune_notified_alert_groups older now led)"
| "notify_step key (Prune_failed older now) led = (False, prune_failed_notifications older now led)"

definition sends_left :: "stream_key \<Rightarrow> ledger \<Rightarrow> nat" where
  "sends_left key led = nat (3 - max (- 1) (notified_rank key led))"

text \<open>A delivery whose check or claim could not reach the ledger may repeat an alert; the retention job forgets
  the claims of the scorer stream only.\<close>

fun sends_granted :: "stream_key \<Rightarrow> notify_op \<Rightarrow> nat" where
  "sends_granted key (Deliver cfg env k band payload ds grp rec) =
     (if k = key \<and> \<not> (n_check_ok env \<and> n_claim_ok env) then 1 else 0)"
| "sends_granted (net, tx, source) (Prune_alerts older now) = (if source = ''scorer'' then 4 else 0)"
| "sends_granted key _ = 0"

lemma deliver_cost:
  assumes "deliver_with_dedup cfg env net tx band payload ds source grp rec led = (d, led')"
  shows "sends_left key led' + (if d = DELIVER_SENT \<and> (net, tx, source) = key then 1 else 0) \<le>
     sends_left key led + (if (net, tx, source) = key \<and> \<not> (n_check_ok env \<and> n_claim_ok env) then 1 else 0)"
proof (cases "d = DELIVER_SENT")
  case False
  then show ?thesis using deliver_unsent_rank [OF assms] by (simp add: sends_left_def)
next
  case sent: True
  show ?thesis
  proof (cases "rank_of band \<ge> 0")
    case True
    have new: "n_check_ok env \<Longrightarrow> notified_rank (net, tx, source) led < rank_of band"
      using assms sent True by (auto simp: deliver_eq already_notified_rank split: if_splits)
    show ?thesis using deliver_sent_rank [OF assms [unfolded sent] True, of key] rank_of_le [of band] new True
      by (auto simp: sends_left_def sent max_def split: if_splits)
  next
    case False
    then have "\<not> n_check_ok env" "notified_rank key led' = notified_rank key led"
      using assms sent by (auto simp: deliver_eq already_notified_rank claim_notification_def Let_def split: if_splits option.splits)
    then show ?thesis by (simp add: sends_left_def)
  qed
qed

lemma sends_left_le: "sends_left key led \<le> 4"
  by (simp add: sends_left_def nat_le_iff)

lemma prune_keeps_anomalies:
  assumes "source \<noteq> ''scorer''"
  shows "notified_rank (net, tx, source) (prune_notified_alerts older now led) = notified_rank (net, tx, source) led"
proof -
  have "map_of (filter (\<lambda>((_, _, s), _, t). \<not> (t < now - days older \<and> s = ''scorer'')) al) (net, tx, source) =
      map_of al (net, tx, source)" for al :: "(stream_key, int \<times> int) dict"
    using assms by (induction al) auto
  then show ?thesis by (simp add: prune_notified_alerts_def notified_rank_def)
qed

interpretation announce: quota "notify_step key" "sends_left key" "sends_granted key"
proof
  fix op led
  show "sends_left key (snd (notify_step key op led)) + (if fst (notify_step key op led) then 1 else 0)
          \<le> sends_left key led + sends_granted key op"
  proof (cases op)
    case (Deliver cfg env k band payload ds grp rec)
    obtain net tx source where k: "k = (net, tx, source)" by (cases k)
    obtain d led' where d: "deliver_with_dedup cfg env net tx band payload ds source grp rec led = (d, led')" by fastforce
    show ?thesis using deliver_cost [OF d, of key] by (simp add: Deliver k d)
  next
    case (Prune_alerts older now)
    obtain net tx source where k: "key = (net, tx, source)" by (cases key)
    show ?thesis using sends_left_le [of key "prune_notified_alerts older now led"] prune_keeps_anomalies [of source net tx older now led]
      by (auto simp: Prune_alerts k sends_left_def)
  qed (simp_all add: sends_left_def prune_notified_alert_groups_def prune_failed_notifications_def notified_rank_def,
       simp_all add: notified_rank_def [symmetric])
qed


text \<open>The sweep is such a history.\<close>

lemma final_state_append: "final_state step (xs @ ys) s = final_state step ys (final_state step xs s)"
  by (induction xs arbitrary: s) auto

definition history :: "stream_key \<Rightarrow> ledger \<Rightarrow> ledger \<Rightarrow> bool" where
  "history key led led' \<longleftrightarrow> (\<exists>ops. led' = final_state (notify_step key) ops led)"

lemma history_refl [simp]: "history key led led"
  unfolding history_def by (rule exI [of _ "[]"]) simp

lemma history_trans [trans]: "history key a b \<Longrightarrow> history key b c \<Longrightarrow> history key a c"
  unfolding history_def by (metis final_state_append)

lemma history_step: "history key led (snd (notify_step key op led))"
  unfolding history_def by (rule exI [of _ "[op]"]) simp

lemma history_deliver:
  fixes cfg :: notify_settings
  assumes "deliver_with_dedup cfg env net tx band payload ds source grp rec led = (d, led')"
  shows "history key led led'"
  using history_step [of key led "Deliver cfg env (net, tx, source) band payload ds grp rec"] assms by simp

lemma history_count: "history key led (count_failed_attempt cfg env row led)"
  using history_step [of key led "Mark (n_now env) (f_key row) (f_attempts row + 1 \<ge> NOTIFY_RETRY_MAX_ATTEMPTS cfg)"]
  by (simp add: count_failed_attempt_def)

lemma history_withdraw: "history key led (withdraw cfg env row led)"
  using history_step [of key led "Drop (f_key row)"] by (simp add: withdraw_def history_count)

text \<open>What became of a row: its attempt was counted, or it was withdrawn, after a delivery or without one.\<close>

lemma retry_row_cases:
  obtains (counted) "retry_row cfg env valid doc row led = count_failed_attempt cfg env row led"
  | (silenced) "retry_row cfg env valid doc row led = withdraw cfg env row led"
      "resolve_dispatch doc (f_band row) (a_attack_class (f_payload row)) = Inr []"
      "selected_channels doc (f_band row) (a_attack_class (f_payload row)) = Inr []"
  | (delivered) net tx source ds d led' where "f_key row = (net, tx, source)"
      "resolve_dispatch doc (f_band row) (a_attack_class (f_payload row)) = Inr ds"
      "deliver_with_dedup cfg env net tx (f_band row) (f_payload row) ds source (f_group row) False led = (d, led')"
      "retry_row cfg env valid doc row led =
         (if d = DELIVER_FAILED then count_failed_attempt cfg env row led' else withdraw cfg env row led')"
proof -
  obtain net tx source where k: "f_key row = (net, tx, source)" by (cases "f_key row")
  show ?thesis
  proof (cases "valid (f_payload row)")
    case False
    then show ?thesis using counted by (simp add: retry_row_def)
  next
    case v: True
    show ?thesis
    proof (cases "resolve_dispatch doc (f_band row) (a_attack_class (f_payload row))")
      case (Inl e)
      then show ?thesis using counted v by (simp add: retry_row_def)
    next
      case (Inr ds)
      show ?thesis
      proof (cases ds)
        case Nil
        consider (none) "selected_channels doc (f_band row) (a_attack_class (f_payload row)) = Inr []"
          | (some) c cs where "selected_channels doc (f_band row) (a_attack_class (f_payload row)) = Inr (c # cs)"
          | (error) e where "selected_channels doc (f_band row) (a_attack_class (f_payload row)) = Inl e"
          by (metis list.exhaust sum.exhaust)
        then show ?thesis
        proof cases
          case none
          then show ?thesis using silenced v Inr Nil by (simp add: retry_row_def)
        qed (use counted v Inr Nil in \<open>simp_all add: retry_row_def\<close>)
      next
        case (Cons x xs)
        obtain d led' where d: "deliver_with_dedup cfg env net tx (f_band row) (f_payload row) ds source (f_group row) False led = (d, led')"
          by fastforce
        show ?thesis by (rule delivered [OF k Inr d], cases d) (use v Inr Cons k d in \<open>simp_all add: retry_row_def\<close>)
      qed
    qed
  qed
qed

lemma history_retry_row:
  fixes cfg :: notify_settings
  shows "history key led (retry_row cfg env valid doc row led)"
proof (cases rule: retry_row_cases [of cfg env valid doc row led])
  case (delivered net tx source ds d led')
  have "history key led led'" by (rule history_deliver [OF delivered(3)])
  moreover have "history key led' (retry_row cfg env valid doc row led)"
    using delivered(4) by (simp add: history_count history_withdraw)
  ultimately show ?thesis by (rule history_trans)
qed (simp_all add: history_count history_withdraw)

lemma history_retry_rows:
  fixes cfg :: notify_settings
  shows "history key led (retry_rows cfg env valid doc rows led)"
proof (induction rows arbitrary: led)
  case (Cons row rows)
  show ?case using history_trans [OF history_retry_row Cons.IH] by simp
qed simp

section \<open>What the sweep does to a row\<close>

definition letter :: "stream_key \<Rightarrow> ledger \<Rightarrow> failed_row option" where
  "letter key led = find (\<lambda>row. f_key row = key) (failed_notifications led)"

definition marked :: "'a notify_settings_scheme \<Rightarrow> int \<Rightarrow> failed_row \<Rightarrow> failed_row" where
  "marked cfg now row = row\<lparr>f_attempts := f_attempts row + 1, f_last := now,
     f_abandoned := f_attempts row + 1 \<ge> NOTIFY_RETRY_MAX_ATTEMPTS cfg\<rparr>"

lemma letter_member: "distinct (map f_key (failed_notifications led)) \<Longrightarrow> row \<in> set (failed_notifications led) \<Longrightarrow>
    letter (f_key row) led = Some row"
proof -
  have "distinct (map f_key rows) \<Longrightarrow> row \<in> set rows \<Longrightarrow> find (\<lambda>r. f_key r = f_key row) rows = Some row" for rows
    by (induction rows) (auto simp: rev_image_eqI)
  then show "distinct (map f_key (failed_notifications led)) \<Longrightarrow> row \<in> set (failed_notifications led) \<Longrightarrow> ?thesis"
    by (simp add: letter_def)
qed

lemma letter_mark:
  "letter key (mark_failed_attempt now key' b led) =
     (if key = key' then map_option (\<lambda>row. row\<lparr>f_attempts := f_attempts row + 1, f_last := now, f_abandoned := b\<rparr>) (letter key led)
      else letter key led)"
proof -
  have "find (\<lambda>row. f_key row = key) (map (\<lambda>row. if f_key row = key'
          then row\<lparr>f_attempts := f_attempts row + 1, f_last := now, f_abandoned := b\<rparr> else row) rows) =
     (if key = key' then map_option (\<lambda>row. row\<lparr>f_attempts := f_attempts row + 1, f_last := now, f_abandoned := b\<rparr>)
        (find (\<lambda>row. f_key row = key) rows) else find (\<lambda>row. f_key row = key) rows)" for rows
    by (induction rows) auto
  from this [of "failed_notifications led"] show ?thesis by (simp add: letter_def mark_failed_attempt_def)
qed

lemma letter_delete: "letter key (delete_failed_notification key' led) = (if key = key' then None else letter key led)"
proof -
  have "find (\<lambda>row. f_key row = key) (filter (\<lambda>row. f_key row \<noteq> key') rows) =
     (if key = key' then None else find (\<lambda>row. f_key row = key) rows)" for rows
    by (induction rows) auto
  from this [of "failed_notifications led"] show ?thesis by (simp add: letter_def delete_failed_notification_def)
qed

lemma letter_deliver:
  "deliver_with_dedup cfg env net tx band payload ds source grp False led = (d, led') \<Longrightarrow> letter key led' = letter key led"
  by (auto simp: deliver_eq letter_def Let_def split: if_splits option.splits)

lemma rank_deliver_mono:
  assumes "deliver_with_dedup cfg env net tx band payload ds source grp rec led = (d, led')" "0 \<le> rank_of band"
  shows "notified_rank key led \<le> notified_rank key led'"
  using deliver_sent_rank [of cfg env net tx band payload ds source grp rec led led' key] deliver_unsent_rank [OF assms(1)] assms
  by (cases d) auto

definition sweep_up :: "notify_env \<Rightarrow> bool" where
  "sweep_up env \<longleftrightarrow> ledger_up env \<and> n_mark_ok env \<and> n_delete_ok env"

definition silenced :: "json \<Rightarrow> failed_row \<Rightarrow> bool" where
  "silenced doc row \<longleftrightarrow> selected_channels doc (f_band row) (a_attack_class (f_payload row)) = Inr []"

lemma count_up: "sweep_up env \<Longrightarrow> letter key (count_failed_attempt cfg env row led) =
    (if key = f_key row then map_option (\<lambda>r. r\<lparr>f_attempts := f_attempts r + 1, f_last := n_now env,
       f_abandoned := f_attempts row + 1 \<ge> NOTIFY_RETRY_MAX_ATTEMPTS cfg\<rparr>) (letter key led) else letter key led)"
  by (simp add: count_failed_attempt_def sweep_up_def letter_mark)

lemma withdraw_up: "sweep_up env \<Longrightarrow> withdraw cfg env row led = delete_failed_notification (f_key row) led"
  by (simp add: withdraw_def sweep_up_def)

lemma count_rank [simp]: "notified_rank key (count_failed_attempt cfg env row led) = notified_rank key led"
  by (simp add: count_failed_attempt_def)

lemma retry_row_elsewhere:
  assumes "sweep_up env" "key \<noteq> f_key row"
  shows "letter key (retry_row cfg env valid doc row led) = letter key led"
proof (cases rule: retry_row_cases [of cfg env valid doc row led])
  case (delivered net tx source ds d led')
  then show ?thesis using assms letter_deliver [OF delivered(3), of key] by (simp add: count_up withdraw_up letter_delete)
qed (use assms in \<open>simp_all add: count_up withdraw_up letter_delete\<close>)

lemma retry_row_rank_mono:
  assumes "sweep_up env" "0 \<le> rank_of (f_band row)"
  shows "notified_rank key led \<le> notified_rank key (retry_row cfg env valid doc row led)"
proof (cases rule: retry_row_cases [of cfg env valid doc row led])
  case (delivered net tx source ds d led')
  then show ?thesis using assms rank_deliver_mono [OF delivered(3) assms(2), of key] by (simp add: withdraw_up)
qed (use assms in \<open>simp_all add: withdraw_up\<close>)

lemma retry_row_here:
  assumes "sweep_up env" "0 \<le> rank_of (f_band row)" "letter (f_key row) led = Some row"
  shows "letter (f_key row) (retry_row cfg env valid doc row led) = Some (marked cfg (n_now env) row) \<or>
    letter (f_key row) (retry_row cfg env valid doc row led) = None \<and>
      (silenced doc row \<or> f_group row \<noteq> None \<or>
       rank_of (f_band row) \<le> notified_rank (f_key row) (retry_row cfg env valid doc row led))"
proof (cases rule: retry_row_cases [of cfg env valid doc row led])
  case counted
  then show ?thesis using assms by (simp add: count_up marked_def)
next
  case silenced
  then show ?thesis using assms by (simp add: withdraw_up letter_delete silenced_def)
next
  case (delivered net tx source ds d led')
  have up: "ledger_up env" using assms(1) by (simp add: sweep_up_def)
  show ?thesis
  proof (cases "d = DELIVER_FAILED")
    case True
    then show ?thesis using delivered(4) assms letter_deliver [OF delivered(3), of "f_key row"] by (simp add: count_up marked_def)
  next
    case False
    have "f_group row \<noteq> None \<or> rank_of (f_band row) \<le> notified_rank (f_key row) led'"
    proof (cases d)
      case DELIVER_SENT
      then show ?thesis using deliver_sent_rank [OF delivered(3) [unfolded DELIVER_SENT] assms(2), of "f_key row"] up
        by (simp add: ledger_up_def delivered(1))
    next
      case DELIVER_DUPLICATE
      then show ?thesis using delivered(3) assms(2)
        by (auto simp: deliver_eq already_notified_rank delivered(1) in_open_group_def split: if_splits option.splits)
    qed (use False in simp)
    then show ?thesis using False assms delivered(4) by (simp add: withdraw_up letter_delete)
  qed
qed

lemma retry_rows_elsewhere:
  "\<forall>row \<in> set rows. sweep_up (env row) \<Longrightarrow> key \<notin> f_key ` set rows \<Longrightarrow>
     letter key (retry_rows cfg env valid doc rows led) = letter key led"
  by (induction rows arbitrary: led) (auto simp: retry_row_elsewhere)

lemma retry_rows_rank_mono:
  "\<forall>row \<in> set rows. sweep_up (env row) \<and> 0 \<le> rank_of (f_band row) \<Longrightarrow>
     notified_rank key led \<le> notified_rank key (retry_rows cfg env valid doc rows led)"
proof (induction rows arbitrary: led)
  case (Cons row rows)
  have "notified_rank key led \<le> notified_rank key (retry_row cfg (env row) valid doc row led)"
    using Cons.prems by (intro retry_row_rank_mono) auto
  also have "\<dots> \<le> notified_rank key (retry_rows cfg env valid doc rows (retry_row cfg (env row) valid doc row led))"
    using Cons.prems by (intro Cons.IH) auto
  finally show ?case by simp
qed simp

lemma retry_rows_here:
  assumes "\<forall>row \<in> set rows. sweep_up (env row) \<and> 0 \<le> rank_of (f_band row)" "distinct (map f_key rows)"
    "\<forall>row \<in> set rows. letter (f_key row) led = Some row" "row \<in> set rows"
  shows "letter (f_key row) (retry_rows cfg env valid doc rows led) = Some (marked cfg (n_now (env row)) row) \<or>
    letter (f_key row) (retry_rows cfg env valid doc rows led) = None \<and>
      (silenced doc row \<or> f_group row \<noteq> None \<or>
       rank_of (f_band row) \<le> notified_rank (f_key row) (retry_rows cfg env valid doc rows led))"
  using assms
proof (induction rows arbitrary: led)
  case (Cons r rows)
  let ?led = "retry_row cfg (env r) valid doc r led"
  show ?case
  proof (cases "row = r")
    case True
    have "letter (f_key r) (retry_rows cfg env valid doc rows ?led) = letter (f_key r) ?led"
      using Cons.prems by (intro retry_rows_elsewhere) auto
    moreover have "notified_rank (f_key r) ?led \<le> notified_rank (f_key r) (retry_rows cfg env valid doc rows ?led)"
      using Cons.prems by (intro retry_rows_rank_mono) auto
    ultimately show ?thesis
      using retry_row_here [of "env r" r led cfg valid doc] Cons.prems True by fastforce
  next
    case False
    have "\<forall>row \<in> set rows. letter (f_key row) ?led = Some row"
    proof
      fix row' assume "row' \<in> set rows"
      then have "f_key row' \<noteq> f_key r" "letter (f_key row') led = Some row'" using Cons.prems by force+
      then show "letter (f_key row') ?led = Some row'" using Cons.prems(1) by (simp add: retry_row_elsewhere)
    qed
    then show ?thesis using Cons.IH [of ?led] Cons.prems False by simp
  qed
qed simp

lemma due_rows:
  assumes "distinct (map f_key (failed_notifications led))"
  shows "distinct (map f_key (due_failed_notifications backoff limit now led))"
    and "set (due_failed_notifications backoff limit now led) \<subseteq> set (failed_notifications led)"
proof -
  have "distinct (map f_key (filter (row_due backoff now) (failed_notifications led)))"
    using assms by (rule distinct_map_filter)
  then have "distinct (map f_key (sort_key f_first (filter (row_due backoff now) (failed_notifications led))))"
    by (simp add: distinct_map)
  then show "distinct (map f_key (due_failed_notifications backoff limit now led))"
    by (simp add: due_failed_notifications_def take_map [symmetric] distinct_take)
  show "set (due_failed_notifications backoff limit now led) \<subseteq> set (failed_notifications led)"
    by (auto simp: due_failed_notifications_def dest: in_set_takeD)
qed


definition example_row :: failed_row where
  "example_row = \<lparr>f_key = (''preprod'', ''aa'', ''scorer''), f_band = ''High'', f_rank = 2, f_group = None, f_payload = example_alert ''High'',
     f_attempts = 1, f_abandoned = False, f_first = 5, f_last = 5\<rparr>"

lemma example_row_lettered:
  "failed_notifications (snd (example_deliver 5 False ''High'' True no_ledger)) = [example_row]"
  "letter (''preprod'', ''aa'', ''scorer'') (snd (example_deliver 5 False ''High'' True no_ledger)) = Some example_row"
  by (simp_all add: example_first example_row_def letter_def)

lemma example_sweep_up: "sweep_up (example_env now up)"
  by (simp add: sweep_up_def example_up) (simp add: example_env_def)

lemma rank_values [simp]: "rank_of ''High'' = 2" "rank_of ''Critical'' = 3"
  by (simp_all add: rank_of_def BAND_RANK_def dict_get_def)


section \<open>Escalated dead letters\<close>

text \<open>A dead letter whose budget is spent is revived by a failure at a higher band, but with the attempts
  it had: the first retry that does not deliver it retires it again.\<close>

theorem escalation_keeps_the_spent_budget:
  assumes "letter key led = Some row" "NOTIFY_RETRY_MAX_ATTEMPTS cfg \<le> f_attempts row + 1" "f_rank row < rank_of band"
    and "0 \<le> rank_of band" "n_mark_ok env"
    and "led' = record_failed_notification now key band payload grp led"
  shows "\<exists>row'. letter key led' = Some row' \<and> f_band row' = band \<and> \<not> f_abandoned row' \<and> f_attempts row' = f_attempts row \<and>
     (\<exists>row''. letter key (count_failed_attempt cfg env row' led') = Some row'' \<and> f_abandoned row'' \<and> f_rank row'' = rank_of band)"
proof -
  have k: "f_key row = key" and mem: "row \<in> set (failed_notifications led)"
    using assms(1) find_SomeD [of _ _ row] by (auto simp: letter_def)
  have "find (\<lambda>r. f_key r = key) (map (\<lambda>r. if f_key r = key then escalate band grp payload r else r) rows) =
      map_option (escalate band grp payload) (find (\<lambda>r. f_key r = key) rows)" for rows
    by (induction rows) (auto simp: escalate_def)
  from this [of "failed_notifications led"] have l: "letter key led' = Some (escalate band grp payload row)"
    using assms(1,4,6) k mem by (auto simp: letter_def record_failed_notification_def)
  have e: "escalate band grp payload row = row\<lparr>f_band := band, f_rank := rank_of band, f_group := grp, f_payload := payload, f_abandoned := False\<rparr>"
    using assms(3) by (simp add: escalate_def)
  show ?thesis using l e assms(2,5) k by (simp add: count_failed_attempt_def letter_mark)
qed

theorem escalation_keeps_the_spent_budget_witness:
  "let led = snd (example_deliver 5 False ''High'' True no_ledger);
       led' = record_failed_notification 9 (''preprod'', ''aa'', ''scorer'') ''Critical'' (example_alert ''Critical'') None led
   in \<exists>row'. letter (''preprod'', ''aa'', ''scorer'') led' = Some row' \<and> f_band row' = ''Critical'' \<and> \<not> f_abandoned row' \<and> f_attempts row' = 1 \<and>
     (\<exists>row''. letter (''preprod'', ''aa'', ''scorer'') (count_failed_attempt example_settings (example_env 9 False) row' led') = Some row'' \<and>
        f_abandoned row'' \<and> f_rank row'' = 3)"
  using escalation_keeps_the_spent_budget [OF example_row_lettered(2), of example_settings "''Critical''" "example_env 9 False", OF _ _ _ _ refl]
  by (simp add: Let_def example_row_def example_settings_def example_env_def)

text \<open>The sweep reads its rows first and drops a delivered row by its key.  When the row it read at a lower
  band is delivered after a failure at a higher band has replaced it, the replacement is dropped too: there is
  then neither a claim nor a dead letter at the higher band.\<close>

theorem sweep_drops_an_escalation:
  assumes "f_key row = (net, tx, source)" "valid (f_payload row)"
    and "resolve_dispatch doc (f_band row) (a_attack_class (f_payload row)) = Inr ds" "ds \<noteq> []"
    and "deliver_with_dedup cfg env net tx (f_band row) (f_payload row) ds source (f_group row) False led = (DELIVER_SENT, led')"
    and "0 \<le> rank_of (f_band row)" "notified_rank (f_key row) led < rank_of band" "rank_of (f_band row) < rank_of band"
    and "n_delete_ok env"
  shows "\<not> already_notified (f_key row) band (retry_row cfg env valid doc row led) \<and>
     \<not> dead_lettered (f_key row) (rank_of band) (retry_row cfg env valid doc row led)"
proof -
  obtain d0 ds0 where "ds = d0 # ds0" using assms(4) by (cases ds) auto
  then have r: "retry_row cfg env valid doc row led = delete_failed_notification (f_key row) led'"
    using assms(1-3,5,9) by (simp add: retry_row_def withdraw_def)
  have "notified_rank (f_key row) led' < rank_of band"
    using deliver_sent_rank [OF assms(5,6), of "f_key row"] assms(7,8) by (auto split: if_splits)
  then have "\<not> already_notified (f_key row) band (retry_row cfg env valid doc row led)"
    using assms(6,8) by (simp add: r already_notified_rank)
  moreover have "\<not> dead_lettered (f_key row) (rank_of band) (retry_row cfg env valid doc row led)"
    by (simp add: r dead_lettered_def delete_failed_notification_def)
  ultimately show ?thesis ..
qed

definition escalated_ledger :: ledger where
  "escalated_ledger = snd (example_deliver 6 False ''Critical'' True (snd (example_deliver 5 False ''High'' True no_ledger)))"

lemma escalated_ledger_eq:
  "escalated_ledger = no_ledger\<lparr>failed_notifications :=
     [example_row\<lparr>f_band := ''Critical'', f_rank := 3, f_payload := example_alert ''Critical''\<rparr>]\<rparr>"
  unfolding escalated_ledger_def example_first
  by (simp add: example_deliver_def deliver_eq example_dispatched in_open_group_def already_notified_rank notified_rank_def
        no_ledger_def record_failed_notification_def escalate_def)
    (simp add: example_env_def example_settings_def example_row_def)

lemma escalated_delivery:
  "\<exists>led'. deliver_with_dedup example_settings (example_env 7 True) ''preprod'' ''aa'' ''High'' (example_alert ''High'')
     [\<lparr>d_channel = JStr ''email'', d_recipients = [JStr ''ops@example.com''], d_webhook_url = JNull\<rparr>] ''scorer'' None False escalated_ledger
     = (DELIVER_SENT, led')"
  unfolding escalated_ledger_eq
  by (simp add: deliver_eq in_open_group_def already_notified_rank notified_rank_def no_ledger_def)
    (simp add: dispatch_all_def send_one_def example_env_def)

theorem sweep_drops_an_escalation_witness:
  "dead_lettered (''preprod'', ''aa'', ''scorer'') 3 escalated_ledger \<and>
   \<not> already_notified (''preprod'', ''aa'', ''scorer'') ''Critical''
       (retry_row example_settings (example_env 7 True) (\<lambda>_. True) DEFAULT_CONFIG example_row escalated_ledger) \<and>
   \<not> dead_lettered (''preprod'', ''aa'', ''scorer'') 3
       (retry_row example_settings (example_env 7 True) (\<lambda>_. True) DEFAULT_CONFIG example_row escalated_ledger)"
proof -
  obtain led' where d: "deliver_with_dedup example_settings (example_env 7 True) ''preprod'' ''aa'' (f_band example_row) (f_payload example_row)
     [\<lparr>d_channel = JStr ''email'', d_recipients = [JStr ''ops@example.com''], d_webhook_url = JNull\<rparr>] ''scorer'' (f_group example_row) False escalated_ledger
     = (DELIVER_SENT, led')"
    using escalated_delivery by (auto simp: example_row_def)
  have r: "resolve_dispatch DEFAULT_CONFIG (f_band example_row) (a_attack_class (f_payload example_row)) =
      Inr [\<lparr>d_channel = JStr ''email'', d_recipients = [JStr ''ops@example.com''], d_webhook_url = JNull\<rparr>]"
    unfolding example_row_def example_alert_def failed_row.simps alert.simps by code_simp
  have k: "f_key example_row = (''preprod'', ''aa'', ''scorer'')" "f_band example_row = ''High''" by (simp_all add: example_row_def)
  have n: "notified_rank (''preprod'', ''aa'', ''scorer'') escalated_ledger = - 1" "n_delete_ok (example_env 7 True)"
    by (simp_all add: escalated_ledger_eq notified_rank_def no_ledger_def example_env_def)
  show ?thesis using sweep_drops_an_escalation [OF k(1) TrueI r _ d, of "''Critical''"] k n
    by (simp add: dead_lettered_def escalated_ledger_eq)
qed

end
