(* ===== verification/Pystat.thy ===== *)
theory Pystat
  imports Pyfloat
begin

text \<open>
  The numeric library functions the analysis uses beyond arithmetic: the built-in \<open>sum\<close> of floats (compensated
  since Python 3.12), \<open>math.isqrt\<close>, \<open>statistics.mean\<close> and \<open>statistics.stdev\<close> of integers (exact rational
  arithmetic, rounded once at the end), and \<open>bisect\<close> on sorted lists.
\<close>

section \<open>Compensated sums\<close>

definition cs_add :: "rat \<times> rat \<Rightarrow> rat \<Rightarrow> rat \<times> rat" where
  "cs_add s x =
     (case s of (hi, lo) \<Rightarrow>
        let t = fadd hi x
        in (t, fadd lo (if \<bar>hi\<bar> \<ge> \<bar>x\<bar> then fadd (fsub hi t) x else fadd (fsub x t) hi)))"

definition py_fsum :: "rat list \<Rightarrow> rat" where
  "py_fsum xs = (case xs of [] \<Rightarrow> 0 | x # xs \<Rightarrow> (case foldl cs_add (x, 0) xs of (hi, lo) \<Rightarrow> if lo = 0 then hi else fadd hi lo))"

section \<open>Integer square roots\<close>

fun isqrt :: "nat \<Rightarrow> nat" where
  "isqrt n = (if n = 0 then 0 else let s = 2 * isqrt (n div 4) in if (s + 1) * (s + 1) \<le> n then s + 1 else s)"

declare isqrt.simps [simp del]

lemma isqrt_spec: "isqrt n * isqrt n \<le> n \<and> n < (isqrt n + 1) * (isqrt n + 1)"
proof (induction n rule: isqrt.induct)
  case (1 n)
  show ?case
  proof (cases "n = 0")
    case True
    then show ?thesis by (simp add: isqrt.simps)
  next
    case False
    define q where "q = isqrt (n div 4)"
    have ih: "q * q \<le> n div 4" "n div 4 < (q + 1) * (q + 1)" using 1 [OF False] by (simp_all add: q_def)
    have "4 * (q * q) \<le> n" using ih(1) by linarith
    moreover have "n < 4 * ((q + 1) * (q + 1))" using ih(2) by linarith
    ultimately have lo: "(2 * q) * (2 * q) \<le> n" and hi: "n < (2 * q + 1 + 1) * (2 * q + 1 + 1)" by (simp_all add: algebra_simps)
    have "isqrt n = (if (2 * q + 1) * (2 * q + 1) \<le> n then 2 * q + 1 else 2 * q)"
      using False by (subst isqrt.simps) (simp add: q_def Let_def)
    then show ?thesis using lo hi by (simp add: not_le)
  qed
qed

text \<open>\<open>_integer_sqrt_of_frac_rto\<close> and \<open>_float_sqrt_of_frac\<close>: the square root of \<open>n / m\<close> rounded to odd with
  more than enough bits, and then to a float.\<close>

definition integer_sqrt_of_frac_rto :: "nat \<Rightarrow> nat \<Rightarrow> nat" where
  "integer_sqrt_of_frac_rto n m =
     (let a = isqrt (n div m) in if a * a * m \<noteq> n \<and> even a then a + 1 else a)"

definition float_sqrt_of_frac :: "nat \<Rightarrow> nat \<Rightarrow> rat" where
  "float_sqrt_of_frac n m =
     (let q = (bitlen (int n) - bitlen (int m) - 109) div 2
      in if q \<ge> 0 then fl (of_nat (integer_sqrt_of_frac_rto n (m * 2 ^ nat (2 * q)) * 2 ^ nat q))
         else fl (of_nat (integer_sqrt_of_frac_rto (n * 2 ^ nat (- 2 * q)) m) / 2 ^ nat (- q)))"

section \<open>Mean and standard deviation of integers\<close>

definition mean_frac :: "int list \<Rightarrow> rat" where
  "mean_frac xs = of_int (sum_list xs) / of_nat (length xs)"

text \<open>\<open>statistics.mean\<close>, as the operand of a float division.\<close>

definition py_mean :: "int list \<Rightarrow> rat" where
  "py_mean xs = fl (mean_frac xs)"

definition sample_variance :: "int list \<Rightarrow> rat" where
  "sample_variance xs = sum_list (map (\<lambda>x. (of_int x - mean_frac xs)\<^sup>2) xs) / of_nat (length xs - 1)"

definition py_stdev :: "int list \<Rightarrow> rat" where
  "py_stdev xs = (case quotient_of (sample_variance xs) of (n, d) \<Rightarrow> float_sqrt_of_frac (nat n) (nat d))"

section \<open>Bisection\<close>

definition bisect_right :: "int list \<Rightarrow> rat \<Rightarrow> nat" where
  "bisect_right xs x = length (takeWhile (\<lambda>y. of_int y \<le> x) xs)"

definition bisect_left :: "int list \<Rightarrow> rat \<Rightarrow> nat" where
  "bisect_left xs x = length (takeWhile (\<lambda>y. of_int y < x) xs)"

text \<open>What \<open>bisect\<close> promises of a sorted list.\<close>

lemma takeWhile_sorted_prefix:
  assumes "sorted xs" "\<And>x y. x \<le> y \<Longrightarrow> P y \<Longrightarrow> P x"
  shows "takeWhile P xs = filter P xs"
  using assms(1)
proof (induction xs)
  case (Cons x xs)
  then show ?case
  proof (cases "P x")
    case False
    then have "\<forall>y \<in> set xs. \<not> P y" using Cons.prems assms(2) by auto
    then show ?thesis using False by simp
  qed simp
qed simp

lemma before_bisect: "sorted xs \<Longrightarrow> i < bisect_right xs x \<Longrightarrow> of_int (xs ! i) \<le> x"
  unfolding bisect_right_def by (metis nth_mem set_takeWhileD takeWhile_nth)

lemma after_bisect:
  assumes "sorted xs" "bisect_right xs x \<le> i" "i < length xs"
  shows "x < of_int (xs ! i)"
proof -
  define j where "j = length (takeWhile (\<lambda>y. of_int y \<le> x) xs)"
  have "j < length xs" using assms by (simp add: j_def bisect_right_def)
  then have "\<not> of_int (xs ! j) \<le> x" unfolding j_def by (rule nth_length_takeWhile)
  moreover have "xs ! j \<le> xs ! i" using assms by (intro sorted_nth_mono) (simp_all add: j_def bisect_right_def)
  ultimately show ?thesis by (meson linorder_not_le of_int_le_iff order_trans)
qed

lemma before_bisect_left: "sorted xs \<Longrightarrow> i < bisect_left xs x \<Longrightarrow> of_int (xs ! i) < x"
  unfolding bisect_left_def by (metis nth_mem set_takeWhileD takeWhile_nth)

lemma at_bisect_left: "bisect_left xs x < length xs \<Longrightarrow> x \<le> of_int (xs ! bisect_left xs x)"
  unfolding bisect_left_def using nth_length_takeWhile [of "\<lambda>y. of_int y < x" xs] by fastforce

lemma bisect_le_length: "bisect_right xs x \<le> length xs" "bisect_left xs x \<le> length xs"
  by (simp_all add: bisect_right_def bisect_left_def length_takeWhile_le)

end
