(* ===== verification/Cycles.thy ===== *)
theory Cycles
  imports Scoring Bech32 Pystat "HOL-Library.List_Lexorder" "HOL-Library.Char_ord" "HOL-Library.Product_Lexorder"
begin

text \<open>
  The search for value cycles (\<open>src/backend/app/analysis/graph.py\<close>): the breadth-first walk over spends, the
  reading of the closing leg, the ring's path and its origin's history, and the statistics of the cycle.

  The ClickHouse tables (of one network) are lists of rows, and each query is the list it denotes; \<open>FINAL\<close> and
  \<open>DISTINCT\<close> drop repeated rows.  A read that raises is a flag of the database.  Sets are lists without
  repetition in the order of insertion, \<open>math.log2\<close> is a parameter.
\<close>

section \<open>Tables and settings\<close>

record input_row =
  ti_tx :: string
  ti_address :: string
  ti_index :: int
  ti_collateral :: bool
  ti_reference :: bool
  ti_unspent :: bool

record output_row =
  to_tx :: string
  to_index :: int
  to_address :: string
  to_amount :: int
  to_collateral :: bool

record history_row =
  hr_tx :: string
  hr_circular :: rat
  hr_intermediaries :: "string list"
  hr_origins :: "string list"
  hr_first_slot :: int

record chain_tables =
  tx_inputs :: "input_row list"
  tx_outputs :: "output_row list"
  tx_slots :: "(string \<times> int option) list"
  address_transactions :: "(string \<times> int \<times> string) list"
  score_history :: "history_row list"

record graph_db = chain_tables +
  inputs_readable :: bool
  outputs_readable :: bool
  hop_readable :: "nat \<Rightarrow> bool"
  closing_readable :: bool
  path_readable :: bool
  history_readable :: bool

record graph_settings =
  CYCLE_MAX_HOPS :: nat
  CYCLE_MAX_FANOUT :: nat
  MAX_AGE_SLOTS :: int
  MAX_OUTPUT_FANOUT :: nat
  BFS_HOP_ROW_LIMIT :: nat
  DEFAULT_INTER_HOP_DELTA_SLOTS :: int
  MIN_CYCLE_LENGTH :: nat
  MAX_CYCLE_LENGTH :: nat
  CLOSING_SUBSET_MAX_OUTPUTS :: nat
  RECURRENCE_WINDOW_DAYS :: int
  VALUE_PRESERVING_SIMILARITY :: rat

definition SLOTS_PER_DAY :: int where
  "SLOTS_PER_DAY = 86400"

definition RECURRENCE_WINDOW_SLOTS :: "'a graph_settings_scheme \<Rightarrow> int" where
  "RECURRENCE_WINDOW_SLOTS cfg = RECURRENCE_WINDOW_DAYS cfg * SLOTS_PER_DAY"

definition SAME_SLOT_DELTA_SLOTS :: int where
  "SAME_SLOT_DELTA_SLOTS = 1"

definition ReadError :: pyerr where
  "ReadError = RuntimeFailure ''clickhouse''"

section \<open>Queries\<close>

definition regular_input :: "'a input_row_scheme \<Rightarrow> bool" where
  "regular_input r \<longleftrightarrow> \<not> ti_collateral r \<and> \<not> ti_reference r \<and> \<not> ti_unspent r"

definition sender_addresses :: "'a chain_tables_scheme \<Rightarrow> string \<Rightarrow> string list" where
  "sender_addresses T tx =
     remdups (map ti_address (filter (\<lambda>r. ti_tx r = tx \<and> regular_input r \<and> ti_address r \<noteq> []) (tx_inputs T)))"

definition origin_outputs :: "'a chain_tables_scheme \<Rightarrow> string \<Rightarrow> (string \<times> int \<times> int option) list" where
  "origin_outputs T tx =
     concat (map (\<lambda>r. map (\<lambda>(_, s). (to_address r, to_amount r, s)) (remdups (filter (\<lambda>(t, _). t = tx) (tx_slots T))))
       (remdups (filter (\<lambda>r. to_tx r = tx \<and> \<not> to_collateral r) (tx_outputs T))))"

definition in_slots :: "int \<Rightarrow> int \<Rightarrow> int \<Rightarrow> bool" where
  "in_slots lo hi s \<longleftrightarrow> lo \<le> s \<and> s \<le> hi"

definition hop_prefilter :: "'a chain_tables_scheme \<Rightarrow> string list \<Rightarrow> int \<Rightarrow> int \<Rightarrow> string list" where
  "hop_prefilter T addrs lo hi =
     map (\<lambda>(_, _, tx). tx) (filter (\<lambda>(a, s, _). a \<in> set addrs \<and> in_slots lo hi s) (address_transactions T))"

definition hop_spends :: "'a chain_tables_scheme \<Rightarrow> string list \<Rightarrow> int \<Rightarrow> int \<Rightarrow> string \<Rightarrow> string list" where
  "hop_spends T addrs lo hi origin_tx =
     map ti_tx (filter (\<lambda>r. ti_address r \<in> set addrs \<and> regular_input r \<and> ti_tx r \<noteq> origin_tx \<and>
       ti_tx r \<in> set (hop_prefilter T addrs lo hi)) (tx_inputs T))"

definition hop_candidates :: "'a chain_tables_scheme \<Rightarrow> string list \<Rightarrow> int \<Rightarrow> int \<Rightarrow> string \<Rightarrow> (string \<times> int) list" where
  "hop_candidates T addrs lo hi origin_tx =
     remdups (List.map_filter (\<lambda>(tx, s).
       case s of None \<Rightarrow> None
       | Some s \<Rightarrow> if in_slots lo hi s \<and> tx \<in> set (hop_spends T addrs lo hi origin_tx) then Some (tx, s) else None) (tx_slots T))"

definition paid_outputs :: "'a chain_tables_scheme \<Rightarrow> string \<Rightarrow> (int \<times> string \<times> int) list" where
  "paid_outputs T tx =
     remdups (map (\<lambda>r. (to_index r, to_address r, to_amount r)) (filter (\<lambda>r. to_tx r = tx \<and> \<not> to_collateral r) (tx_outputs T)))"

type_synonym hop_row = "string \<times> string \<times> int \<times> int"

definition tx_rows :: "'a chain_tables_scheme \<Rightarrow> string \<times> int \<Rightarrow> hop_row list" where
  "tx_rows T c =
     (case c of (tx, s) \<Rightarrow>
        map (\<lambda>a. (tx, a, sum_list (map (\<lambda>(_, _, v). v) (filter (\<lambda>(_, a', _). a' = a) (paid_outputs T tx))), s))
          (remdups (map (\<lambda>(_, a, _). a) (paid_outputs T tx))))"

definition hop_query :: "'a chain_tables_scheme \<Rightarrow> string list \<Rightarrow> int \<Rightarrow> int \<Rightarrow> string \<Rightarrow> nat \<Rightarrow> hop_row list" where
  "hop_query T addrs lo hi origin_tx limit =
     take limit (sort_key (\<lambda>(tx, a, _, s). (s, tx, a)) (concat (map (tx_rows T) (hop_candidates T addrs lo hi origin_tx))))"

definition spenders :: "'a chain_tables_scheme \<Rightarrow> string list \<Rightarrow> string list" where
  "spenders T txs = remdups (map ti_address (filter (\<lambda>r. ti_tx r \<in> set txs \<and> regular_input r) (tx_inputs T)))"

definition address_key :: "string \<Rightarrow> string" where
  "address_key a = (if is_script_address a then a else payment_credential_or_raw a)"

definition first_sorted :: "string list \<Rightarrow> string" where
  "first_sorted addresses = (if addresses = [] then [] else hd (sort addresses))"

definition prior_origin_cycles ::
  "'a graph_settings_scheme \<Rightarrow> 'b chain_tables_scheme \<Rightarrow> string list \<Rightarrow> int \<Rightarrow> string \<Rightarrow> (rat \<times> string list) list" where
  "prior_origin_cycles cfg T origin origin_slot exclude =
     (let keys = map address_key origin @ origin
      in map (\<lambda>r. (hr_circular r, hr_intermediaries r))
           (filter (\<lambda>r. list_ex (\<lambda>k. k \<in> set keys) (hr_origins r) \<and> (hr_circular r \<ge> 0 \<or> hr_intermediaries r \<noteq> []) \<and>
              max 0 (origin_slot - RECURRENCE_WINDOW_SLOTS cfg) \<le> hr_first_slot r \<and> hr_first_slot r \<le> origin_slot \<and>
              hr_tx r \<noteq> exclude) (score_history T)))"

section \<open>The closing leg\<close>

definition amount_similarity :: "int list \<Rightarrow> rat" where
  "amount_similarity amounts =
     (if length amounts \<ge> 2
      then (if py_mean amounts > 0 then max 0 (min 1 (fsub 1 (fdiv (py_stdev amounts) (py_mean amounts)))) else 0)
      else if amounts \<noteq> [] \<and> amounts ! 0 > 0 then 1 else 0)"

definition subset_sums :: "int list \<Rightarrow> int list" where
  "subset_sums amounts = foldl (\<lambda>acc a. remdups (acc @ map (\<lambda>s. s + a) acc)) [0] amounts"

definition better_below :: "int option \<Rightarrow> int \<Rightarrow> bool" where
  "better_below b v = (case b of None \<Rightarrow> True | Some w \<Rightarrow> v > w)"

definition better_above :: "int option \<Rightarrow> int \<Rightarrow> bool" where
  "better_above b v = (case b of None \<Rightarrow> True | Some w \<Rightarrow> v < w)"

definition nearest_step :: "int list \<Rightarrow> rat \<Rightarrow> int option \<times> int option \<Rightarrow> int \<Rightarrow> int option \<times> int option" where
  "nearest_step right target acc a =
     (case acc of (lo, hi) \<Rightarrow>
        let d = fsub target (fl (of_int a));
            i = bisect_right right d;
            j = bisect_left right d
        in (if i \<noteq> 0 \<and> (a \<noteq> 0 \<or> right ! (i - 1) \<noteq> 0) \<and> better_below lo (a + right ! (i - 1))
            then Some (a + right ! (i - 1)) else lo,
            if j < length right \<and> (a \<noteq> 0 \<or> right ! j \<noteq> 0) \<and> better_above hi (a + right ! j)
            then Some (a + right ! j) else hi))"

definition nearest_subset_sums :: "int list \<Rightarrow> rat \<Rightarrow> int option \<times> int option" where
  "nearest_subset_sums amounts target =
     (let half = length amounts div 2;
          left = subset_sums (take half amounts);
          right = sort (subset_sums (drop half amounts))
      in foldl (nearest_step right target) (None, None) left)"

text \<open>\<open>max(xs, key=f)\<close>: the first element with the largest key.\<close>

fun max_by :: "('a \<Rightarrow> rat) \<Rightarrow> 'a \<Rightarrow> 'a list \<Rightarrow> 'a" where
  "max_by f b [] = b"
| "max_by f b (x # xs) = max_by f (if f x > f b then x else b) xs"

definition closing_finalists :: "'a graph_settings_scheme \<Rightarrow> int list \<Rightarrow> int \<Rightarrow> int list \<Rightarrow> int list" where
  "closing_finalists cfg amounts tot prior =
     (if sum_list prior > 0 \<and> amounts \<noteq> []
      then let peak = fl (of_int (sum_list (map (\<lambda>h. h * h) prior)) / of_int (sum_list prior))
           in if length amounts \<le> CLOSING_SUBSET_MAX_OUTPUTS cfg
              then (case nearest_subset_sums amounts peak of (b, a) \<Rightarrow> List.map_filter id [b, a])
              else [min (max (rne peak) (Min (set amounts))) tot]
      else [])"

definition closing_reading :: "'a graph_settings_scheme \<Rightarrow> int list \<Rightarrow> int \<Rightarrow> int \<Rightarrow> int list \<Rightarrow> int" where
  "closing_reading cfg amounts matched tot prior =
     max_by (\<lambda>c. amount_similarity (prior @ [c])) tot (matched # closing_finalists cfg amounts tot prior)"

definition origin_payments :: "'a chain_tables_scheme \<Rightarrow> string \<Rightarrow> string list \<Rightarrow> int list" where
  "origin_payments T tx origin =
     map to_amount (remdups (filter (\<lambda>r. to_tx r = tx \<and> to_address r \<in> set origin \<and> \<not> to_collateral r) (tx_outputs T)))"

definition closing_leg_amounts ::
  "'a graph_settings_scheme \<Rightarrow> 'b graph_db_scheme \<Rightarrow> string \<Rightarrow> nat \<Rightarrow> string list \<Rightarrow> int \<Rightarrow> int list \<Rightarrow> int \<times> int \<times> bool" where
  "closing_leg_amounts cfg D closing_tx cycle_length origin matched prior =
     (if \<not> (MIN_CYCLE_LENGTH cfg \<le> cycle_length \<and> cycle_length \<le> MAX_CYCLE_LENGTH cfg) then (matched, matched, False)
      else if \<not> closing_readable D then (matched, matched, True)
      else let amounts = origin_payments D closing_tx origin;
               tot = max (sum_list amounts) matched
           in (tot, closing_reading cfg amounts matched tot prior, False))"

section \<open>Path and history\<close>

record hop =
  hop_address :: string
  hop_amount :: int
  hop_slot :: int

definition representatives :: "hop list \<Rightarrow> string list" where
  "representatives hops = map hop_address (butlast (drop 1 hops))"

fun ring_back :: "'a chain_tables_scheme \<Rightarrow> string \<Rightarrow> (string, string) dict \<Rightarrow> string list list \<Rightarrow> string list \<Rightarrow> string list \<Rightarrow> string list" where
  "ring_back T origin_tx creator [] txs on_path = on_path"
| "ring_back T origin_tx creator (frontier # rest) txs on_path =
     (if txs = [] then on_path
      else let found = filter (\<lambda>a. a \<in> set frontier) (spenders T txs)
           in ring_back T origin_tx creator rest
                (removeAll origin_tx (remdups (map (\<lambda>a. the (map_of creator a)) found)))
                (remdups (on_path @ found)))"

definition ring_path :: "'a chain_tables_scheme \<Rightarrow> string \<Rightarrow> string \<Rightarrow> string list list \<Rightarrow> (string, string) dict \<Rightarrow> string list" where
  "ring_path T origin_tx closing_tx queried creator = sort (ring_back T origin_tx creator (rev queried) [closing_tx] [])"

definition cycle_history ::
  "'a graph_settings_scheme \<Rightarrow> 'b graph_db_scheme \<Rightarrow> string \<Rightarrow> string \<Rightarrow> nat \<Rightarrow> string list \<Rightarrow> hop list \<Rightarrow> string list list \<Rightarrow>
     (string, string) dict \<Rightarrow> string list \<times> (rat \<times> string list) list \<times> bool" where
  "cycle_history cfg D origin_tx closing_tx cycle_length origin hops queried creator =
     (if \<not> (MIN_CYCLE_LENGTH cfg \<le> cycle_length \<and> cycle_length \<le> MAX_CYCLE_LENGTH cfg) then (representatives hops, [], False)
      else if \<not> (path_readable D \<and> history_readable D) then (representatives hops, [], True)
      else let path = ring_path D origin_tx closing_tx queried creator
           in (if path \<noteq> [] then path else representatives hops,
               prior_origin_cycles cfg D origin (hop_slot (hd hops)) origin_tx, False))"

section \<open>The statistics of a cycle\<close>

definition occurrences :: "'a list \<Rightarrow> nat list" where
  "occurrences xs = map (\<lambda>x. length (filter (\<lambda>y. y = x) xs)) (rev (remdups (rev xs)))"

definition shannon_bits :: "(rat \<Rightarrow> rat) \<Rightarrow> string list \<Rightarrow> rat" where
  "shannon_bits log2 xs =
     (let n = length xs
      in py_fsum (map (\<lambda>c. fmul (fl (of_nat c / of_nat n)) (log2 (fl (of_nat n / of_nat c)))) (occurrences xs)))"

record cycle =
  cycle_length :: nat
  cyc_addresses :: "string list"
  cyc_hops :: "hop list"
  cyc_similarity :: rat
  net_loss_ratio :: rat
  recurrence_count :: nat
  prior_cycles_in_window :: nat
  recycled_share :: rat
  recipient_entropy :: rat
  round_amount_flag :: bool
  temporal_concentration :: rat
  mean_inter_hop_delta_slots :: rat
  origin_cluster :: string
  intermediaries :: "string list"
  origin_keys :: "string list"
  history_unavailable :: bool
  returned_lovelace :: int
  closing_leg_unavailable :: bool

definition loss_ratio :: "int \<Rightarrow> int \<Rightarrow> rat" where
  "loss_ratio origin_amount final_amount =
     (if origin_amount > 0 then fl (of_int (max 0 (origin_amount - final_amount)) / of_int origin_amount) else 1)"

definition cycle_entropy :: "(rat \<Rightarrow> rat) \<Rightarrow> string list \<Rightarrow> rat" where
  "cycle_entropy log2 addresses =
     (let n = length (remdups addresses) in if n > 1 then fdiv (shannon_bits log2 addresses) (log2 (of_nat n)) else 0)"

definition share_recycled :: "string list \<Rightarrow> (rat \<times> string list) list \<Rightarrow> rat" where
  "share_recycled current prior =
     (if current = [] then 0
      else fl (of_nat (length (filter (\<lambda>k. list_ex (\<lambda>(_, ks). k \<in> set ks) prior) current)) / of_nat (length current)))"

definition concentration :: "nat \<Rightarrow> int list \<Rightarrow> rat" where
  "concentration len slots =
     (if length slots \<ge> 2
      then let span = Max (set slots) - Min (set slots) in if span > 0 then fl (of_nat len / of_int span) else 1
      else 0)"

fun hop_deltas :: "int list \<Rightarrow> int list" where
  "hop_deltas (s # t # ss) = (if t \<ge> s then [max (t - s) SAME_SLOT_DELTA_SLOTS] else []) @ hop_deltas (t # ss)"
| "hop_deltas _ = []"

definition mean_delta :: "'a graph_settings_scheme \<Rightarrow> int list \<Rightarrow> rat" where
  "mean_delta cfg slots =
     (let ds = hop_deltas slots
      in if length slots \<ge> 2 \<and> ds \<noteq> [] then fl (of_int (sum_list ds) / of_nat (length ds))
         else fl (of_int (DEFAULT_INTER_HOP_DELTA_SLOTS cfg)))"

definition build_cycle_result ::
  "'a graph_settings_scheme \<Rightarrow> (rat \<Rightarrow> rat) \<Rightarrow> nat \<Rightarrow> string list \<Rightarrow> int \<Rightarrow> int \<Rightarrow> hop list \<Rightarrow> string list \<Rightarrow> string list \<Rightarrow>
     (rat \<times> string list) list \<Rightarrow> bool \<Rightarrow> bool \<Rightarrow> cycle" where
  "build_cycle_result cfg log2 len addresses origin_amount final_amount hops origin path prior_cycles no_history no_leg =
     (let similarity = amount_similarity (map hop_amount hops);
          slots = map hop_slot hops;
          current = remdups (map address_key path);
          prior = map (\<lambda>(score, p). (score, remdups (map address_key p))) prior_cycles;
          share = share_recycled current prior;
          own = cycle_entropy log2 addresses
      in \<lparr>cycle_length = len, cyc_addresses = take 20 (remdups addresses), cyc_hops = hops,
          cyc_similarity = fround similarity 4, net_loss_ratio = fround (loss_ratio origin_amount final_amount) 4,
          recurrence_count = length (filter (\<lambda>(score, ks). score \<ge> BAND_HIGH_THRESHOLD \<and> list_ex (\<lambda>k. k \<in> set ks) current) prior),
          prior_cycles_in_window = length prior_cycles, recycled_share = fround share 4,
          recipient_entropy = fround (if fround similarity 4 > VALUE_PRESERVING_SIMILARITY cfg then min own (fsub 1 share) else own) 4,
          round_amount_flag = (origin_amount > 0 \<and> origin_amount mod LOVELACE_PER_ADA = 0),
          temporal_concentration = fround (min (concentration len slots) 1) 4,
          mean_inter_hop_delta_slots = fround (mean_delta cfg slots) 2,
          origin_cluster = (if first_sorted origin = [] then ''__unknown__'' else first_sorted origin),
          intermediaries = path, origin_keys = sort (remdups (map address_key origin)), history_unavailable = no_history,
          returned_lovelace = final_amount, closing_leg_unavailable = no_leg\<rparr>)"

section \<open>The search\<close>

datatype scan =
    Closed string string int int "(string, string) dict"
  | Next "string list" int int "(string, string) dict"

text \<open>The rows of one hop: the closing transaction, or the next frontier.\<close>

fun scan_rows ::
  "string list \<Rightarrow> string list \<Rightarrow> hop_row list \<Rightarrow> string list \<Rightarrow> int \<Rightarrow> int \<Rightarrow> (string, string) dict \<Rightarrow> scan" where
  "scan_rows origin visited [] next amount hs creator = Next next amount hs creator"
| "scan_rows origin visited ((tx, a, paid, s) # rows) next amount hs creator =
     (if a \<in> set origin then Closed tx a paid s creator
      else if a \<notin> set visited
      then scan_rows origin visited rows (if a \<in> set next then next else next @ [a]) (amount + paid) (max hs s)
             (if map_of creator a = None then creator @ [(a, tx)] else creator)
      else scan_rows origin visited rows next amount (max hs s) creator)"

record walk =
  w_current :: "string list"
  w_visited :: "string list"
  w_addresses :: "string list"
  w_hops :: "hop list"
  w_creator :: "(string, string) dict"
  w_queried :: "string list list"

record closure_found =
  cl_hop :: nat
  cl_tx :: string
  cl_address :: string
  cl_paid :: int
  cl_slot :: int
  cl_walk :: walk

fun walk_hops ::
  "'a graph_settings_scheme \<Rightarrow> 'b graph_db_scheme \<Rightarrow> string \<Rightarrow> string list \<Rightarrow> int \<Rightarrow> nat \<Rightarrow> nat \<Rightarrow> walk \<Rightarrow>
     closure_found option result" where
  "walk_hops cfg D tx origin slot0 0 hop w = Inr None"
| "walk_hops cfg D tx origin slot0 (Suc n) hop w =
     (if w_current w = [] then Inr None
      else
        let frontier = take (CYCLE_MAX_FANOUT cfg) (sort (w_current w));
            w = w\<lparr>w_queried := w_queried w @ [frontier]\<rparr>
        in if \<not> hop_readable D hop then Inl ReadError
           else case hop_query D frontier slot0 (slot0 + MAX_AGE_SLOTS cfg) tx (BFS_HOP_ROW_LIMIT cfg) of
                  [] \<Rightarrow> Inr None
                | rows \<Rightarrow>
                    (case scan_rows origin (w_visited w) rows [] 0 0 (w_creator w) of
                       Closed ctx a paid s creator \<Rightarrow>
                         Inr (Some \<lparr>cl_hop = hop, cl_tx = ctx, cl_address = a, cl_paid = paid, cl_slot = s,
                                    cl_walk = w\<lparr>w_creator := creator\<rparr>\<rparr>)
                     | Next next amount hs creator \<Rightarrow>
                         walk_hops cfg D tx origin slot0 n (hop + 1)
                           (w\<lparr>w_addresses := w_addresses w @ w_current w,
                              w_hops := w_hops w @ [\<lparr>hop_address = first_sorted (w_current w), hop_amount = amount, hop_slot = hs\<rparr>],
                              w_visited := w_visited w @ next, w_current := next, w_creator := creator\<rparr>)))"

text \<open>What the search starts from: the origin, its recipients and the first hop; nothing when there is nothing
  to search.\<close>

definition start_walk :: "'a graph_settings_scheme \<Rightarrow> 'b chain_tables_scheme \<Rightarrow> string \<Rightarrow> (int \<times> int \<times> walk) option" where
  "start_walk cfg T tx =
     (let origin = sender_addresses T tx;
          outs = origin_outputs T tx;
          foreign = filter (\<lambda>(a, _, _). a \<notin> set origin) outs;
          current = remdups (map fst foreign);
          amount = sum_list (map (\<lambda>(_, v, _). v) foreign)
      in if origin = [] \<or> outs = [] \<or> current = [] \<or> length current > MAX_OUTPUT_FANOUT cfg then None
         else let slot0 = (case hd outs of (_, _, s) \<Rightarrow> (case s of None \<Rightarrow> 0 | Some s \<Rightarrow> s))
              in Some (amount, slot0,
                   \<lparr>w_current = current, w_visited = origin @ current, w_addresses = origin,
                    w_hops = [\<lparr>hop_address = first_sorted origin, hop_amount = amount, hop_slot = slot0\<rparr>],
                    w_creator = map (\<lambda>a. (a, tx)) current, w_queried = []\<rparr>))"

definition close_cycle ::
  "'a graph_settings_scheme \<Rightarrow> (rat \<Rightarrow> rat) \<Rightarrow> 'b graph_db_scheme \<Rightarrow> string \<Rightarrow> string list \<Rightarrow> int \<Rightarrow> closure_found \<Rightarrow> cycle" where
  "close_cycle cfg log2 D tx origin amount c =
     (let w = cl_walk c; len = cl_hop c + 1;
          (returned, reading, no_leg) =
            closing_leg_amounts cfg D (cl_tx c) len origin (cl_paid c) (map hop_amount (w_hops w));
          hops = w_hops w @ [\<lparr>hop_address = cl_address c, hop_amount = reading, hop_slot = cl_slot c\<rparr>];
          (path, prior, no_history) = cycle_history cfg D tx (cl_tx c) len origin hops (w_queried w) (w_creator w)
      in build_cycle_result cfg log2 len (w_addresses w @ w_current w @ [cl_address c]) amount returned hops origin path prior
           no_history no_leg)"

definition detect_cycle ::
  "'a graph_settings_scheme \<Rightarrow> (rat \<Rightarrow> rat) \<Rightarrow> 'b graph_db_scheme \<Rightarrow> string \<Rightarrow> nat \<Rightarrow> cycle option result" where
  "detect_cycle cfg log2 D tx max_hops =
     (if \<not> inputs_readable D then Inl ReadError
      else if sender_addresses D tx = [] then Inr None
      else if \<not> outputs_readable D then Inl ReadError
      else case start_walk cfg D tx of
             None \<Rightarrow> Inr None
           | Some (amount, slot0, w) \<Rightarrow>
               rbind (walk_hops cfg D tx (sender_addresses D tx) slot0 (if max_hops = 0 then CYCLE_MAX_HOPS cfg else max_hops) 1 w)
                 (\<lambda>found. Inr (map_option (close_cycle cfg log2 D tx (sender_addresses D tx) amount) found)))"


end
