(* ===== verification/Cycle_Closing.thy ===== *)
theory Cycle_Closing
  imports Cycles
begin

text \<open>
  The reading of a cycle's closing leg: the search for the nearest subset sums, which meets in the middle, is
  exact, and the amount it leads to preserves at least as much value as either of the two earlier readings.
\<close>

section \<open>Subset sums\<close>

definition all_sums :: "int list \<Rightarrow> int set" where
  "all_sums xs = sum_list ` set (subseqs xs)"

lemma all_sums_simps [simp]:
  "all_sums [] = {0}"
  "all_sums (x # xs) = all_sums xs \<union> (+) x ` all_sums xs"
  by (auto simp: all_sums_def Let_def image_Un image_image)

lemma image_plus_Times:
  fixes x :: int
  shows "(\<lambda>(a, b). a + b) ` (((+) x ` A) \<times> B) = (+) x ` (\<lambda>(a, b). a + b) ` (A \<times> B)"
    and "(\<lambda>(a, b). a + b) ` (A \<times> ((+) x ` B)) = (+) x ` (\<lambda>(a, b). a + b) ` (A \<times> B)"
  by (force simp: image_def)+

lemma plus_shift:
  fixes x :: int
  shows "(\<lambda>(a, b). a + b) ` ((A \<union> (+) x ` A) \<times> B) =
    (\<lambda>(a, b). a + b) ` (A \<times> B) \<union> (+) x ` (\<lambda>(a, b). a + b) ` (A \<times> B)"
  unfolding Sigma_Un_distrib1 image_Un image_plus_Times ..

lemma all_sums_append: "all_sums (xs @ ys) = (\<lambda>(a, b). a + b) ` (all_sums xs \<times> all_sums ys)"
proof (induction xs)
  case Nil
  show ?case by (auto simp: image_iff)
next
  case (Cons x xs)
  show ?case unfolding append_Cons all_sums_simps Cons.IH plus_shift ..
qed

lemma finite_all_sums [simp]: "finite (all_sums xs)"
  by (simp add: all_sums_def)

lemma all_sums_bounds: "\<forall>x \<in> set xs. 0 \<le> x \<Longrightarrow> s \<in> all_sums xs \<Longrightarrow> 0 \<le> s \<and> s \<le> sum_list xs"
  by (induction xs arbitrary: s) force+

lemma zero_in_all_sums [simp]: "0 \<in> all_sums xs"
  by (induction xs) auto

lemma shift_plus:
  fixes x :: int
  shows "(\<lambda>(a, b). a + b) ` ((A \<union> (+) x ` A) \<times> B) = (\<lambda>(a, b). a + b) ` (A \<times> (B \<union> (+) x ` B))"
  unfolding Sigma_Un_distrib1 Sigma_Un_distrib2 image_Un image_plus_Times ..

lemma set_subset_sums: "set (subset_sums xs) = all_sums xs"
proof -
  have "set (foldl (\<lambda>acc a. remdups (acc @ map (\<lambda>s. s + a) acc)) acc xs) = (\<lambda>(a, b). a + b) ` (set acc \<times> all_sums xs)" for acc
  proof (induction xs arbitrary: acc)
    case Nil
    show ?case by (auto simp: image_iff)
  next
    case (Cons x xs)
    show ?case unfolding foldl_Cons Cons.IH all_sums_simps shift_plus [symmetric] by (simp add: add.commute [of _ x])
  qed
  from this [of "[0]"] show ?thesis by (simp add: subset_sums_def image_def)
qed

section \<open>Meeting in the middle\<close>

text \<open>The reference: all subset sums but zero, and the nearest of them on either side.\<close>

definition opt_max :: "int set \<Rightarrow> int option" where
  "opt_max S = (if S = {} then None else Some (Max S))"

definition opt_min :: "int set \<Rightarrow> int option" where
  "opt_min S = (if S = {} then None else Some (Min S))"

definition nearest_reference :: "int list \<Rightarrow> rat \<Rightarrow> int option \<times> int option" where
  "nearest_reference amounts target =
     (opt_max {s \<in> all_sums amounts. s \<noteq> 0 \<and> of_int s \<le> target}, opt_min {s \<in> all_sums amounts. s \<noteq> 0 \<and> target \<le> of_int s})"

lemma opt_max_Un:
  assumes "finite A" "finite B"
  shows "opt_max (A \<union> B) = (case opt_max B of None \<Rightarrow> opt_max A | Some v \<Rightarrow> if better_below (opt_max A) v then Some v else opt_max A)"
proof (cases "A = {} \<or> B = {}")
  case False
  define p q where "p = Max A" and "q = Max B"
  have "Max (A \<union> B) = max p q" using False assms unfolding p_def q_def by (intro Max_Un) auto
  then show ?thesis using False by (simp add: opt_max_def better_below_def p_def [symmetric] q_def [symmetric] max_def)
qed (auto simp: opt_max_def better_below_def)

lemma opt_min_Un:
  assumes "finite A" "finite B"
  shows "opt_min (A \<union> B) = (case opt_min B of None \<Rightarrow> opt_min A | Some v \<Rightarrow> if better_above (opt_min A) v then Some v else opt_min A)"
proof (cases "A = {} \<or> B = {}")
  case False
  define p q where "p = Min A" and "q = Min B"
  have "Min (A \<union> B) = min p q" using False assms unfolding p_def q_def by (intro Min_Un) auto
  then show ?thesis using False by (simp add: opt_min_def better_above_def p_def [symmetric] q_def [symmetric] min_def)
qed (auto simp: opt_min_def better_above_def)

lemma opt_max_eqI: "finite S \<Longrightarrow> v \<in> S \<Longrightarrow> (\<And>w. w \<in> S \<Longrightarrow> w \<le> v) \<Longrightarrow> opt_max S = Some v"
  unfolding opt_max_def by (auto intro: Max_eqI)

lemma opt_min_eqI: "finite S \<Longrightarrow> v \<in> S \<Longrightarrow> (\<And>w. w \<in> S \<Longrightarrow> v \<le> w) \<Longrightarrow> opt_min S = Some v"
  unfolding opt_min_def by (auto intro: Min_eqI)

text \<open>Comparing with the rounded difference is comparing the sums with the target.\<close>

lemma difference_compares:
  assumes t: "is_float t" "0 < t" "t < 2 ^ 53" and a: "0 \<le> a" "a < 2 ^ 53" and r: "0 \<le> r"
  shows "of_int r \<le> fsub t (fl (of_int a)) \<longleftrightarrow> of_int (a + r) \<le> t"
    and "of_int r < fsub t (fl (of_int a)) \<longleftrightarrow> of_int (a + r) < t"
proof -
  have fa: "fl (of_int a) = of_int a" using a by (intro fl_of_int) simp
  have "(of_int r \<le> fsub t (of_int a) \<longleftrightarrow> of_int (a + r) \<le> t) \<and> (of_int r < fsub t (of_int a) \<longleftrightarrow> of_int (a + r) < t)"
  proof (cases "of_int a \<le> t")
    case True
    then show ?thesis using fsub_int_exact [OF t(1) a(1) True t(3)] by auto
  next
    case False
    then have neg: "fsub t (of_int a) < 0" using a by (intro fsub_neg [OF t(1)]) (auto intro: is_float_of_int)
    have "(0::rat) \<le> of_int r" using r by simp
    then show ?thesis using neg False by auto
  qed
  then show "of_int r \<le> fsub t (fl (of_int a)) \<longleftrightarrow> of_int (a + r) \<le> t"
    and "of_int r < fsub t (fl (of_int a)) \<longleftrightarrow> of_int (a + r) < t" by (simp_all only: fa)
qed

lemma step_below:
  assumes t: "is_float t" "0 < t" "t < 2 ^ 53" and a: "0 \<le> a" "a < 2 ^ 53"
    and right: "sorted right" "\<forall>r \<in> set right. 0 \<le> r"
  shows "fst (nearest_step right t (lo, hi) a) =
    (case opt_max {s \<in> (+) a ` set right. s \<noteq> 0 \<and> of_int s \<le> t} of
       None \<Rightarrow> lo | Some v \<Rightarrow> if better_below lo v then Some v else lo)"
proof -
  define i where "i = bisect_right right (fsub t (fl (of_int a)))"
  let ?C = "{s \<in> (+) a ` set right. s \<noteq> 0 \<and> of_int s \<le> t}"
  have il: "i \<le> length right" by (simp add: i_def bisect_le_length)
  have cmp: "of_int (right ! k) \<le> fsub t (fl (of_int a)) \<longleftrightarrow> of_int (a + right ! k) \<le> t" if "k < length right" for k
    using that right by (intro difference_compares t a) auto
  have low: "of_int (a + right ! k) \<le> t" if "k < i" for k
    using before_bisect [OF right(1), of k "fsub t (fl (of_int a))"] that il cmp [of k] by (simp add: i_def [symmetric])
  have idx: "k < i" if "k < length right" "of_int (a + right ! k) \<le> t" for k
    using after_bisect [OF right(1), of "fsub t (fl (of_int a))" k] that cmp [of k] by (simp add: i_def [symmetric] linorder_not_le [symmetric]) blast
  show ?thesis
  proof (cases "i \<noteq> 0 \<and> (a \<noteq> 0 \<or> right ! (i - 1) \<noteq> 0)")
    case True
    have pos: "a + right ! (i - 1) \<noteq> 0" using True a right(2) il by (auto simp: add_nonneg_eq_0_iff)
    have "opt_max ?C = Some (a + right ! (i - 1))"
    proof (rule opt_max_eqI)
      show "a + right ! (i - 1) \<in> ?C" using True pos il low [of "i - 1"] by auto
      fix w assume "w \<in> ?C"
      then obtain k where k: "k < length right" "w = a + right ! k" "of_int w \<le> t" by (auto simp: in_set_conv_nth)
      then have "k < i" using idx by simp
      then have "right ! k \<le> right ! (i - 1)" using il by (intro sorted_nth_mono [OF right(1)]) auto
      then show "w \<le> a + right ! (i - 1)" by (simp add: k(2))
    qed simp
    then show ?thesis using True by (simp add: nearest_step_def Let_def i_def)
  next
    case False
    have "?C = {}"
    proof (rule ccontr)
      assume "?C \<noteq> {}"
      then obtain k where k: "k < length right" "a + right ! k \<noteq> 0" "of_int (a + right ! k) \<le> t" by (auto simp: in_set_conv_nth)
      then have "k < i" by (rule_tac idx)
      then have "right ! k \<le> right ! (i - 1)" using il by (intro sorted_nth_mono [OF right(1)]) auto
      moreover have "right ! (i - 1) = 0" "a = 0" using False \<open>k < i\<close> by auto
      ultimately show False using k right(2) by (metis add.left_neutral nth_mem order_antisym)
    qed
    then have "opt_max ?C = None" unfolding opt_max_def by simp
    then show ?thesis using False by (auto simp: nearest_step_def Let_def i_def)
  qed
qed

lemma step_above:
  assumes t: "is_float t" "0 < t" "t < 2 ^ 53" and a: "0 \<le> a" "a < 2 ^ 53"
    and right: "sorted right" "\<forall>r \<in> set right. 0 \<le> r"
  shows "snd (nearest_step right t (lo, hi) a) =
    (case opt_min {s \<in> (+) a ` set right. s \<noteq> 0 \<and> t \<le> of_int s} of
       None \<Rightarrow> hi | Some v \<Rightarrow> if better_above hi v then Some v else hi)"
proof -
  define j where "j = bisect_left right (fsub t (fl (of_int a)))"
  let ?C = "{s \<in> (+) a ` set right. s \<noteq> 0 \<and> t \<le> of_int s}"
  have cmp: "of_int (right ! k) < fsub t (fl (of_int a)) \<longleftrightarrow> of_int (a + right ! k) < t" if "k < length right" for k
    using that right by (intro difference_compares t a) auto
  have idx: "j \<le> k" if "k < length right" "t \<le> of_int (a + right ! k)" for k
  proof (rule ccontr)
    assume "\<not> j \<le> k"
    then show False using before_bisect_left [OF right(1), of k] that cmp [of k] by (simp add: j_def [symmetric])
  qed
  show ?thesis
  proof (cases "j < length right")
    case True
    have "t \<le> of_int (a + right ! j)" using at_bisect_left [of right "fsub t (fl (of_int a))"] True cmp [of j]
      by (simp add: j_def [symmetric] linorder_not_less [symmetric])
    moreover from this have pos: "a + right ! j \<noteq> 0" using t(2) by auto
    ultimately have "opt_min ?C = Some (a + right ! j)"
    proof (intro opt_min_eqI)
      fix w assume "w \<in> ?C"
      then obtain k where k: "k < length right" "w = a + right ! k" "t \<le> of_int w" by (auto simp: in_set_conv_nth)
      then have "right ! j \<le> right ! k" using idx by (intro sorted_nth_mono [OF right(1)]) auto
      then show "a + right ! j \<le> w" by (simp add: k(2))
    qed (use True in auto)
    moreover have "a \<noteq> 0 \<or> right ! j \<noteq> 0" using pos by auto
    ultimately show ?thesis using True by (simp add: nearest_step_def Let_def j_def)
  next
    case False
    have "?C = {}" using idx False by (auto simp: in_set_conv_nth)
    then have "opt_min ?C = None" unfolding opt_min_def by simp
    then show ?thesis using False by (simp add: nearest_step_def Let_def j_def)
  qed
qed

lemma fold_nearest:
  assumes t: "is_float t" "0 < t" "t < 2 ^ 53" and left: "\<forall>a \<in> set left. 0 \<le> a \<and> a < 2 ^ 53"
    and right: "sorted right" "\<forall>r \<in> set right. 0 \<le> r" and fin: "finite L" "finite H"
  shows "foldl (nearest_step right t) (opt_max L, opt_min H) left =
    (opt_max (L \<union> (\<Union>a \<in> set left. {s \<in> (+) a ` set right. s \<noteq> 0 \<and> of_int s \<le> t})),
     opt_min (H \<union> (\<Union>a \<in> set left. {s \<in> (+) a ` set right. s \<noteq> 0 \<and> t \<le> of_int s})))"
  using left fin
proof (induction left arbitrary: L H)
  case (Cons a left)
  let ?B = "{s \<in> (+) a ` set right. s \<noteq> 0 \<and> of_int s \<le> t}" and ?A = "{s \<in> (+) a ` set right. s \<noteq> 0 \<and> t \<le> of_int s}"
  have "nearest_step right t (opt_max L, opt_min H) a = (opt_max (L \<union> ?B), opt_min (H \<union> ?A))"
    using step_below [OF t _ _ right, of a "opt_max L" "opt_min H"] step_above [OF t _ _ right, of a "opt_max L" "opt_min H"] Cons.prems
    by (intro prod_eqI) (simp_all only: fst_conv snd_conv, simp_all add: opt_max_Un opt_min_Un)
  then show ?case using Cons.IH [of "L \<union> ?B" "H \<union> ?A"] Cons.prems by (simp add: Un_assoc)
qed simp

text \<open>C12. The search for the subset sums nearest to a target, which sums the subsets of two halves and bisects,
  is exact: it returns the largest non-zero subset sum that does not exceed the target and the smallest one that
  the target does not exceed, for every list of amounts that together stay within the integers a float holds.\<close>

theorem nearest_subset_sums_exact:
  assumes "\<forall>x \<in> set amounts. 0 \<le> x" "sum_list amounts < 2 ^ 53" "is_float target" "0 < target" "target < 2 ^ 53"
  shows "nearest_subset_sums amounts target = nearest_reference amounts target"
proof -
  define k where "k = length amounts div 2"
  define left where "left = subset_sums (take k amounts)"
  define right where "right = sort (subset_sums (drop k amounts))"
  have parts: "\<forall>x \<in> set (take k amounts). 0 \<le> x" "\<forall>x \<in> set (drop k amounts). 0 \<le> x"
    using assms(1) by (auto dest: in_set_takeD in_set_dropD)
  have "sum_list (take k amounts) + sum_list (drop k amounts) = sum_list amounts"
    by (simp add: sum_list_append [symmetric])
  moreover have "0 \<le> sum_list (drop k amounts)" using parts(2) by (intro sum_list_nonneg) auto
  ultimately have small: "sum_list (take k amounts) < 2 ^ 53" using assms(2) by linarith
  have l: "\<forall>a \<in> set left. 0 \<le> a \<and> a < 2 ^ 53"
    using all_sums_bounds [OF parts(1)] small unfolding left_def set_subset_sums by (meson order.strict_trans1)
  have r: "sorted right" "\<forall>r \<in> set right. 0 \<le> r"
    using all_sums_bounds [OF parts(2)] by (auto simp: right_def set_subset_sums)
  have "all_sums amounts = all_sums (take k amounts @ drop k amounts)" by simp
  also have "\<dots> = (\<Union>a \<in> set left. (+) a ` set right)"
    unfolding all_sums_append by (auto simp: left_def right_def set_subset_sums)
  finally have cover: "all_sums amounts = (\<Union>a \<in> set left. (+) a ` set right)" .
  have "nearest_subset_sums amounts target = foldl (nearest_step right target) (opt_max {}, opt_min {}) left"
    by (simp add: nearest_subset_sums_def Let_def left_def right_def k_def opt_max_def opt_min_def)
  also have "\<dots> = nearest_reference amounts target"
    unfolding fold_nearest [OF assms(3,4,5) l r finite.emptyI finite.emptyI] nearest_reference_def cover
    by (auto intro!: arg_cong [where f = opt_max] arg_cong [where f = opt_min])
  finally show ?thesis .
qed

theorem nearest_subset_sums_exact_witness:
  "nearest_subset_sums [5, 3, 9] 10 = (Some 9, Some 12)"
proof -
  have "nearest_subset_sums [5, 3, 9] 10 = nearest_reference [5, 3, 9] 10"
    by (rule nearest_subset_sums_exact) (simp_all add: is_float_def)
  moreover have b: "{s \<in> all_sums [5, 3, 9]. s \<noteq> 0 \<and> of_int s \<le> (10 :: rat)} = {9, 3, 5, 8}"
    "{s \<in> all_sums [5, 3, 9]. s \<noteq> 0 \<and> (10 :: rat) \<le> of_int s} = {12, 14, 17}" by auto
  ultimately show ?thesis unfolding nearest_reference_def opt_max_def opt_min_def b by simp
qed

section \<open>The reading\<close>

lemma max_by_ge: "f b \<le> f (max_by f b xs) \<and> (\<forall>x \<in> set xs. f x \<le> f (max_by f b xs))"
proof (induction xs arbitrary: b)
  case (Cons y ys)
  show ?case using Cons.IH [of y] Cons.IH [of b] by (cases "f y > f b") (auto intro: order_trans)
qed simp

lemma max_by_mem: "max_by f b xs \<in> insert b (set xs)"
proof (induction xs arbitrary: b)
  case (Cons y ys)
  show ?case using Cons.IH [of "if f y > f b then y else b"] by (auto split: if_splits)
qed simp

text \<open>The reading of a closing leg preserves at least as much value as the matched row and as the total of the
  leg, and the total never falls below the matched row.\<close>

theorem closing_leg_reading:
  fixes cfg :: graph_settings
  assumes "closing_leg_amounts cfg D closing_tx len origin matched prior = (returned, reading, failed)"
  shows "matched \<le> returned \<and>
    amount_similarity (prior @ [matched]) \<le> amount_similarity (prior @ [reading]) \<and>
    amount_similarity (prior @ [returned]) \<le> amount_similarity (prior @ [reading])"
proof -
  have "amount_similarity (prior @ [tot]) \<le> amount_similarity (prior @ [closing_reading cfg amounts matched tot prior]) \<and>
      amount_similarity (prior @ [matched]) \<le> amount_similarity (prior @ [closing_reading cfg amounts matched tot prior])" for amounts tot
    using max_by_ge [of "\<lambda>c. amount_similarity (prior @ [c])" tot "matched # closing_finalists cfg amounts tot prior"]
    unfolding closing_reading_def by simp
  then show ?thesis using assms by (auto simp: closing_leg_amounts_def Let_def split: if_splits)
qed

end
