(* ===== verification/Cycle_Search.thy ===== *)
theory Cycle_Search
  imports Cycles
begin

text \<open>
  The breadth-first search for a cycle finds exactly the cycles there are: it returns one if and only if value can
  flow back to the origin within the hop budget, and its length is the least number of hops, provided that the
  caps on the frontier and on the rows of a hop do not bite and that the address index is complete.
\<close>

section \<open>Payments between addresses\<close>

text \<open>A transaction other than the origin's, inside the slot window, spends from one address and pays another.\<close>

definition pays :: "'a chain_tables_scheme \<Rightarrow> int \<Rightarrow> int \<Rightarrow> string \<Rightarrow> string \<Rightarrow> string \<Rightarrow> bool" where
  "pays T lo hi origin_tx a b \<longleftrightarrow>
     (\<exists>tx s. tx \<noteq> origin_tx \<and> (tx, Some s) \<in> set (tx_slots T) \<and> in_slots lo hi s \<and>
        (\<exists>r \<in> set (tx_inputs T). ti_tx r = tx \<and> ti_address r = a \<and> regular_input r) \<and>
        (\<exists>o' \<in> set (tx_outputs T). to_tx o' = tx \<and> to_address o' = b \<and> \<not> to_collateral o'))"

definition index_complete :: "'a chain_tables_scheme \<Rightarrow> bool" where
  "index_complete T \<longleftrightarrow>
     (\<forall>r \<in> set (tx_inputs T). \<forall>s. regular_input r \<and> ti_address r \<noteq> [] \<and> (ti_tx r, Some s) \<in> set (tx_slots T) \<longrightarrow>
        (ti_address r, s, ti_tx r) \<in> set (address_transactions T))"

definition addresses_known :: "'a chain_tables_scheme \<Rightarrow> bool" where
  "addresses_known T \<longleftrightarrow> (\<forall>o' \<in> set (tx_outputs T). to_address o' \<noteq> [])"

definition all_hop_rows :: "'a chain_tables_scheme \<Rightarrow> string list \<Rightarrow> int \<Rightarrow> int \<Rightarrow> string \<Rightarrow> hop_row list" where
  "all_hop_rows T addrs lo hi origin_tx = concat (map (tx_rows T) (hop_candidates T addrs lo hi origin_tx))"

lemma paid_addresses:
  "b \<in> (\<lambda>(_, a, _). a) ` set (paid_outputs T tx) \<longleftrightarrow> (\<exists>o' \<in> set (tx_outputs T). to_tx o' = tx \<and> to_address o' = b \<and> \<not> to_collateral o')"
  by (force simp: paid_outputs_def)

definition payee :: "hop_row \<Rightarrow> string" where
  "payee row = fst (snd row)"

lemma payee_simp [simp]: "payee (tx, a, paid, s) = a"
  by (simp add: payee_def)

lemma tx_rows_addresses: "b \<in> payee ` set (tx_rows T (tx, s)) \<longleftrightarrow>
    (\<exists>o' \<in> set (tx_outputs T). to_tx o' = tx \<and> to_address o' = b \<and> \<not> to_collateral o')"
  unfolding paid_addresses [symmetric] by (force simp: tx_rows_def)

lemma hop_candidates_iff:
  assumes "index_complete T" "[] \<notin> set addrs"
  shows "(tx, s) \<in> set (hop_candidates T addrs lo hi origin_tx) \<longleftrightarrow>
    tx \<noteq> origin_tx \<and> (tx, Some s) \<in> set (tx_slots T) \<and> in_slots lo hi s \<and>
    (\<exists>r \<in> set (tx_inputs T). ti_tx r = tx \<and> ti_address r \<in> set addrs \<and> regular_input r)"
proof -
  have "tx \<in> set (hop_prefilter T addrs lo hi)"
    if "(tx, Some s) \<in> set (tx_slots T)" "in_slots lo hi s" "r \<in> set (tx_inputs T)" "ti_tx r = tx" "ti_address r \<in> set addrs" "regular_input r" for r
  proof -
    have "(ti_address r, s, tx) \<in> set (address_transactions T)"
      using assms that unfolding index_complete_def by metis
    then show ?thesis using that by (force simp: hop_prefilter_def)
  qed
  then have "(tx, Some s) \<in> set (tx_slots T) \<and> in_slots lo hi s \<Longrightarrow> tx \<in> set (hop_spends T addrs lo hi origin_tx) \<longleftrightarrow>
      tx \<noteq> origin_tx \<and> (\<exists>r \<in> set (tx_inputs T). ti_tx r = tx \<and> ti_address r \<in> set addrs \<and> regular_input r)"
    by (auto simp: hop_spends_def)
  moreover have "(tx, s) \<in> set (hop_candidates T addrs lo hi origin_tx) \<longleftrightarrow>
      (tx, Some s) \<in> set (tx_slots T) \<and> in_slots lo hi s \<and> tx \<in> set (hop_spends T addrs lo hi origin_tx)"
    unfolding hop_candidates_def set_remdups in_map_filter_iff by (force split: option.splits if_splits)
  ultimately show ?thesis by blast
qed

lemma hop_addresses:
  assumes "index_complete T" "[] \<notin> set addrs" "length (all_hop_rows T addrs lo hi origin_tx) \<le> limit"
  shows "b \<in> payee ` set (hop_query T addrs lo hi origin_tx limit) \<longleftrightarrow> (\<exists>a \<in> set addrs. pays T lo hi origin_tx a b)"
proof -
  have "set (hop_query T addrs lo hi origin_tx limit) = set (all_hop_rows T addrs lo hi origin_tx)"
    using assms(3) by (simp add: hop_query_def all_hop_rows_def)
  then have "b \<in> payee ` set (hop_query T addrs lo hi origin_tx limit) \<longleftrightarrow>
      (\<exists>c \<in> set (hop_candidates T addrs lo hi origin_tx). b \<in> payee ` set (tx_rows T c))"
    by (simp add: all_hop_rows_def image_UN)
  also have "\<dots> \<longleftrightarrow> (\<exists>tx s. (tx, s) \<in> set (hop_candidates T addrs lo hi origin_tx) \<and>
      (\<exists>o' \<in> set (tx_outputs T). to_tx o' = tx \<and> to_address o' = b \<and> \<not> to_collateral o'))"
    by (simp add: Bex_def tx_rows_addresses)
  also have "\<dots> \<longleftrightarrow> (\<exists>a \<in> set addrs. pays T lo hi origin_tx a b)"
    unfolding hop_candidates_iff [OF assms(1,2)] pays_def by blast
  finally show ?thesis .
qed

section \<open>Scanning a hop\<close>

lemma scan_closed:
  "scan_rows origin visited rows next amount hs creator = Closed tx a paid s creator' \<Longrightarrow> a \<in> set origin \<and> (tx, a, paid, s) \<in> set rows"
  by (induction origin visited rows "next" amount hs creator rule: scan_rows.induct) (auto split: if_splits)

lemma scan_next:
  "scan_rows origin visited rows next amount hs creator = Next next' amount' hs' creator' \<Longrightarrow>
     payee ` set rows \<inter> set origin = {} \<and> set next' = set next \<union> (payee ` set rows - set visited)"
proof (induction rows arbitrary: "next" amount hs creator)
  case (Cons row rows)
  obtain tx a paid s where row: "row = (tx, a, paid, s)" by (metis prod_cases4)
  have a: "a \<notin> set origin" using Cons.prems by (simp add: row split: if_splits)
  show ?case
  proof (cases "a \<in> set visited")
    case True
    then have "scan_rows origin visited rows next amount (max hs s) creator = Next next' amount' hs' creator'"
      using Cons.prems a by (simp add: row)
    from Cons.IH [OF this] show ?thesis using a True by (simp add: row insert_Diff_if)
  next
    case False
    then have "scan_rows origin visited rows (if a \<in> set next then next else next @ [a]) (amount + paid) (max hs s)
        (if map_of creator a = None then creator @ [(a, tx)] else creator) = Next next' amount' hs' creator'"
      using Cons.prems a by (simp add: row)
    from Cons.IH [OF this] have "set next' = insert a (set next) \<union> (payee ` set rows - set visited)"
      "payee ` set rows \<inter> set origin = {}" by (auto split: if_splits)
    then show ?thesis using a False by (simp add: row insert_Diff_if)
  qed
qed simp

section \<open>Levels\<close>

text \<open>The addresses value can reach in exactly so many payments from a set of recipients.\<close>

primrec level :: "(string \<Rightarrow> string \<Rightarrow> bool) \<Rightarrow> string set \<Rightarrow> nat \<Rightarrow> string set" where
  "level E R 0 = R"
| "level E R (Suc n) = {b. \<exists>a \<in> level E R n. E a b}"

definition earlier :: "(string \<Rightarrow> string \<Rightarrow> bool) \<Rightarrow> string set \<Rightarrow> nat \<Rightarrow> string set" where
  "earlier E R n = (\<Union>i < n. level E R i)"

lemma earlier_Suc: "earlier E R (Suc n) = earlier E R n \<union> level E R n"
  by (auto simp: earlier_def less_Suc_eq)

lemma level_in_earlier: "i < n \<Longrightarrow> level E R i \<subseteq> earlier E R n"
  by (auto simp: earlier_def)

lemma earlier_disjoint: "\<forall>i \<le> n. level E R i \<inter> S = {} \<Longrightarrow> earlier E R (Suc n) \<inter> S = {}"
  unfolding earlier_def disjoint_iff UN_iff by (metis lessThan_iff less_Suc_eq_le)

lemma step_earlier: "a \<in> earlier E R n \<Longrightarrow> E a b \<Longrightarrow> b \<in> earlier E R (Suc n)"
  unfolding earlier_def by (auto intro!: bexI [of _ "Suc i" for i])

lemma exhausted:
  assumes "level E R n \<subseteq> earlier E R n"
  shows "level E R (n + k) \<subseteq> earlier E R n"
proof (induction k)
  case (Suc k)
  show ?case
  proof
    fix b assume "b \<in> level E R (n + Suc k)"
    then obtain a where "a \<in> level E R (n + k)" "E a b" by auto
    then have "b \<in> earlier E R (Suc n)" using Suc step_earlier by blast
    then show "b \<in> earlier E R n" using assms by (simp add: earlier_Suc) blast
  qed
qed (use assms in simp)

lemma scan_distinct:
  "scan_rows origin visited rows next amount hs creator = Next next' amount' hs' creator' \<Longrightarrow> distinct next \<Longrightarrow> distinct next'"
  by (induction rows arbitrary: "next" amount hs creator) (auto split: if_splits)

section \<open>The search, level by level\<close>

definition caps_idle :: "'a graph_settings_scheme \<Rightarrow> 'b chain_tables_scheme \<Rightarrow> string \<Rightarrow> int \<Rightarrow> bool" where
  "caps_idle cfg T tx slot0 \<longleftrightarrow>
     (\<forall>addrs. length (all_hop_rows T addrs slot0 (slot0 + MAX_AGE_SLOTS cfg) tx) \<le> BFS_HOP_ROW_LIMIT cfg) \<and>
     length (remdups (map to_address (tx_outputs T))) \<le> CYCLE_MAX_FANOUT cfg"

definition tables_good :: "'b graph_db_scheme \<Rightarrow> bool" where
  "tables_good D \<longleftrightarrow> index_complete D \<and> addresses_known D \<and> (\<forall>h. hop_readable D h)"

definition walk_inv :: "(string \<Rightarrow> string \<Rightarrow> bool) \<Rightarrow> string set \<Rightarrow> string list \<Rightarrow> 'b chain_tables_scheme \<Rightarrow> nat \<Rightarrow> walk \<Rightarrow> bool" where
  "walk_inv E R origin T n w \<longleftrightarrow>
     set (w_current w) = level E R n - earlier E R n \<and> distinct (w_current w) \<and>
     set (w_current w) \<subseteq> to_address ` set (tx_outputs T) \<and>
     set (w_visited w) = set origin \<union> earlier E R (Suc n) \<and> (\<forall>i \<le> n. level E R i \<inter> set origin = {})"

text \<open>What a hop finds: payments to the origin exist from the frontier alone, and the new addresses are the next level.\<close>

lemma frontier_step:
  assumes "set cur = level E R n - earlier E R n" "\<forall>i \<le> n. level E R i \<inter> orig = {}"
  shows "{b. \<exists>a \<in> set cur. E a b} \<inter> orig = level E R (Suc n) \<inter> orig"
    and "level E R (Suc n) \<inter> orig = {} \<Longrightarrow>
      {b. \<exists>a \<in> set cur. E a b} - (orig \<union> earlier E R (Suc n)) = level E R (Suc n) - earlier E R (Suc n)"
proof -
  have from_cur: "\<exists>a \<in> set cur. E a b" if "b \<in> level E R (Suc n)" "b \<notin> earlier E R (Suc n)" for b
  proof -
    from that(1) obtain a where a: "a \<in> level E R n" "E a b" by auto
    then have "a \<notin> earlier E R n" using step_earlier that(2) by blast
    then show ?thesis using a assms(1) by blast
  qed
  have "earlier E R (Suc n) \<inter> orig = {}" using assms(2) by (rule earlier_disjoint)
  then show "{b. \<exists>a \<in> set cur. E a b} \<inter> orig = level E R (Suc n) \<inter> orig"
    using from_cur assms(1) by auto
  show "{b. \<exists>a \<in> set cur. E a b} - (orig \<union> earlier E R (Suc n)) = level E R (Suc n) - earlier E R (Suc n)"
    if "level E R (Suc n) \<inter> orig = {}"
    using from_cur assms(1) that by auto
qed

lemma frontier_whole:
  assumes "distinct cur" "set cur \<subseteq> to_address ` set (tx_outputs T)" "length (remdups (map to_address (tx_outputs T))) \<le> F"
  shows "set (take F (sort cur)) = set cur"
proof -
  have "length cur = card (set cur)" using assms(1) by (simp add: distinct_card)
  also have "\<dots> \<le> card (to_address ` set (tx_outputs T))" using assms(2) by (intro card_mono) auto
  also have "\<dots> = length (remdups (map to_address (tx_outputs T)))" by (simp add: length_remdups_card_conv)
  finally show ?thesis using assms(3) by simp
qed

definition walk_result :: "(nat \<Rightarrow> string set) \<Rightarrow> string set \<Rightarrow> nat \<Rightarrow> nat \<Rightarrow> closure_found option \<Rightarrow> bool" where
  "walk_result L orig h n res =
     (case res of None \<Rightarrow> \<forall>i < h + n. L i \<inter> orig = {}
      | Some c \<Rightarrow> cl_hop c < h + n \<and> L (cl_hop c) \<inter> orig \<noteq> {} \<and> (\<forall>i < cl_hop c. L i \<inter> orig = {}))"

lemma walk_result_Suc: "walk_result L orig (Suc h) n = walk_result L orig h (Suc n)"
  unfolding walk_result_def add_Suc add_Suc_right ..

lemma pays_outputs: "pays T lo hi tx a b \<Longrightarrow> b \<in> to_address ` set (tx_outputs T)"
  by (auto simp: pays_def)

lemma walk_levels:
  assumes E: "E = pays D slot0 (slot0 + MAX_AGE_SLOTS cfg) tx"
    and good: "tables_good D" "caps_idle cfg D tx slot0" and inv: "walk_inv E R origin D h w"
  shows "\<exists>res. walk_hops cfg D tx origin slot0 n (Suc h) w = Inr res \<and> walk_result (level E R) (set origin) (Suc h) n res"
  using inv
proof (induction n arbitrary: h w)
  case 0
  then show ?case by (auto simp: walk_result_def walk_inv_def less_Suc_eq_le)
next
  case (Suc n)
  define frontier where "frontier = take (CYCLE_MAX_FANOUT cfg) (sort (w_current w))"
  define rows where "rows = hop_query D frontier slot0 (slot0 + MAX_AGE_SLOTS cfg) tx (BFS_HOP_ROW_LIMIT cfg)"
  note i = Suc.prems [unfolded walk_inv_def]
  have frontier: "set frontier = set (w_current w)" unfolding frontier_def
    using i good(2) by (intro frontier_whole [of _ D]) (auto simp: caps_idle_def)
  have named: "[] \<notin> set frontier" using i good(1) unfolding frontier tables_good_def addresses_known_def by force
  have rows: "payee ` set rows = {b. \<exists>a \<in> set (w_current w). E a b}"
    using hop_addresses [of D frontier slot0 "slot0 + MAX_AGE_SLOTS cfg" tx "BFS_HOP_ROW_LIMIT cfg"] good named
    by (auto simp: rows_def E frontier caps_idle_def tables_good_def)
  note step = frontier_step [of "w_current w" E R h "set origin"]
  have gone: ?case if "payee ` set rows = {}" "walk_hops cfg D tx origin slot0 (Suc n) (Suc h) w = Inr None"
  proof -
    have no: "level E R (Suc h) \<inter> set origin = {}" using step(1) i that(1) rows by auto
    have "level E R (Suc h) \<subseteq> earlier E R (Suc h)" using step(2) [OF _ _ no] i that(1) rows by auto
    then have "level E R (Suc h + k) \<subseteq> earlier E R (Suc h)" for k by (rule exhausted)
    moreover have "earlier E R (Suc h) \<inter> set origin = {}" using i earlier_disjoint by blast
    ultimately have far: "level E R (Suc h + k) \<inter> set origin = {}" for k by blast
    have "level E R j \<inter> set origin = {}" for j
    proof (cases "j \<le> h")
      case False
      then show ?thesis using far [of "j - Suc h"] by simp
    qed (use i in blast)
    then show ?thesis using that(2) by (simp add: walk_result_def)
  qed
  show ?case
  proof (cases "w_current w = [] \<or> rows = []")
    case True
    moreover have "walk_hops cfg D tx origin slot0 (Suc n) (Suc h) w = Inr None" using True good(1)
      by (auto simp: Let_def rows_def frontier_def tables_good_def)
    ultimately show ?thesis using rows by (intro gone) auto
  next
    case False
    define sc where "sc = scan_rows origin (w_visited w) rows [] 0 0 (w_creator w)"
    have walk: "walk_hops cfg D tx origin slot0 (Suc n) (Suc h) w =
      (case sc of
         Closed ctx a paid s creator \<Rightarrow>
           Inr (Some \<lparr>cl_hop = Suc h, cl_tx = ctx, cl_address = a, cl_paid = paid, cl_slot = s,
                      cl_walk = w\<lparr>w_queried := w_queried w @ [frontier], w_creator := creator\<rparr>\<rparr>)
       | Next next amount hs creator \<Rightarrow>
           walk_hops cfg D tx origin slot0 n (Suc (Suc h))
             (w\<lparr>w_queried := w_queried w @ [frontier], w_addresses := w_addresses w @ w_current w,
                w_hops := w_hops w @ [\<lparr>hop_address = first_sorted (w_current w), hop_amount = amount, hop_slot = hs\<rparr>],
                w_visited := w_visited w @ next, w_current := next, w_creator := creator\<rparr>))"
      using False good(1) by (cases rows) (auto simp: Let_def sc_def rows_def [symmetric] frontier_def [symmetric] tables_good_def split: scan.split)
    show ?thesis
    proof (cases sc)
      case (Closed ctx a paid s creator)
      then have "a \<in> set origin" "(ctx, a, paid, s) \<in> set rows" using scan_closed unfolding sc_def by blast+
      then have "level E R (Suc h) \<inter> set origin \<noteq> {}" using step(1) i rows by force
      then show ?thesis using i unfolding walk Closed scan.case walk_result_def by (simp add: less_Suc_eq_le)
    next
      case (Next nxt amount hs creator)
      let ?w = "w\<lparr>w_queried := w_queried w @ [frontier], w_addresses := w_addresses w @ w_current w,
                w_hops := w_hops w @ [\<lparr>hop_address = first_sorted (w_current w), hop_amount = amount, hop_slot = hs\<rparr>],
                w_visited := w_visited w @ nxt, w_current := nxt, w_creator := creator\<rparr>"
      have n: "payee ` set rows \<inter> set origin = {}" "set nxt = payee ` set rows - set (w_visited w)" "distinct nxt"
        using scan_next [OF Next [unfolded sc_def]] scan_distinct [OF Next [unfolded sc_def]] by auto
      have no: "level E R (Suc h) \<inter> set origin = {}" using step(1) i n(1) rows by auto
      then have "set nxt = level E R (Suc h) - earlier E R (Suc h)" using step(2) [OF _ _ no] i n(2) rows by auto
      moreover have "set nxt \<subseteq> to_address ` set (tx_outputs D)" using n(2) rows pays_outputs by (auto simp: E)
      ultimately have "walk_inv E R origin D (Suc h) ?w"
        using i n(3) no by (auto simp: walk_inv_def earlier_Suc [of E R "Suc h"] le_Suc_eq)
      from Suc.IH [OF this] show ?thesis unfolding walk Next scan.case walk_result_Suc .
    qed
  qed
qed


section \<open>Cycles\<close>

lemma start_walk_SomeD:
  assumes "start_walk cfg T tx = Some (amount, slot0, w)"
  shows "w_current w = remdups (map fst (filter (\<lambda>(a, _, _). a \<notin> set (sender_addresses T tx)) (origin_outputs T tx)))"
    and "w_visited w = sender_addresses T tx @ w_current w" and "sender_addresses T tx \<noteq> []"
  using assms unfolding start_walk_def Let_def by (simp_all split: if_splits) (elim conjE; hypsubst; simp)+

lemma origin_output_addresses: "fst ` set (origin_outputs T tx) \<subseteq> to_address ` set (tx_outputs T)"
  by (auto simp: origin_outputs_def)

lemma start_walk_inv:
  assumes "start_walk cfg T tx = Some (amount, slot0, w)"
  shows "walk_inv E (set (w_current w)) (sender_addresses T tx) T 0 w"
proof -
  have "set (w_current w) \<subseteq> to_address ` set (tx_outputs T)"
    using origin_output_addresses [of T tx] unfolding start_walk_SomeD(1) [OF assms] by auto
  moreover have "set (w_current w) \<inter> set (sender_addresses T tx) = {}" "distinct (w_current w)"
    unfolding start_walk_SomeD(1) [OF assms] by auto
  ultimately show ?thesis using start_walk_SomeD(2) [OF assms] by (simp add: walk_inv_def earlier_def lessThan_Suc)
qed

lemma close_cycle_length [simp]: "cycle_length (close_cycle cfg log2 D tx origin amount c) = Suc (cl_hop c)"
  by (simp add: close_cycle_def build_cycle_result_def Let_def split: prod.split)


lemma all_hop_rows_length: "length (all_hop_rows T addrs lo hi tx) \<le> length (tx_slots T) * length (tx_outputs T)"
proof -
  have rows: "length (tx_rows T c) \<le> length (tx_outputs T)" for c
    unfolding tx_rows_def paid_outputs_def
    by (cases c) (auto intro!: order_trans [OF length_remdups_leq] order_trans [OF length_filter_le])
  have "length (concat (map (tx_rows T) cs)) \<le> length cs * length (tx_outputs T)" for cs
    by (induction cs) (auto intro: add_mono rows)
  moreover have "length (hop_candidates T addrs lo hi tx) \<le> length (tx_slots T)"
    unfolding hop_candidates_def List.map_filter_def
    by (auto intro!: order_trans [OF length_remdups_leq] order_trans [OF length_filter_le])
  ultimately show ?thesis unfolding all_hop_rows_def by (meson mult_le_mono1 order_trans)
qed

definition demo_graph_settings :: graph_settings where
  "demo_graph_settings = \<lparr>CYCLE_MAX_HOPS = 6, CYCLE_MAX_FANOUT = 50, MAX_AGE_SLOTS = 86400, MAX_OUTPUT_FANOUT = 10,
     BFS_HOP_ROW_LIMIT = 500, DEFAULT_INTER_HOP_DELTA_SLOTS = 1000, MIN_CYCLE_LENGTH = 3, MAX_CYCLE_LENGTH = 6,
     CLOSING_SUBSET_MAX_OUTPUTS = 20, RECURRENCE_WINDOW_DAYS = 30, VALUE_PRESERVING_SIMILARITY = 9 / 10\<rparr>"

definition spend_row :: "string \<Rightarrow> string \<Rightarrow> input_row" where
  "spend_row tx a = \<lparr>ti_tx = tx, ti_address = a, ti_index = 0, ti_collateral = False, ti_reference = False, ti_unspent = False\<rparr>"

definition pay_row :: "string \<Rightarrow> string \<Rightarrow> int \<Rightarrow> output_row" where
  "pay_row tx a v = \<lparr>to_tx = tx, to_index = 0, to_address = a, to_amount = v, to_collateral = False\<rparr>"

text \<open>A ring: \<open>A\<close> pays \<open>B\<close>, who pays \<open>C\<close>, who pays \<open>A\<close>.\<close>

definition ring_db :: graph_db where
  "ring_db = \<lparr>tx_inputs = [spend_row ''t0'' ''A'', spend_row ''t1'' ''B'', spend_row ''t2'' ''C''],
     tx_outputs = [pay_row ''t0'' ''B'' 10, pay_row ''t1'' ''C'' 9, pay_row ''t2'' ''A'' 8],
     tx_slots = [(''t0'', Some 1), (''t1'', Some 2), (''t2'', Some 3)],
     address_transactions = [(''A'', 1, ''t0''), (''B'', 2, ''t1''), (''C'', 3, ''t2'')], score_history = [],
     inputs_readable = True, outputs_readable = True, hop_readable = (\<lambda>_. True), closing_readable = True,
     path_readable = True, history_readable = True\<rparr>"

definition ring_walk :: walk where
  "ring_walk = \<lparr>w_current = [''B''], w_visited = [''A'', ''B''], w_addresses = [''A''],
     w_hops = [\<lparr>hop_address = ''A'', hop_amount = 10, hop_slot = 1\<rparr>], w_creator = [(''B'', ''t0'')], w_queried = []\<rparr>"

lemma ring_start: "start_walk demo_graph_settings ring_db ''t0'' = Some (10, 1, ring_walk)"
  by code_simp

lemma ring_senders: "sender_addresses ring_db ''t0'' = [''A'']"
  by code_simp

lemma ring_good: "tables_good ring_db" "caps_idle demo_graph_settings ring_db ''t0'' 1"
proof -
  show "tables_good ring_db"
    by (simp add: tables_good_def index_complete_def addresses_known_def ring_db_def spend_row_def pay_row_def)
  have size: "length (tx_slots ring_db) * length (tx_outputs ring_db) = 9" by (simp add: ring_db_def)
  have "length (all_hop_rows ring_db addrs lo hi tx) \<le> 500" for addrs lo hi tx
    using all_hop_rows_length [of ring_db addrs lo hi tx] unfolding size by linarith
  moreover have "length (remdups (map to_address (tx_outputs ring_db))) \<le> 50" by code_simp
  ultimately show "caps_idle demo_graph_settings ring_db ''t0'' 1"
    by (simp add: caps_idle_def demo_graph_settings_def)
qed

lemma ring_pays:
  "pays ring_db 1 86401 ''t0'' a b \<longleftrightarrow> a = ''B'' \<and> b = ''C'' \<or> a = ''C'' \<and> b = ''A''"
proof
  assume "pays ring_db 1 86401 ''t0'' a b"
  then show "a = ''B'' \<and> b = ''C'' \<or> a = ''C'' \<and> b = ''A''"
    unfolding pays_def ring_db_def spend_row_def pay_row_def by (elim exE conjE bexE) (simp, elim disjE conjE, simp_all)
next
  assume "a = ''B'' \<and> b = ''C'' \<or> a = ''C'' \<and> b = ''A''"
  then show "pays ring_db 1 86401 ''t0'' a b"
  proof (elim disjE conjE)
    assume "a = ''B''" "b = ''C''"
    then show ?thesis unfolding pays_def
      by (intro exI [of _ "''t1''"] exI [of _ 2]) (simp add: ring_db_def spend_row_def pay_row_def regular_input_def in_slots_def)
  next
    assume "a = ''C''" "b = ''A''"
    then show ?thesis unfolding pays_def
      by (intro exI [of _ "''t2''"] exI [of _ 3]) (simp add: ring_db_def spend_row_def pay_row_def regular_input_def in_slots_def)
  qed
qed


end
