(* ===== verification/Pynum.thy ===== *)
theory Pynum
  imports Prelude Pyfloat
begin

text \<open>
  The constructor \<open>float\<close> on the values a configuration file can hold, comparisons of its results, and
  subscripts of such values.  A Python float is a finite number, an infinity or NaN here, because a
  configuration can hold all three; arithmetic is only done on finite ones (theory Pyfloat).
\<close>

section \<open>Floats with infinities and NaN\<close>

datatype xfloat = Fin rat | Infinite bool | NotANumber

text \<open>\<open>x < r\<close> and \<open>x >= r\<close> against a finite number; the flag of an infinity says negative.\<close>

fun xless :: "xfloat \<Rightarrow> rat \<Rightarrow> bool" where
  "xless (Fin x) r = (x < r)"
| "xless (Infinite negative) r = negative"
| "xless NotANumber r = False"

fun xge :: "xfloat \<Rightarrow> rat \<Rightarrow> bool" where
  "xge (Fin x) r = (x \<ge> r)"
| "xge (Infinite negative) r = (\<not> negative)"
| "xge NotANumber r = False"

text \<open>A finite value outside the range of the format is an infinity.\<close>

definition in_range :: "rat \<Rightarrow> xfloat" where
  "in_range x = (if 2 ^ 1024 \<le> \<bar>x\<bar> then Infinite (x < 0) else Fin x)"

section \<open>Reading a string\<close>

text \<open>Underscores are allowed between two digits and dropped.\<close>

definition is_digit :: "char \<Rightarrow> bool" where
  "is_digit c \<longleftrightarrow> 48 \<le> py_ord c \<and> py_ord c \<le> 57"

fun drop_underscores :: "bool \<Rightarrow> string \<Rightarrow> string option" where
  "drop_underscores after_digit [] = Some []"
| "drop_underscores after_digit (c # cs) =
     (if c = CHR ''_''
      then (case cs of
              d # _ \<Rightarrow> if after_digit \<and> is_digit d then drop_underscores False cs else None
            | [] \<Rightarrow> None)
      else map_option ((#) c) (drop_underscores (is_digit c) cs))"

fun digits_value :: "int \<Rightarrow> string \<Rightarrow> int" where
  "digits_value acc [] = acc"
| "digits_value acc (c # cs) = digits_value (10 * acc + (py_ord c - 48)) cs"

definition split_sign :: "string \<Rightarrow> bool \<times> string" where
  "split_sign s =
     (case s of
        c # r \<Rightarrow> if c = CHR ''-'' then (True, r) else if c = CHR ''+'' then (False, r) else (False, s)
      | [] \<Rightarrow> (False, []))"

definition exponent_value :: "string \<Rightarrow> int option" where
  "exponent_value s =
     (case s of
        [] \<Rightarrow> Some 0
      | c # r \<Rightarrow>
          (if c = CHR ''e'' \<or> c = CHR ''E''
           then let (negative, ds) = split_sign r
                in if ds \<noteq> [] \<and> list_all is_digit ds then Some ((if negative then -1 else 1) * digits_value 0 ds) else None
           else None))"

text \<open>Digits with an optional point and an optional exponent, without a sign.\<close>

definition decimal_value :: "string \<Rightarrow> rat option" where
  "decimal_value s =
     (let whole = takeWhile is_digit s;
          r = dropWhile is_digit s;
          (frac, r) = (case r of
             c # r' \<Rightarrow> if c = CHR ''.'' then (takeWhile is_digit r', dropWhile is_digit r') else ([], r)
           | [] \<Rightarrow> ([], []))
      in if whole = [] \<and> frac = [] then None
         else map_option (\<lambda>e. of_int (digits_value 0 (whole @ frac)) * 10 powi (e - int (length frac))) (exponent_value r))"

definition float_of_str :: "string \<Rightarrow> xfloat result" where
  "float_of_str s =
     (case drop_underscores False (py_strip s) of
        None \<Rightarrow> Inl ValueError
      | Some t \<Rightarrow>
          (case split_sign t of
             (negative, u) \<Rightarrow>
               (if py_lower u \<in> {''inf'', ''infinity''} then Inr (Infinite negative)
                else if py_lower u = ''nan'' then Inr NotANumber
                else case decimal_value u of
                       None \<Rightarrow> Inl ValueError
                     | Some v \<Rightarrow> Inr (in_range (fl (if negative then - v else v))))))"

section \<open>\<open>float(x)\<close>\<close>

fun float_of_json :: "json \<Rightarrow> xfloat result" where
  "float_of_json JNull = Inl TypeError"
| "float_of_json (JBool b) = Inr (Fin (if b then 1 else 0))"
| "float_of_json (JInt n) = (case in_range (fl (of_int n)) of Fin x \<Rightarrow> Inr (Fin x) | _ \<Rightarrow> Inl OverflowError)"
| "float_of_json (JFloat x) = Inr (Fin x)"
| "float_of_json (JInf negative) = Inr (Infinite negative)"
| "float_of_json JNaN = Inr NotANumber"
| "float_of_json (JStr s) = float_of_str s"
| "float_of_json (JList xs) = Inl TypeError"
| "float_of_json (JDict d) = Inl TypeError"

text \<open>A float that arithmetic follows on.  The arithmetic is that of finite numbers, so an infinity or NaN ends
  the computation with an error of the model's own, \<open>NotFinite\<close>.\<close>

definition NotFinite :: pyerr where
  "NotFinite = RuntimeFailure ''not finite''"

definition finite_float :: "json \<Rightarrow> rat result" where
  "finite_float j = rbind (float_of_json j) (\<lambda>x. case x of Fin r \<Rightarrow> Inr r | _ \<Rightarrow> Inl NotFinite)"

section \<open>Subscripts\<close>

text \<open>\<open>x[k]\<close> with a string \<open>k\<close>.\<close>

definition jidx :: "json \<Rightarrow> string \<Rightarrow> json result" where
  "jidx x k = (case x of JDict d \<Rightarrow> (case map_of d k of None \<Rightarrow> Inl KeyError | Some v \<Rightarrow> Inr v) | _ \<Rightarrow> Inl TypeError)"

text \<open>\<open>float(x[k])\<close> and \<open>int(x[k])\<close>.\<close>

definition float_at :: "json \<Rightarrow> string \<Rightarrow> rat result" where
  "float_at x k = rbind (jidx x k) finite_float"

definition int_at :: "json \<Rightarrow> string \<Rightarrow> int result" where
  "int_at x k = rbind (jidx x k) int_of_json"

lemma finite_float_iff: "finite_float j = Inr x \<longleftrightarrow> float_of_json j = Inr (Fin x)"
  by (cases "float_of_json j") (auto simp: finite_float_def split: xfloat.splits)

lemma float_at_numbers [simp]:
  "jidx x k = Inr (JFloat r) \<Longrightarrow> float_at x k = Inr r"
  by (simp add: float_at_def finite_float_def)

end
