(* ===== verification/Detection_Config.thy ===== *)
theory Detection_Config
  imports Scoring Pynum
begin

text \<open>
  The loader of \<open>config/detection.yaml\<close> (\<open>src/backend/app/analysis/scorer_config.py\<close>, first half): the tables of
  the keys the code reads, the structural check of a document against them, the contracts of the values that
  cap or floor a score into a band, and the ranges.  A document is the value \<open>yaml.safe_load\<close> returns; mappings
  have string keys.

  Shown: what a document that passes the check promises to its readers, that the check rejects every key the
  code does not read, and that the configured caps and floors lie in their bands.
\<close>

section \<open>Tables\<close>

definition REQUIRED_KEYS :: "(string, string list) dict" where
  "REQUIRED_KEYS =
     [(''multiple_sat'', [''weights'', ''bootstrap_anchors'', ''allowlist_prefixes'', ''reason_threshold'',
                          ''lazy_validator_threshold'', ''lazy_validator_floor'',
                          ''lazy_validator_extraction_min'', ''per_script_extraction_headroom'',
                          ''uniform_sweep_guard.enabled'', ''uniform_sweep_guard.require_uniform_redeemer'',
                          ''uniform_sweep_guard.require_no_script_return'', ''uniform_sweep_guard.min_inputs'',
                          ''suppression_escape.enabled'', ''suppression_escape.extraction_floor_min'',
                          ''saturation_floor.extraction_min'', ''saturation_floor.inputs_min'',
                          ''saturation_floor.floor'']),
      (''large_datum'', [''gate'', ''gate.flag_datum_hash_only'', ''weights'', ''fixed_anchors'',
                         ''bootstrap_anchors'', ''aggregate_engagement_min'',
                         ''large_state_allowlist_prefixes'', ''reason_threshold'']),
      (''token_dust'', [''gate.min_token_count'', ''weights'', ''bootstrap_anchors'', ''allowlist_prefixes'',
                        ''allowlist_policies'', ''dos_asset_min'', ''established_collection.enabled'',
                        ''established_collection.min_policy_age_slots'', ''reason_threshold'']),
      (''large_value'', [''weights'', ''bootstrap_anchors'', ''reason_threshold'', ''min_digits_subscore'']),
      (''front_running'', [''weights'', ''fixed_anchors'', ''bootstrap_anchors'', ''outcome_scores'',
                           ''reason_thresholds'', ''min_recurrence_wins'', ''high_band_cap'',
                           ''delta_ms_default'']),
      (''sandwich'', [''weights'', ''fixed_anchors'', ''bootstrap_anchors'', ''link_scores'', ''window_slots'',
                      ''neighbor_limit'', ''min_profit_lovelace'', ''reason_thresholds'']),
      (''circular'', [''weights'', ''fixed_anchors'', ''bootstrap_anchors'', ''cycle'', ''reason_threshold'',
                      ''moderate_cap'', ''structural_corroboration_floor'', ''slow_one_off_min_hop_slots'',
                      ''recurrence_window_days'', ''recycling_min_amount_similarity'', ''cycle.min_length'',
                      ''cycle.max_length'', ''cycle.fee_tolerance_multiplier'', ''cycle.fee_tolerance_strict'',
                      ''cycle.per_hop_fee_estimate'', ''cycle.max_age_slots'', ''cycle.max_output_fanout'',
                      ''cycle.bfs_hop_row_limit'', ''cycle.default_inter_hop_delta_slots'',
                      ''cycle.closing_subset_max_outputs'']),
      (''fake_token'', [''weights'', ''fixed_anchors'', ''bootstrap_anchors'', ''similarity_threshold'',
                        ''unicode_scores'', ''reason_thresholds'', ''critical_assets.multiplier'',
                        ''critical_assets.names'', ''ascii_homoglyphs_enabled'']),
      (''phishing'', [''weights'', ''fixed_anchors'', ''bootstrap_anchors'', ''similarity_suspicious_range'',
                      ''social_engineering'', ''reason_thresholds'', ''critical_threshold'',
                      ''metadata_labels'', ''asset_name_carrier.enabled'', ''min_decoded_string_len''])]"

definition SCORER_WEIGHT_NAMES :: "(string, string list) dict" where
  "SCORER_WEIGHT_NAMES =
     [(''multiple_sat'', [''extraction'', ''exunits_inv'', ''inputs'', ''recurrence'']),
      (''large_datum'', [''datum_bytes'', ''datum_ratio'', ''value_cbor_inv'', ''recurrence'']),
      (''token_dust'', [''bytes'', ''assets'', ''ada_inv'', ''recurrence'']),
      (''large_value'', [''digits'', ''bytes'', ''ada_inv'', ''recurrence'']),
      (''front_running'', [''outcome'', ''delta'', ''recurrence'', ''structure'']),
      (''sandwich'', [''link'', ''rate'', ''impact'', ''profit'', ''recurrence'']),
      (''circular'', [''amount'', ''recurrence'', ''entropy'', ''auxiliary'', ''speed'']),
      (''fake_token'', [''identity.name'', ''identity.unicode'', ''identity.cip25'',
                        ''distribution.recipients'', ''distribution.ratio'', ''distribution.policy_age'',
                        ''distribution.recurrence'', ''overall.identity'', ''overall.distribution'']),
      (''phishing'', [''content.blacklist'', ''content.domain'', ''content.social'', ''delivery.recipients'',
                      ''delivery.url_recur'', ''delivery.targeting'', ''delivery.recurrence'',
                      ''overall.content'', ''overall.delivery''])]"

definition SCORER_BOOTSTRAP_ANCHOR_NAMES :: "(string, string list) dict" where
  "SCORER_BOOTSTRAP_ANCHOR_NAMES =
     [(''multiple_sat'', [''net_value_out_of_script'', ''n_assets_out_of_script'',
                          ''exunits_per_script_input'', ''n_inputs_same_script'', ''sender_recurrence'']),
      (''large_datum'', [''datum_bytes'', ''value_cbor_bytes'']),
      (''token_dust'', [''value_cbor_bytes'', ''unique_token_count'', ''ada_amount'']),
      (''large_value'', [''quantity_digits'', ''value_cbor_bytes'', ''ada_amount'']),
      (''front_running'', [''attacker_recurrence'']),
      (''sandwich'', [''price_impact'', ''swap_profit'', ''attacker_recurrence'']),
      (''circular'', [''attacker_recurrence'']),
      (''fake_token'', [''recipient_count'', ''mint_to_recipient_ratio'']),
      (''phishing'', [''recipient_count''])]"

definition SCORER_FIXED_ANCHOR_NAMES :: "(string, string list) dict" where
  "SCORER_FIXED_ANCHOR_NAMES =
     [(''multiple_sat'', []),
      (''large_datum'', [''datum_ratio'']),
      (''token_dust'', []),
      (''large_value'', []),
      (''front_running'', [''mempool_delta_inv'', ''fee_delta'', ''ttl_delta'']),
      (''sandwich'', [''rate_delta'']),
      (''circular'', [''amount_sim'', ''entropy'', ''hop_delta_inv'', ''temporal'']),
      (''fake_token'', [''name_sim'', ''unicode'', ''cip25'', ''policy_age_inv'']),
      (''phishing'', [''brand_sim'', ''social_score''])]"

definition SCORER_OPTIONAL_FIXED_ANCHOR_NAMES :: "(string, string list) dict" where
  "SCORER_OPTIONAL_FIXED_ANCHOR_NAMES =
     [(''phishing'', [''domain_age_inv''])]"

definition KNOWN_OPTIONAL_KEYS :: "(string, string list) dict" where
  "KNOWN_OPTIONAL_KEYS =
     [(''multiple_sat'', []),
      (''large_datum'', [''gate.min_datum_bytes'', ''gate.bloat_entropy_max'', ''gate.leaf_concentration_max'',
                         ''gate.size_backstop_fraction'']),
      (''token_dust'', [''dos_value_cbor_fraction'']),
      (''large_value'', []),
      (''front_running'', [''reason_thresholds.outcome'', ''reason_thresholds.delta'',
                           ''reason_thresholds.recurrence'', ''unknown_outcome_score'']),
      (''sandwich'', [''link_scores.linked'', ''link_scores.unlinked'', ''reason_thresholds.link'',
                      ''reason_thresholds.rate'', ''reason_thresholds.impact'']),
      (''circular'', []),
      (''fake_token'', [''unicode_scores.zero_width'', ''unicode_scores.mixed_scripts'',
                        ''unicode_scores.homoglyphs'', ''reason_thresholds.name'',
                        ''reason_thresholds.unicode'', ''reason_thresholds.recipients'']),
      (''phishing'', [''similarity_suspicious_range.lo'', ''similarity_suspicious_range.hi'',
                      ''social_engineering.urgency_increment'', ''social_engineering.urgency_cap'',
                      ''social_engineering.brand_increment'', ''social_engineering.brand_cap'',
                      ''social_engineering.url_combo_bonus'', ''social_engineering.phishing_tld_bonus'',
                      ''asset_name_carrier.require_delivery_for_bonuses'', ''reason_thresholds.blacklist'',
                      ''reason_thresholds.domain'', ''reason_thresholds.social'',
                      ''reason_thresholds.recipients''])]"

definition FREEFORM_SUBTREES :: "string list" where
  "FREEFORM_SUBTREES =
     [''scorers.multiple_sat.allowlist_prefixes'', ''scorers.token_dust.allowlist_prefixes'',
      ''scorers.token_dust.allowlist_policies'', ''scorers.large_datum.large_state_allowlist_prefixes'',
      ''scorers.front_running.outcome_scores'']"

definition REQUIRED_PROTOCOL_LIMITS :: "string list" where
  "REQUIRED_PROTOCOL_LIMITS =
     [''max_value_size_bytes'', ''max_tx_size_bytes'']"

definition REQUIRED_COMPOSITE_CORROBORATION :: "string list" where
  "REQUIRED_COMPOSITE_CORROBORATION =
     [''corroboration_threshold'']"

definition REQUIRED_CONTRACT_ANOMALY :: "string list" where
  "REQUIRED_CONTRACT_ANOMALY =
     [''verdict_floors.malicious'', ''verdict_floors.anomaly'', ''verdict_floors.benign'',
      ''verdict_floors.normal'', ''consensus_scale'', ''anomaly_consensus_scale'', ''corroboration_threshold'',
      ''freshness_seconds'', ''heartbeat_stale_seconds'']"

definition REQUIRED_BASELINES :: "string list" where
  "REQUIRED_BASELINES =
     [''min_spread_ratio'', ''per_script_p99_cap_multiplier'', ''per_script_p50_cap_spread_fraction'',
      ''drift.enabled'', ''drift.p99_threshold'', ''drift.p50_threshold'', ''windows.global_days'',
      ''windows.per_script_days'', ''record_provenance'']"

section \<open>The structural check\<close>

definition ConfigFailure :: pyerr where
  "ConfigFailure = RuntimeFailure ''detection config''"

definition demand :: "bool \<Rightarrow> unit result" where
  "demand b = (if b then Inr () else Inl ConfigFailure)"

lemma demand_ok [simp]: "demand b = Inr () \<longleftrightarrow> b"
  by (simp add: demand_def)

text \<open>The walk of \<open>_missing_dotted\<close> and the one of \<open>_dotted_get\<close>.\<close>

fun has_path :: "json \<Rightarrow> string list \<Rightarrow> bool" where
  "has_path cur [] = True"
| "has_path cur (p # ps) = (case cur of JDict d \<Rightarrow> (case map_of d p of None \<Rightarrow> False | Some v \<Rightarrow> has_path v ps) | _ \<Rightarrow> False)"

fun get_path :: "json \<Rightarrow> string list \<Rightarrow> json" where
  "get_path cur [] = cur"
| "get_path cur (p # ps) = (case cur of JDict d \<Rightarrow> (case map_of d p of None \<Rightarrow> JNull | Some v \<Rightarrow> get_path v ps) | _ \<Rightarrow> JNull)"

definition dots :: "string \<Rightarrow> string list" where
  "dots key = py_split (CHR ''.'') key"

definition missing_dotted :: "(string, json) dict \<Rightarrow> string list \<Rightarrow> string \<Rightarrow> string list" where
  "missing_dotted container keys prefix =
     map (\<lambda>key. prefix @ ''.'' @ key) (filter (\<lambda>key. \<not> has_path (JDict container) (dots key)) keys)"

definition dotted_get :: "(string, json) dict \<Rightarrow> string \<Rightarrow> json" where
  "dotted_get data dotted = get_path (JDict data) (dots dotted)"

text \<open>\<open>_add_dotted\<close>: a path and the paths on the way to it.\<close>

fun add_parts :: "string \<Rightarrow> string list \<Rightarrow> string list" where
  "add_parts path [] = []"
| "add_parts path (p # ps) = (let path' = (if path \<noteq> [] then path @ ''.'' @ p else p) in path' # add_parts path' ps)"

definition add_dotted :: "string \<Rightarrow> string \<Rightarrow> string list" where
  "add_dotted prefix dotted = add_parts prefix (dots dotted)"

definition anchor_leaves :: "string list \<Rightarrow> string list" where
  "anchor_leaves names = concat (map (\<lambda>name. [name @ ''.p50'', name @ ''.p99'']) names)"

definition scorer_paths :: "string \<times> string list \<Rightarrow> string list" where
  "scorer_paths entry =
     (case entry of (scorer, keys) \<Rightarrow>
        let prefix = ''scorers.'' @ scorer
        in [prefix] @ concat (map (add_dotted prefix) keys)
           @ concat (map (add_dotted prefix) (dict_get KNOWN_OPTIONAL_KEYS scorer []))
           @ concat (map (add_dotted (prefix @ ''.weights'')) (dict_get SCORER_WEIGHT_NAMES scorer []))
           @ concat (map (add_dotted (prefix @ ''.bootstrap_anchors'')) (anchor_leaves (dict_get SCORER_BOOTSTRAP_ANCHOR_NAMES scorer [])))
           @ concat (map (add_dotted (prefix @ ''.fixed_anchors'')) (anchor_leaves (dict_get SCORER_FIXED_ANCHOR_NAMES scorer [])))
           @ concat (map (add_dotted (prefix @ ''.fixed_anchors'')) (anchor_leaves (dict_get SCORER_OPTIONAL_FIXED_ANCHOR_NAMES scorer []))))"

definition allowed_paths :: "string list" where
  "allowed_paths =
     [''protocol_limits'', ''composite_corroboration'', ''contract_anomaly'', ''baselines'', ''scorers'']
     @ concat (map (add_dotted ''protocol_limits'') REQUIRED_PROTOCOL_LIMITS)
     @ concat (map (add_dotted ''composite_corroboration'') REQUIRED_COMPOSITE_CORROBORATION)
     @ concat (map (add_dotted ''contract_anomaly'') REQUIRED_CONTRACT_ANOMALY)
     @ concat (map (add_dotted ''baselines'') REQUIRED_BASELINES)
     @ concat (map scorer_paths REQUIRED_KEYS)"

definition join_path :: "string \<Rightarrow> string \<Rightarrow> string" where
  "join_path prefix key = (if prefix \<noteq> [] then prefix @ ''.'' @ key else key)"

fun unknown_walk :: "string list \<Rightarrow> string \<Rightarrow> (string, json) dict \<Rightarrow> string list" where
  "unknown_walk allowed prefix [] = []"
| "unknown_walk allowed prefix ((key, value) # node) =
     (let path = join_path prefix key
      in if path \<notin> set allowed then [path]
         else case value of JDict d \<Rightarrow> if path \<notin> set FREEFORM_SUBTREES then unknown_walk allowed path d else [] | _ \<Rightarrow> [])
     @ unknown_walk allowed prefix node"

definition unknown_paths :: "(string, json) dict \<Rightarrow> string list" where
  "unknown_paths data = unknown_walk allowed_paths [] data"

definition missing_in_block :: "string \<Rightarrow> (string, json) dict \<Rightarrow> string \<Rightarrow> string list \<Rightarrow> string list" where
  "missing_in_block scorer sec block names =
     (if names = [] then []
      else case dict_get sec block JNull of
             JDict container \<Rightarrow> missing_dotted container names (''scorers.'' @ scorer @ ''.'' @ block)
           | _ \<Rightarrow> [])"

definition missing_scorer_names :: "string \<Rightarrow> (string, json) dict \<Rightarrow> string list" where
  "missing_scorer_names scorer sec =
     missing_in_block scorer sec ''weights'' (dict_get SCORER_WEIGHT_NAMES scorer [])
     @ missing_in_block scorer sec ''bootstrap_anchors'' (anchor_leaves (dict_get SCORER_BOOTSTRAP_ANCHOR_NAMES scorer []))
     @ missing_in_block scorer sec ''fixed_anchors'' (anchor_leaves (dict_get SCORER_FIXED_ANCHOR_NAMES scorer []))"

definition missing_in_section :: "(string, json) dict \<Rightarrow> string \<times> string list \<Rightarrow> string list result" where
  "missing_in_section scorers entry =
     (case entry of (name, keys) \<Rightarrow>
        (case dict_get scorers name JNull of
           JNull \<Rightarrow> Inr [''scorers.'' @ name]
         | JDict sec \<Rightarrow> Inr (missing_dotted sec keys (''scorers.'' @ name) @ missing_scorer_names name sec)
         | _ \<Rightarrow> Inl ConfigFailure))"

definition check_block :: "(string, json) dict \<Rightarrow> string \<Rightarrow> string list \<Rightarrow> unit result" where
  "check_block data block keys =
     (case dict_get data block JNull of
        JDict d \<Rightarrow> demand (missing_dotted d keys block = [])
      | _ \<Rightarrow> Inl ConfigFailure)"

section \<open>Bands and ranges\<close>

definition BAND_INVARIANTS :: "(string \<times> rat \<times> rat option) list" where
  "BAND_INVARIANTS =
     [(''scorers.multiple_sat.lazy_validator_floor'', BAND_HIGH_THRESHOLD, None),
      (''scorers.multiple_sat.saturation_floor.floor'', BAND_HIGH_THRESHOLD, None),
      (''scorers.front_running.high_band_cap'', BAND_HIGH_THRESHOLD, Some BAND_CRITICAL_THRESHOLD),
      (''scorers.circular.moderate_cap'', BAND_MODERATE_THRESHOLD, Some BAND_HIGH_THRESHOLD),
      (''contract_anomaly.verdict_floors.malicious'', BAND_CRITICAL_THRESHOLD, None),
      (''contract_anomaly.anomaly_consensus_scale'', BAND_MODERATE_THRESHOLD, Some BAND_HIGH_THRESHOLD)]"

definition CLOSING_SUBSET_OUTPUTS_LIMIT :: int where
  "CLOSING_SUBSET_OUTPUTS_LIMIT = 32"

definition RANGE_INVARIANTS :: "(string \<times> rat \<times> rat) list" where
  "RANGE_INVARIANTS =
     [(''scorers.circular.recycling_min_amount_similarity'', 0, 1),
      (''scorers.circular.cycle.closing_subset_max_outputs'', 0, of_int (CLOSING_SUBSET_OUTPUTS_LIMIT + 1))]"

definition check_band_invariant :: "(string, json) dict \<Rightarrow> string \<times> rat \<times> rat option \<Rightarrow> unit result" where
  "check_band_invariant data entry =
     (case entry of (dotted, lower, upper) \<Rightarrow>
        (case dotted_get data dotted of
           JNull \<Rightarrow> Inr ()
         | raw \<Rightarrow> rbind (float_of_json raw) (\<lambda>value.
             demand (\<not> (xless value lower \<or> (case upper of None \<Rightarrow> False | Some u \<Rightarrow> xge value u))))))"

definition check_band_invariants :: "(string, json) dict \<Rightarrow> unit result" where
  "check_band_invariants data = rall (check_band_invariant data) BAND_INVARIANTS"

definition check_range :: "(string, json) dict \<Rightarrow> string \<times> rat \<times> rat \<Rightarrow> unit result" where
  "check_range data entry =
     (case entry of (dotted, lower, upper) \<Rightarrow>
        (case dotted_get data dotted of
           JNull \<Rightarrow> Inr ()
         | raw \<Rightarrow> rbind (float_of_json raw) (\<lambda>value. demand (xge value lower \<and> xless value upper))))"

definition check_ranges :: "(string, json) dict \<Rightarrow> unit result" where
  "check_ranges data = rall (check_range data) RANGE_INVARIANTS"

section \<open>The whole check\<close>

definition check_scorers :: "(string, json) dict \<Rightarrow> unit result" where
  "check_scorers scorers = rbind (rmap (missing_in_section scorers) REQUIRED_KEYS) (\<lambda>missing. demand (concat missing = []))"

definition validate_detection :: "(string, json) dict \<Rightarrow> unit result" where
  "validate_detection data =
     (case map_of data ''scorers'' of
        Some (JDict scorers) \<Rightarrow>
          and_then (check_block data ''protocol_limits'' REQUIRED_PROTOCOL_LIMITS)
          (and_then (check_block data ''composite_corroboration'' REQUIRED_COMPOSITE_CORROBORATION)
          (and_then (check_block data ''contract_anomaly'' REQUIRED_CONTRACT_ANOMALY)
          (and_then (check_block data ''baselines'' REQUIRED_BASELINES)
          (and_then (check_scorers scorers)
          (and_then (demand (unknown_paths data = []))
          (and_then (check_band_invariants data) (check_ranges data)))))))
      | _ \<Rightarrow> Inl ConfigFailure)"

text \<open>\<open>_load\<close>: an empty document is an empty mapping, and one that is no mapping fails on the way.\<close>

definition load_detection :: "json option \<Rightarrow> (string, json) dict result" where
  "load_detection file =
     (case file of
        None \<Rightarrow> Inl ConfigFailure
      | Some doc \<Rightarrow>
          (case (if truthy doc then doc else JDict []) of
             JDict data \<Rightarrow> rbind (validate_detection data) (\<lambda>_. Inr data)
           | JList xs \<Rightarrow> (if JStr ''scorers'' \<in> set xs then Inl TypeError else Inl ConfigFailure)
           | JStr s \<Rightarrow> (if (\<exists>i \<in> set [0..<length s]. startswith (drop i s) ''scorers'') then Inl TypeError else Inl ConfigFailure)
           | _ \<Rightarrow> Inl TypeError))"

text \<open>\<open>get(section)\<close>; the blocks outside \<open>scorers\<close> are read by subscript.\<close>

definition scorer_section :: "(string, json) dict \<Rightarrow> string \<Rightarrow> json result" where
  "scorer_section cfg name =
     rbind (jidx (JDict cfg) ''scorers'') (\<lambda>scorers.
       case scorers of
         JDict d \<Rightarrow> (case dict_get d name JNull of JNull \<Rightarrow> Inl KeyError | sec \<Rightarrow> Inr sec)
       | _ \<Rightarrow> Inl AttributeError)"

section \<open>What the check promises\<close>

lemma has_path_readable: "has_path j (p # ps) \<Longrightarrow> \<exists>v. jidx j p = Inr v \<and> has_path v ps"
  by (auto simp: jidx_def split: json.splits option.splits)

lemma dots_plain: "CHR ''.'' \<notin> set s \<Longrightarrow> dots s = [s]"
  by (simp add: dots_def py_split_no_sep)

lemma has_path_plain: "CHR ''.'' \<notin> set k \<Longrightarrow> has_path (JDict d) (dots k) \<longleftrightarrow> map_of d k \<noteq> None"
  by (simp add: dots_plain split: option.splits)

lemma missing_dotted_Nil [simp]: "missing_dotted d keys prefix = [] \<longleftrightarrow> (\<forall>key \<in> set keys. has_path (JDict d) (dots key))"
  by (simp add: missing_dotted_def filter_empty_conv)

lemma check_block_ok [simp]:
  "check_block data block keys = Inr () \<longleftrightarrow>
     (\<exists>d. map_of data block = Some (JDict d) \<and> (\<forall>key \<in> set keys. has_path (JDict d) (dots key)))"
  by (auto simp: check_block_def dict_get_def split: option.splits json.splits)

text \<open>What the check asks of a section: its keys, and the names of weights and anchors in the blocks that are
  mappings.\<close>

definition block_complete :: "(string, json) dict \<Rightarrow> string \<Rightarrow> string list \<Rightarrow> bool" where
  "block_complete sec block names \<longleftrightarrow>
     (\<forall>d. map_of sec block = Some (JDict d) \<longrightarrow> (\<forall>name \<in> set names. has_path (JDict d) (dots name)))"

definition section_complete :: "string \<Rightarrow> string list \<Rightarrow> (string, json) dict \<Rightarrow> bool" where
  "section_complete name keys sec \<longleftrightarrow>
     (\<forall>key \<in> set keys. has_path (JDict sec) (dots key)) \<and>
     block_complete sec ''weights'' (dict_get SCORER_WEIGHT_NAMES name []) \<and>
     block_complete sec ''bootstrap_anchors'' (anchor_leaves (dict_get SCORER_BOOTSTRAP_ANCHOR_NAMES name [])) \<and>
     block_complete sec ''fixed_anchors'' (anchor_leaves (dict_get SCORER_FIXED_ANCHOR_NAMES name []))"

lemma missing_in_block_Nil [simp]: "missing_in_block scorer sec block names = [] \<longleftrightarrow> block_complete sec block names"
  by (auto simp: missing_in_block_def block_complete_def dict_get_def split: option.splits json.splits)

lemma missing_in_section_Nil [simp]:
  "missing_in_section scorers (name, keys) = Inr [] \<longleftrightarrow>
     (\<exists>sec. map_of scorers name = Some (JDict sec) \<and> section_complete name keys sec)"
  by (auto simp: missing_in_section_def section_complete_def missing_scorer_names_def dict_get_def split: option.splits json.splits)

lemma rmap_all_Nil:
  "(\<exists>yss. rmap f xs = Inr yss \<and> concat yss = []) \<longleftrightarrow> (\<forall>x \<in> set xs. f x = Inr [])"
  unfolding rmap_Inr_iff
proof (induction xs)
  case (Cons x xs)
  have "(\<exists>yss. list_all2 (\<lambda>x y. f x = Inr y) (x # xs) yss \<and> concat yss = []) \<longleftrightarrow>
      f x = Inr [] \<and> (\<exists>yss. list_all2 (\<lambda>x y. f x = Inr y) xs yss \<and> concat yss = [])"
    unfolding list_all2_Cons1 by force
  then show ?case using Cons.IH by simp
qed simp

lemma check_scorers_ok [simp]:
  "check_scorers scorers = Inr () \<longleftrightarrow>
     (\<forall>(name, keys) \<in> set REQUIRED_KEYS. \<exists>sec. map_of scorers name = Some (JDict sec) \<and> section_complete name keys sec)"
  unfolding check_scorers_def rbind_eq_Inr_iff demand_ok rmap_all_Nil by (auto simp del: missing_in_section_Nil simp flip: missing_in_section_Nil)

lemma validate_detectionE:
  assumes "validate_detection data = Inr ()"
  obtains scorers where "map_of data ''scorers'' = Some (JDict scorers)" "check_scorers scorers = Inr ()"
    "check_block data ''protocol_limits'' REQUIRED_PROTOCOL_LIMITS = Inr ()"
    "check_block data ''composite_corroboration'' REQUIRED_COMPOSITE_CORROBORATION = Inr ()"
    "check_block data ''contract_anomaly'' REQUIRED_CONTRACT_ANOMALY = Inr ()"
    "check_block data ''baselines'' REQUIRED_BASELINES = Inr ()"
    "unknown_paths data = []" "check_band_invariants data = Inr ()" "check_ranges data = Inr ()"
proof -
  obtain scorers where s: "map_of data ''scorers'' = Some (JDict scorers)"
    using assms by (auto simp: validate_detection_def split: option.splits json.splits)
  show thesis using assms by (intro that [OF s]) (simp_all only: validate_detection_def s option.case json.case and_then_ok demand_ok)
qed

text \<open>The value under a dotted path of a document that passed is in its band, unless it is no number.\<close>

lemma band_invariant:
  assumes "check_band_invariants data = Inr ()" "(dotted, lower, upper) \<in> set BAND_INVARIANTS"
    and "dotted_get data dotted = raw" "float_of_json raw = Inr (Fin x)"
  shows "lower \<le> x \<and> (case upper of None \<Rightarrow> True | Some u \<Rightarrow> x < u)"
proof -
  have "check_band_invariant data (dotted, lower, upper) = Inr ()"
    using assms(1,2) unfolding check_band_invariants_def rall_ok by (rule bspec)
  then show ?thesis using assms(3,4) by (cases raw) (auto simp: check_band_invariant_def split: option.splits)
qed

lemma float_at_get_path:
  assumes "float_at j k = Inr x"
  shows "float_of_json (get_path j [k]) = Inr (Fin x)"
  using assms by (auto simp: float_at_def finite_float_iff jidx_def rbind_eq_Inr_iff split: json.splits option.splits)

lemma jidx_get_path: "jidx j k = Inr v \<Longrightarrow> get_path j (k # ks) = get_path v ks"
  by (auto simp: jidx_def split: json.splits option.splits)

lemma scorer_sectionE:
  assumes "scorer_section data name = Inr sec"
  obtains scorers where "map_of data ''scorers'' = Some (JDict scorers)" "map_of scorers name = Some sec"
proof -
  obtain v where v: "map_of data ''scorers'' = Some v" using assms by (cases "map_of data ''scorers''") (simp_all add: scorer_section_def jidx_def)
  then obtain scorers where s: "v = JDict scorers" using assms by (cases v) (simp_all add: scorer_section_def jidx_def)
  have "map_of scorers name = Some sec"
    using assms v s by (cases "map_of scorers name"; cases "the (map_of scorers name)") (simp_all add: scorer_section_def jidx_def dict_get_def)
  then show thesis using that v s by blast
qed

lemma section_get_path: "scorer_section data name = Inr sec \<Longrightarrow> get_path (JDict data) (''scorers'' # name # ks) = get_path sec ks"
  by (erule scorer_sectionE) simp

lemma range_invariant:
  assumes "check_ranges data = Inr ()" "(dotted, lower, upper) \<in> set RANGE_INVARIANTS"
    and "dotted_get data dotted = raw" "float_of_json raw = Inr (Fin x)"
  shows "lower \<le> x \<and> x < upper"
proof -
  have "check_range data (dotted, lower, upper) = Inr ()"
    using assms(1,2) unfolding check_ranges_def rall_ok by (rule bspec)
  then show ?thesis using assms(3,4) by (cases raw) (auto simp: check_range_def)
qed

text \<open>Every key of a document that passed is one the code reads, down to the subtrees that hold data.\<close>

lemma unknown_walk_sound:
  assumes "unknown_walk allowed prefix d = []" "has_path (JDict d) (p # ps)"
    and "\<And>i. 0 < i \<Longrightarrow> i \<le> length ps \<Longrightarrow> foldl join_path prefix (take i (p # ps)) \<notin> set FREEFORM_SUBTREES"
  shows "foldl join_path prefix (p # ps) \<in> set allowed"
  using assms
proof (induction allowed prefix d arbitrary: p ps rule: unknown_walk.induct)
  case (2 allowed prefix key "value" node)
  let ?path = "join_path prefix key"
  have known: "?path \<in> set allowed" using 2(3) by (auto simp: Let_def split: if_splits)
  show ?case
  proof (cases "p = key")
    case False
    then show ?thesis using 2(2) [of p ps] 2(3-5) by (auto simp: Let_def split: if_splits)
  next
    case True
    show ?thesis
    proof (cases ps)
      case Nil
      then show ?thesis using known True by simp
    next
      case (Cons q qs)
      then obtain d' where v: "value = JDict d'" "has_path (JDict d') (q # qs)"
        using 2(4) True by (auto split: json.splits)
      have f: "?path \<notin> set FREEFORM_SUBTREES" using 2(5) [of 1] Cons True by simp
      have "unknown_walk allowed ?path d' = []" using 2(3) known v(1) f by (simp add: Let_def)
      moreover have "foldl join_path ?path (take i (q # qs)) \<notin> set FREEFORM_SUBTREES" if "0 < i" "i \<le> length qs" for i
        using 2(5) [of "Suc i"] that Cons True by simp
      ultimately have "foldl join_path ?path (q # qs) \<in> set allowed"
        using 2(1) [OF refl, of d' q qs] known v f by simp
      then show ?thesis using Cons True by simp
    qed
  qed
qed simp

section \<open>Evaluating the check\<close>

text \<open>The check of unknown keys on key paths: a document is covered by a list of paths when each of its keys starts
  one of them.  String equality stops at the first difference, for evaluation by rewriting.\<close>

fun str_eq :: "string \<Rightarrow> string \<Rightarrow> bool" where
  "str_eq [] t = (case t of [] \<Rightarrow> True | _ \<Rightarrow> False)"
| "str_eq (c # s) t = (case t of [] \<Rightarrow> False | d # u \<Rightarrow> if c = d then str_eq s u else False)"

fun sub_keys :: "string \<Rightarrow> string list list \<Rightarrow> string list list" where
  "sub_keys key [] = []"
| "sub_keys key (k # ks) =
     (case k of [] \<Rightarrow> sub_keys key ks | p # q \<Rightarrow> if str_eq p key then q # sub_keys key ks else sub_keys key ks)"

fun covered :: "string \<Rightarrow> string list list \<Rightarrow> (string, json) dict \<Rightarrow> bool" and
    covered_value :: "string \<Rightarrow> string list list \<Rightarrow> json \<Rightarrow> bool" where
  "covered prefix ks [] = True"
| "covered prefix ks ((key, value) # node) =
     (if covered_value (join_path prefix key) (sub_keys key ks) value then covered prefix ks node else False)"
| "covered_value path [] value = False"
| "covered_value path (s # subs) value =
     (case value of JDict d \<Rightarrow> if path \<in> set FREEFORM_SUBTREES then True else covered path (s # subs) d | _ \<Rightarrow> True)"

definition known_keys :: "string \<Rightarrow> string list \<Rightarrow> string list list" where
  "known_keys scorer keys =
     map dots (keys @ dict_get KNOWN_OPTIONAL_KEYS scorer [])
     @ map (\<lambda>k. ''weights'' # dots k) (dict_get SCORER_WEIGHT_NAMES scorer [])
     @ map (\<lambda>k. ''bootstrap_anchors'' # dots k) (anchor_leaves (dict_get SCORER_BOOTSTRAP_ANCHOR_NAMES scorer []))
     @ map (\<lambda>k. ''fixed_anchors'' # dots k)
         (anchor_leaves (dict_get SCORER_FIXED_ANCHOR_NAMES scorer []) @ anchor_leaves (dict_get SCORER_OPTIONAL_FIXED_ANCHOR_NAMES scorer []))"

lemma str_eq_iff [simp]: "str_eq s t \<longleftrightarrow> s = t"
  by (induction s arbitrary: t) (auto split: list.splits)

lemma set_sub_keys [simp]: "set (sub_keys key ks) = {q. key # q \<in> set ks}"
  by (induction ks) (auto split: list.splits)

definition known_under :: "string list \<Rightarrow> string \<Rightarrow> string list list \<Rightarrow> bool" where
  "known_under allowed prefix ks \<longleftrightarrow> (\<forall>k \<in> set ks. set (add_parts prefix k) \<subseteq> set allowed)"

lemma known_under_sub:
  assumes "known_under allowed prefix ks" "sub_keys key ks \<noteq> []"
  shows "join_path prefix key \<in> set allowed" "known_under allowed (join_path prefix key) (sub_keys key ks)"
proof -
  have sub: "join_path prefix key \<in> set allowed \<and> set (add_parts (join_path prefix key) q) \<subseteq> set allowed"
    if "q \<in> set (sub_keys key ks)" for q
    using assms(1) that by (force simp: known_under_def join_path_def Let_def)
  obtain q where "q \<in> set (sub_keys key ks)" using assms(2) by (cases "sub_keys key ks") auto
  then show "join_path prefix key \<in> set allowed" using sub by blast
  show "known_under allowed (join_path prefix key) (sub_keys key ks)" unfolding known_under_def using sub by blast
qed

lemma covered_known:
  "covered prefix ks d \<Longrightarrow> known_under allowed prefix ks \<Longrightarrow> unknown_walk allowed prefix d = []"
  "covered_value path subs v \<Longrightarrow> known_under allowed path subs \<Longrightarrow>
     (case v of JDict d \<Rightarrow> path \<in> set FREEFORM_SUBTREES \<or> unknown_walk allowed path d = [] | _ \<Rightarrow> True)"
proof (induction prefix ks d and path subs v rule: covered_covered_value.induct)
  case (2 prefix ks key "value" node)
  have c: "covered_value (join_path prefix key) (sub_keys key ks) value" "covered prefix ks node"
    using 2(3) by (simp_all split: if_splits)
  then have "sub_keys key ks \<noteq> []" by (cases "sub_keys key ks") auto
  note known = known_under_sub [OF 2(4) this]
  show ?case using 2(1) [OF c(1) known(2)] 2(2) [OF c(1) c(2) 2(4)] c known(1)
    by (auto simp: Let_def split: json.splits)
next
  case (4 path s subs v)
  then show ?case by (cases v) (auto split: if_splits)
qed auto

lemma known_sections:
  assumes "(scorer, keys) \<in> set REQUIRED_KEYS"
  shows "known_under allowed_paths (''scorers.'' @ scorer) (known_keys scorer keys)"
    and "''scorers.'' @ scorer \<in> set allowed_paths"
proof -
  let ?p = "''scorers.'' @ scorer"
  have in_paths: "set (scorer_paths (scorer, keys)) \<subseteq> set allowed_paths" using assms by (auto simp: allowed_paths_def)
  then show "?p \<in> set allowed_paths" by (auto simp: scorer_paths_def Let_def)
  have "list_all (\<lambda>(scorer, keys). ''weights'' \<in> set keys \<and> ''bootstrap_anchors'' \<in> set keys \<and>
      (''fixed_anchors'' \<in> set keys \<or> dict_get SCORER_FIXED_ANCHOR_NAMES scorer [] = [] \<and>
         dict_get SCORER_OPTIONAL_FIXED_ANCHOR_NAMES scorer [] = [])) REQUIRED_KEYS" by code_simp
  then have blocks: "''weights'' \<in> set keys" "''bootstrap_anchors'' \<in> set keys"
    "''fixed_anchors'' \<in> set keys \<or> dict_get SCORER_FIXED_ANCHOR_NAMES scorer [] = [] \<and> dict_get SCORER_OPTIONAL_FIXED_ANCHOR_NAMES scorer [] = []"
    using assms by (auto simp: list_all_iff)
  have key: "set (add_parts ?p (dots key)) \<subseteq> set allowed_paths" if "key \<in> set keys" for key
    using in_paths that by (auto simp: scorer_paths_def add_dotted_def Let_def)
  have block: "?p @ ''.'' @ b \<in> set allowed_paths" if "b \<in> set keys" "CHR ''.'' \<notin> set b" for b
    using key [OF that(1)] that(2) by (simp add: dots_plain Let_def)
  have cons: "set (add_parts ?p (b # ps)) \<subseteq> set allowed_paths"
    if "b \<in> set keys" "CHR ''.'' \<notin> set b" "set (add_parts (?p @ ''.'' @ b) ps) \<subseteq> set allowed_paths" for b ps
    using block [OF that(1,2)] that(3) by (simp add: Let_def)
  have parts: "set (add_parts ?p (dots key)) \<subseteq> set allowed_paths" if "key \<in> set (dict_get KNOWN_OPTIONAL_KEYS scorer [])" for key
    using in_paths that by (auto simp: scorer_paths_def add_dotted_def Let_def)
  have weights: "set (add_parts (?p @ ''.'' @ ''weights'') (dots k)) \<subseteq> set allowed_paths" if "k \<in> set (dict_get SCORER_WEIGHT_NAMES scorer [])" for k
    using in_paths that by (auto simp: scorer_paths_def add_dotted_def Let_def)
  have boot: "set (add_parts (?p @ ''.'' @ ''bootstrap_anchors'') (dots k)) \<subseteq> set allowed_paths"
    if "k \<in> set (anchor_leaves (dict_get SCORER_BOOTSTRAP_ANCHOR_NAMES scorer []))" for k
    using in_paths that by (auto simp: scorer_paths_def add_dotted_def Let_def)
  have fixed: "set (add_parts (?p @ ''.'' @ ''fixed_anchors'') (dots k)) \<subseteq> set allowed_paths \<and> ''fixed_anchors'' \<in> set keys"
    if "k \<in> set (anchor_leaves (dict_get SCORER_FIXED_ANCHOR_NAMES scorer []) @ anchor_leaves (dict_get SCORER_OPTIONAL_FIXED_ANCHOR_NAMES scorer []))" for k
    using in_paths that blocks(3) by (auto simp: scorer_paths_def add_dotted_def anchor_leaves_def Let_def)
  show "known_under allowed_paths ?p (known_keys scorer keys)"
    unfolding known_under_def known_keys_def set_append set_map ball_Un ball_simps
  proof (intro conjI ballI, goal_cases)
    case (1 k) then show ?case by (rule key)
  next
    case (2 k) then show ?case by (rule parts)
  next
    case (3 k) then show ?case by (intro cons blocks(1) weights) simp
  next
    case (4 k) then show ?case by (intro cons blocks(2) boot) simp
  next
    case (5 k) then show ?case using fixed [of k] by (intro cons) simp_all
  next
    case (6 k) then show ?case using fixed [of k] by (intro cons) simp_all
  qed
qed

end
