(* ===== verification/Shipped_Config.thy ===== *)
theory Shipped_Config
  imports Detection_Config
begin

text \<open>
  The configuration the repository ships (\<open>src/config/detection.yaml\<close>), as the value \<open>yaml.safe_load\<close> returns,
  and that it passes the check at load.  A decimal that is no binary fraction is the nearest float, \<open>dec\<close>.
\<close>

section \<open>The document\<close>

definition dec :: "int \<Rightarrow> int \<Rightarrow> rat" where
  "dec n d = fl (of_int n / of_int d)"

declare dec_def [code del]

definition shipped_multiple_sat :: json where
  "shipped_multiple_sat =
     JDict [(''weights'', JDict [(''extraction'', JFloat (dec 21 50)), (''exunits_inv'', JFloat (dec 7 25)),
     (''inputs'', JFloat (dec 4 25)), (''recurrence'', JFloat (dec 7 50))]), (''per_script_extraction_headroom'',
     JFloat 3), (''bootstrap_anchors'', JDict [(''net_value_out_of_script'', JDict [(''p50'', JInt 5000000),
     (''p99'', JInt 500000000)]), (''n_assets_out_of_script'', JDict [(''p50'', JInt 0), (''p99'', JInt 2)]),
     (''exunits_per_script_input'', JDict [(''p50'', JInt 100000), (''p99'', JInt 10000000)]),
     (''n_inputs_same_script'', JDict [(''p50'', JInt 2), (''p99'', JInt 10)]), (''sender_recurrence'',
     JDict [(''p50'', JInt 0), (''p99'', JInt 1)])]), (''allowlist_prefixes'', JDict [(''mainnet'',
     JList [JStr ''addr1w9zsmyfc5tg49ng9gqaetm8qheyheemxakq47x7qfwnq5wq'',
     JStr ''addr1z8snz7c4974vzdpxu65ruphl3zjdvtxw8strf2c2tmqnxz'',
     JStr ''addr1wyx22z2s4kasd3w976pnjf9xdty88epjqfvgkmfnfpcsgh'']), (''preprod'',
     JList [JStr ''addr_test1wzpzd7k0lkpkr3kh460ll6c88r4p5nhqehu3gjtc359a2ds9qpd7c'']), (''preview'', JList [])]),
     (''reason_threshold'', JFloat (1 / 2)), (''lazy_validator_threshold'', JFloat (dec 4 5)),
     (''lazy_validator_floor'', JFloat 60), (''lazy_validator_extraction_min'', JFloat 0),
     (''uniform_sweep_guard'', JDict [(''enabled'', JBool True), (''require_uniform_redeemer'', JBool True),
     (''require_no_script_return'', JBool True), (''min_inputs'', JInt 10)]), (''suppression_escape'',
     JDict [(''enabled'', JBool True), (''extraction_floor_min'', JFloat (dec 1 10))]), (''saturation_floor'',
     JDict [(''extraction_min'', JFloat (dec 99 100)), (''inputs_min'', JFloat (dec 99 100)), (''floor'',
     JFloat 60)])]"

definition shipped_large_datum :: json where
  "shipped_large_datum =
     JDict [(''gate'', JDict [(''min_datum_bytes'', JInt 6000), (''bloat_entropy_max'', JFloat 4),
     (''leaf_concentration_max'', JFloat (1 / 2)), (''size_backstop_fraction'', JFloat (3 / 4)),
     (''flag_datum_hash_only'', JBool True)]), (''aggregate_engagement_min'', JInt 12000),
     (''large_state_allowlist_prefixes'', JDict [(''mainnet'', JList []), (''preprod'', JList []), (''preview'',
     JList [])]), (''weights'', JDict [(''datum_bytes'', JFloat (1 / 2)), (''datum_ratio'', JFloat (dec 7 20)),
     (''value_cbor_inv'', JFloat (dec 1 20)), (''recurrence'', JFloat (dec 1 10))]), (''fixed_anchors'',
     JDict [(''datum_ratio'', JDict [(''p50'', JFloat (dec 7 10)), (''p99'', JFloat (dec 97 100))])]),
     (''bootstrap_anchors'', JDict [(''datum_bytes'', JDict [(''p50'', JInt 500), (''p99'', JInt 14000)]),
     (''value_cbor_bytes'', JDict [(''p50'', JInt 100), (''p99'', JInt 1500)])]), (''reason_threshold'',
     JFloat (1 / 2))]"

definition shipped_token_dust :: json where
  "shipped_token_dust =
     JDict [(''gate'', JDict [(''min_token_count'', JInt 2)]), (''dos_value_cbor_fraction'', JFloat (dec 1 5)),
     (''weights'', JDict [(''bytes'', JFloat (dec 7 20)), (''assets'', JFloat (dec 7 20)), (''ada_inv'',
     JFloat (dec 3 20)), (''recurrence'', JFloat (dec 3 20))]), (''bootstrap_anchors'',
     JDict [(''value_cbor_bytes'', JDict [(''p50'', JInt 100), (''p99'', JInt 1500)]), (''unique_token_count'',
     JDict [(''p50'', JInt 1), (''p99'', JInt 20)]), (''ada_amount'', JDict [(''p50'', JInt 1200000), (''p99'',
     JInt 2000000)])]), (''allowlist_prefixes'', JDict [(''mainnet'', JList []), (''preprod'', JList []),
     (''preview'', JList [])]), (''dos_asset_min'', JInt 15), (''allowlist_policies'', JDict [(''mainnet'',
     JList [JStr ''14296258677a869366d6bb01568f31f7b2e690208739b7bcdca444b2'',
     JStr ''94ec588251e710b7660dfd7765f08c87742a3012cce802897a3ebd28'',
     JStr ''afa1a5285da6f5c0708c30315ef9afc2ee8b891bda171b8c25017bc5'',
     JStr ''99b750541529ba5cc684f9e1d43911c68913128d45a7004d9344343b'',
     JStr ''55daa23e0e243bb4dda613c9d06a78da955f26160b13320999f912e2'']), (''preprod'', JList []), (''preview'',
     JList [])]), (''established_collection'', JDict [(''enabled'', JBool True), (''min_policy_age_slots'',
     JInt 2592000)]), (''reason_threshold'', JFloat (1 / 2))]"

definition shipped_large_value :: json where
  "shipped_large_value =
     JDict [(''weights'', JDict [(''digits'', JFloat (dec 11 20)), (''bytes'', JFloat (dec 1 5)), (''ada_inv'',
     JFloat (dec 3 20)), (''recurrence'', JFloat (dec 1 10))]), (''bootstrap_anchors'',
     JDict [(''quantity_digits'', JDict [(''p50'', JInt 13), (''p99'', JInt 19)]), (''value_cbor_bytes'',
     JDict [(''p50'', JInt 100), (''p99'', JInt 1500)]), (''ada_amount'', JDict [(''p50'', JInt 1200000), (''p99'',
     JInt 2000000)])]), (''reason_threshold'', JFloat (1 / 2)), (''min_digits_subscore'', JFloat (dec 1 20))]"

definition shipped_front_running :: json where
  "shipped_front_running =
     JDict [(''weights'', JDict [(''outcome'', JFloat (dec 7 20)), (''delta'', JFloat (dec 3 10)), (''recurrence'',
     JFloat (1 / 4)), (''structure'', JFloat (dec 1 10))]), (''fixed_anchors'', JDict [(''mempool_delta_inv'',
     JDict [(''p50'', JFloat (dec 1 2000)), (''p99'', JFloat (dec 1 200))]), (''fee_delta'', JDict [(''p50'',
     JInt 500), (''p99'', JInt 5000)]), (''ttl_delta'', JDict [(''p50'', JInt 10), (''p99'', JInt 100)])]),
     (''bootstrap_anchors'', JDict [(''attacker_recurrence'', JDict [(''p50'', JInt 0), (''p99'', JInt 5)])]),
     (''outcome_scores'', JDict [(''TX_B_CONFIRMED'', JFloat 1), (''TX1_FAILS_UTXO_SPENT'', JFloat 1),
     (''BOTH_PENDING'', JFloat (1 / 2)), (''TX_A_CONFIRMED'', JFloat 0), (''TX1_WINS'', JFloat 0), (''TX2_WINS'',
     JFloat (dec 3 10))]), (''unknown_outcome_score'', JFloat (1 / 2)), (''reason_thresholds'',
     JDict [(''outcome'', JFloat (dec 4 5)), (''delta'', JFloat (1 / 2)), (''recurrence'', JFloat (1 / 2))]),
     (''min_recurrence_wins'', JInt 3), (''high_band_cap'', JFloat 79), (''delta_ms_default'', JInt 10000)]"

definition shipped_sandwich :: json where
  "shipped_sandwich =
     JDict [(''weights'', JDict [(''link'', JFloat (dec 3 10)), (''rate'', JFloat (dec 3 10)), (''impact'',
     JFloat (dec 1 5)), (''profit'', JFloat (dec 1 10)), (''recurrence'', JFloat (dec 1 10))]), (''fixed_anchors'',
     JDict [(''rate_delta'', JDict [(''p50'', JFloat 0), (''p99'', JFloat (dec 3 20))])]), (''bootstrap_anchors'',
     JDict [(''price_impact'', JDict [(''p50'', JFloat 0), (''p99'', JFloat (dec 1 20))]), (''swap_profit'',
     JDict [(''p50'', JInt 0), (''p99'', JInt 5000000)]), (''attacker_recurrence'', JDict [(''p50'', JInt 0),
     (''p99'', JInt 5)])]), (''window_slots'', JInt 5), (''neighbor_limit'', JInt 20), (''link_scores'',
     JDict [(''linked'', JFloat 1), (''unlinked'', JFloat (dec 1 5))]), (''min_profit_lovelace'', JInt 200000),
     (''reason_thresholds'', JDict [(''link'', JFloat (dec 4 5)), (''rate'', JFloat (1 / 2)), (''impact'',
     JFloat (1 / 2))])]"

definition shipped_circular :: json where
  "shipped_circular =
     JDict [(''weights'', JDict [(''amount'', JFloat (dec 3 10)), (''recurrence'', JFloat (dec 3 10)),
     (''entropy'', JFloat (dec 1 5)), (''auxiliary'', JFloat (dec 1 10)), (''speed'', JFloat (dec 1 10))]),
     (''fixed_anchors'', JDict [(''amount_sim'', JDict [(''p50'', JFloat (dec 7 10)), (''p99'',
     JFloat (dec 97 100))]), (''entropy'', JDict [(''p50'', JFloat (dec 4 5)), (''p99'', JFloat (dec 3 10))]),
     (''hop_delta_inv'', JDict [(''p50'', JFloat (dec 1 20)), (''p99'', JFloat (1 / 2))]), (''temporal'',
     JDict [(''p50'', JFloat (dec 3 10)), (''p99'', JFloat (dec 17 20))])]), (''bootstrap_anchors'',
     JDict [(''attacker_recurrence'', JDict [(''p50'', JInt 0), (''p99'', JInt 5)])]), (''cycle'',
     JDict [(''min_length'', JInt 3), (''max_length'', JInt 6), (''fee_tolerance_multiplier'', JFloat 4),
     (''fee_tolerance_strict'', JFloat 2), (''per_hop_fee_estimate'', JFloat (dec 1 50)), (''max_age_slots'',
     JInt 86400), (''max_output_fanout'', JInt 20), (''default_inter_hop_delta_slots'', JInt 100),
     (''bfs_hop_row_limit'', JInt 500), (''closing_subset_max_outputs'', JInt 24)]), (''reason_threshold'',
     JFloat (1 / 2)), (''moderate_cap'', JFloat 59), (''structural_corroboration_floor'', JFloat (dec 1 10)),
     (''slow_one_off_min_hop_slots'', JInt 1800), (''recurrence_window_days'', JInt 30),
     (''recycling_min_amount_similarity'', JFloat (dec 7 10))]"

definition shipped_fake_token :: json where
  "shipped_fake_token =
     JDict [(''weights'', JDict [(''identity'', JDict [(''name'', JFloat (dec 2 5)), (''unicode'',
     JFloat (dec 7 20)), (''cip25'', JFloat (1 / 4))]), (''distribution'', JDict [(''recipients'',
     JFloat (dec 2 5)), (''ratio'', JFloat (dec 3 10)), (''policy_age'', JFloat (dec 1 5)), (''recurrence'',
     JFloat (dec 1 10))]), (''overall'', JDict [(''identity'', JFloat (dec 3 5)), (''distribution'',
     JFloat (dec 2 5))])]), (''fixed_anchors'', JDict [(''name_sim'', JDict [(''p50'', JFloat (dec 4 5)), (''p99'',
     JFloat (dec 97 100))]), (''unicode'', JDict [(''p50'', JFloat 0), (''p99'', JFloat (dec 3 5))]), (''cip25'',
     JDict [(''p50'', JFloat 0), (''p99'', JFloat (dec 4 5))]), (''policy_age_inv'', JDict [(''p50'',
     JFloat (dec 1 100000)), (''p99'', JFloat (dec 1 5000))])]), (''bootstrap_anchors'',
     JDict [(''recipient_count'', JDict [(''p50'', JInt 1), (''p99'', JInt 100)]), (''mint_to_recipient_ratio'',
     JDict [(''p50'', JInt 100), (''p99'', JInt 100000)])]), (''similarity_threshold'', JFloat (dec 7 10)),
     (''unicode_scores'', JDict [(''zero_width'', JFloat (dec 2 5)), (''mixed_scripts'', JFloat (dec 3 10)),
     (''homoglyphs'', JFloat (dec 3 10))]), (''reason_thresholds'', JDict [(''name'', JFloat (dec 3 10)),
     (''unicode'', JFloat (dec 3 10)), (''recipients'', JFloat (1 / 2))]), (''critical_assets'',
     JDict [(''multiplier'', JFloat (dec 9 5)), (''names'', JList [JStr ''iUSD'', JStr ''DJED'', JStr ''SHEN''])]),
     (''ascii_homoglyphs_enabled'', JBool True)]"

definition shipped_phishing :: json where
  "shipped_phishing =
     JDict [(''weights'', JDict [(''content'', JDict [(''blacklist'', JFloat (dec 3 10)), (''domain'',
     JFloat (dec 3 10)), (''social'', JFloat (dec 2 5))]), (''delivery'', JDict [(''recipients'',
     JFloat (dec 7 20)), (''url_recur'', JFloat (1 / 4)), (''targeting'', JFloat (1 / 4)), (''recurrence'',
     JFloat (dec 3 20))]), (''overall'', JDict [(''content'', JFloat (dec 13 20)), (''delivery'',
     JFloat (dec 7 20))])]), (''fixed_anchors'', JDict [(''domain_age_inv'', JDict [(''p50'',
     JFloat (dec 136986301369863 50000000000000000)), (''p99'', JFloat (dec 2857142857142857 20000000000000000))]),
     (''brand_sim'', JDict [(''p50'', JFloat 0), (''p99'', JFloat (dec 17 20))]), (''social_score'',
     JDict [(''p50'', JFloat 0), (''p99'', JFloat (dec 3 10))])]), (''bootstrap_anchors'',
     JDict [(''recipient_count'', JDict [(''p50'', JInt 1), (''p99'', JInt 50)])]),
     (''similarity_suspicious_range'', JDict [(''lo'', JFloat (1 / 2)), (''hi'', JFloat 1)]),
     (''social_engineering'', JDict [(''urgency_increment'', JFloat (dec 3 20)), (''urgency_cap'',
     JFloat (dec 3 5)), (''brand_increment'', JFloat (dec 1 10)), (''brand_cap'', JFloat (dec 3 10)),
     (''url_combo_bonus'', JFloat (1 / 4)), (''phishing_tld_bonus'', JFloat (dec 3 20))]), (''reason_thresholds'',
     JDict [(''blacklist'', JFloat (1 / 2)), (''domain'', JFloat (1 / 2)), (''social'', JFloat (dec 3 10)),
     (''recipients'', JFloat (1 / 2))]), (''critical_threshold'', JFloat (dec 3 5)), (''metadata_labels'',
     JList [JStr ''674'', JStr ''721'']), (''asset_name_carrier'', JDict [(''enabled'', JBool True),
     (''require_delivery_for_bonuses'', JBool True)]), (''min_decoded_string_len'', JInt 4)]"

definition shipped_scorers :: "(string, json) dict" where
  "shipped_scorers =
     [(''multiple_sat'', shipped_multiple_sat), (''large_datum'', shipped_large_datum), (''token_dust'', shipped_token_dust),
      (''large_value'', shipped_large_value), (''front_running'', shipped_front_running), (''sandwich'', shipped_sandwich),
      (''circular'', shipped_circular), (''fake_token'', shipped_fake_token), (''phishing'', shipped_phishing)]"

definition shipped_protocol_limits :: json where
  "shipped_protocol_limits =
     JDict [(''max_value_size_bytes'', JInt 5000), (''max_tx_size_bytes'', JInt 16384)]"

definition shipped_composite_corroboration :: json where
  "shipped_composite_corroboration =
     JDict [(''corroboration_threshold'', JFloat 40)]"

definition shipped_contract_anomaly :: json where
  "shipped_contract_anomaly =
     JDict [(''verdict_floors'', JDict [(''malicious'', JFloat 80), (''anomaly'', JFloat 0), (''benign'',
     JFloat 0), (''normal'', JFloat 0)]), (''consensus_scale'', JFloat 100), (''anomaly_consensus_scale'',
     JFloat 59), (''corroboration_threshold'', JFloat 40), (''freshness_seconds'', JInt 3600),
     (''heartbeat_stale_seconds'', JInt 300)]"

definition shipped_baselines :: json where
  "shipped_baselines =
     JDict [(''min_spread_ratio'', JFloat (dec 1 10)), (''per_script_p99_cap_multiplier'', JFloat 5),
     (''per_script_p50_cap_spread_fraction'', JFloat (1 / 4)), (''drift'', JDict [(''enabled'', JBool True),
     (''p99_threshold'', JFloat (1 / 2)), (''p50_threshold'', JFloat (1 / 2))]), (''windows'',
     JDict [(''global_days'', JInt 180), (''per_script_days'', JInt 90)]), (''record_provenance'', JBool True)]"

text \<open>The document, and the ones that differ from it in the block \<open>contract_anomaly\<close> or in the sections of the scorers.\<close>

definition config_with :: "json \<Rightarrow> (string, json) dict \<Rightarrow> (string, json) dict" where
  "config_with anomaly scorers =
     [(''protocol_limits'', shipped_protocol_limits),
      (''composite_corroboration'', shipped_composite_corroboration),
      (''contract_anomaly'', anomaly),
      (''baselines'', shipped_baselines),
      (''scorers'', JDict scorers)]"

definition shipped_config :: "(string, json) dict" where
  "shipped_config = config_with shipped_contract_anomaly shipped_scorers"

section \<open>It passes the check\<close>

definition keys_of :: "string \<Rightarrow> string list" where
  "keys_of name = dict_get REQUIRED_KEYS name []"

lemma multiple_sat_complete: "missing_in_section [(''multiple_sat'', shipped_multiple_sat)] (''multiple_sat'', keys_of ''multiple_sat'') = Inr []"
  by code_simp

lemma multiple_sat_known: "covered_value ''scorers.multiple_sat'' (known_keys ''multiple_sat'' (keys_of ''multiple_sat'')) shipped_multiple_sat"
  by code_simp

lemma large_datum_complete: "missing_in_section [(''large_datum'', shipped_large_datum)] (''large_datum'', keys_of ''large_datum'') = Inr []"
  by code_simp

lemma large_datum_known: "covered_value ''scorers.large_datum'' (known_keys ''large_datum'' (keys_of ''large_datum'')) shipped_large_datum"
  by code_simp

lemma token_dust_complete: "missing_in_section [(''token_dust'', shipped_token_dust)] (''token_dust'', keys_of ''token_dust'') = Inr []"
  by code_simp

lemma token_dust_known: "covered_value ''scorers.token_dust'' (known_keys ''token_dust'' (keys_of ''token_dust'')) shipped_token_dust"
  by code_simp

lemma large_value_complete: "missing_in_section [(''large_value'', shipped_large_value)] (''large_value'', keys_of ''large_value'') = Inr []"
  by code_simp

lemma large_value_known: "covered_value ''scorers.large_value'' (known_keys ''large_value'' (keys_of ''large_value'')) shipped_large_value"
  by code_simp

lemma front_running_complete: "missing_in_section [(''front_running'', shipped_front_running)] (''front_running'', keys_of ''front_running'') = Inr []"
  by code_simp

lemma front_running_known: "covered_value ''scorers.front_running'' (known_keys ''front_running'' (keys_of ''front_running'')) shipped_front_running"
  by code_simp

lemma sandwich_complete: "missing_in_section [(''sandwich'', shipped_sandwich)] (''sandwich'', keys_of ''sandwich'') = Inr []"
  by code_simp

lemma sandwich_known: "covered_value ''scorers.sandwich'' (known_keys ''sandwich'' (keys_of ''sandwich'')) shipped_sandwich"
  by code_simp

lemma circular_complete: "missing_in_section [(''circular'', shipped_circular)] (''circular'', keys_of ''circular'') = Inr []"
  by code_simp

lemma circular_known: "covered_value ''scorers.circular'' (known_keys ''circular'' (keys_of ''circular'')) shipped_circular"
  by code_simp

lemma fake_token_complete: "missing_in_section [(''fake_token'', shipped_fake_token)] (''fake_token'', keys_of ''fake_token'') = Inr []"
  by code_simp

lemma fake_token_known: "covered_value ''scorers.fake_token'' (known_keys ''fake_token'' (keys_of ''fake_token'')) shipped_fake_token"
  by code_simp

lemma phishing_complete: "missing_in_section [(''phishing'', shipped_phishing)] (''phishing'', keys_of ''phishing'') = Inr []"
  by code_simp

lemma phishing_known: "covered_value ''scorers.phishing'' (known_keys ''phishing'' (keys_of ''phishing'')) shipped_phishing"
  by code_simp

lemma required_keys_of:
  "(name, keys) \<in> set REQUIRED_KEYS \<longleftrightarrow> name \<in> set (map fst REQUIRED_KEYS) \<and> keys = keys_of name"
proof -
  have "distinct (map fst REQUIRED_KEYS)" by code_simp
  then show ?thesis by (force simp: keys_of_def dict_get_def map_of_is_SomeI)
qed

lemma scorer_names:
  "map fst REQUIRED_KEYS = [''multiple_sat'', ''large_datum'', ''token_dust'', ''large_value'', ''front_running'', ''sandwich'',
     ''circular'', ''fake_token'', ''phishing'']"
  by (simp add: REQUIRED_KEYS_def)

lemma missing_in_section_lookup:
  "dict_get scorers name JNull = sec \<Longrightarrow> missing_in_section scorers (name, keys) = missing_in_section [(name, sec)] (name, keys)"
  by (simp add: missing_in_section_def dict_get_def)

lemmas shipped_complete =
  multiple_sat_complete large_datum_complete token_dust_complete large_value_complete front_running_complete
  sandwich_complete circular_complete fake_token_complete phishing_complete

lemmas shipped_known =
  multiple_sat_known large_datum_known token_dust_known large_value_known front_running_known
  sandwich_known circular_known fake_token_known phishing_known

lemma check_scorersI:
  assumes "\<And>name. name \<in> set (map fst REQUIRED_KEYS) \<Longrightarrow>
      missing_in_section [(name, dict_get scorers name JNull)] (name, keys_of name) = Inr []"
  shows "check_scorers scorers = Inr ()"
proof -
  have "missing_in_section scorers e = Inr []" if e: "e \<in> set REQUIRED_KEYS" for e
  proof -
    obtain name keys where n: "e = (name, keys)" by fastforce
    then have k: "name \<in> set (map fst REQUIRED_KEYS)" "keys = keys_of name" using e by (simp_all add: required_keys_of)
    show ?thesis using assms [OF k(1)] unfolding n k(2) by (subst missing_in_section_lookup [OF refl])
  qed
  then show ?thesis unfolding check_scorers_def rbind_eq_Inr_iff demand_ok rmap_all_Nil by blast
qed

lemma shipped_section_complete:
  "name \<in> set (map fst REQUIRED_KEYS) \<Longrightarrow> missing_in_section [(name, dict_get shipped_scorers name JNull)] (name, keys_of name) = Inr []"
  unfolding scorer_names list.set insert_iff empty_iff
  by (elim disjE) (simp_all add: shipped_scorers_def dict_get_def shipped_complete del: missing_in_section_Nil)

lemma shipped_scorers_complete: "check_scorers shipped_scorers = Inr ()"
  by (rule check_scorersI) (rule shipped_section_complete)

lemma known_scorers:
  assumes "\<forall>(name, sec) \<in> set scorers. name \<in> set (map fst REQUIRED_KEYS) \<and>
      covered_value (''scorers.'' @ name) (known_keys name (keys_of name)) sec"
  shows "unknown_walk allowed_paths ''scorers'' scorers = []"
  using assms
proof (induction scorers)
  case (Cons e scorers)
  obtain name sec where e: "e = (name, sec)" by fastforce
  then have r: "(name, keys_of name) \<in> set REQUIRED_KEYS" using Cons.prems by (auto simp: required_keys_of)
  have "covered_value (''scorers.'' @ name) (known_keys name (keys_of name)) sec" using Cons.prems e by simp
  from covered_known(2) [OF this known_sections(1) [OF r]] known_sections(2) [OF r] Cons
  show ?case by (cases sec) (auto simp: e join_path_def Let_def)
qed simp

lemma shipped_section_known:
  "e \<in> set shipped_scorers \<Longrightarrow>
     (case e of (name, sec) \<Rightarrow> name \<in> set (map fst REQUIRED_KEYS) \<and> covered_value (''scorers.'' @ name) (known_keys name (keys_of name)) sec)"
  unfolding shipped_scorers_def scorer_names list.set insert_iff empty_iff
  by (elim disjE) (simp_all only: prod.case insert_iff append.simps shipped_known simp_thms)

lemma shipped_scorers_known: "unknown_walk allowed_paths ''scorers'' shipped_scorers = []"
  by (rule known_scorers) (blast dest: shipped_section_known)

lemma known_blocks:
  "known_under allowed_paths ''protocol_limits'' (map dots REQUIRED_PROTOCOL_LIMITS)"
  "known_under allowed_paths ''composite_corroboration'' (map dots REQUIRED_COMPOSITE_CORROBORATION)"
  "known_under allowed_paths ''contract_anomaly'' (map dots REQUIRED_CONTRACT_ANOMALY)"
  "known_under allowed_paths ''baselines'' (map dots REQUIRED_BASELINES)"
  by (auto simp: known_under_def allowed_paths_def add_dotted_def)

lemma top_blocks:
  "''protocol_limits'' \<in> set allowed_paths" "''composite_corroboration'' \<in> set allowed_paths"
  "''contract_anomaly'' \<in> set allowed_paths" "''baselines'' \<in> set allowed_paths" "''scorers'' \<in> set allowed_paths"
  by (simp_all add: allowed_paths_def)

lemma shipped_blocks_known:
  "case shipped_protocol_limits of JDict d \<Rightarrow> covered ''protocol_limits'' (map dots REQUIRED_PROTOCOL_LIMITS) d | _ \<Rightarrow> False"
  "case shipped_composite_corroboration of JDict d \<Rightarrow> covered ''composite_corroboration'' (map dots REQUIRED_COMPOSITE_CORROBORATION) d | _ \<Rightarrow> False"
  "case shipped_contract_anomaly of JDict d \<Rightarrow> covered ''contract_anomaly'' (map dots REQUIRED_CONTRACT_ANOMALY) d | _ \<Rightarrow> False"
  "case shipped_baselines of JDict d \<Rightarrow> covered ''baselines'' (map dots REQUIRED_BASELINES) d | _ \<Rightarrow> False"
  by code_simp+

lemma block_known:
  assumes "case v of JDict d \<Rightarrow> covered b ks d | _ \<Rightarrow> False" "known_under allowed_paths b ks"
  obtains d where "v = JDict d" "unknown_walk allowed_paths b d = []"
  using assms covered_known(1) by (cases v) auto

lemma config_unknown:
  assumes "case anomaly of JDict d \<Rightarrow> covered ''contract_anomaly'' (map dots REQUIRED_CONTRACT_ANOMALY) d | _ \<Rightarrow> False"
    and scorers: "unknown_walk allowed_paths ''scorers'' scorers = []"
  shows "unknown_paths (config_with anomaly scorers) = []"
proof -
  obtain d1 d2 d3 d4 where blocks:
    "shipped_protocol_limits = JDict d1" "unknown_walk allowed_paths ''protocol_limits'' d1 = []"
    "shipped_composite_corroboration = JDict d2" "unknown_walk allowed_paths ''composite_corroboration'' d2 = []"
    "anomaly = JDict d3" "unknown_walk allowed_paths ''contract_anomaly'' d3 = []"
    "shipped_baselines = JDict d4" "unknown_walk allowed_paths ''baselines'' d4 = []"
    using block_known [OF shipped_blocks_known(1) known_blocks(1)] block_known [OF shipped_blocks_known(2) known_blocks(2)]
      block_known [OF assms(1) known_blocks(3)] block_known [OF shipped_blocks_known(4) known_blocks(4)]
    by metis
  show ?thesis unfolding unknown_paths_def config_with_def blocks
    by (simp add: blocks top_blocks join_path_def scorers Let_def)
qed

lemma shipped_blocks_complete:
  "check_block [(''protocol_limits'', shipped_protocol_limits)] ''protocol_limits'' REQUIRED_PROTOCOL_LIMITS = Inr ()"
  "check_block [(''composite_corroboration'', shipped_composite_corroboration)] ''composite_corroboration'' REQUIRED_COMPOSITE_CORROBORATION = Inr ()"
  "check_block [(''contract_anomaly'', shipped_contract_anomaly)] ''contract_anomaly'' REQUIRED_CONTRACT_ANOMALY = Inr ()"
  "check_block [(''baselines'', shipped_baselines)] ''baselines'' REQUIRED_BASELINES = Inr ()"
  by code_simp+

lemma check_block_lookup: "map_of data block = Some v \<Longrightarrow> check_block data block keys = check_block [(block, v)] block keys"
  by (simp add: check_block_def dict_get_def)

text \<open>A document that differs from the shipped one in these places passes when these places do.\<close>

lemma config_with_valid:
  assumes "check_block [(''contract_anomaly'', anomaly)] ''contract_anomaly'' REQUIRED_CONTRACT_ANOMALY = Inr ()"
    and "case anomaly of JDict d \<Rightarrow> covered ''contract_anomaly'' (map dots REQUIRED_CONTRACT_ANOMALY) d | _ \<Rightarrow> False"
    and "check_scorers scorers = Inr ()" "unknown_walk allowed_paths ''scorers'' scorers = []"
    and "check_band_invariants (config_with anomaly scorers) = Inr ()" "check_ranges (config_with anomaly scorers) = Inr ()"
  shows "validate_detection (config_with anomaly scorers) = Inr ()"
proof -
  let ?c = "config_with anomaly scorers"
  have maps: "map_of ?c ''scorers'' = Some (JDict scorers)" "map_of ?c ''contract_anomaly'' = Some anomaly"
    "map_of ?c ''protocol_limits'' = Some shipped_protocol_limits" "map_of ?c ''baselines'' = Some shipped_baselines"
    "map_of ?c ''composite_corroboration'' = Some shipped_composite_corroboration"
    by (simp_all add: config_with_def)
  note blocks = check_block_lookup [OF maps(2)] check_block_lookup [OF maps(3)] check_block_lookup [OF maps(4)] check_block_lookup [OF maps(5)]
  have "unknown_paths ?c = []" by (rule config_unknown [OF assms(2,4)])
  then have "demand (unknown_paths ?c = []) = Inr ()" by simp
  then show ?thesis unfolding validate_detection_def maps option.case json.case blocks assms shipped_blocks_complete rbind_simps
    by (simp only: rbind_simps assms)
qed

lemma shipped_bands: "check_band_invariants shipped_config = Inr ()"
  by code_simp

lemma shipped_similarity: "dotted_get shipped_config ''scorers.circular.recycling_min_amount_similarity'' = JFloat (dec 7 10)"
  by code_simp

lemma shipped_subset_outputs: "dotted_get shipped_config ''scorers.circular.cycle.closing_subset_max_outputs'' = JInt 24"
  by code_simp

lemma dec_unit: "0 < dec 7 10" "dec 7 10 < 1"
  unfolding dec_def by code_simp+

lemma ranges_ok:
  assumes "dotted_get data ''scorers.circular.recycling_min_amount_similarity'' = JFloat (dec 7 10)"
    and "dotted_get data ''scorers.circular.cycle.closing_subset_max_outputs'' = JInt 24"
  shows "check_ranges data = Inr ()"
  using dec_unit assms
  by (simp add: check_ranges_def RANGE_INVARIANTS_def check_range_def in_range_def CLOSING_SUBSET_OUTPUTS_LIMIT_def demand_def)

text \<open>The shipped configuration passes the check at load.\<close>

lemma shipped_config_valid: "validate_detection shipped_config = Inr ()"
  using config_with_valid [OF shipped_blocks_complete(3) shipped_blocks_known(3) shipped_scorers_complete shipped_scorers_known]
    shipped_bands ranges_ok [OF shipped_similarity shipped_subset_outputs] by (simp add: shipped_config_def)

text \<open>Replacing one section of the scorers.\<close>

lemma in_updateD: "e \<in> set (AList.update k v d) \<Longrightarrow> e \<in> set d \<or> e = (k, v)"
  by (induction d) (auto split: if_splits)

lemma replaced_section_valid:
  assumes "name \<in> set (map fst REQUIRED_KEYS)" "missing_in_section [(name, sec)] (name, keys_of name) = Inr []"
    and "covered_value (''scorers.'' @ name) (known_keys name (keys_of name)) sec"
    and "check_band_invariants (config_with shipped_contract_anomaly (AList.update name sec shipped_scorers)) = Inr ()"
    and "check_ranges (config_with shipped_contract_anomaly (AList.update name sec shipped_scorers)) = Inr ()"
  shows "validate_detection (config_with shipped_contract_anomaly (AList.update name sec shipped_scorers)) = Inr ()"
proof (rule config_with_valid [OF shipped_blocks_complete(3) shipped_blocks_known(3) _ _ assms(4,5)])
  show "check_scorers (AList.update name sec shipped_scorers) = Inr ()"
    using assms(2) shipped_section_complete by (intro check_scorersI) (auto simp del: missing_in_section_Nil)
  have "e \<in> set shipped_scorers \<or> e = (name, sec)" if "e \<in> set (AList.update name sec shipped_scorers)" for e
    using that by (rule in_updateD)
  then show "unknown_walk allowed_paths ''scorers'' (AList.update name sec shipped_scorers) = []"
    using assms(1,3) shipped_section_known by (intro known_scorers) fastforce
qed

section \<open>A document that passed\<close>



end
