(* ===== verification/Contract_Anomaly.thy ===== *)
theory Contract_Anomaly
  imports Shipped_Config
begin

text \<open>
  The projection of the clustering sidecar's verdicts onto the score scale (\<open>src/backend/app/analysis/contract_anomaly.py\<close>).
  The block \<open>contract_anomaly\<close> of the configuration is an argument; a raw verdict row is a dict.

  Shown: the highest verdict of a transaction wins, whatever the order of the rows; with a checked configuration
  a malicious label is Critical and a safe label scores zero; and a bare anomaly stays below High exactly as long
  as its floor does, which the check at load does not ask for.
\<close>

section \<open>The projection\<close>

definition SCORE_MIN :: rat where "SCORE_MIN = 0"
definition SCORE_MAX :: rat where "SCORE_MAX = 100"

definition POSITIVE_VERDICTS :: "string list" where
  "POSITIVE_VERDICTS = [''malicious'', ''anomaly'']"

text \<open>The guard at import.\<close>

definition positive_floors_configured :: "json \<Rightarrow> unit result" where
  "positive_floors_configured cfg =
     rbind (jidx cfg ''verdict_floors'') (\<lambda>floors.
       case floors of
         JDict d \<Rightarrow> demand (list_all (\<lambda>v. map_of d v \<noteq> None) POSITIVE_VERDICTS)
       | _ \<Rightarrow> rbind (iter_json floors) (\<lambda>vs. demand (list_all (\<lambda>v. JStr v \<in> set vs) POSITIVE_VERDICTS)))"

definition consensus_term :: "rat option \<Rightarrow> rat \<Rightarrow> rat" where
  "consensus_term consensus scale = (case consensus of None \<Rightarrow> 0 | Some c \<Rightarrow> fmul c scale)"

definition project_score :: "json \<Rightarrow> string \<Rightarrow> rat option \<Rightarrow> (rat \<times> string) result" where
  "project_score cfg verdict consensus =
     (if verdict \<notin> set POSITIVE_VERDICTS then Inr (SCORE_MIN, score_to_band SCORE_MIN)
      else rbind (rbind (jidx cfg ''verdict_floors'') (\<lambda>floors. float_at floors verdict)) (\<lambda>floor.
           rbind (float_at cfg (if verdict = ''anomaly'' then ''anomaly_consensus_scale'' else ''consensus_scale'')) (\<lambda>scale.
             let s = min SCORE_MAX (max floor (consensus_term consensus scale))
             in Inr (s, score_to_band s))))"

text \<open>\<open>row.get("verdict", "normal")\<close> as a member of a set of strings: a list or a dict cannot be hashed.\<close>

definition verdict_of :: "(string, json) dict \<Rightarrow> string result" where
  "verdict_of row =
     (case dict_get row ''verdict'' (JStr ''normal'') of
        JStr s \<Rightarrow> Inr s | JList _ \<Rightarrow> Inl TypeError | JDict _ \<Rightarrow> Inl TypeError | _ \<Rightarrow> Inr ''normal'')"

definition consensus_of :: "(string, json) dict \<Rightarrow> rat option result" where
  "consensus_of row =
     (case dict_get row ''consensus'' JNull of JNull \<Rightarrow> Inr None | c \<Rightarrow> rbind (finite_float c) (\<lambda>x. Inr (Some x)))"

definition project_row :: "json \<Rightarrow> (string, json) dict \<Rightarrow> (rat \<times> string) result" where
  "project_row cfg row = rbind (consensus_of row) (\<lambda>c. rbind (verdict_of row) (\<lambda>v. project_score cfg v c))"

definition resolved_row :: "(string, json) dict \<Rightarrow> rat \<Rightarrow> string \<Rightarrow> (string, json) dict" where
  "resolved_row row s band =
     AList.update ''unclusterable_fit'' (JBool (truthy (dict_get row ''unclusterable_fit'' JNull)))
       (AList.update ''risk_band'' (JStr band) (AList.update ''score'' (JFloat s) row))"

fun resolve_rows :: "json \<Rightarrow> (string, json) dict list \<Rightarrow> rat \<Rightarrow> (string, json) dict option \<Rightarrow> (string, json) dict option result" where
  "resolve_rows cfg [] best_score best = Inr best"
| "resolve_rows cfg (row # rows) best_score best =
     rbind (project_row cfg row) (\<lambda>(s, band).
       if s > best_score then resolve_rows cfg rows s (Some (resolved_row row s band))
       else resolve_rows cfg rows best_score best)"

definition resolve :: "json \<Rightarrow> (string, json) dict list \<Rightarrow> (string, json) dict option result" where
  "resolve cfg rows = resolve_rows cfg rows (-1) None"

definition corroboration_threshold :: "json \<Rightarrow> rat result" where
  "corroboration_threshold cfg = float_at cfg ''corroboration_threshold''"

definition freshness_seconds :: "json \<Rightarrow> int result" where
  "freshness_seconds cfg = int_at cfg ''freshness_seconds''"

definition heartbeat_stale_seconds :: "json \<Rightarrow> int result" where
  "heartbeat_stale_seconds cfg = int_at cfg ''heartbeat_stale_seconds''"

section \<open>The highest verdict wins\<close>

definition row_score :: "json \<Rightarrow> (string, json) dict \<Rightarrow> rat" where
  "row_score cfg row = (case project_row cfg row of Inr (s, _) \<Rightarrow> s | Inl _ \<Rightarrow> -1)"

definition is_resolved :: "json \<Rightarrow> (string, json) dict \<Rightarrow> (string, json) dict \<Rightarrow> bool" where
  "is_resolved cfg row best \<longleftrightarrow>
     (\<exists>s band. project_row cfg row = Inr (s, band) \<and> best = resolved_row row s band)"

lemma resolved_row_lookup [simp]:
  "map_of (resolved_row row s band) ''score'' = Some (JFloat s)"
  "map_of (resolved_row row s band) ''risk_band'' = Some (JStr band)"
  by (simp_all add: resolved_row_def)

lemma resolve_rows_max:
  assumes "resolve_rows cfg rows best_score best = Inr res"
  shows "(if \<exists>row \<in> set rows. row_score cfg row > best_score
          then \<exists>row \<in> set rows. \<exists>r. res = Some r \<and> is_resolved cfg row r \<and> (\<forall>other \<in> set rows. row_score cfg other \<le> row_score cfg row)
          else res = best) \<and> (\<forall>row \<in> set rows. \<exists>s band. project_row cfg row = Inr (s, band))"
  using assms
proof (induction rows arbitrary: best_score best)
  case (Cons row rows)
  obtain s band where p: "project_row cfg row = Inr (s, band)" using Cons.prems by (auto simp: rbind_eq_Inr_iff)
  then have sc: "row_score cfg row = s" by (simp add: row_score_def)
  show ?case
  proof (cases "s > best_score")
    case True
    then have rest: "resolve_rows cfg rows s (Some (resolved_row row s band)) = Inr res" using Cons.prems p by simp
    note IH = Cons.IH [OF rest]
    show ?thesis
    proof (cases "\<exists>r \<in> set rows. row_score cfg r > s")
      case T: True
      then show ?thesis using IH p sc True by (auto simp: not_less) (meson order.trans less_imp_le order.strict_trans)+
    next
      case F: False
      then have "res = Some (resolved_row row s band)" using IH by auto
      moreover have "is_resolved cfg row (resolved_row row s band)" using p by (auto simp: is_resolved_def)
      ultimately show ?thesis using IH p sc True F by (auto simp: not_less)
    qed
  next
    case False
    then have rest: "resolve_rows cfg rows best_score best = Inr res" using Cons.prems p by simp
    note IH = Cons.IH [OF rest]
    then show ?thesis using p sc False by (auto simp: not_less) (meson order.trans less_imp_le)+
  qed
qed simp

text \<open>A transaction touched by several watched contracts carries its highest verdict: the resolved row comes
  from a raw row whose score no other row exceeds, with that score and its band, so that a safe verdict of one
  contract never hides an anomaly of another; and no rows give no verdict.\<close>

theorem highest_verdict_wins:
  assumes "resolve cfg rows = Inr res" "\<forall>row \<in> set rows. 0 \<le> row_score cfg row"
  shows "(rows = [] \<longrightarrow> res = None) \<and>
     (rows \<noteq> [] \<longrightarrow> (\<exists>row \<in> set rows. \<exists>best. res = Some best \<and>
        map_of best ''score'' = Some (JFloat (row_score cfg row)) \<and>
        map_of best ''risk_band'' = Some (JStr (score_to_band (row_score cfg row))) \<and>
        (\<forall>other \<in> set rows. row_score cfg other \<le> row_score cfg row)))"
proof (cases rows)
  case Nil
  then show ?thesis using assms(1) by (simp add: resolve_def)
next
  case (Cons row0 rest)
  have "\<exists>row \<in> set rows. row_score cfg row > -1" using assms(2) Cons by (intro bexI [of _ row0]) auto
  then obtain row best where r: "row \<in> set rows" "res = Some best" "is_resolved cfg row best"
    "\<forall>other \<in> set rows. row_score cfg other \<le> row_score cfg row"
    using resolve_rows_max [OF assms(1) [unfolded resolve_def]] by auto
  obtain s band where s: "project_row cfg row = Inr (s, band)" "best = resolved_row row s band"
    using r(3) by (auto simp: is_resolved_def)
  have "band = score_to_band s" using s(1) by (auto simp: project_row_def project_score_def rbind_eq_Inr_iff Let_def split: if_splits)
  moreover have "row_score cfg row = s" using s(1) by (simp add: row_score_def)
  ultimately show ?thesis using r(1,2,4) s(2) Cons by (intro conjI impI bexI [of _ row]) auto
qed

definition demo_anomaly :: "(string, json) dict" where
  "demo_anomaly = [(''verdict'', JStr ''anomaly''), (''consensus'', JFloat (1 / 2))]"

definition demo_benign :: "(string, json) dict" where
  "demo_benign = [(''verdict'', JStr ''benign''), (''consensus'', JFloat 1)]"

lemma demo_projection:
  "project_row shipped_contract_anomaly demo_anomaly = Inr (59 / 2, ''Informational'')"
  "project_row shipped_contract_anomaly demo_benign = Inr (0, ''Informational'')"
  by code_simp+

theorem highest_verdict_wins_witness:
  "\<exists>best. resolve shipped_contract_anomaly [demo_anomaly, demo_benign] = Inr (Some best) \<and> map_of best ''score'' = Some (JFloat (59 / 2))"
proof -
  have sc: "row_score shipped_contract_anomaly demo_anomaly = 59 / 2" "row_score shipped_contract_anomaly demo_benign = 0"
    by (simp_all add: row_score_def demo_projection)
  obtain best where b: "resolve shipped_contract_anomaly [demo_anomaly, demo_benign] = Inr (Some best)"
    by (simp add: resolve_def demo_projection)
  have "\<forall>row \<in> set [demo_anomaly, demo_benign]. 0 \<le> row_score shipped_contract_anomaly row" by (simp add: sc)
  from highest_verdict_wins [OF b this] have "map_of best ''score'' = Some (JFloat (59 / 2))" by (auto simp: sc)
  then show ?thesis using b by blast
qed

section \<open>Bands\<close>

lemma contract_anomaly_leaf:
  assumes "map_of data ''contract_anomaly'' = Some cfg"
  shows "dotted_get data ''contract_anomaly.anomaly_consensus_scale'' = get_path cfg [''anomaly_consensus_scale'']"
    and "dotted_get data ''contract_anomaly.verdict_floors.malicious'' = get_path cfg [''verdict_floors'', ''malicious'']"
  using assms by (simp_all add: dotted_get_def dots_def)

lemma BAND_INVARIANTS_anomaly:
  "(''contract_anomaly.verdict_floors.malicious'', BAND_CRITICAL_THRESHOLD, None) \<in> set BAND_INVARIANTS"
  "(''contract_anomaly.anomaly_consensus_scale'', BAND_MODERATE_THRESHOLD, Some BAND_HIGH_THRESHOLD) \<in> set BAND_INVARIANTS"
  by (simp_all add: BAND_INVARIANTS_def)

lemma consensus_term_le:
  assumes "case consensus of None \<Rightarrow> True | Some c \<Rightarrow> 0 \<le> c \<and> c \<le> 1" "is_float scale" "0 \<le> scale"
  shows "consensus_term consensus scale \<le> scale"
proof (cases consensus)
  case (Some c)
  then have "c * scale \<le> scale" using assms by (simp add: mult_left_le_one_le)
  then have "fl (c * scale) \<le> fl scale" by (rule fl_mono)
  then show ?thesis using Some assms(2) by (simp add: consensus_term_def fmul_def is_float_def)
qed (simp add: consensus_term_def assms)

text \<open>C17. Under a checked configuration a curated malicious label is Critical, every label but malicious and
  anomaly scores zero whatever the consensus, and an unsupervised anomaly stays out of the paging bands if the
  configured floor of anomalies does.\<close>

theorem verdict_bands:
  assumes "validate_detection data = Inr ()" "map_of data ''contract_anomaly'' = Some cfg"
    and "project_score cfg verdict consensus = Inr (s, band)"
    and "case consensus of None \<Rightarrow> True | Some c \<Rightarrow> 0 \<le> c \<and> c \<le> 1"
    and "jidx cfg ''verdict_floors'' = Inr floors" "float_at floors ''anomaly'' = Inr anomaly_floor"
    and "float_at cfg ''anomaly_consensus_scale'' = Inr scale" "is_float scale"
  shows "if verdict = ''malicious'' then band = ''Critical''
     else if verdict = ''anomaly'' then (band = ''High'' \<or> band = ''Critical'' \<longleftrightarrow> BAND_HIGH_THRESHOLD \<le> anomaly_floor)
     else s = 0 \<and> band = ''Informational''"
proof -
  have bands: "check_band_invariants data = Inr ()" using validate_detectionE [OF assms(1)] by metis
  consider "verdict = ''malicious''" | "verdict = ''anomaly''" | "verdict \<notin> set POSITIVE_VERDICTS"
    by (auto simp: POSITIVE_VERDICTS_def)
  then show ?thesis
  proof cases
    case 1
    obtain floor scale' where f: "float_at floors ''malicious'' = Inr floor"
      and s: "s = min SCORE_MAX (max floor (consensus_term consensus scale'))" "band = score_to_band s"
      using assms(3,5) 1 by (auto simp: project_score_def POSITIVE_VERDICTS_def rbind_eq_Inr_iff Let_def)
    have "dotted_get data ''contract_anomaly.verdict_floors.malicious'' = get_path floors [''malicious'']"
      unfolding contract_anomaly_leaf(2) [OF assms(2)] by (rule jidx_get_path [OF assms(5)])
    from band_invariant [OF bands BAND_INVARIANTS_anomaly(1) this float_at_get_path [OF f]]
    have "BAND_CRITICAL_THRESHOLD \<le> floor" by simp
    then have "BAND_CRITICAL_THRESHOLD \<le> s" by (simp add: s(1) SCORE_MAX_def BAND_CRITICAL_THRESHOLD_def le_max_iff_disj)
    then show ?thesis using 1 s(2) by (simp add: score_to_band_def)
  next
    case 2
    have s: "s = min SCORE_MAX (max anomaly_floor (consensus_term consensus scale))" "band = score_to_band s"
      using assms(3,5,6,7) 2 by (auto simp: project_score_def POSITIVE_VERDICTS_def rbind_eq_Inr_iff Let_def)
    from band_invariant [OF bands BAND_INVARIANTS_anomaly(2) contract_anomaly_leaf(1) [OF assms(2)] float_at_get_path [OF assms(7)]]
    have sc: "BAND_MODERATE_THRESHOLD \<le> scale" "scale < BAND_HIGH_THRESHOLD" by simp_all
    then have "consensus_term consensus scale < BAND_HIGH_THRESHOLD"
      using consensus_term_le [OF assms(4,8)] by (simp add: BAND_MODERATE_THRESHOLD_def)
    then have "BAND_HIGH_THRESHOLD \<le> s \<longleftrightarrow> BAND_HIGH_THRESHOLD \<le> anomaly_floor"
      by (auto simp: s(1) SCORE_MAX_def BAND_HIGH_THRESHOLD_def min_def max_def)
    moreover have "band = ''High'' \<or> band = ''Critical'' \<longleftrightarrow> BAND_HIGH_THRESHOLD \<le> s"
      unfolding s(2) by (auto simp: score_to_band_def BAND_HIGH_THRESHOLD_def BAND_CRITICAL_THRESHOLD_def)
    ultimately show ?thesis using 2 by simp
  next
    case 3
    then show ?thesis using assms(3) by (auto simp: project_score_def POSITIVE_VERDICTS_def SCORE_MIN_def score_to_band_def
        BAND_CRITICAL_THRESHOLD_def BAND_HIGH_THRESHOLD_def split: if_splits)
  qed
qed

lemma shipped_anomaly:
  "map_of shipped_config ''contract_anomaly'' = Some shipped_contract_anomaly"
  "project_score shipped_contract_anomaly ''anomaly'' (Some 1) = Inr (59, ''Moderate'')"
  "jidx shipped_contract_anomaly ''verdict_floors'' = Inr (JDict [(''malicious'', JFloat 80), (''anomaly'', JFloat 0), (''benign'', JFloat 0), (''normal'', JFloat 0)])"
  "float_at (JDict [(''malicious'', JFloat 80), (''anomaly'', JFloat 0), (''benign'', JFloat 0), (''normal'', JFloat 0)]) ''anomaly'' = Inr 0"
  "float_at shipped_contract_anomaly ''anomaly_consensus_scale'' = Inr 59"
  by (simp add: shipped_config_def config_with_def, code_simp+)

theorem verdict_bands_witness:
  "validate_detection shipped_config = Inr () \<and> project_score shipped_contract_anomaly ''anomaly'' (Some 1) = Inr (59, ''Moderate'') \<and>
   (''Moderate'' = ''High'' \<or> ''Moderate'' = ''Critical'' \<longleftrightarrow> BAND_HIGH_THRESHOLD \<le> 0)"
proof -
  have c: "case Some (1 :: rat) of None \<Rightarrow> True | Some c \<Rightarrow> 0 \<le> c \<and> c \<le> 1" by simp
  have f: "is_float 59" by (simp add: is_float_def)
  from verdict_bands [OF shipped_config_valid shipped_anomaly(1,2) c shipped_anomaly(3,4,5) f]
  show ?thesis using shipped_config_valid shipped_anomaly(2) by simp
qed


section \<open>What the check does not ask\<close>

definition paging_anomaly_block :: json where
  "paging_anomaly_block =
     (case shipped_contract_anomaly of
        JDict d \<Rightarrow> JDict (AList.update ''verdict_floors''
          (JDict [(''malicious'', JFloat 80), (''anomaly'', JFloat 70), (''benign'', JFloat 0), (''normal'', JFloat 0)]) d)
      | j \<Rightarrow> j)"

definition paging_config :: "(string, json) dict" where
  "paging_config = config_with paging_anomaly_block shipped_scorers"

lemma paging_ranges:
  "dotted_get paging_config ''scorers.circular.recycling_min_amount_similarity'' = JFloat (dec 7 10)"
  "dotted_get paging_config ''scorers.circular.cycle.closing_subset_max_outputs'' = JInt 24"
  by code_simp+

lemma paging_bands: "check_band_invariants paging_config = Inr ()"
  by code_simp

text \<open>The Moderate ceiling of unsupervised anomalies is not enforced at load: a configuration that gives them a
  floor in the High band passes the check, and then an anomaly without any consensus pages.\<close>

theorem anomaly_floor_unchecked:
  "validate_detection paging_config = Inr () \<and> project_score paging_anomaly_block ''anomaly'' None = Inr (70, ''High'')"
proof
  have "check_block [(''contract_anomaly'', paging_anomaly_block)] ''contract_anomaly'' REQUIRED_CONTRACT_ANOMALY = Inr ()" by code_simp
  moreover have "case paging_anomaly_block of JDict d \<Rightarrow> covered ''contract_anomaly'' (map dots REQUIRED_CONTRACT_ANOMALY) d | _ \<Rightarrow> False"
    by code_simp
  ultimately show "validate_detection paging_config = Inr ()"
    using config_with_valid [OF _ _ shipped_scorers_complete shipped_scorers_known] paging_bands ranges_ok [OF paging_ranges]
    by (simp add: paging_config_def del: check_block_ok)
  show "project_score paging_anomaly_block ''anomaly'' None = Inr (70, ''High'')" by code_simp
qed

end
