(* ===== verification/Scorer_Config.thy ===== *)
theory Scorer_Config
  imports Detection_Config
begin

text \<open>
  Reading the detection configuration (\<open>src/backend/app/analysis/scorer_config.py\<close>, second half): anchors, byte
  thresholds, network-keyed lists, and the resolution of a baseline with its caps and its record.

  A learned baseline comes from what was observed on the chain, so an attacker can move it.  The caps bound by
  how much: shown here is that a resolved pair is never degenerate and never exceeds its caps, and that a value
  therefore never scores lower than it would against the cap.
\<close>

section \<open>Anchors and limits\<close>

record anchor_pair =
  anchor_p50 :: rat
  anchor_p99 :: rat

text \<open>\<open>anchor(container, key)\<close>.\<close>

definition anchor :: "json \<Rightarrow> string \<Rightarrow> anchor_pair result" where
  "anchor container key =
     rbind (jidx container key) (\<lambda>a. rbind (float_at a ''p50'') (\<lambda>p50. rbind (float_at a ''p99'') (\<lambda>p99.
       Inr \<lparr>anchor_p50 = p50, anchor_p99 = p99\<rparr>)))"

text \<open>\<open>limits\<close> is the block \<open>protocol_limits\<close> of the configuration, a mapping since the check at load.\<close>

definition protocol_limit :: "(string, json) dict \<Rightarrow> string \<Rightarrow> int result" where
  "protocol_limit limits name = (case map_of limits name of None \<Rightarrow> Inl KeyError | Some n \<Rightarrow> int_of_json n)"

definition fraction_of_limit :: "(string, json) dict \<Rightarrow> json \<Rightarrow> string \<Rightarrow> int result" where
  "fraction_of_limit limits fraction name =
     rbind (finite_float fraction) (\<lambda>f. rbind (protocol_limit limits name) (\<lambda>n. Inr (py_int (fmul f (fl (of_int n))))))"

text \<open>\<open>load_network_map\<close>: no block is no network; a network without a list has an empty one.\<close>

definition network_items :: "string \<times> json \<Rightarrow> (string \<times> json list) result" where
  "network_items kv =
     (case kv of (network, items) \<Rightarrow>
        (case items of JNull \<Rightarrow> Inr (network, []) | JList xs \<Rightarrow> Inr (network, xs) | _ \<Rightarrow> Inl ConfigFailure))"

definition load_network_map :: "json \<Rightarrow> (string, json list) dict result" where
  "load_network_map raw =
     (case raw of JNull \<Rightarrow> Inr [] | JDict d \<Rightarrow> rmap network_items d | _ \<Rightarrow> Inl ConfigFailure)"

section \<open>Baselines with caps\<close>

record baseline_settings =
  P99_CAP_MULTIPLIER :: rat
  MIN_SPREAD_RATIO :: rat
  P50_CAP_SPREAD_FRACTION :: rat
  RECORD_PROVENANCE :: bool
  BASELINE_MIN_SAMPLES :: int

record baseline_record =
  rec_feature :: string
  rec_scope :: string
  rec_source :: string
  rec_p50 :: rat
  rec_p99 :: rat
  rec_uncapped :: "(rat \<times> rat) option"

definition record_baseline ::
  "'a baseline_settings_scheme \<Rightarrow> string \<Rightarrow> string \<Rightarrow> string \<Rightarrow> string \<Rightarrow> rat \<Rightarrow> rat \<Rightarrow> (rat \<times> rat) option \<Rightarrow>
     baseline_record list option \<Rightarrow> baseline_record list option" where
  "record_baseline cfg feature scope_type scope_id source p50 p99 learned records =
     (case records of
        None \<Rightarrow> None
      | Some rs \<Rightarrow>
          (if \<not> RECORD_PROVENANCE cfg then Some rs
           else let entry = \<lparr>rec_feature = feature, rec_scope = (if scope_id \<noteq> [] then scope_type @ '':'' @ scope_id else scope_type),
                      rec_source = source, rec_p50 = p50, rec_p99 = p99,
                      rec_uncapped = (case learned of None \<Rightarrow> None | Some (l50, l99) \<Rightarrow> if l50 \<noteq> p50 \<or> l99 \<noteq> p99 then Some (l50, l99) else None)\<rparr>
                in Some (if entry \<in> set rs then rs else rs @ [entry])))"

definition p99_cap :: "'a baseline_settings_scheme \<Rightarrow> anchor_pair \<Rightarrow> rat" where
  "p99_cap cfg a = fmul (P99_CAP_MULTIPLIER cfg) (anchor_p99 a)"

definition p50_bound :: "'a baseline_settings_scheme \<Rightarrow> anchor_pair \<Rightarrow> rat" where
  "p50_bound cfg a =
     min (fadd (anchor_p50 a) (fmul (P50_CAP_SPREAD_FRACTION cfg) (fsub (anchor_p99 a) (anchor_p50 a))))
         (fdiv (p99_cap cfg a) (fadd 1 (MIN_SPREAD_RATIO cfg)))"

definition resolved_or_bootstrap ::
  "'a baseline_settings_scheme \<Rightarrow> (string \<Rightarrow> string \<Rightarrow> string \<Rightarrow> baseline option) \<Rightarrow> string \<Rightarrow> string \<Rightarrow> string \<Rightarrow>
     json \<Rightarrow> string \<Rightarrow> string list option \<Rightarrow> baseline_record list option \<Rightarrow>
     (rat \<times> rat \<times> string) result \<times> baseline_record list option" where
  "resolved_or_bootstrap cfg get feature scope_type scope_id bootstrap key allowed records =
     (case resolve_baseline get (MIN_SPREAD_RATIO cfg) (BASELINE_MIN_SAMPLES cfg) feature scope_type scope_id 0 allowed of
        (p50, p99, source) \<Rightarrow>
          (if source = ''missing''
           then (case anchor bootstrap key of
                   Inl e \<Rightarrow> (Inl e, records)
                 | Inr a \<Rightarrow> (Inr (anchor_p50 a, anchor_p99 a, ''bootstrap''),
                     record_baseline cfg feature scope_type scope_id ''bootstrap'' (anchor_p50 a) (anchor_p99 a) None records))
           else if P99_CAP_MULTIPLIER cfg > 0
           then (case anchor bootstrap key of
                   Inl e \<Rightarrow> (Inl e, records)
                 | Inr a \<Rightarrow>
                     let q99 = (if anchor_p99 a > 0 then min p99 (p99_cap cfg a) else p99);
                         q50 = (if anchor_p99 a > 0 then min p50 (p50_bound cfg a) else p50)
                     in (Inr (q50, q99, source), record_baseline cfg feature scope_type scope_id source q50 q99 (Some (p50, p99)) records))
           else (Inr (p50, p99, source), record_baseline cfg feature scope_type scope_id source p50 p99 (Some (p50, p99)) records)))"

section \<open>What a scorer is given\<close>

text \<open>The baselines of the network and the caps.  The recorder collects what a resolution returned; it does not take
  part in it, so the models of the scorers leave it out.\<close>

record scoring_env =
  env_caps :: baseline_settings
  env_get :: "string \<Rightarrow> string \<Rightarrow> string \<Rightarrow> baseline option"

definition resolve_axis ::
  "scoring_env \<Rightarrow> string \<Rightarrow> string \<Rightarrow> string \<Rightarrow> json \<Rightarrow> string \<Rightarrow> string list option \<Rightarrow> (rat \<times> rat \<times> string) result" where
  "resolve_axis env feature scope_type scope_id bootstrap key allowed =
     fst (resolved_or_bootstrap (env_caps env) (env_get env) feature scope_type scope_id bootstrap key allowed None)"

lemma recorder_irrelevant:
  "fst (resolved_or_bootstrap (env_caps env) (env_get env) feature scope_type scope_id bootstrap key allowed records) =
     resolve_axis env feature scope_type scope_id bootstrap key allowed"
  by (simp add: resolve_axis_def resolved_or_bootstrap_def Let_def split: prod.splits sum.splits)

text \<open>\<open>float(_W[k]) * s + \<dots>\<close>, from left to right.\<close>

fun weigh_more :: "json \<Rightarrow> rat \<Rightarrow> (string \<times> rat) list \<Rightarrow> rat result" where
  "weigh_more W acc [] = Inr acc"
| "weigh_more W acc ((k, s) # ks) = rbind (float_at W k) (\<lambda>w. weigh_more W (fadd acc (fmul w s)) ks)"

definition weighted_sum :: "json \<Rightarrow> string \<times> rat \<Rightarrow> (string \<times> rat) list \<Rightarrow> rat result" where
  "weighted_sum W first ks = (case first of (k, s) \<Rightarrow> rbind (float_at W k) (\<lambda>w. weigh_more W (fmul w s) ks))"

definition reason :: "bool \<Rightarrow> string \<Rightarrow> string list" where
  "reason b r = (if b then [r] else [])"

abbreviation rounded :: "rat \<Rightarrow> nat \<Rightarrow> json" where
  "rounded x n \<equiv> JFloat (fround x n)"

lemma fmul_mono: "0 \<le> w \<Longrightarrow> s \<le> s' \<Longrightarrow> fmul w s \<le> fmul w s'"
  unfolding fmul_def by (rule fl_mono) (rule mult_left_mono)

lemma fadd_mono: "x \<le> x' \<Longrightarrow> y \<le> y' \<Longrightarrow> fadd x y \<le> fadd x' y'"
  unfolding fadd_def by (rule fl_mono) simp

text \<open>With weights that are not negative a weighted sum is monotone in every sub-score.\<close>

lemma weigh_more_mono:
  assumes "list_all2 (\<lambda>(k, s) (k', s'). k = k' \<and> s \<le> s') ks ks'" "acc \<le> acc'"
    and "\<forall>(k, _) \<in> set ks. \<forall>w. float_at W k = Inr w \<longrightarrow> 0 \<le> w"
    and "weigh_more W acc ks = Inr x" "weigh_more W acc' ks' = Inr x'"
  shows "x \<le> x'"
  using assms
proof (induction ks ks' arbitrary: acc acc' rule: list_all2_induct)
  case (Cons e es e' es')
  obtain k s s' where e: "e = (k, s)" "e' = (k, s')" "s \<le> s'" using Cons(1) by (cases e; cases e') auto
  obtain w where w: "float_at W k = Inr w" "weigh_more W (fadd acc (fmul w s)) es = Inr x"
    using Cons.prems(3) e by (auto simp: rbind_eq_Inr_iff)
  have x': "weigh_more W (fadd acc' (fmul w s')) es' = Inr x'" using Cons.prems(4) e w(1) by simp
  have "0 \<le> w" using Cons.prems(2) e w(1) by auto
  then have "fadd acc (fmul w s) \<le> fadd acc' (fmul w s')" using Cons.prems(1) e(3) by (intro fadd_mono fmul_mono)
  then show ?case using Cons.IH w(2) x' Cons.prems(2) by auto
qed simp

lemma weighted_sum_mono:
  assumes "list_all2 (\<lambda>(k, s) (k', s'). k = k' \<and> s \<le> s') (f # ks) (f' # ks')"
    and "\<forall>(k, _) \<in> set (f # ks). \<forall>w. float_at W k = Inr w \<longrightarrow> 0 \<le> w"
    and "weighted_sum W f ks = Inr x" "weighted_sum W f' ks' = Inr x'"
  shows "x \<le> x'"
proof -
  obtain k s s' where f: "f = (k, s)" "f' = (k, s')" "s \<le> s'" using assms(1) by (cases f; cases f') auto
  obtain w where w: "float_at W k = Inr w" "weigh_more W (fmul w s) ks = Inr x" "weigh_more W (fmul w s') ks' = Inr x'"
    using assms(3,4) f by (auto simp: weighted_sum_def rbind_eq_Inr_iff)
  have "fmul w s \<le> fmul w s'" using assms(2) f w(1) by (intro fmul_mono) auto
  then show ?thesis using weigh_more_mono [OF _ _ _ w(2,3)] assms(1,2) f by auto
qed

section \<open>The caps bound what a learned baseline can do\<close>

lemma normalise_antitone_p99:
  assumes "is_float p50" "is_float p99" "p50 < p99" "p99 \<le> q"
  shows "normalise v p50 q \<le> normalise v p50 p99"
proof -
  have d: "0 < fsub p99 p50" using assms by (intro fsub_pos)
  have d': "fsub p99 p50 \<le> fsub q p50" unfolding fsub_def using assms(4) by (intro fl_mono) simp
  have D: "0 < fadd (fsub p99 p50) EPSILON"
    using fl_mono [of "fsub p99 p50" "fsub p99 p50 + EPSILON"] fl_nonneg [of "1 / 1000000"] d
    by (simp add: fadd_def EPSILON_def fsub_def)
  have D': "fadd (fsub p99 p50) EPSILON \<le> fadd (fsub q p50) EPSILON" unfolding fadd_def using d' by (intro fl_mono) simp
  have "max 0 (min 1 (fdiv (fsub v p50) (fadd (fsub q p50) EPSILON))) \<le> max 0 (min 1 (fdiv (fsub v p50) (fadd (fsub p99 p50) EPSILON)))"
  proof (cases "fsub v p50 \<ge> 0")
    case True
    then have "fsub v p50 / fadd (fsub q p50) EPSILON \<le> fsub v p50 / fadd (fsub p99 p50) EPSILON"
      using D D' by (intro divide_left_mono) auto
    then have "fdiv (fsub v p50) (fadd (fsub q p50) EPSILON) \<le> fdiv (fsub v p50) (fadd (fsub p99 p50) EPSILON)"
      unfolding fdiv_def by (rule fl_mono)
    then show ?thesis by (simp add: max_def min_def)
  next
    case False
    then have "fsub v p50 / fadd (fsub q p50) EPSILON \<le> 0" using D D' by (simp add: divide_le_0_iff)
    then have "fdiv (fsub v p50) (fadd (fsub q p50) EPSILON) \<le> 0" unfolding fdiv_def using fl_mono [of _ 0] by simp
    then show ?thesis by (simp add: max_def min_def)
  qed
  then show ?thesis using d d' by (simp add: normalise_def Let_def)
qed

lemma resolve_baseline_learned:
  assumes "resolve_baseline get m n feature st si k allowed = (p50, p99, source)" "source \<noteq> ''missing''"
  obtains t i row where "get t i feature = Some row" "baseline_is_usable m row" "p50 = base_p50 row" "p99 = base_p99 row" "source = t"
  using assms unfolding resolve_baseline_def Let_def by (auto split: option.splits if_splits)

lemma usable_spread:
  assumes "baseline_is_usable m row" "0 < m" "is_float (base_p50 row)" "is_float (base_p99 row)"
  shows "base_p50 row < base_p99 row"
proof (cases "base_p50 row \<le> 0")
  case False
  then have "m \<le> fdiv (fsub (base_p99 row) (base_p50 row)) (base_p50 row)" using assms(1) by (simp add: baseline_is_usable_def)
  then have pos: "0 < fdiv (fsub (base_p99 row) (base_p50 row)) (base_p50 row)" using assms(2) by linarith
  show ?thesis
  proof (rule ccontr)
    assume "\<not> ?thesis"
    then have "fsub (base_p99 row) (base_p50 row) \<le> 0" unfolding fsub_def using fl_mono [of "base_p99 row - base_p50 row" 0] by simp
    then have "fsub (base_p99 row) (base_p50 row) / base_p50 row \<le> 0" using False by (simp add: divide_le_0_iff)
    then show False using pos fl_mono [of "fsub (base_p99 row) (base_p50 row) / base_p50 row" 0] by (simp add: fdiv_def)
  qed
qed (use assms(1) in \<open>simp add: baseline_is_usable_def\<close>)

definition caps_sane :: "'a baseline_settings_scheme \<Rightarrow> anchor_pair \<Rightarrow> bool" where
  "caps_sane cfg a \<longleftrightarrow> 0 < P99_CAP_MULTIPLIER cfg \<and> 1 / 100 \<le> MIN_SPREAD_RATIO cfg \<and> 0 < anchor_p99 a \<and>
     1 / 10 ^ 9 \<le> p99_cap cfg a \<and> anchor_p50 a < anchor_p99 a"

lemma p50_bound_below_cap:
  assumes "caps_sane cfg a"
  shows "p50_bound cfg a < p99_cap cfg a"
proof -
  define c where "c = p99_cap cfg a"
  define q where "q = fadd 1 (MIN_SPREAD_RATIO cfg)"
  have c: "1 / 10 ^ 9 \<le> c" using assms by (simp add: caps_sane_def c_def)
  have "fl (101 / 100) \<le> q" unfolding q_def fadd_def using assms by (intro fl_mono) (simp add: caps_sane_def)
  moreover have "(201 / 200 :: rat) \<le> fl (101 / 100)" by code_simp
  ultimately have q: "201 / 200 \<le> q" by linarith
  have pos: "0 < c / q" using c q by (intro divide_pos_pos) (auto intro: order.strict_trans2)
  have "c / q \<le> c / (201 / 200)" using q c by (intro divide_left_mono) (auto intro: order.strict_trans2 order_trans)
  then have x: "c / q \<le> c * (200 / 201)" by simp
  have "c / q / 2 ^ 53 \<le> c / 1000" using pos x c by (simp add: field_simps)
  moreover have "(2::rat) powi - 1075 \<le> c / 1000" using two_powi_tiny c by (simp add: field_simps)
  ultimately have "max (c / q / 2 ^ 53) (2 powi - 1075) \<le> c / 1000" by simp
  then have "fl (c / q) \<le> c * (200 / 201) + c / 1000" using fl_upper [OF pos] x by linarith
  also have "\<dots> < c" using c by (simp add: field_simps)
  finally have "fdiv c q < c" by (simp add: fdiv_def)
  then show ?thesis unfolding p50_bound_def c_def q_def by (rule order.strict_trans1 [OF min.cobounded2])
qed

text \<open>C13. Whatever an attacker writes to the chain to move a baseline, a resolved pair is never degenerate, and
  a learned pair stays within the caps around the configured anchors, so that a value never scores less than it
  would against the cap of the tail.\<close>

theorem learned_baselines_bounded:
  assumes "caps_sane cfg a" "anchor bootstrap key = Inr a"
    and floats: "\<And>t i row. get t i feature = Some row \<Longrightarrow> is_float (base_p50 row) \<and> is_float (base_p99 row)"
    and "scope_type \<noteq> ''missing''" "scope_type \<noteq> ''bootstrap''"
  shows "\<exists>p50 p99 source. fst (resolved_or_bootstrap cfg get feature scope_type scope_id bootstrap key allowed records) = Inr (p50, p99, source) \<and>
     p50 < p99 \<and>
     (if source = ''bootstrap'' then p50 = anchor_p50 a \<and> p99 = anchor_p99 a
      else p50 \<le> p50_bound cfg a \<and> p99 \<le> p99_cap cfg a \<and> normalise v p50 (p99_cap cfg a) \<le> normalise v p50 p99)"
proof -
  obtain p50 p99 source where r: "resolve_baseline get (MIN_SPREAD_RATIO cfg) (BASELINE_MIN_SAMPLES cfg) feature scope_type scope_id 0 allowed
      = (p50, p99, source)" by (metis prod_cases3)
  show ?thesis
  proof (cases "source = ''missing''")
    case True
    then show ?thesis using assms(1,2) r by (simp add: resolved_or_bootstrap_def caps_sane_def)
  next
    case False
    obtain t i row where row: "get t i feature = Some row" "baseline_is_usable (MIN_SPREAD_RATIO cfg) row"
      "p50 = base_p50 row" "p99 = base_p99 row" using resolve_baseline_learned [OF r False] by blast
    have fl: "is_float p50" "is_float p99" using floats row by auto
    have sp: "p50 < p99" using usable_spread [OF row(2)] fl assms(1) row(3,4) by (auto simp: caps_sane_def)
    have src: "source \<noteq> ''bootstrap''" using r assms(4,5) unfolding resolve_baseline_def Let_def
      by (auto split: option.splits if_splits)
    define q50 where "q50 = min p50 (p50_bound cfg a)"
    define q99 where "q99 = min p99 (p99_cap cfg a)"
    have q: "q50 < q99" using sp p50_bound_below_cap [OF assms(1)] by (auto simp: q50_def q99_def min_def)
    have fq: "is_float q50" "is_float q99" using fl by (auto simp: q50_def q99_def min_def p99_cap_def p50_bound_def fmul_def fadd_def fdiv_def)
    have "fst (resolved_or_bootstrap cfg get feature scope_type scope_id bootstrap key allowed records) = Inr (q50, q99, source)"
      using r False assms(1,2) by (simp add: resolved_or_bootstrap_def Let_def caps_sane_def q50_def q99_def)
    moreover have "normalise v q50 (p99_cap cfg a) \<le> normalise v q50 q99"
      by (rule normalise_antitone_p99 [OF fq q]) (simp add: q99_def)
    ultimately show ?thesis using q src by (auto simp: q50_def q99_def)
  qed
qed


definition demo_baseline_settings :: baseline_settings where
  "demo_baseline_settings = \<lparr>P99_CAP_MULTIPLIER = 5, MIN_SPREAD_RATIO = 1 / 10, P50_CAP_SPREAD_FRACTION = 1 / 2,
     RECORD_PROVENANCE = True, BASELINE_MIN_SAMPLES = 200\<rparr>"

text \<open>A script whose history was inflated to a tail of 1000 against an anchor of 5.\<close>

definition poisoned :: "string \<Rightarrow> string \<Rightarrow> string \<Rightarrow> baseline option" where
  "poisoned st si feature = (if st = ''per_script'' then Some \<lparr>base_p50 = 4, base_p99 = 1000, sample_count = 250\<rparr> else None)"

definition demo_bootstrap :: json where
  "demo_bootstrap = JDict [(''k'', JDict [(''p50'', JInt 1), (''p99'', JInt 5)])]"

definition demo_anchor :: anchor_pair where
  "demo_anchor = \<lparr>anchor_p50 = 1, anchor_p99 = 5\<rparr>"

theorem learned_baselines_bounded_witness:
  "\<exists>p50 p99 source. fst (resolved_or_bootstrap demo_baseline_settings poisoned ''datum_bytes'' ''per_script'' ''s'' demo_bootstrap ''k'' None None)
       = Inr (p50, p99, source) \<and> p50 < p99 \<and>
     (if source = ''bootstrap'' then p50 = 1 \<and> p99 = 5
      else p50 \<le> p50_bound demo_baseline_settings demo_anchor \<and> p99 \<le> 25 \<and> normalise 20 p50 25 \<le> normalise 20 p50 p99)"
proof -
  have cap: "p99_cap demo_baseline_settings demo_anchor = 25"
    by (simp add: p99_cap_def demo_baseline_settings_def demo_anchor_def fmul_def)
  then have sane: "caps_sane demo_baseline_settings demo_anchor"
    by (simp add: caps_sane_def demo_baseline_settings_def demo_anchor_def)
  have an: "anchor demo_bootstrap ''k'' = Inr demo_anchor" "anchor_p50 demo_anchor = 1" "anchor_p99 demo_anchor = 5"
    by (simp_all add: anchor_def jidx_def float_at_def finite_float_def in_range_def demo_bootstrap_def demo_anchor_def)
  have floats: "is_float (base_p50 row) \<and> is_float (base_p99 row)" if "poisoned t i ''datum_bytes'' = Some row" for t i row
    using that by (auto simp: poisoned_def is_float_def split: if_splits)
  from learned_baselines_bounded [where scope_type = "''per_script''" and scope_id = "''s''" and allowed = None and records = None and v = 20,
    OF sane an(1) floats]
  show ?thesis unfolding cap an(2,3) by simp
qed

end
