(* ===== verification/Sandwich.thy ===== *)
theory Sandwich
  imports Cycles Scorer_Config
begin

text \<open>
  The structural sandwich detector (\<open>src/backend/app/analysis/dex.py\<close>) and its scorer
  (\<open>src/backend/app/analysis/scorers/sandwich.py\<close>).  The ClickHouse tables of the network are lists of rows and
  each query is the list it denotes, in the order of the table where the query leaves the order open.  The columns
  of an unmatched row of a \<open>LEFT JOIN\<close> hold the default of their type, as ClickHouse has it unless
  \<open>join_use_nulls\<close> is set.

  Shown: the detector returns the most profitable of the wallet clusters that bracket the victim, with the
  nearest legs on either side; and that choice can hide a cluster the scorer would have reported.
\<close>

section \<open>Tables and settings\<close>

record dex_input = input_row +
  ti_amount :: int
  ti_ref_tx :: string
  ti_ref_index :: int

record dex_tx =
  dt_hash :: string
  dt_slot :: "int option"
  dt_block_index :: "int option"
  dt_fee :: int

record dex_tables =
  dx_inputs :: "dex_input list"
  dx_outputs :: "output_row list"
  dx_txs :: "dex_tx list"

record dex_settings =
  SLOT_WINDOW :: int
  NEIGHBOR_LIMIT :: nat

section \<open>Queries\<close>

definition has_test :: "string \<Rightarrow> bool" where
  "has_test p \<longleftrightarrow> list_ex (\<lambda>i. startswith (drop i p) ''_test'') [0..<length p]"

definition network_script_prefixes :: "string \<Rightarrow> string list" where
  "network_script_prefixes network = filter (\<lambda>p. has_test p = startswith network ''pre'') SCRIPT_ADDRESS_PREFIXES"

text \<open>\<open>address LIKE 'prefix%'\<close>: an underscore of the pattern matches any character.\<close>

definition like_prefix :: "string \<Rightarrow> string \<Rightarrow> bool" where
  "like_prefix p s \<longleftrightarrow> length p \<le> length s \<and> list_all2 (\<lambda>a b. a = CHR ''_'' \<or> a = b) p (take (length p) s)"

definition count_attacker_history :: "dex_tables \<Rightarrow> string \<Rightarrow> string \<Rightarrow> int \<Rightarrow> nat" where
  "count_attacker_history T addr network current_slot =
     length (remdups (map ti_tx (filter (\<lambda>r. ti_address r = addr \<and> ti_index r = 0 \<and> regular_input r \<and>
       list_ex (\<lambda>x. to_tx x = ti_tx r \<and> \<not> to_collateral x \<and> list_ex (\<lambda>p. like_prefix p (to_address x)) (network_script_prefixes network))
         (dx_outputs T) \<and>
       list_ex (\<lambda>t. dt_hash t = ti_tx r \<and> (case dt_slot t of None \<Rightarrow> False | Some s \<Rightarrow> s < current_slot)) (dx_txs T)) (dx_inputs T))))"

definition parent_amounts :: "dex_tables \<Rightarrow> dex_input \<Rightarrow> int list" where
  "parent_amounts T r =
     (let ms = map to_amount (filter (\<lambda>x. to_tx x = ti_ref_tx r \<and> to_index x = ti_ref_index r) (remdups (dx_outputs T)))
      in if ms = [] then [0] else ms)"

definition attacker_net_ada :: "dex_tables \<Rightarrow> string \<Rightarrow> string list \<Rightarrow> int" where
  "attacker_net_ada T addr legs =
     sum_list (map to_amount (filter (\<lambda>x. to_tx x \<in> set legs \<and> to_address x = addr \<and> \<not> to_collateral x) (remdups (dx_outputs T))))
     - sum_list (concat (map (parent_amounts T)
         (filter (\<lambda>r. ti_tx r \<in> set legs \<and> ti_address r = addr \<and> regular_input r) (remdups (dx_inputs T)))))"

definition pool_script_addresses :: "dex_tables \<Rightarrow> string \<Rightarrow> string list" where
  "pool_script_addresses T tx =
     filter is_script_address (remdups (map to_address (filter (\<lambda>x. to_tx x = tx \<and> \<not> to_collateral x) (dx_outputs T))))"

type_synonym neighbor = "string \<times> int \<times> int \<times> int"

definition position_of_tx :: "dex_tx \<Rightarrow> (int \<times> int) option" where
  "position_of_tx t = map_option (\<lambda>s. (s, case dt_block_index t of None \<Rightarrow> 0 | Some i \<Rightarrow> i)) (dt_slot t)"

definition neighbors_in_window :: "dex_settings \<Rightarrow> dex_tables \<Rightarrow> string list \<Rightarrow> int \<Rightarrow> neighbor list" where
  "neighbors_in_window cfg T addrs s =
     take (NEIGHBOR_LIMIT cfg) (sort_key (\<lambda>(_, slot, index, _). (slot, index)) (remdups (concat (map (\<lambda>x.
       List.map_filter (\<lambda>t. case position_of_tx t of
           None \<Rightarrow> None
         | Some (slot, index) \<Rightarrow>
             if dt_hash t = to_tx x \<and> in_slots (s - SLOT_WINDOW cfg) (s + SLOT_WINDOW cfg) slot then Some (dt_hash t, slot, index, dt_fee t) else None)
         (dx_txs T))
       (filter (\<lambda>x. to_address x \<in> set addrs \<and> \<not> to_collateral x) (dx_outputs T))))))"

definition first_input_addresses :: "dex_tables \<Rightarrow> string list \<Rightarrow> (string, string) dict" where
  "first_input_addresses T txs =
     foldl (\<lambda>d r. AList.update (ti_tx r) (ti_address r) d) []
       (filter (\<lambda>r. ti_tx r \<in> set txs \<and> regular_input r \<and> ti_address r \<noteq> [] \<and> ti_index r = 0) (dx_inputs T))"

definition tx_position :: "dex_tables \<Rightarrow> string \<Rightarrow> (int \<times> int) option" where
  "tx_position T tx = (case filter (\<lambda>t. dt_hash t = tx) (dx_txs T) of [] \<Rightarrow> None | t # _ \<Rightarrow> position_of_tx t)"

section \<open>Detection\<close>

definition bracketing_legs :: "string list \<Rightarrow> (string, int \<times> int) dict \<Rightarrow> int \<times> int \<Rightarrow> (string \<times> string \<times> int) option" where
  "bracketing_legs cluster pos victim =
     (let cluster_pos = List.map_filter (\<lambda>h. map_option (\<lambda>p. (p, h)) (map_of pos h)) cluster;
          before = sort (filter (\<lambda>p. fst p < victim) cluster_pos);
          after = sort (filter (\<lambda>p. fst p > victim) cluster_pos)
      in if before = [] \<or> after = [] then None
         else case (List.last before, hd after) of
                ((front, tx_a), (rear, tx_b)) \<Rightarrow> Some (tx_a, tx_b, \<bar>fst rear - fst front\<bar>))"

record sandwich =
  sw_tx_a :: string
  sw_tx_b :: string
  pool_id :: string
  asset_pair :: string
  attacker_linked :: bool
  swap_rate_victim :: rat
  swap_rate_baseline :: rat
  price_impact_a :: rat
  profit_b :: rat
  attacker_sandwich_count :: int
  slot_span :: int

definition group_by_address :: "string \<Rightarrow> (string, string) dict \<Rightarrow> (string, string list) dict" where
  "group_by_address victim d =
     foldl (\<lambda>g (h, a). if h \<noteq> victim then AList.update a (dict_get g a [] @ [h]) g else g) [] d"

text \<open>What makes a cluster a candidate: two legs or more, a wallet other than the victim's, legs that bracket.\<close>

definition cluster_legs ::
  "(string, string list) dict \<Rightarrow> (string, int \<times> int) dict \<Rightarrow> int \<times> int \<Rightarrow> string \<Rightarrow> string \<Rightarrow> (string \<times> string \<times> int) option" where
  "cluster_legs groups pos victim_pos victim_addr addr =
     (let txs = dict_get groups addr []
      in if length txs < 2 \<or> addr = victim_addr \<or> is_script_address addr then None else bracketing_legs txs pos victim_pos)"

definition sandwich_of :: "dex_tables \<Rightarrow> string \<Rightarrow> int \<Rightarrow> string list \<Rightarrow> string \<Rightarrow> string \<times> string \<times> int \<Rightarrow> int \<Rightarrow> sandwich" where
  "sandwich_of T network s addresses addr legs profit =
     (case legs of (tx_a, tx_b, width) \<Rightarrow>
        \<lparr>sw_tx_a = tx_a, sw_tx_b = tx_b, pool_id = (if addresses \<noteq> [] then hd addresses else []), asset_pair = ''unknown'',
         attacker_linked = True, swap_rate_victim = 0, swap_rate_baseline = 0, price_impact_a = 0, profit_b = fl (of_int profit),
         attacker_sandwich_count = int (count_attacker_history T addr network s), slot_span = width\<rparr>)"

definition legs_profit :: "dex_tables \<Rightarrow> string \<Rightarrow> string \<times> string \<times> int \<Rightarrow> int" where
  "legs_profit T addr legs = (case legs of (tx_a, tx_b, _) \<Rightarrow> attacker_net_ada T addr [tx_a, tx_b])"

fun best_cluster ::
  "(string \<Rightarrow> 'l option) \<Rightarrow> (string \<Rightarrow> 'l \<Rightarrow> int) \<Rightarrow> string list \<Rightarrow> (string \<times> 'l \<times> int) option \<Rightarrow> (string \<times> 'l \<times> int) option" where
  "best_cluster legs_of profit_of [] best = best"
| "best_cluster legs_of profit_of (a # as) best =
     (case legs_of a of
        None \<Rightarrow> best_cluster legs_of profit_of as best
      | Some legs \<Rightarrow>
          best_cluster legs_of profit_of as
            (let p = profit_of a legs
             in case best of None \<Rightarrow> Some (a, legs, p) | Some (_, _, q) \<Rightarrow> if p > q then Some (a, legs, p) else best))"

record sandwich_context =
  sx_addresses :: "string list"
  sx_groups :: "(string, string list) dict"
  sx_pos :: "(string, int \<times> int) dict"
  sx_victim_addr :: string
  sx_victim_pos :: "int \<times> int"

definition sandwich_search :: "dex_settings \<Rightarrow> dex_tables \<Rightarrow> string \<Rightarrow> int \<Rightarrow> sandwich_context option" where
  "sandwich_search cfg T tx s =
     (let addresses = pool_script_addresses T tx;
          rows = neighbors_in_window cfg T addresses s;
          first = first_input_addresses T (map fst rows);
          pos = foldl (\<lambda>d (h, slot, index, _). AList.update h (slot, index) d) [] rows
      in if s = 0 \<or> addresses = [] \<or> length rows < 3 then None
         else case (case map_of pos tx of Some p \<Rightarrow> Some p | None \<Rightarrow> tx_position T tx) of
                None \<Rightarrow> None
              | Some victim \<Rightarrow>
                  Some \<lparr>sx_addresses = addresses, sx_groups = group_by_address tx first, sx_pos = pos,
                        sx_victim_addr = dict_get first tx [], sx_victim_pos = victim\<rparr>)"

definition context_legs :: "sandwich_context \<Rightarrow> string \<Rightarrow> (string \<times> string \<times> int) option" where
  "context_legs x addr = cluster_legs (sx_groups x) (sx_pos x) (sx_victim_pos x) (sx_victim_addr x) addr"

definition detect_sandwich_pattern :: "dex_settings \<Rightarrow> dex_tables \<Rightarrow> string \<Rightarrow> string \<Rightarrow> int \<Rightarrow> sandwich option" where
  "detect_sandwich_pattern cfg T tx network s =
     (case sandwich_search cfg T tx s of
        None \<Rightarrow> None
      | Some x \<Rightarrow>
          map_option (\<lambda>(addr, legs, profit). sandwich_of T network s (sx_addresses x) addr legs profit)
            (best_cluster (context_legs x) (legs_profit T) (sort (map fst (sx_groups x))) None))"

section \<open>The scorer\<close>

record sandwich_settings =
  sws_W :: json
  sws_FIXED :: json
  sws_BOOT :: json
  sws_LINK :: json
  sws_REASON_T :: json
  W_SLOTS :: int
  MIN_PROFIT_LOVELACE :: int

definition load_sandwich :: "json \<Rightarrow> sandwich_settings result" where
  "load_sandwich cfg =
     rbind (jidx cfg ''weights'') (\<lambda>w. rbind (jidx cfg ''fixed_anchors'') (\<lambda>fx. rbind (jidx cfg ''bootstrap_anchors'') (\<lambda>bo.
     rbind (jidx cfg ''link_scores'') (\<lambda>li. rbind (jidx cfg ''reason_thresholds'') (\<lambda>rt.
     rbind (int_at cfg ''window_slots'') (\<lambda>ws. rbind (int_at cfg ''min_profit_lovelace'') (\<lambda>mp.
       Inr \<lparr>sws_W = w, sws_FIXED = fx, sws_BOOT = bo, sws_LINK = li, sws_REASON_T = rt, W_SLOTS = ws, MIN_PROFIT_LOVELACE = mp\<rparr>)))))))"

definition sandwich_gate :: "sandwich_settings \<Rightarrow> sandwich option \<Rightarrow> bool" where
  "sandwich_gate cfg sw = (case sw of None \<Rightarrow> False | Some x \<Rightarrow> slot_span x \<le> W_SLOTS cfg)"

definition rate_delta :: "sandwich \<Rightarrow> rat" where
  "rate_delta sw =
     (if swap_rate_baseline sw > 0
      then fdiv (fsub (swap_rate_victim sw) (swap_rate_baseline sw)) (fadd (swap_rate_baseline sw) EPSILON) else 0)"

definition sandwich_subs :: "rat \<Rightarrow> rat \<Rightarrow> rat \<Rightarrow> rat \<Rightarrow> rat \<Rightarrow> string \<Rightarrow> (string, json) dict" where
  "sandwich_subs l r i p c pool =
     [(''attacker_link'', rounded l 4), (''swap_rate_delta'', rounded r 4), (''price_impact'', rounded i 4),
      (''profit'', rounded p 4), (''attacker_recurrence'', rounded c 4), (''pool_id'', JStr pool)]"

definition sandwich_evidence :: "sandwich \<Rightarrow> (string, json) dict" where
  "sandwich_evidence sw =
     [(''pool_id'', JStr (pool_id sw)), (''asset_pair'', JStr (asset_pair sw)), (''tx_a_hash'', JStr (sw_tx_a sw)),
      (''tx_b_hash'', JStr (sw_tx_b sw)), (''slot_span'', JInt (slot_span sw)),
      (''swap_rate_victim'', JFloat (swap_rate_victim sw)), (''swap_rate_baseline'', JFloat (swap_rate_baseline sw)),
      (''rate_delta_pct'', rounded (fmul (rate_delta sw) 100) 4), (''price_impact_raw'', JFloat (price_impact_a sw)),
      (''attacker_profit_lovelace'', JInt (py_int (profit_b sw))), (''attacker_linked'', JBool (attacker_linked sw)),
      (''attacker_sandwich_count'', JInt (attacker_sandwich_count sw))]"

definition sandwich_score :: "sandwich_settings \<Rightarrow> scoring_env \<Rightarrow> sandwich option \<Rightarrow> scorer_result result" where
  "sandwich_score cfg env found =
     (case found of
        None \<Rightarrow> Inr ScorerResult
      | Some sw \<Rightarrow>
          rbind (float_at (sws_LINK cfg) (if attacker_linked sw then ''linked'' else ''unlinked'')) (\<lambda>s_link.
          rbind (anchor (sws_FIXED cfg) ''rate_delta'') (\<lambda>rd.
          let s_rate = normalise (- rate_delta sw) (anchor_p50 rd) (anchor_p99 rd) in
          rbind (resolve_axis env ''price_impact'' ''per_policy'' (pool_id sw) (sws_BOOT cfg) ''price_impact'' None) (\<lambda>(i50, i99, source).
          let s_impact = normalise (price_impact_a sw) i50 i99 in
          rbind (resolve_axis env ''swap_profit'' ''per_policy'' (pool_id sw) (sws_BOOT cfg) ''swap_profit'' None) (\<lambda>(p50, p99, _).
          let s_profit = normalise (profit_b sw) p50 p99 in
          rbind (resolve_axis env ''sandwich_count'' ''per_cluster'' ''__global__'' (sws_BOOT cfg) ''attacker_recurrence'' None) (\<lambda>(c50, c99, _).
          let s_recurrence = normalise (fl (of_int (attacker_sandwich_count sw))) c50 c99 in
          rbind (weighted_sum (sws_W cfg) (''link'', s_link)
             [(''rate'', s_rate), (''impact'', s_impact), (''profit'', s_profit), (''recurrence'', s_recurrence)]) (\<lambda>raw.
          let final = finalise_score raw 100 2;
              subs = sandwich_subs s_link s_rate s_impact s_profit s_recurrence (pool_id sw)
          in if profit_b sw < of_int (MIN_PROFIT_LOVELACE cfg)
             then Inr (no_finding (subs @ [(''attacker_profit_lovelace'', JInt (py_int (profit_b sw)))]) source [])
             else
               rbind (float_at (sws_REASON_T cfg) ''link'') (\<lambda>tl. rbind (float_at (sws_REASON_T cfg) ''rate'') (\<lambda>tr.
               rbind (float_at (sws_REASON_T cfg) ''impact'') (\<lambda>ti.
                 Inr \<lparr>score = final, sub_scores = subs @ [(''rate_delta_raw'', rounded (rate_delta sw) 6)],
                      reasons = reason (s_link \<ge> tl) ''attacker_txs_linked'' @ reason (s_rate > tr) ''victim_rate_deterioration''
                        @ reason (s_impact > ti) ''significant_price_impact'',
                      baseline_source = source, severity = None, evidence = sandwich_evidence sw\<rparr>))))))))))"

section \<open>The detector finds the most profitable bracket\<close>

lemma best_cluster_spec:
  "case best_cluster L P as best of
     None \<Rightarrow> best = None \<and> (\<forall>a \<in> set as. L a = None)
   | Some (a, l, p) \<Rightarrow> (best = Some (a, l, p) \<or> a \<in> set as \<and> L a = Some l \<and> p = P a l) \<and>
       (\<forall>b \<in> set as. \<forall>l'. L b = Some l' \<longrightarrow> P b l' \<le> p) \<and> (\<forall>b l' q. best = Some (b, l', q) \<longrightarrow> q \<le> p)"
proof (induction as arbitrary: best)
  case Nil
  then show ?case by (cases best) auto
next
  case (Cons a as)
  show ?case
  proof (cases "L a")
    case None
    then show ?thesis using Cons [of best] by (auto split: option.splits prod.splits)
  next
    case (Some l)
    define best' where "best' = (let p = P a l in case best of None \<Rightarrow> Some (a, l, p) | Some (_, _, q) \<Rightarrow> if p > q then Some (a, l, p) else best)"
    have step: "best_cluster L P (a # as) best = best_cluster L P as best'" by (simp add: Some best'_def)
    obtain b0 l0 q0 where b': "best' = Some (b0, l0, q0)" "P a l \<le> q0" "best = Some (b0, l0, q0) \<or> b0 = a \<and> l0 = l \<and> q0 = P a l"
      "\<forall>b l' q. best = Some (b, l', q) \<longrightarrow> q \<le> q0"
    proof (cases best)
      case None
      then show ?thesis using that [of a l "P a l"] by (simp add: best'_def)
    next
      case (Some e)
      obtain b l' q where e: "e = (b, l', q)" by (cases e)
      show ?thesis using that [of a l "P a l"] that [of b l' q] Some e by (cases "P a l > q") (auto simp: best'_def)
    qed
    obtain r where r: "best_cluster L P as best' = Some r" using Cons [of best'] b'(1) by (cases "best_cluster L P as best'") auto
    obtain c lc p where c: "r = (c, lc, p)" by (cases r)
    have spec: "(best' = Some (c, lc, p) \<or> c \<in> set as \<and> L c = Some lc \<and> p = P c lc)"
      "\<forall>b \<in> set as. \<forall>l'. L b = Some l' \<longrightarrow> P b l' \<le> p" "q0 \<le> p"
      using Cons [of best'] r c b'(1) by auto
    have "P a l \<le> p" using b'(2) spec(3) by linarith
    moreover have "\<forall>b l' q. best = Some (b, l', q) \<longrightarrow> q \<le> p" using b'(4) spec(3) order_trans [of _ q0 p] by blast
    moreover have "best = Some (c, lc, p) \<or> c \<in> set (a # as) \<and> L c = Some lc \<and> p = P c lc"
      using spec(1) b'(1,3) Some by auto
    ultimately show ?thesis unfolding step r c using spec(2) Some by simp
  qed
qed

text \<open>The legs of a cluster around the victim, without sorting.\<close>

definition straddles :: "string list \<Rightarrow> (string, int \<times> int) dict \<Rightarrow> int \<times> int \<Rightarrow> bool" where
  "straddles cluster pos victim \<longleftrightarrow>
     (\<exists>h \<in> set cluster. \<exists>p. map_of pos h = Some p \<and> p < victim) \<and> (\<exists>h \<in> set cluster. \<exists>p. map_of pos h = Some p \<and> p > victim)"

definition nearest_legs :: "string list \<Rightarrow> (string, int \<times> int) dict \<Rightarrow> int \<times> int \<Rightarrow> string \<times> string \<times> int \<Rightarrow> bool" where
  "nearest_legs cluster pos victim legs \<longleftrightarrow>
     (case legs of (tx_a, tx_b, width) \<Rightarrow>
        \<exists>front rear. tx_a \<in> set cluster \<and> tx_b \<in> set cluster \<and> map_of pos tx_a = Some front \<and> map_of pos tx_b = Some rear \<and>
          front < victim \<and> victim < rear \<and> width = \<bar>fst rear - fst front\<bar> \<and>
          (\<forall>h \<in> set cluster. \<forall>p. map_of pos h = Some p \<longrightarrow> p \<le> front \<or> p = victim \<or> rear \<le> p))"

lemma lex_fst_le: "(p :: 'a :: order, h :: 'b :: order) \<le> (q, g) \<Longrightarrow> p \<le> q"
  by (auto simp: less_eq_prod_def)

lemma last_sort_max: "xs \<noteq> [] \<Longrightarrow> List.last (sort xs) \<in> set xs \<and> (\<forall>x \<in> set xs. x \<le> List.last (sort xs))"
proof -
  assume "xs \<noteq> []"
  then have ne: "sort xs \<noteq> []" by (metis length_sort list.size(3) length_0_conv)
  have "sorted (butlast (sort xs) @ [List.last (sort xs)])" using ne by simp
  then have "x \<le> List.last (sort xs)" if "x \<in> set (butlast (sort xs) @ [List.last (sort xs)])" for x
    using that unfolding sorted_append by auto
  then have "x \<le> List.last (sort xs)" if "x \<in> set (sort xs)" for x using ne that by simp
  then show ?thesis using ne last_in_set [of "sort xs"] by auto
qed

lemma hd_sort_min: "xs \<noteq> [] \<Longrightarrow> hd (sort xs) \<in> set xs \<and> (\<forall>x \<in> set xs. hd (sort xs) \<le> x)"
proof -
  assume "xs \<noteq> []"
  then obtain y ys where s: "sort xs = y # ys" by (cases "sort xs") (auto dest: arg_cong [where f = set])
  have "y \<le> x" if "x \<in> set (sort xs)" for x using that sorted_sort [of xs] unfolding s by auto
  then show ?thesis using s by (metis list.sel(1) list.set_intros(1) set_sort)
qed

lemma bracketing_legs_spec:
  "case bracketing_legs cluster pos victim of
     None \<Rightarrow> \<not> straddles cluster pos victim
   | Some legs \<Rightarrow> straddles cluster pos victim \<and> nearest_legs cluster pos victim legs"
proof -
  define cp where "cp = List.map_filter (\<lambda>h. map_option (\<lambda>p. (p, h)) (map_of pos h)) cluster"
  define before where "before = filter (\<lambda>p. fst p < victim) cp"
  define after where "after = filter (\<lambda>p. fst p > victim) cp"
  have cp: "(p, h) \<in> set cp \<longleftrightarrow> h \<in> set cluster \<and> map_of pos h = Some p" for p h
    unfolding cp_def in_map_filter_iff by (cases p) auto
  have str: "straddles cluster pos victim \<longleftrightarrow> before \<noteq> [] \<and> after \<noteq> []"
    unfolding straddles_def before_def after_def filter_empty_conv by (auto simp: cp) (metis cp fst_conv)+
  have legs: "bracketing_legs cluster pos victim =
      (if before = [] \<or> after = [] then None
       else case (List.last (sort before), hd (sort after)) of ((front, a), (rear, b)) \<Rightarrow> Some (a, b, \<bar>fst rear - fst front\<bar>))"
    by (simp add: bracketing_legs_def Let_def cp_def [symmetric] before_def [symmetric] after_def [symmetric])
       (metis length_0_conv length_sort)
  show ?thesis
  proof (cases "before = [] \<or> after = []")
    case True
    then show ?thesis using str legs by auto
  next
    case False
    obtain front a where fa: "List.last (sort before) = (front, a)" by fastforce
    obtain rear b where bb: "hd (sort after) = (rear, b)" by fastforce
    have f: "(front, a) \<in> set before" "\<forall>x \<in> set before. x \<le> (front, a)" using last_sort_max [of before] False fa by auto
    have g: "(rear, b) \<in> set after" "\<forall>x \<in> set after. (rear, b) \<le> x" using hd_sort_min [of after] False bb by auto
    have near: "p \<le> front \<or> p = victim \<or> rear \<le> p" if "h \<in> set cluster" "map_of pos h = Some p" for h p
    proof -
      have "(p, h) \<in> set cp" using that cp by simp
      then have "(p, h) \<in> set before" if "p < victim" using that by (simp add: before_def)
      moreover have "(p, h) \<in> set after" if "victim < p" using that \<open>(p, h) \<in> set cp\<close> by (simp add: after_def)
      ultimately have "p < victim \<Longrightarrow> (p, h) \<le> (front, a)" "victim < p \<Longrightarrow> (rear, b) \<le> (p, h)"
        using f(2) g(2) by blast+
      then have "p < victim \<Longrightarrow> p \<le> front" "victim < p \<Longrightarrow> rear \<le> p" by (blast dest: lex_fst_le)+
      then show ?thesis using less_linear [of p victim] by blast
    qed
    have "a \<in> set cluster" "map_of pos a = Some front" "front < victim" "b \<in> set cluster" "map_of pos b = Some rear" "victim < rear"
      using f(1) g(1) unfolding before_def after_def set_filter mem_Collect_eq cp fst_conv by simp_all
    then have "nearest_legs cluster pos victim (a, b, \<bar>fst rear - fst front\<bar>)"
      unfolding nearest_legs_def prod.case by (intro exI [of _ front] exI [of _ rear] conjI ballI allI impI refl near) assumption+
    then show ?thesis using False str legs fa bb by simp
  qed
qed

text \<open>The clusters the detector considers, by address.\<close>

definition candidate :: "sandwich_context \<Rightarrow> string \<Rightarrow> bool" where
  "candidate x a \<longleftrightarrow> a \<in> fst ` set (sx_groups x) \<and> length (dict_get (sx_groups x) a []) \<ge> 2 \<and> a \<noteq> sx_victim_addr x \<and>
     \<not> is_script_address a \<and> straddles (dict_get (sx_groups x) a []) (sx_pos x) (sx_victim_pos x)"

lemma candidate_iff: "candidate x a \<longleftrightarrow> a \<in> fst ` set (sx_groups x) \<and> context_legs x a \<noteq> None"
  using bracketing_legs_spec [of "dict_get (sx_groups x) a []" "sx_pos x" "sx_victim_pos x"]
  by (auto simp: candidate_def context_legs_def cluster_legs_def Let_def split: option.splits)

lemma context_legs_nearest:
  "context_legs x a = Some legs \<Longrightarrow> nearest_legs (dict_get (sx_groups x) a []) (sx_pos x) (sx_victim_pos x) legs"
  using bracketing_legs_spec [of "dict_get (sx_groups x) a []" "sx_pos x" "sx_victim_pos x"]
  by (auto simp: context_legs_def cluster_legs_def Let_def split: if_splits)

text \<open>C15. The sandwich detector reports a pattern exactly when some wallet cluster other than the victim's has a
  leg before and a leg after the victim, and it reports the cluster with the largest profit over its nearest legs
  on either side, so that an unprofitable bracket never hides a profitable one.\<close>

theorem detector_takes_the_most_profitable:
  assumes "sandwich_search cfg T tx s = Some x"
  shows "if \<exists>a. candidate x a
     then \<exists>a legs. candidate x a \<and> nearest_legs (dict_get (sx_groups x) a []) (sx_pos x) (sx_victim_pos x) legs \<and>
       detect_sandwich_pattern cfg T tx network s = Some (sandwich_of T network s (sx_addresses x) a legs (legs_profit T a legs)) \<and>
       (\<forall>b legs'. candidate x b \<longrightarrow> context_legs x b = Some legs' \<longrightarrow> legs_profit T b legs' \<le> legs_profit T a legs)
     else detect_sandwich_pattern cfg T tx network s = None"
proof -
  let ?as = "sort (map fst (sx_groups x))" and ?r = "best_cluster (context_legs x) (legs_profit T) (sort (map fst (sx_groups x))) None"
  have det: "detect_sandwich_pattern cfg T tx network s =
      map_option (\<lambda>(addr, legs, profit). sandwich_of T network s (sx_addresses x) addr legs profit) ?r"
    using assms by (simp add: detect_sandwich_pattern_def)
  note spec = best_cluster_spec [where L = "context_legs x" and P = "legs_profit T" and as = ?as and best = None]
  show ?thesis
  proof (cases ?r)
    case None
    then have "\<not> candidate x a" for a using spec by (auto simp: candidate_iff)
    then show ?thesis using det None by simp
  next
    case (Some r)
    obtain a legs p where r: "r = (a, legs, p)" by (cases r)
    have a: "a \<in> fst ` set (sx_groups x)" "context_legs x a = Some legs" "p = legs_profit T a legs"
      and mx: "\<forall>b \<in> fst ` set (sx_groups x). \<forall>l'. context_legs x b = Some l' \<longrightarrow> legs_profit T b l' \<le> p"
      using spec Some r by auto
    have "candidate x a" using a by (auto simp: candidate_iff)
    moreover have "legs_profit T b legs' \<le> legs_profit T a legs" if "candidate x b" "context_legs x b = Some legs'" for b legs'
      using mx that a(3) unfolding candidate_iff by blast
    ultimately have "\<exists>a legs. candidate x a \<and> nearest_legs (dict_get (sx_groups x) a []) (sx_pos x) (sx_victim_pos x) legs \<and>
       detect_sandwich_pattern cfg T tx network s = Some (sandwich_of T network s (sx_addresses x) a legs (legs_profit T a legs)) \<and>
       (\<forall>b legs'. candidate x b \<longrightarrow> context_legs x b = Some legs' \<longrightarrow> legs_profit T b legs' \<le> legs_profit T a legs)"
      using det Some r a(3) context_legs_nearest [OF a(2)] by (intro exI [of _ a] exI [of _ legs] conjI) simp_all
    then show ?thesis using \<open>candidate x a\<close> by (simp only: if_True simp_thms exI [of "candidate x" a])
  qed
qed


section \<open>A wide bracket hides a narrow one\<close>

text \<open>A pool at \<open>addr1w\<close>, a victim in slot 100, a narrow bracket of wallet \<open>b\<close> (slots 99 and 101) and a wide one of
  wallet \<open>a\<close> (slots 95 and 105).\<close>

definition dex_spend :: "string \<Rightarrow> string \<Rightarrow> dex_input" where
  "dex_spend tx a = \<lparr>ti_tx = tx, ti_address = a, ti_index = 0, ti_collateral = False, ti_reference = False, ti_unspent = False,
     ti_amount = 0, ti_ref_tx = ''p'', ti_ref_index = 0\<rparr>"

definition dex_pay :: "string \<Rightarrow> int \<Rightarrow> string \<Rightarrow> int \<Rightarrow> output_row" where
  "dex_pay tx i a v = \<lparr>to_tx = tx, to_index = i, to_address = a, to_amount = v, to_collateral = False\<rparr>"

definition dex_at :: "string \<Rightarrow> int \<Rightarrow> dex_tx" where
  "dex_at tx s = \<lparr>dt_hash = tx, dt_slot = Some s, dt_block_index = Some 0, dt_fee = 0\<rparr>"

definition narrow_tables :: dex_tables where
  "narrow_tables =
     \<lparr>dx_inputs = [dex_spend ''v'' ''u'', dex_spend ''b1'' ''b'', dex_spend ''b2'' ''b''],
      dx_outputs = [dex_pay ''v'' 0 ''addr1w'' 1, dex_pay ''b1'' 0 ''addr1w'' 1, dex_pay ''b2'' 0 ''addr1w'' 1,
        dex_pay ''b2'' 1 ''b'' 1000000],
      dx_txs = [dex_at ''v'' 100, dex_at ''b1'' 99, dex_at ''b2'' 101]\<rparr>"

definition wide_tables :: dex_tables where
  "wide_tables =
     \<lparr>dx_inputs = dx_inputs narrow_tables @ [dex_spend ''a1'' ''a'', dex_spend ''a2'' ''a''],
      dx_outputs = dx_outputs narrow_tables @ [dex_pay ''a1'' 0 ''addr1w'' 1, dex_pay ''a2'' 0 ''addr1w'' 1, dex_pay ''a2'' 1 ''a'' 2000000],
      dx_txs = dx_txs narrow_tables @ [dex_at ''a1'' 95, dex_at ''a2'' 105]\<rparr>"

definition demo_dex_settings :: dex_settings where
  "demo_dex_settings = \<lparr>SLOT_WINDOW = 5, NEIGHBOR_LIMIT = 20\<rparr>"

definition demo_sandwich_settings :: sandwich_settings where
  "demo_sandwich_settings =
     \<lparr>sws_W = JNull, sws_FIXED = JNull, sws_BOOT = JNull, sws_LINK = JNull, sws_REASON_T = JNull, W_SLOTS = 5, MIN_PROFIT_LOVELACE = 200000\<rparr>"

lemma demo_detection:
  "map_option (\<lambda>sw. (sw_tx_a sw, sw_tx_b sw, slot_span sw, profit_b sw)) (detect_sandwich_pattern demo_dex_settings narrow_tables ''v'' ''mainnet'' 100)
     = Some (''b1'', ''b2'', 2, 1000000)"
  "map_option (\<lambda>sw. (sw_tx_a sw, sw_tx_b sw, slot_span sw, profit_b sw)) (detect_sandwich_pattern demo_dex_settings wide_tables ''v'' ''mainnet'' 100)
     = Some (''a1'', ''a2'', 10, 2000000)"
  by code_simp+

text \<open>The detector compares clusters by profit before the scorer's gate looks at the width of the bracket: an
  attacker whose legs are near the victim and profitable enough is reported alone, and is not reported any more
  when another wallet brackets the victim more profitably but too widely for the gate.\<close>

theorem wide_bracket_hides_attack:
  "sandwich_gate demo_sandwich_settings (detect_sandwich_pattern demo_dex_settings narrow_tables ''v'' ''mainnet'' 100) \<and>
   \<not> sandwich_gate demo_sandwich_settings (detect_sandwich_pattern demo_dex_settings wide_tables ''v'' ''mainnet'' 100)"
  using demo_detection by (auto simp: sandwich_gate_def demo_sandwich_settings_def)

lemma narrow_candidate:
  "case sandwich_search demo_dex_settings narrow_tables ''v'' 100 of None \<Rightarrow> False
   | Some x \<Rightarrow> (''b'' \<in> set (map fst (sx_groups x)) \<and> context_legs x ''b'' = Some (''b1'', ''b2'', 2))"
  by code_simp

theorem detector_takes_the_most_profitable_witness:
  "\<exists>x a legs. sandwich_search demo_dex_settings narrow_tables ''v'' 100 = Some x \<and> candidate x a \<and>
     detect_sandwich_pattern demo_dex_settings narrow_tables ''v'' ''mainnet'' 100 =
       Some (sandwich_of narrow_tables ''mainnet'' 100 (sx_addresses x) a legs (legs_profit narrow_tables a legs))"
proof -
  obtain x where x: "sandwich_search demo_dex_settings narrow_tables ''v'' 100 = Some x"
    "''b'' \<in> set (map fst (sx_groups x))" "context_legs x ''b'' = Some (''b1'', ''b2'', 2)"
    using narrow_candidate by (auto split: option.splits)
  have c: "candidate x ''b''" using x(2,3) by (auto simp: candidate_iff)
  show ?thesis using detector_takes_the_most_profitable [OF x(1), of "''mainnet''"] c x(1) by (auto split: if_splits)
qed


end
