(* ===== verification/Scorer_Facts.thy ===== *)
theory Scorer_Facts
  imports Scorer_Config Shipped_Config
begin

text \<open>
  What the proofs about the scorers share: a cap read from a checked configuration lies in the band it is checked
  against, weighted sums of sub-scores, and the shipped sections as the scorers load them.
\<close>

section \<open>Caps of a checked configuration\<close>

lemma checked_leaf:
  assumes "validate_detection data = Inr ()" "scorer_section data name = Inr sec" "float_of_json (get_path sec ks) = Inr (Fin x)"
    and "(dotted, lower, upper) \<in> set BAND_INVARIANTS" "dots dotted = ''scorers'' # name # ks"
  shows "lower \<le> x \<and> (case upper of None \<Rightarrow> True | Some u \<Rightarrow> x < u)"
proof -
  have "check_band_invariants data = Inr ()" using validate_detectionE [OF assms(1)] by metis
  moreover have "dotted_get data dotted = get_path sec ks"
    using section_get_path [OF assms(2), of ks] assms(5) by (simp add: dotted_get_def del: get_path.simps)
  ultimately show ?thesis using band_invariant assms(3,4) by blast
qed

lemmas checked_cap = checked_leaf [OF _ _ float_at_get_path]

section \<open>The shipped sections\<close>

definition bare_env :: scoring_env where
  "bare_env = \<lparr>env_caps = \<lparr>P99_CAP_MULTIPLIER = 5, MIN_SPREAD_RATIO = 1 / 10, P50_CAP_SPREAD_FRACTION = 1 / 4, RECORD_PROVENANCE = True,
      BASELINE_MIN_SAMPLES = 200\<rparr>, env_get = (\<lambda>_ _ _. None)\<rparr>"

declare dec_def [code]

lemmas config_reads = jidx_def float_at_def int_at_def finite_float_def in_range_def anchor_def

lemmas bare_axis = resolve_axis_def resolved_or_bootstrap_def resolve_baseline_def bare_env_def

lemma shipped_section:
  assumes "map_of shipped_scorers name = Some (JDict sec)"
  shows "scorer_section shipped_config name = Inr (JDict sec)"
  using assms by (simp add: scorer_section_def jidx_def shipped_config_def config_with_def dict_get_def)

end
