(* ===== verification/Front_Running.thy ===== *)
theory Front_Running
  imports Scorer_Facts
begin

text \<open>
  The front-running class: the collision data of a transaction (\<open>get_collisions_for_txs\<close> in
  \<open>src/backend/app/db/postgres.py\<close>) and the scorer (\<open>src/backend/app/analysis/scorers/front_running.py\<close>).  The table of
  collisions of the network is a list of rows; times are microseconds.  The scorer reads its collision from the
  record the query builds, so the defaults of its \<open>get\<close> calls do not occur.

  Shown: under a checked configuration a collision of an address without a record of wins is never Critical; the
  wins counted are those of the other side, so a repeat winner's own transaction is scored like a first offence;
  and a configuration whose weights are null passes the check and makes the scorer raise on every transaction.
\<close>

section \<open>Collisions of a transaction\<close>

record collision_row =
  cr_tx_a :: string
  cr_tx_b :: string
  cr_shared_count :: int
  cr_delta_ms :: "rat option"
  cr_outcome :: string
  cr_a_fee :: int
  cr_b_fee :: int
  cr_a_addr :: string
  cr_b_addr :: string
  cr_a_ttl :: "int option"
  cr_b_ttl :: "int option"
  cr_created_at :: int

record collision_data =
  counterpart_tx :: string
  cd_shared_inputs :: int
  cd_delta_ms :: rat
  cd_outcome :: string
  counterpart_fee :: int
  counterpart_ttl :: int
  shares_change_address :: bool
  attacker_win_count :: int
  attacker_win_count_24h :: int
  tx_role :: string

definition winner_addresses :: "collision_row \<Rightarrow> string list" where
  "winner_addresses r =
     (if cr_outcome r = ''TX_A_CONFIRMED'' then [cr_a_addr r] else if cr_outcome r = ''TX_B_CONFIRMED'' then [cr_b_addr r] else [])"

text \<open>The grouped count over the addresses of the selected rows, the empty address left out.\<close>

definition win_count :: "collision_row list \<Rightarrow> (collision_row \<Rightarrow> bool) \<Rightarrow> string list \<Rightarrow> string \<Rightarrow> int" where
  "win_count table recent addrs a =
     (if a \<in> set addrs then int (length (filter (\<lambda>r. recent r \<and> a \<in> set (winner_addresses r)) table)) else 0)"

definition collision_entry :: "(string \<Rightarrow> int) \<Rightarrow> (string \<Rightarrow> int) \<Rightarrow> string \<Rightarrow> collision_row \<Rightarrow> collision_data" where
  "collision_entry wins wins_24h tx r =
     (let is_a = (tx = cr_tx_a r);
          other = (if is_a then cr_b_addr r else cr_a_addr r);
          mine = (if is_a then cr_a_addr r else cr_b_addr r);
          ttl = (if is_a then cr_b_ttl r else cr_a_ttl r)
      in \<lparr>counterpart_tx = (if is_a then cr_tx_b r else cr_tx_a r), cd_shared_inputs = cr_shared_count r,
          cd_delta_ms = (case cr_delta_ms r of None \<Rightarrow> 0 | Some d \<Rightarrow> d), cd_outcome = cr_outcome r,
          counterpart_fee = (if is_a then cr_b_fee r else cr_a_fee r), counterpart_ttl = (case ttl of None \<Rightarrow> 0 | Some t \<Rightarrow> t),
          shares_change_address = (mine = other \<and> mine \<noteq> []), attacker_win_count = wins other, attacker_win_count_24h = wins_24h other,
          tx_role = (if is_a then ''TX_A'' else ''TX_B'')\<rparr>)"

definition add_entry ::
  "string list \<Rightarrow> (string \<Rightarrow> int) \<Rightarrow> (string \<Rightarrow> int) \<Rightarrow> collision_row \<Rightarrow> (string, collision_data) dict \<Rightarrow> string \<Rightarrow> (string, collision_data) dict" where
  "add_entry txs wins wins_24h r res tx =
     (if tx \<in> set txs \<and> map_of res tx = None then AList.update tx (collision_entry wins wins_24h tx r) res else res)"

definition microseconds_per_day :: int where
  "microseconds_per_day = 86400000000"

definition get_collisions_for_txs :: "int \<Rightarrow> collision_row list \<Rightarrow> string list \<Rightarrow> (string, collision_data) dict" where
  "get_collisions_for_txs now table txs =
     (if txs = [] then []
      else
        let rows = filter (\<lambda>r. cr_tx_a r \<in> set txs \<or> cr_tx_b r \<in> set txs) table;
            addrs = removeAll [] (map cr_a_addr rows @ map cr_b_addr rows);
            wins = win_count table (\<lambda>_. True) addrs;
            wins_24h = win_count table (\<lambda>r. cr_created_at r \<ge> now - microseconds_per_day) addrs
        in foldl (\<lambda>res r. foldl (add_entry txs wins wins_24h r) res [cr_tx_a r, cr_tx_b r]) [] rows)"

section \<open>The scorer\<close>

record front_running_settings =
  fr_W :: json
  fr_FIXED :: json
  fr_BOOT :: json
  fr_REASON_T :: json
  OUTCOME_SCORES :: "(string, rat) dict"
  UNKNOWN_OUTCOME_SCORE :: rat
  MIN_RECURRENCE_WINS :: int
  HIGH_BAND_CAP :: rat
  DELTA_MS_DEFAULT :: rat

definition float_values :: "json \<Rightarrow> (string, rat) dict result" where
  "float_values j = (case j of JDict d \<Rightarrow> rmap (\<lambda>(k, v). rbind (finite_float v) (\<lambda>x. Inr (k, x))) d | _ \<Rightarrow> Inl AttributeError)"

definition load_front_running :: "json \<Rightarrow> front_running_settings result" where
  "load_front_running cfg =
     rbind (jidx cfg ''weights'') (\<lambda>w. rbind (jidx cfg ''fixed_anchors'') (\<lambda>fx. rbind (jidx cfg ''bootstrap_anchors'') (\<lambda>bo.
     rbind (rbind (jidx cfg ''outcome_scores'') float_values) (\<lambda>os. rbind (float_at cfg ''unknown_outcome_score'') (\<lambda>un.
     rbind (jidx cfg ''reason_thresholds'') (\<lambda>rt. rbind (int_at cfg ''min_recurrence_wins'') (\<lambda>mw.
     rbind (float_at cfg ''high_band_cap'') (\<lambda>cap. rbind (float_at cfg ''delta_ms_default'') (\<lambda>dd.
       Inr \<lparr>fr_W = w, fr_FIXED = fx, fr_BOOT = bo, fr_REASON_T = rt, OUTCOME_SCORES = os, UNKNOWN_OUTCOME_SCORE = un,
            MIN_RECURRENCE_WINS = mw, HIGH_BAND_CAP = cap, DELTA_MS_DEFAULT = dd\<rparr>)))))))))"

definition front_running_gate :: "collision_data option \<Rightarrow> bool" where
  "front_running_gate c = (case c of None \<Rightarrow> False | Some c \<Rightarrow> cd_shared_inputs c \<ge> 1)"

definition front_running_evidence :: "collision_data \<Rightarrow> rat \<Rightarrow> int \<Rightarrow> int \<Rightarrow> (string, json) dict" where
  "front_running_evidence c delta fee ttl =
     [(''delta_ms'', rounded delta 1), (''outcome'', JStr (cd_outcome c)), (''tx_role'', JStr (tx_role c)),
      (''counterpart_tx_hash'', JStr (counterpart_tx c)), (''shared_input_count'', JInt (cd_shared_inputs c)),
      (''tx_fee'', JInt fee), (''counterpart_fee'', JInt (counterpart_fee c)), (''ttl'', JInt ttl),
      (''counterpart_ttl'', JInt (counterpart_ttl c)), (''shares_change_address'', JBool (shares_change_address c)),
      (''attacker_win_count'', JInt (attacker_win_count c)), (''attacker_win_count_24h'', JInt (attacker_win_count_24h c))]"

definition similarity :: "anchor_pair \<Rightarrow> int \<Rightarrow> int \<Rightarrow> rat" where
  "similarity a x y = fsub 1 (normalise (fl (of_int \<bar>x - y\<bar>)) (anchor_p50 a) (anchor_p99 a))"

text \<open>The cap below the Critical band for a short record of wins.\<close>

definition recurrence_cap :: "front_running_settings \<Rightarrow> int \<Rightarrow> rat \<Rightarrow> rat" where
  "recurrence_cap cfg wins final =
     (if wins < MIN_RECURRENCE_WINS cfg \<and> final \<ge> BAND_CRITICAL_THRESHOLD then HIGH_BAND_CAP cfg else final)"

definition front_running_score :: "front_running_settings \<Rightarrow> scoring_env \<Rightarrow> int \<Rightarrow> json \<Rightarrow> collision_data option \<Rightarrow> scorer_result result" where
  "front_running_score cfg env fee raw_data found =
     (case found of
        None \<Rightarrow> Inr ScorerResult
      | Some c \<Rightarrow>
          let s_outcome = dict_get (OUTCOME_SCORES cfg) (cd_outcome c) (UNKNOWN_OUTCOME_SCORE cfg);
              delta = max (cd_delta_ms c) 1 in
          rbind (anchor (fr_FIXED cfg) ''mempool_delta_inv'') (\<lambda>d.
          let s_delta = normalise (fdiv 1 delta) (anchor_p50 d) (anchor_p99 d) in
          rbind (resolve_axis env ''collision_win_count'' ''per_cluster'' ''__global__'' (fr_BOOT cfg) ''attacker_recurrence'' None) (\<lambda>(r50, r99, source).
          let s_recurrence = normalise (fl (of_int (attacker_win_count c))) r50 r99 in
          rbind (anchor (fr_FIXED cfg) ''fee_delta'') (\<lambda>fa.
          rbind (extract_ttl raw_data) (\<lambda>ttl.
          rbind (anchor (fr_FIXED cfg) ''ttl_delta'') (\<lambda>ta.
          let s_structure = fdiv (fadd (fadd (similarity fa fee (counterpart_fee c)) (similarity ta ttl (counterpart_ttl c)))
                (if shares_change_address c then 1 else 0)) 3 in
          rbind (weighted_sum (fr_W cfg) (''outcome'', s_outcome)
             [(''delta'', s_delta), (''recurrence'', s_recurrence), (''structure'', s_structure)]) (\<lambda>raw.
          rbind (float_at (fr_REASON_T cfg) ''outcome'') (\<lambda>to. rbind (float_at (fr_REASON_T cfg) ''delta'') (\<lambda>td.
          rbind (float_at (fr_REASON_T cfg) ''recurrence'') (\<lambda>tr.
            Inr \<lparr>score = recurrence_cap cfg (attacker_win_count c) (finalise_score raw 100 2),
                 sub_scores = [(''collision_outcome'', rounded s_outcome 4), (''mempool_delta_inv'', rounded s_delta 4),
                   (''attacker_recurrence'', rounded s_recurrence 4), (''structural_similarity'', rounded s_structure 4),
                   (''delta_ms'', rounded delta 1), (''outcome'', JStr (cd_outcome c))],
                 reasons = reason (s_outcome \<ge> to) ''confirmed_utxo_collision'' @ reason (s_delta > td) ''small_mempool_delta''
                   @ reason (s_recurrence > tr) ''repeat_collision_winner'',
                 baseline_source = source, severity = None, evidence = front_running_evidence c delta fee ttl\<rparr>))))))))))"

section \<open>A short record of wins is never Critical\<close>

lemma front_running_scoreE:
  assumes "front_running_score cfg env fee raw_data (Some c) = Inr r"
  obtains raw where "score r = recurrence_cap cfg (attacker_win_count c) (finalise_score raw 100 2)"
  using assms by (auto simp: front_running_score_def Let_def rbind_eq_Inr_iff split: prod.splits)

lemma load_front_running_cap:
  assumes "load_front_running sec = Inr cfg"
  shows "float_at sec ''high_band_cap'' = Inr (HIGH_BAND_CAP cfg)"
  using assms by (auto simp: load_front_running_def rbind_eq_Inr_iff)

lemma high_band_cap_in_band:
  assumes "validate_detection data = Inr ()" "scorer_section data ''front_running'' = Inr sec" "load_front_running sec = Inr cfg"
  shows "BAND_HIGH_THRESHOLD \<le> HIGH_BAND_CAP cfg \<and> HIGH_BAND_CAP cfg < BAND_CRITICAL_THRESHOLD"
  using checked_cap [OF assms(1,2) load_front_running_cap [OF assms(3)], of "''scorers.front_running.high_band_cap''"
      BAND_HIGH_THRESHOLD "Some BAND_CRITICAL_THRESHOLD"] by (simp add: BAND_INVARIANTS_def dots_def)


definition second_win :: collision_data where
  "second_win = \<lparr>counterpart_tx = ''t'', cd_shared_inputs = 1, cd_delta_ms = 1, cd_outcome = ''TX_B_CONFIRMED'', counterpart_fee = 0,
     counterpart_ttl = 0, shares_change_address = True, attacker_win_count = 2, attacker_win_count_24h = 0, tx_role = ''TX_B''\<rparr>"

definition shipped_fr :: front_running_settings where
  "shipped_fr =
     \<lparr>fr_W = get_path shipped_front_running [''weights''], fr_FIXED = get_path shipped_front_running [''fixed_anchors''],
      fr_BOOT = get_path shipped_front_running [''bootstrap_anchors''], fr_REASON_T = get_path shipped_front_running [''reason_thresholds''],
      OUTCOME_SCORES = [(''TX_B_CONFIRMED'', 1), (''TX1_FAILS_UTXO_SPENT'', 1), (''BOTH_PENDING'', 1 / 2), (''TX_A_CONFIRMED'', 0),
        (''TX1_WINS'', 0), (''TX2_WINS'', dec 3 10)],
      UNKNOWN_OUTCOME_SCORE = 1 / 2, MIN_RECURRENCE_WINS = 3, HIGH_BAND_CAP = 79, DELTA_MS_DEFAULT = 10000\<rparr>"

lemma shipped_fr_loads: "load_front_running shipped_front_running = Inr shipped_fr"
  by (simp add: load_front_running_def shipped_front_running_def shipped_fr_def config_reads float_values_def)

lemma shipped_fr_reads:
  "anchor (fr_FIXED shipped_fr) ''mempool_delta_inv'' = Inr \<lparr>anchor_p50 = dec 1 2000, anchor_p99 = dec 1 200\<rparr>"
  "anchor (fr_FIXED shipped_fr) ''fee_delta'' = Inr \<lparr>anchor_p50 = 500, anchor_p99 = 5000\<rparr>"
  "anchor (fr_FIXED shipped_fr) ''ttl_delta'' = Inr \<lparr>anchor_p50 = 10, anchor_p99 = 100\<rparr>"
  "resolve_axis bare_env f t i (fr_BOOT shipped_fr) ''attacker_recurrence'' None = Inr (0, 5, ''bootstrap'')"
  "extract_ttl JNull = Inr 0"
  "float_at (fr_REASON_T shipped_fr) ''outcome'' = Inr (dec 4 5)"
  "float_at (fr_REASON_T shipped_fr) ''delta'' = Inr (1 / 2)"
  "float_at (fr_REASON_T shipped_fr) ''recurrence'' = Inr (1 / 2)"
  by (simp_all add: shipped_fr_def shipped_front_running_def config_reads resolve_axis_def resolved_or_bootstrap_def
      resolve_baseline_def bare_env_def extract_ttl_def)

lemma shipped_fr_section: "scorer_section shipped_config ''front_running'' = Inr shipped_front_running"
  unfolding shipped_front_running_def by (rule shipped_section) (simp add: shipped_scorers_def shipped_front_running_def)

lemma second_win_subs:
  "normalise (fdiv 1 1) (dec 1 2000) (dec 1 200) = 1"
  "similarity \<lparr>anchor_p50 = 500, anchor_p99 = 5000\<rparr> 0 0 = 1"
  "similarity \<lparr>anchor_p50 = 10, anchor_p99 = 100\<rparr> 0 0 = 1"
  "fdiv (fadd (fadd 1 1) 1) 3 = 1"
  by code_simp+

lemma second_win_raw:
  "finalise_score (fadd (fadd (fadd (fmul (dec 7 20) 1) (fmul (dec 3 10) 1)) (fmul (1 / 4) (normalise 2 0 5))) (fmul (dec 1 10) 1)) 100 2 = 85"
  by code_simp

lemma second_win_weights:
  "weighted_sum (fr_W shipped_fr) (''outcome'', a) [(''delta'', b), (''recurrence'', c), (''structure'', d)] =
     Inr (fadd (fadd (fadd (fmul (dec 7 20) a) (fmul (dec 3 10) b)) (fmul (1 / 4) c)) (fmul (dec 1 10) d))"
  by (simp add: weighted_sum_def shipped_fr_def shipped_front_running_def config_reads)

lemma second_win_score:
  "\<exists>r. front_running_score shipped_fr bare_env 0 JNull (Some second_win) = Inr r \<and> score r = 79"
proof -
  have o: "dict_get (OUTCOME_SCORES shipped_fr) (cd_outcome second_win) (UNKNOWN_OUTCOME_SCORE shipped_fr) = 1"
    by (simp add: shipped_fr_def second_win_def dict_get_def)
  have c: "cd_delta_ms second_win = 1" "attacker_win_count second_win = 2" "counterpart_fee second_win = 0" "counterpart_ttl second_win = 0"
    "shares_change_address second_win" by (simp_all add: second_win_def)
  have "fl 2 = 2" by simp
  then show ?thesis
    by (simp add: front_running_score_def o c shipped_fr_reads second_win_subs second_win_weights second_win_raw Let_def
        recurrence_cap_def BAND_CRITICAL_THRESHOLD_def) (simp add: shipped_fr_def)
qed


section \<open>Whose wins are counted\<close>

lemma entry_for_b:
  assumes "table = hist @ [row]" "cr_tx_b row = tx" "cr_tx_a row \<noteq> tx" "cr_outcome row = ''TX_B_CONFIRMED''"
    and "\<forall>r \<in> set hist. cr_tx_a r \<noteq> tx \<and> cr_tx_b r \<noteq> tx"
  shows "\<exists>c. map_of (get_collisions_for_txs now table [tx]) tx = Some c \<and> tx_role c = ''TX_B'' \<and>
      attacker_win_count c = win_count table (\<lambda>_. True) (removeAll [] [cr_a_addr row, cr_b_addr row]) (cr_a_addr row)"
proof -
  have "filter (\<lambda>r. cr_tx_a r \<in> set [tx] \<or> cr_tx_b r \<in> set [tx]) table = [row]"
    using assms by (auto simp: filter_empty_conv)
  then show ?thesis using assms(2,3)
    by (simp add: get_collisions_for_txs_def Let_def add_entry_def collision_entry_def)
qed


definition won_row :: "string \<Rightarrow> string \<Rightarrow> string \<Rightarrow> collision_row" where
  "won_row a b loser = \<lparr>cr_tx_a = a, cr_tx_b = b, cr_shared_count = 1, cr_delta_ms = Some 1, cr_outcome = ''TX_B_CONFIRMED'', cr_a_fee = 0, cr_b_fee = 0,
     cr_a_addr = loser, cr_b_addr = ''x'', cr_a_ttl = None, cr_b_ttl = None, cr_created_at = 0\<rparr>"


section \<open>A block that is no mapping\<close>

definition null_weights :: json where
  "null_weights = (case shipped_front_running of JDict d \<Rightarrow> JDict (AList.update ''weights'' JNull d) | j \<Rightarrow> j)"

definition null_weights_config :: "(string, json) dict" where
  "null_weights_config = config_with shipped_contract_anomaly (AList.update ''front_running'' null_weights shipped_scorers)"

text \<open>The check at load does not ask that the blocks of weights and anchors are mappings: a configuration whose
  front-running weights are null passes it and is read at import, and the scorer then raises on every transaction
  that has a collision, which the engine counts as a failed scorer.\<close>

theorem null_weights_pass_the_check:
  "validate_detection null_weights_config = Inr () \<and>
   (\<exists>cfg. load_front_running null_weights = Inr cfg \<and> front_running_score cfg bare_env 0 JNull (Some second_win) = Inl TypeError)"
proof
  have names: "''front_running'' \<in> set (map fst REQUIRED_KEYS)" unfolding scorer_names by simp
  have complete: "missing_in_section [(''front_running'', null_weights)] (''front_running'', keys_of ''front_running'') = Inr []" by code_simp
  have known: "covered_value (''scorers.'' @ ''front_running'') (known_keys ''front_running'' (keys_of ''front_running'')) null_weights" by code_simp
  have bands: "check_band_invariants (config_with shipped_contract_anomaly (AList.update ''front_running'' null_weights shipped_scorers)) = Inr ()" by code_simp
  have "dotted_get (config_with shipped_contract_anomaly (AList.update ''front_running'' null_weights shipped_scorers)) ''scorers.circular.cycle.closing_subset_max_outputs'' = JInt 24"
    by code_simp
  moreover have "get_path shipped_circular [''recycling_min_amount_similarity''] = JFloat (dec 7 10)" by (simp add: shipped_circular_def)
  then have "dotted_get (config_with shipped_contract_anomaly (AList.update ''front_running'' null_weights shipped_scorers)) ''scorers.circular.recycling_min_amount_similarity'' = JFloat (dec 7 10)"
    by (simp add: dotted_get_def dots_def config_with_def shipped_scorers_def del: get_path.simps(2)) (simp add: config_with_def)
  ultimately show "validate_detection null_weights_config = Inr ()"
    unfolding null_weights_config_def by (intro replaced_section_valid names complete known bands ranges_ok)
  have load: "load_front_running null_weights = Inr (shipped_fr\<lparr>fr_W := JNull\<rparr>)"
    by (simp add: load_front_running_def null_weights_def shipped_front_running_def shipped_fr_def config_reads float_values_def)
  have "front_running_score (shipped_fr\<lparr>fr_W := JNull\<rparr>) bare_env 0 JNull (Some second_win) = Inl TypeError"
    by (simp add: front_running_score_def shipped_fr_reads weighted_sum_def Let_def float_at_def jidx_def)
  then show "\<exists>cfg. load_front_running null_weights = Inr cfg \<and> front_running_score cfg bare_env 0 JNull (Some second_win) = Inl TypeError"
    using load by blast
qed


end
