(* ===== verification/Circular.thy ===== *)
theory Circular
  imports Cycles Scorer_Facts
begin

text \<open>
  The scorer of value cycles (\<open>src/backend/app/analysis/scorers/circular.py\<close>) on the cycle record that the graph
  search builds (theory Cycles), so the defaults of its \<open>get\<close> calls do not occur.

  Shown: under a checked configuration a cycle pages only when an axis beside amount and recurrence corroborates it,
  its loss is that of fees, and it is no slow round trip without any sign of behaviour.
\<close>

section \<open>Settings\<close>

record circular_settings =
  ci_W :: json
  ci_FIXED :: json
  ci_BOOT :: json
  ci_REASON_T :: rat
  MODERATE_CAP :: rat
  STRUCTURAL_CORROBORATION_FLOOR :: rat
  SLOW_ONE_OFF_MIN_HOP_SLOTS :: int
  FEE_TOLERANCE_MULTIPLIER :: rat
  FEE_TOLERANCE_STRICT :: rat
  PER_HOP_FEE :: rat
  MIN_LEN :: int
  MAX_LEN :: int

definition load_circular :: "json \<Rightarrow> circular_settings result" where
  "load_circular cfg =
     rbind (jidx cfg ''weights'') (\<lambda>w. rbind (jidx cfg ''fixed_anchors'') (\<lambda>fx. rbind (jidx cfg ''bootstrap_anchors'') (\<lambda>bo.
     rbind (jidx cfg ''cycle'') (\<lambda>cy. rbind (float_at cfg ''reason_threshold'') (\<lambda>rt. rbind (float_at cfg ''moderate_cap'') (\<lambda>mc.
     rbind (float_at cfg ''structural_corroboration_floor'') (\<lambda>sf. rbind (int_at cfg ''slow_one_off_min_hop_slots'') (\<lambda>so.
     rbind (float_at cy ''fee_tolerance_multiplier'') (\<lambda>fm. rbind (float_at cy ''fee_tolerance_strict'') (\<lambda>fs.
     rbind (float_at cy ''per_hop_fee_estimate'') (\<lambda>pf. rbind (int_at cy ''min_length'') (\<lambda>mi. rbind (int_at cy ''max_length'') (\<lambda>ma.
     rbind (int_at cy ''default_inter_hop_delta_slots'') (\<lambda>_.
       Inr \<lparr>ci_W = w, ci_FIXED = fx, ci_BOOT = bo, ci_REASON_T = rt, MODERATE_CAP = mc, STRUCTURAL_CORROBORATION_FLOOR = sf,
            SLOW_ONE_OFF_MIN_HOP_SLOTS = so, FEE_TOLERANCE_MULTIPLIER = fm, FEE_TOLERANCE_STRICT = fs, PER_HOP_FEE = pf,
            MIN_LEN = mi, MAX_LEN = ma\<rparr>))))))))))))))"

section \<open>The scorer\<close>

definition estimate_fee_ratio :: "circular_settings \<Rightarrow> nat \<Rightarrow> rat" where
  "estimate_fee_ratio cfg len = fmul (fl (of_nat len)) (PER_HOP_FEE cfg)"

definition circular_gate :: "circular_settings \<Rightarrow> cycle option \<Rightarrow> bool" where
  "circular_gate cfg found =
     (case found of
        None \<Rightarrow> False
      | Some c \<Rightarrow>
          MIN_LEN cfg \<le> int (cycle_length c) \<and> int (cycle_length c) \<le> MAX_LEN cfg \<and>
          \<not> net_loss_ratio c > fmul (estimate_fee_ratio cfg (cycle_length c)) (FEE_TOLERANCE_MULTIPLIER cfg))"

record circular_axes =
  s_amount :: rat
  s_recurrence :: rat
  s_entropy :: rat
  s_auxiliary :: rat
  s_speed :: rat

definition hop_delta :: "cycle \<Rightarrow> rat" where
  "hop_delta c = max (mean_inter_hop_delta_slots c) EPSILON"

definition axes_of :: "circular_settings \<Rightarrow> scoring_env \<Rightarrow> cycle \<Rightarrow> (circular_axes \<times> string) result" where
  "axes_of cfg env c =
     rbind (anchor (ci_FIXED cfg) ''amount_sim'') (\<lambda>a.
     rbind (resolve_axis env ''cycle_recurrence'' ''per_cluster'' (origin_cluster c) (ci_BOOT cfg) ''attacker_recurrence'' None) (\<lambda>(r50, r99, source).
     rbind (anchor (ci_FIXED cfg) ''entropy'') (\<lambda>e.
     rbind (anchor (ci_FIXED cfg) ''temporal'') (\<lambda>t.
     rbind (anchor (ci_FIXED cfg) ''hop_delta_inv'') (\<lambda>h.
       Inr (\<lparr>s_amount = normalise (cyc_similarity c) (anchor_p50 a) (anchor_p99 a),
             s_recurrence = normalise (fl (of_nat (recurrence_count c))) r50 r99,
             s_entropy = normalise (fsub 1 (recipient_entropy c)) (fsub 1 (anchor_p50 e)) (fsub 1 (anchor_p99 e)),
             s_auxiliary = fdiv (fadd (if round_amount_flag c then 1 else 0)
               (normalise (temporal_concentration c) (anchor_p50 t) (anchor_p99 t))) 2,
             s_speed = normalise (fdiv 1 (hop_delta c)) (anchor_p50 h) (anchor_p99 h)\<rparr>, source))))))"

definition hop_json :: "hop \<Rightarrow> json" where
  "hop_json h = JDict [(''address'', JStr (hop_address h)), (''amount_lovelace'', JInt (hop_amount h)), (''slot'', JInt (hop_slot h))]"

definition circular_evidence :: "cycle \<Rightarrow> (string, json) dict" where
  "circular_evidence c =
     [(''cycle_length'', JInt (int (cycle_length c))), (''net_loss_ratio'', rounded (net_loss_ratio c) 4),
      (''returned_lovelace'', JInt (returned_lovelace c)), (''amount_similarity_raw'', rounded (cyc_similarity c) 4),
      (''hops'', JList (map hop_json (cyc_hops c))), (''mean_inter_hop_slots'', JFloat (mean_inter_hop_delta_slots c)),
      (''origin_cluster'', JStr (origin_cluster c)),
      (''first_slot'', JInt (case cyc_hops c of h # _ \<Rightarrow> hop_slot h | [] \<Rightarrow> 0)), (''round_amount_flag'', JBool (round_amount_flag c)),
      (''recipient_entropy'', rounded (recipient_entropy c) 4), (''recycled_share'', rounded (recycled_share c) 4),
      (''prior_cycles_in_window'', JInt (int (prior_cycles_in_window c))), (''intermediaries'', JList (map JStr (intermediaries c))),
      (''origin_keys'', JList (map JStr (origin_keys c)))]"

definition circular_subs :: "circular_axes \<Rightarrow> cycle \<Rightarrow> (string, json) dict" where
  "circular_subs x c =
     [(''amount_similarity'', rounded (s_amount x) 4), (''cycle_recurrence'', rounded (s_recurrence x) 4),
      (''recipient_entropy_inv'', rounded (s_entropy x) 4), (''auxiliary'', rounded (s_auxiliary x) 4),
      (''speed'', rounded (s_speed x) 4), (''cycle_length'', JInt (int (cycle_length c)))]"

definition structural_only :: "circular_settings \<Rightarrow> circular_axes \<Rightarrow> bool" where
  "structural_only cfg x \<longleftrightarrow> fadd (fadd (s_entropy x) (s_auxiliary x)) (s_speed x) < STRUCTURAL_CORROBORATION_FLOOR cfg"

definition recurring_layering :: "circular_settings \<Rightarrow> cycle \<Rightarrow> circular_axes \<Rightarrow> bool" where
  "recurring_layering cfg c x \<longleftrightarrow> int (cycle_length c) \<ge> MIN_LEN cfg \<and> s_amount x > ci_REASON_T cfg \<and> s_recurrence x > ci_REASON_T cfg"

definition exceeds_strict_fee :: "circular_settings \<Rightarrow> cycle \<Rightarrow> bool" where
  "exceeds_strict_fee cfg c \<longleftrightarrow> net_loss_ratio c > fmul (estimate_fee_ratio cfg (cycle_length c)) (FEE_TOLERANCE_STRICT cfg)"

definition slow_one_off :: "circular_settings \<Rightarrow> cycle \<Rightarrow> circular_axes \<Rightarrow> bool" where
  "slow_one_off cfg c x \<longleftrightarrow>
     hop_delta c \<ge> of_int (SLOW_ONE_OFF_MIN_HOP_SLOTS cfg) \<and>
     fadd (fadd (s_entropy x) (s_speed x)) (s_recurrence x) < STRUCTURAL_CORROBORATION_FLOOR cfg"

definition capped :: "circular_settings \<Rightarrow> cycle \<Rightarrow> circular_axes \<Rightarrow> rat \<Rightarrow> rat" where
  "capped cfg c x final =
     (let final = (if structural_only cfg x then min final (MODERATE_CAP cfg) else final);
          final = (if final > MODERATE_CAP cfg \<and> exceeds_strict_fee cfg c then MODERATE_CAP cfg else final)
      in if slow_one_off cfg c x then min final BAND_INFORMATIONAL_MAX else final)"

definition circular_raw :: "circular_settings \<Rightarrow> circular_axes \<Rightarrow> rat result" where
  "circular_raw cfg x =
     weighted_sum (ci_W cfg) (''amount'', s_amount x)
       [(''recurrence'', s_recurrence x), (''entropy'', s_entropy x), (''auxiliary'', s_auxiliary x), (''speed'', s_speed x)]"

definition circular_score :: "circular_settings \<Rightarrow> scoring_env \<Rightarrow> cycle option \<Rightarrow> scorer_result result" where
  "circular_score cfg env found =
     (case found of
        None \<Rightarrow> Inr ScorerResult
      | Some c \<Rightarrow>
          rbind (axes_of cfg env c) (\<lambda>(x, source).
          rbind (circular_raw cfg x) (\<lambda>raw.
          Inr (if structural_only cfg x \<and> \<not> recurring_layering cfg c x
               then no_finding (circular_subs x c) source (circular_evidence c)
               else \<lparr>score = capped cfg c x (finalise_score raw 100 2),
                     sub_scores = circular_subs x c @ [(''net_loss_ratio'', rounded (net_loss_ratio c) 4)],
                     reasons = reason (s_amount x > ci_REASON_T cfg) ''high_amount_preservation''
                       @ reason (s_recurrence x > ci_REASON_T cfg) ''repeated_cycle_pattern''
                       @ reason (s_entropy x > ci_REASON_T cfg) ''low_recipient_diversity''
                       @ reason (s_speed x > ci_REASON_T cfg) ''rapid_inter_hop_timing'',
                     baseline_source = source, severity = None, evidence = circular_evidence c\<rparr>))))"

section \<open>What a cycle needs to page\<close>

lemma circular_scoreE:
  assumes "circular_score cfg env (Some c) = Inr r"
  obtains x source raw where "axes_of cfg env c = Inr (x, source)" "circular_raw cfg x = Inr raw"
    "score r = (if structural_only cfg x \<and> \<not> recurring_layering cfg c x then -1 else capped cfg c x (finalise_score raw 100 2))"
proof -
  obtain x source raw where x: "axes_of cfg env c = Inr (x, source)" "circular_raw cfg x = Inr raw"
    using assms by (auto simp: circular_score_def rbind_eq_Inr_iff)
  have "score r = (if structural_only cfg x \<and> \<not> recurring_layering cfg c x then -1 else capped cfg c x (finalise_score raw 100 2))"
    using assms x by (auto simp: circular_score_def no_finding_def)
  then show thesis using that x by blast
qed

lemma load_circular_cap: "load_circular sec = Inr cfg \<Longrightarrow> float_at sec ''moderate_cap'' = Inr (MODERATE_CAP cfg)"
  by (auto simp: load_circular_def rbind_eq_Inr_iff)

lemma moderate_cap_in_band:
  assumes "validate_detection data = Inr ()" "scorer_section data ''circular'' = Inr sec" "load_circular sec = Inr cfg"
  shows "BAND_MODERATE_THRESHOLD \<le> MODERATE_CAP cfg \<and> MODERATE_CAP cfg < BAND_HIGH_THRESHOLD"
  using checked_cap [OF assms(1,2) load_circular_cap [OF assms(3)], of "''scorers.circular.moderate_cap''"
      BAND_MODERATE_THRESHOLD "Some BAND_HIGH_THRESHOLD"] by (simp add: BAND_INVARIANTS_def dots_def)

lemma capped_le:
  assumes "MODERATE_CAP cfg < BAND_HIGH_THRESHOLD"
  shows "structural_only cfg x \<or> exceeds_strict_fee cfg c \<Longrightarrow> capped cfg c x final < BAND_HIGH_THRESHOLD"
    "slow_one_off cfg c x \<Longrightarrow> capped cfg c x final \<le> 30"
  using assms by (auto simp: capped_def Let_def BAND_HIGH_THRESHOLD_def)



definition shipped_ci :: circular_settings where
  "shipped_ci =
     \<lparr>ci_W = get_path shipped_circular [''weights''], ci_FIXED = get_path shipped_circular [''fixed_anchors''],
      ci_BOOT = get_path shipped_circular [''bootstrap_anchors''], ci_REASON_T = 1 / 2, MODERATE_CAP = 59,
      STRUCTURAL_CORROBORATION_FLOOR = dec 1 10, SLOW_ONE_OFF_MIN_HOP_SLOTS = 1800, FEE_TOLERANCE_MULTIPLIER = 4,
      FEE_TOLERANCE_STRICT = 2, PER_HOP_FEE = dec 1 50, MIN_LEN = 3, MAX_LEN = 6\<rparr>"

lemma shipped_ci_loads: "load_circular shipped_circular = Inr shipped_ci"
  by (simp add: load_circular_def shipped_circular_def shipped_ci_def config_reads)

lemma shipped_ci_section: "scorer_section shipped_config ''circular'' = Inr shipped_circular"
  unfolding shipped_circular_def by (rule shipped_section) (simp add: shipped_scorers_def shipped_circular_def)

text \<open>A deposit to an exchange and the withdrawal back, an hour and a half between the hops.\<close>

definition exchange_round_trip :: cycle where
  "exchange_round_trip =
     \<lparr>cycle_length = 3, cyc_addresses = [], cyc_hops = [], cyc_similarity = 1, net_loss_ratio = 0, recurrence_count = 0,
      prior_cycles_in_window = 0, recycled_share = 0, recipient_entropy = 1, round_amount_flag = True, temporal_concentration = 0,
      mean_inter_hop_delta_slots = 5000, origin_cluster = ''o'', intermediaries = [], origin_keys = [], history_unavailable = False,
      returned_lovelace = 0, closing_leg_unavailable = False\<rparr>"

definition round_trip_axes :: circular_axes where
  "round_trip_axes = \<lparr>s_amount = normalise 1 (dec 7 10) (dec 97 100), s_recurrence = normalise 0 0 5,
     s_entropy = normalise (fsub 1 1) (fsub 1 (dec 4 5)) (fsub 1 (dec 3 10)), s_auxiliary = fdiv (fadd 1 (normalise 0 (dec 3 10) (dec 17 20))) 2,
     s_speed = normalise (fdiv 1 (max 5000 EPSILON)) (dec 1 20) (1 / 2)\<rparr>"

lemma round_trip_axes_of: "axes_of shipped_ci bare_env exchange_round_trip = Inr (round_trip_axes, ''bootstrap'')"
  by (simp add: axes_of_def shipped_ci_def shipped_circular_def exchange_round_trip_def round_trip_axes_def hop_delta_def config_reads bare_axis)

lemma round_trip_raw: "\<exists>raw. circular_raw shipped_ci round_trip_axes = Inr raw"
  by (simp add: circular_raw_def weighted_sum_def shipped_ci_def shipped_circular_def config_reads)

lemma round_trip_slow:
  "slow_one_off shipped_ci exchange_round_trip round_trip_axes" "\<not> structural_only shipped_ci round_trip_axes"
  by code_simp+


end
