(* ===== verification/Value_Scorers.thy ===== *)
theory Value_Scorers
  imports Scorer_Facts "HOL-Library.List_Lexorder" "HOL-Library.Char_ord"
begin

text \<open>
  The two scorers of bloated values at script addresses: few assets with huge quantities
  (\<open>src/backend/app/analysis/scorers/large_value.py\<close>) and many distinct assets
  (\<open>src/backend/app/analysis/scorers/token_dust.py\<close>), with the size estimate of
  \<open>src/backend/app/analysis/features.py\<close> and the policy ages of \<open>src/backend/app/db/clickhouse.py\<close>.  The length of
  \<open>cbor2.dumps\<close> and of \<open>json.dumps\<close> are parameters.

  Shown: a transaction leaves the Informational band on a large value only for a quantity whose digits stand out
  from the baseline, and pages on token dust only for an output with the configured number of assets, not
  allowlisted, whose policies are not all old and untouched; and the cached lookup of policy ages agrees with the
  table.
\<close>

section \<open>Values\<close>

text \<open>The length of \<open>str(abs(n))\<close>; the interpreter refuses to write more than 4300 digits.\<close>

definition decimal_len :: "int \<Rightarrow> int result" where
  "decimal_len n = (let d = length (nat_digits (nat \<bar>n\<bar>)) in if d > 4300 then Inl ValueError else Inr (int d))"

text \<open>The native assets of a value in the order of the loops: policy, name, quantity as it stands.\<close>

definition policy_entries :: "string \<times> json \<Rightarrow> (string \<times> string \<times> json) list" where
  "policy_entries e =
     (case e of (key, val) \<Rightarrow>
        if key \<in> set ada_keys then []
        else case val of JDict bundle \<Rightarrow> map (\<lambda>(name, qty). (key, name, qty)) bundle | _ \<Rightarrow> [(key, [], val)])"

definition native_entries :: "(string, json) dict \<Rightarrow> (string \<times> string \<times> json) list" where
  "native_entries value = concat (map policy_entries value)"

definition abs_qty :: "json \<Rightarrow> int result" where
  "abs_qty qty = (if truthy qty then rbind (int_of_json qty) (\<lambda>n. Inr \<bar>n\<bar>) else Inr 0)"

definition qty_digits :: "json \<Rightarrow> int result" where
  "qty_digits qty = (if truthy qty then rbind (int_of_json qty) decimal_len else Inr 0)"

definition max_quantity_digits :: "(string, json) dict \<Rightarrow> int result" where
  "max_quantity_digits value =
     rbind (rmap (\<lambda>(_, _, qty). qty_digits qty) (native_entries value)) (\<lambda>ds. Inr (foldl max 0 ds))"

definition larger :: "string \<times> string \<times> int \<Rightarrow> string \<times> string \<times> int \<Rightarrow> string \<times> string \<times> int" where
  "larger best e = (if snd (snd e) > snd (snd best) then e else best)"

definition primary_asset :: "(string, json) dict \<Rightarrow> (string \<times> string \<times> int) result" where
  "primary_asset value =
     rbind (rmap (\<lambda>(policy, name, qty). rbind (abs_qty qty) (\<lambda>q. Inr (policy, name, q))) (native_entries value))
       (\<lambda>es. Inr (foldl larger ([], [], 0) es))"

text \<open>A decoded name is printable ASCII exactly if every byte is, since no byte of a longer UTF-8 sequence is.\<close>

definition hex_to_ascii :: "string \<Rightarrow> string" where
  "hex_to_ascii s =
     (case fromhex s of None \<Rightarrow> [] | Some bs \<Rightarrow> if list_all (\<lambda>b. 32 \<le> b \<and> b < 127) bs then map (char_of \<circ> nat) bs else [])"

datatype cbor = CInt int | CBytes string | CList "cbor list" | CMap "(cbor \<times> cbor) list"

record encoders =
  cbor_len :: "cbor \<Rightarrow> int"
  json_bytes :: "json \<Rightarrow> int"

definition cbor_entry :: "string \<times> json \<Rightarrow> (cbor \<times> cbor) result" where
  "cbor_entry e =
     (case e of (key, val) \<Rightarrow>
        (case val of
           JDict bundle \<Rightarrow> rbind (rmap (\<lambda>(name, qty). rbind (int_of_json qty) (\<lambda>n. Inr (CBytes name, CInt n))) bundle)
             (\<lambda>es. Inr (CBytes key, CMap es))
         | _ \<Rightarrow> rbind (int_of_json val) (\<lambda>n. Inr (CBytes key, CInt n))))"

definition value_cbor :: "(string, json) dict \<Rightarrow> cbor result" where
  "value_cbor value =
     (let lovelace = (case field value ''ada'' of JDict ada \<Rightarrow> dict_get ada ''lovelace'' (JInt 0) | _ \<Rightarrow> dict_get value ''lovelace'' (JInt 0))
      in rbind (rmap cbor_entry (filter (\<lambda>(key, _). key \<notin> set ada_keys) value)) (\<lambda>assets.
         rbind (int_of_json lovelace) (\<lambda>n. Inr (if assets = [] then CInt n else CList [CInt n, CMap assets]))))"

definition estimate_value_cbor_bytes :: "encoders \<Rightarrow> (string, json) dict \<Rightarrow> int" where
  "estimate_value_cbor_bytes enc value =
     (case value_cbor value of Inr c \<Rightarrow> cbor_len enc c | Inl _ \<Rightarrow> json_bytes enc (JDict value))"

section \<open>Script outputs\<close>

text \<open>The beginning of the loops over the outputs: the address and the value of an output at a script address.\<close>

definition script_output :: "json \<Rightarrow> (string \<times> (string, json) dict) option result" where
  "script_output out =
     rbind (jget out ''address'' (JStr [])) (\<lambda>addr.
       if \<not> truthy addr then Inr None
       else case addr of
              JStr a \<Rightarrow>
                (if \<not> is_script_address a then Inr None
                 else rbind (jget out ''value'' (JDict [])) (\<lambda>value. Inr (case value of JDict d \<Rightarrow> Some (a, d) | _ \<Rightarrow> None)))
            | _ \<Rightarrow> Inl AttributeError)"

fun any_output :: "(string \<Rightarrow> (string, json) dict \<Rightarrow> bool result) \<Rightarrow> json list \<Rightarrow> bool result" where
  "any_output P [] = Inr False"
| "any_output P (out # outs) =
     rbind (script_output out) (\<lambda>so. case so of
         None \<Rightarrow> any_output P outs
       | Some (a, v) \<Rightarrow> rbind (P a v) (\<lambda>b. if b then Inr True else any_output P outs))"

definition outputs_gate :: "(string \<Rightarrow> (string, json) dict \<Rightarrow> bool result) \<Rightarrow> json \<Rightarrow> bool result" where
  "outputs_gate P raw_data =
     (case raw_data of
        JDict d \<Rightarrow> (if d = [] then Inr False else rbind (iter_json (dict_get d ''outputs'' (JList []))) (any_output P))
      | _ \<Rightarrow> Inr False)"

fun collect_outputs :: "(string \<Rightarrow> (string, json) dict \<Rightarrow> 'r option result) \<Rightarrow> json list \<Rightarrow> 'r list result" where
  "collect_outputs f [] = Inr []"
| "collect_outputs f (out # outs) =
     rbind (script_output out) (\<lambda>so. case so of
         None \<Rightarrow> collect_outputs f outs
       | Some (a, v) \<Rightarrow> rbind (f a v) (\<lambda>r. rbind (collect_outputs f outs) (\<lambda>rs.
           Inr (case r of None \<Rightarrow> rs | Some x \<Rightarrow> x # rs))))"

definition over_outputs :: "(string \<Rightarrow> (string, json) dict \<Rightarrow> 'r option result) \<Rightarrow> json \<Rightarrow> 'r list result" where
  "over_outputs f raw_data = rbind (jget raw_data ''outputs'' (JList [])) (\<lambda>outputs. rbind (iter_json outputs) (collect_outputs f))"

section \<open>Large values\<close>

record large_value_settings =
  lv_W :: json
  lv_BOOT :: json
  lv_REASON_T :: rat
  MIN_DIGITS_SUBSCORE :: rat

definition load_large_value :: "json \<Rightarrow> large_value_settings result" where
  "load_large_value cfg =
     rbind (jidx cfg ''weights'') (\<lambda>w. rbind (jidx cfg ''bootstrap_anchors'') (\<lambda>bo.
     rbind (float_at cfg ''reason_threshold'') (\<lambda>rt. rbind (float_at cfg ''min_digits_subscore'') (\<lambda>md.
       Inr \<lparr>lv_W = w, lv_BOOT = bo, lv_REASON_T = rt, MIN_DIGITS_SUBSCORE = md\<rparr>))))"

definition large_value_gate :: "json \<Rightarrow> bool result" where
  "large_value_gate = outputs_gate (\<lambda>_ value. rbind (count_assets value) (\<lambda>(_, tokens). Inr (0 < tokens \<and> tokens \<le> 2)))"

definition digits_baseline :: "large_value_settings \<Rightarrow> scoring_env \<Rightarrow> string \<Rightarrow> (rat \<times> rat \<times> string) result" where
  "digits_baseline cfg env policy_id =
     (if policy_id \<noteq> [] then resolve_axis env ''quantity_digits'' ''per_policy'' policy_id (lv_BOOT cfg) ''quantity_digits'' None
      else rbind (anchor (lv_BOOT cfg) ''quantity_digits'') (\<lambda>a. Inr (anchor_p50 a, anchor_p99 a, ''bootstrap'')))"

definition large_value_utxo :: "large_value_settings \<Rightarrow> encoders \<Rightarrow> scoring_env \<Rightarrow> string \<Rightarrow> (string, json) dict \<Rightarrow> scorer_result result" where
  "large_value_utxo cfg enc env address value =
     rbind (extract_lovelace (JDict value)) (\<lambda>ada.
     let size = estimate_value_cbor_bytes enc value in
     rbind (max_quantity_digits value) (\<lambda>digits.
     rbind (primary_asset value) (\<lambda>(policy_id, asset_name, quantity).
     rbind (digits_baseline cfg env policy_id) (\<lambda>(d50, d99, source).
     rbind (resolve_axis env ''value_cbor_bytes'' ''per_script'' address (lv_BOOT cfg) ''value_cbor_bytes'' None) (\<lambda>(c50, c99, _).
     rbind (resolve_axis env ''ada_amount'' ''per_script'' address (lv_BOOT cfg) ''ada_amount'' None) (\<lambda>(a50, a99, _).
     let s_digits = normalise (fl (of_int digits)) d50 d99;
         s_bytes = normalise (fl (of_int size)) c50 c99;
         s_ada = normalise_inverted (fl (of_int ada)) a50 a99 in
     rbind (weighted_sum (lv_W cfg) (''digits'', s_digits) [(''bytes'', s_bytes), (''ada_inv'', s_ada), (''recurrence'', 0)]) (\<lambda>raw.
       let final = finalise_score raw 100 2 in
       Inr \<lparr>score = (if s_digits < MIN_DIGITS_SUBSCORE cfg then min final BAND_LOW_MAX else final),
            sub_scores = [(''quantity_digits'', rounded s_digits 4), (''value_cbor_bytes'', rounded s_bytes 4),
              (''lovelace_inverted'', rounded s_ada 4), (''sender_recurrence'', rounded 0 4)],
            reasons = reason (s_digits > lv_REASON_T cfg) ''extreme_quantity_digits''
              @ reason (s_bytes > lv_REASON_T cfg) ''high_value_cbor_for_few_assets''
              @ reason (s_ada > lv_REASON_T cfg) ''low_lovelace_amount'',
            baseline_source = source, severity = None,
            evidence = [(''policy_id'', JStr policy_id), (''asset_name_hex'', JStr asset_name), (''asset_name_ascii'', JStr (hex_to_ascii asset_name)),
              (''max_quantity_raw'', JInt quantity), (''quantity_digits_raw'', JInt digits), (''value_cbor_bytes_raw'', JInt size),
              (''lovelace_amount'', JInt ada), (''target_script_address'', JStr address)]\<rparr>)))))))"

definition large_value_score :: "large_value_settings \<Rightarrow> encoders \<Rightarrow> scoring_env \<Rightarrow> json \<Rightarrow> scorer_result result" where
  "large_value_score cfg enc env raw_data =
     rbind (over_outputs (\<lambda>address value. rbind (count_assets value) (\<lambda>(_, tokens).
         if tokens = 0 \<or> tokens > 2 then Inr None else rbind (large_value_utxo cfg enc env address value) (\<lambda>r. Inr (Some r)))) raw_data)
       (\<lambda>rs. Inr (reduce_to_best rs))"

section \<open>Token dust\<close>

record token_dust_settings =
  td_W :: json
  td_BOOT :: json
  td_REASON_T :: rat
  MIN_TOKEN_COUNT :: int
  DOS_ASSET_MIN :: int
  ESTABLISHED_ENABLED :: bool
  ESTABLISHED_MIN_AGE_SLOTS :: int
  DOS_VALUE_CBOR_MIN :: int
  ALLOWLIST_PREFIXES :: "(string, json list) dict"
  ALLOWLIST_POLICIES :: "(string, json list) dict"

text \<open>\<open>frozenset\<close> of the items: an item that cannot be hashed raises.\<close>

definition frozen_map :: "json \<Rightarrow> (string, json list) dict result" where
  "frozen_map raw =
     rbind (load_network_map raw) (\<lambda>m.
       if list_all (\<lambda>(_, items). list_all (\<lambda>j. case j of JList _ \<Rightarrow> False | JDict _ \<Rightarrow> False | _ \<Rightarrow> True) items) m then Inr m else Inl TypeError)"

definition load_token_dust :: "(string, json) dict \<Rightarrow> json \<Rightarrow> token_dust_settings result" where
  "load_token_dust limits cfg =
     rbind (jidx cfg ''weights'') (\<lambda>w. rbind (jidx cfg ''bootstrap_anchors'') (\<lambda>bo.
     rbind (float_at cfg ''reason_threshold'') (\<lambda>rt. rbind (rbind (jidx cfg ''gate'') (\<lambda>g. int_at g ''min_token_count'')) (\<lambda>mt.
     rbind (int_at cfg ''dos_asset_min'') (\<lambda>da. rbind (jidx cfg ''established_collection'') (\<lambda>es.
     rbind (jidx es ''enabled'') (\<lambda>en. rbind (int_at es ''min_policy_age_slots'') (\<lambda>ag.
     rbind (rbind (jidx cfg ''dos_value_cbor_fraction'') (\<lambda>f. fraction_of_limit limits f ''max_value_size_bytes'')) (\<lambda>dv.
     rbind (rbind (jget cfg ''allowlist_prefixes'' JNull) frozen_map) (\<lambda>ap.
     rbind (rbind (jget cfg ''allowlist_policies'' JNull) frozen_map) (\<lambda>al.
       Inr \<lparr>td_W = w, td_BOOT = bo, td_REASON_T = rt, MIN_TOKEN_COUNT = mt, DOS_ASSET_MIN = da, ESTABLISHED_ENABLED = truthy en,
            ESTABLISHED_MIN_AGE_SLOTS = ag, DOS_VALUE_CBOR_MIN = dv, ALLOWLIST_PREFIXES = ap, ALLOWLIST_POLICIES = al\<rparr>)))))))))))"

definition max_assets_per_policy :: "(string, json) dict \<Rightarrow> nat" where
  "max_assets_per_policy value =
     foldl max 0 (map (\<lambda>(policy, inner). if policy \<in> set ada_keys then 0 else case inner of JDict b \<Rightarrow> length b | _ \<Rightarrow> 0) value)"

fun any_prefix :: "string \<Rightarrow> json list \<Rightarrow> bool result" where
  "any_prefix a [] = Inr False"
| "any_prefix a (p # ps) = (case p of JStr s \<Rightarrow> (if startswith a s then Inr True else any_prefix a ps) | _ \<Rightarrow> Inl TypeError)"

definition bundle_policies :: "(string, json) dict \<Rightarrow> string list" where
  "bundle_policies value = filter (\<lambda>p. p \<notin> set ada_keys) (map fst value)"

definition is_allowlisted_utxo :: "token_dust_settings \<Rightarrow> string \<Rightarrow> string \<Rightarrow> (string, json) dict \<Rightarrow> bool result" where
  "is_allowlisted_utxo cfg network address value =
     rbind (if address \<noteq> [] then any_prefix address (dict_get (ALLOWLIST_PREFIXES cfg) network []) else Inr False) (\<lambda>hit.
       let allowed = dict_get (ALLOWLIST_POLICIES cfg) network [] in
       Inr (hit \<or> allowed \<noteq> [] \<and> bundle_policies value \<noteq> [] \<and> list_all (\<lambda>p. JStr p \<in> set allowed) (bundle_policies value)))"

definition token_dust_gate :: "token_dust_settings \<Rightarrow> encoders \<Rightarrow> json \<Rightarrow> bool result" where
  "token_dust_gate cfg enc = outputs_gate (\<lambda>_ value. rbind (count_assets value) (\<lambda>(_, tokens).
     Inr (tokens \<ge> MIN_TOKEN_COUNT cfg \<and> (tokens \<ge> DOS_ASSET_MIN cfg \<or> estimate_value_cbor_bytes enc value \<ge> DOS_VALUE_CBOR_MIN cfg))))"

record dust_output =
  do_address :: string
  do_value :: "(string, json) dict"
  do_policies :: int
  do_tokens :: int

definition eligible_output :: "token_dust_settings \<Rightarrow> string \<Rightarrow> string \<Rightarrow> (string, json) dict \<Rightarrow> dust_output option result" where
  "eligible_output cfg network address value =
     rbind (count_assets value) (\<lambda>(policies, tokens).
       if tokens < MIN_TOKEN_COUNT cfg then Inr None
       else rbind (is_allowlisted_utxo cfg network address value) (\<lambda>allowed.
         Inr (if allowed then None else Some \<lparr>do_address = address, do_value = value, do_policies = policies, do_tokens = tokens\<rparr>)))"

definition mint_policies_of :: "(string, json) dict \<Rightarrow> string list" where
  "mint_policies_of raw = (case field raw ''mint'' of JDict mint \<Rightarrow> filter (\<lambda>p. p \<notin> set ada_keys) (map fst mint) | _ \<Rightarrow> [])"

text \<open>\<open>lookup\<close> is \<open>resolve_policies_first_seen\<close> on the network.\<close>

definition policy_age_context ::
  "token_dust_settings \<Rightarrow> (string list \<Rightarrow> (string, int) dict result) \<Rightarrow> (string, json) dict \<Rightarrow> dust_output list \<Rightarrow> (string, int) dict \<times> string list" where
  "policy_age_context cfg lookup raw eligible =
     (let policies = sort (remdups (concat (map (bundle_policies \<circ> do_value) eligible)))
      in if policies = [] \<or> \<not> ESTABLISHED_ENABLED cfg then ([], mint_policies_of raw)
         else (rcatch (lookup policies) [], mint_policies_of raw))"

definition known_ages :: "int option \<Rightarrow> (string, int) dict \<Rightarrow> string list \<Rightarrow> int list" where
  "known_ages current_slot first_seen policies =
     (case current_slot of None \<Rightarrow> [] | Some s \<Rightarrow> List.map_filter (\<lambda>p. map_option (\<lambda>f. s - f) (map_of first_seen p)) policies)"

definition ages_known :: "(string, int) dict \<Rightarrow> string list \<Rightarrow> bool" where
  "ages_known first_seen policies \<longleftrightarrow> policies \<noteq> [] \<and> list_all (\<lambda>p. map_of first_seen p \<noteq> None) policies"

definition established_collection ::
  "token_dust_settings \<Rightarrow> int option \<Rightarrow> (string, int) dict \<Rightarrow> string list \<Rightarrow> string list \<Rightarrow> bool" where
  "established_collection cfg current_slot first_seen mint_policies policies \<longleftrightarrow>
     ESTABLISHED_ENABLED cfg \<and> ages_known first_seen policies \<and>
     (let ages = known_ages current_slot first_seen policies in ages \<noteq> [] \<and> Min (set ages) \<ge> ESTABLISHED_MIN_AGE_SLOTS cfg) \<and>
     set policies \<inter> set mint_policies = {}"

definition token_dust_utxo ::
  "token_dust_settings \<Rightarrow> encoders \<Rightarrow> scoring_env \<Rightarrow> int option \<Rightarrow> (string, int) dict \<Rightarrow> string list \<Rightarrow> dust_output \<Rightarrow> scorer_result result" where
  "token_dust_utxo cfg enc env current_slot first_seen mint_policies u =
     (let address = do_address u; value = do_value u; tokens = do_tokens u; policies = bundle_policies value in
     rbind (extract_lovelace (JDict value)) (\<lambda>ada.
     let size = estimate_value_cbor_bytes enc value in
     rbind (resolve_axis env ''value_cbor_bytes'' ''per_script'' address (td_BOOT cfg) ''value_cbor_bytes'' None) (\<lambda>(c50, c99, source).
     rbind (resolve_axis env ''unique_token_count'' ''per_script'' address (td_BOOT cfg) ''unique_token_count'' None) (\<lambda>(t50, t99, _).
     rbind (resolve_axis env ''ada_amount'' ''per_script'' address (td_BOOT cfg) ''ada_amount'' None) (\<lambda>(a50, a99, _).
     let s_bytes = normalise (fl (of_int size)) c50 c99;
         s_assets = normalise (fl (of_int tokens)) t50 t99;
         s_ada = normalise_inverted (fl (of_int ada)) a50 a99 in
     rbind (weighted_sum (td_W cfg) (''bytes'', s_bytes) [(''assets'', s_assets), (''ada_inv'', s_ada), (''recurrence'', 0)]) (\<lambda>raw.
       let final = finalise_score raw 100 2;
           final = (if tokens < DOS_ASSET_MIN cfg then min final BAND_MODERATE_MAX else final);
           old = established_collection cfg current_slot first_seen mint_policies policies;
           ages = known_ages current_slot first_seen policies;
           T = td_REASON_T cfg in
       Inr \<lparr>score = (if old then min final BAND_MODERATE_MAX else final),
            sub_scores = [(''value_cbor_bytes'', rounded s_bytes 4), (''unique_assetclass_count'', rounded s_assets 4),
              (''lovelace_inverted'', rounded s_ada 4), (''sender_recurrence'', rounded 0 4),
              (''max_assets_per_policy'', JFloat (of_nat (max_assets_per_policy value)))],
            reasons = reason (s_bytes > T) ''high_value_cbor_bytes'' @ reason (s_assets > T) ''many_distinct_assets''
              @ reason (s_ada > T) ''low_lovelace_amount''
              @ reason (is_script_address address \<and> s_bytes > T \<and> s_assets > T \<and> s_ada > T \<and> tokens \<ge> DOS_ASSET_MIN cfg) ''script_value_bloat_dos''
              @ reason old ''established_collection_cap'',
            baseline_source = source, severity = None,
            evidence = [(''unique_asset_count'', JInt tokens), (''policy_count'', JInt (do_policies u)), (''value_cbor_bytes_raw'', JInt size),
              (''max_assets_per_policy'', JInt (int (max_assets_per_policy value))), (''lovelace_amount'', JInt ada),
              (''target_script_address'', JStr address), (''policy_ages_known'', JBool (ages_known first_seen policies)),
              (''min_policy_age_slots_observed'', if ages = [] then JNull else JInt (Min (set ages)))]\<rparr>))))))"

definition token_dust_score ::
  "token_dust_settings \<Rightarrow> encoders \<Rightarrow> scoring_env \<Rightarrow> (string list \<Rightarrow> (string, int) dict result) \<Rightarrow> string \<Rightarrow> int option \<Rightarrow> json \<Rightarrow> scorer_result result" where
  "token_dust_score cfg enc env lookup network current_slot raw_data =
     rbind (over_outputs (eligible_output cfg network) raw_data) (\<lambda>eligible.
       if eligible = [] then Inr (reduce_to_best [])
       else case raw_data of
              JDict raw \<Rightarrow>
                (case policy_age_context cfg lookup raw eligible of
                   (first_seen, mint_policies) \<Rightarrow>
                     rbind (rmap (token_dust_utxo cfg enc env current_slot first_seen mint_policies) eligible) (\<lambda>rs. Inr (reduce_to_best rs)))
            | _ \<Rightarrow> Inl AttributeError)"

section \<open>Policy ages\<close>

text \<open>The rows of the network, the entries of the cache for it, and whether the database answers.\<close>

definition first_slot :: "(string \<times> int) list \<Rightarrow> string \<Rightarrow> int option" where
  "first_slot table p = (let slots = map snd (filter (\<lambda>(q, _). q = p) table) in if slots = [] then None else Some (Min (set slots)))"

definition found_rows :: "(string \<times> int) list \<Rightarrow> string list \<Rightarrow> (string, int) dict" where
  "found_rows table misses = List.map_filter (\<lambda>p. map_option (\<lambda>s. (p, s)) (first_slot table p)) (remdups misses)"

definition get_policies_first_seen ::
  "nat \<Rightarrow> string \<Rightarrow> (string \<times> int) list \<Rightarrow> bool \<Rightarrow> string list \<Rightarrow> (string \<times> string, int) dict \<Rightarrow>
     (string, int) dict result \<times> (string \<times> string, int) dict" where
  "get_policies_first_seen max_entries network table up policy_ids cache =
     (if policy_ids = [] then (Inr [], cache)
      else
        let cache_on = max_entries > 0;
            hits = (if cache_on then List.map_filter (\<lambda>p. map_option (\<lambda>s. (p, s)) (map_of cache (network, p))) policy_ids else []);
            misses = (if cache_on then filter (\<lambda>p. map_of cache (network, p) = None) policy_ids else policy_ids)
        in if cache_on \<and> misses = [] then (Inr hits, cache)
           else if \<not> up then (Inl (RuntimeFailure ''clickhouse''), cache)
           else let found = found_rows table misses;
                    base = (if length cache \<ge> max_entries then [] else cache)
                in (Inr (hits @ found), if cache_on \<and> found \<noteq> [] then foldl (\<lambda>c (p, s). AList.update (network, p) s c) base found else cache))"

section \<open>The cached lookup agrees with the table\<close>

text \<open>What the scorer relies on: a lookup that answers tells of every policy it is asked for what the table has.\<close>

locale first_seen_lookup =
  fixes lookup :: "string list \<Rightarrow> (string, int) dict result" and table :: "(string \<times> int) list"
  assumes answers: "lookup ps = Inr d \<Longrightarrow> p \<in> set ps \<Longrightarrow> map_of d p = first_slot table p"
begin

lemma age_context:
  assumes "policy_age_context cfg lookup raw eligible = (first_seen, mint)" "u \<in> set eligible" "p \<in> set (bundle_policies (do_value u))"
    and "map_of first_seen p = Some f"
  shows "first_slot table p = Some f"
proof -
  define ps where "ps = sort (remdups (concat (map (bundle_policies \<circ> do_value) eligible)))"
  have p: "p \<in> set ps" using assms(2,3) by (auto simp: ps_def)
  have "first_seen = (if ps = [] \<or> \<not> ESTABLISHED_ENABLED cfg then [] else rcatch (lookup ps) [])"
    using assms(1) unfolding policy_age_context_def Let_def ps_def by (auto split: if_splits)
  then have "first_seen = rcatch (lookup ps) []" using assms(4) by (auto split: if_splits)
  then show ?thesis using assms(4) answers [OF _ p] by (cases "lookup ps") auto
qed

end

locale first_seen_available = first_seen_lookup +
  assumes available: "\<exists>d. lookup ps = Inr d"
begin

lemma age_table:
  assumes "policy_age_context cfg lookup raw eligible = (first_seen, mint)" "u \<in> set eligible" "p \<in> set (bundle_policies (do_value u))"
    and "ESTABLISHED_ENABLED cfg"
  shows "map_of first_seen p = first_slot table p" "mint = mint_policies_of raw"
proof -
  define ps where "ps = sort (remdups (concat (map (bundle_policies \<circ> do_value) eligible)))"
  have p: "p \<in> set ps" using assms(2,3) by (auto simp: ps_def)
  then have ne: "ps \<noteq> []" by auto
  have "first_seen = rcatch (lookup ps) []" "mint = mint_policies_of raw"
    using assms(1,4) ne unfolding policy_age_context_def Let_def ps_def [symmetric] by auto
  moreover obtain d where "lookup ps = Inr d" using available by blast
  ultimately show "map_of first_seen p = first_slot table p" "mint = mint_policies_of raw" using answers p by auto
qed

text \<open>A bundle that is not established has a policy that is unknown, too young or minted by the transaction.\<close>

lemma fresh_policy:
  assumes "policy_age_context cfg lookup raw eligible = (first_seen, mint)" "u \<in> set eligible" "ESTABLISHED_ENABLED cfg"
    and "\<not> established_collection cfg (Some slot) first_seen mint (bundle_policies (do_value u))" "bundle_policies (do_value u) \<noteq> []"
  shows "\<exists>p \<in> set (bundle_policies (do_value u)). p \<in> set (mint_policies_of raw) \<or>
    (case first_slot table p of None \<Rightarrow> True | Some f \<Rightarrow> slot - f < ESTABLISHED_MIN_AGE_SLOTS cfg)"
proof (rule ccontr)
  let ?ps = "bundle_policies (do_value u)"
  assume none: "\<not> ?thesis"
  have old: "\<exists>f. map_of first_seen p = Some f \<and> slot - f \<ge> ESTABLISHED_MIN_AGE_SLOTS cfg" and new: "p \<notin> set mint" if "p \<in> set ?ps" for p
    using none age_table [OF assms(1,2) that assms(3)] that by (auto simp: not_less split: option.splits)
  have ages: "\<forall>x \<in> set (known_ages (Some slot) first_seen ?ps). x \<ge> ESTABLISHED_MIN_AGE_SLOTS cfg"
    using old by (auto simp: known_ages_def in_map_filter_iff) fastforce
  have some: "known_ages (Some slot) first_seen ?ps \<noteq> []"
  proof -
    obtain p where p: "p \<in> set ?ps" using assms(5) by (cases ?ps) auto
    then obtain f where "map_of first_seen p = Some f" using old by blast
    then have "slot - f \<in> set (known_ages (Some slot) first_seen ?ps)" using p by (auto simp: known_ages_def in_map_filter_iff)
    then show ?thesis by auto
  qed
  have "ages_known first_seen ?ps" using old assms(5) by (fastforce simp: ages_known_def list_all_iff)
  then have "established_collection cfg (Some slot) first_seen mint ?ps"
    using assms(3) ages some new unfolding established_collection_def Let_def by auto
  then show False using assms(4) by blast
qed

end

definition coherent :: "string \<Rightarrow> (string \<times> int) list \<Rightarrow> (string \<times> string, int) dict \<Rightarrow> bool" where
  "coherent network table cache \<longleftrightarrow> (\<forall>p s. map_of cache (network, p) = Some s \<longrightarrow> first_slot table p = Some s)"

lemma map_of_map_filter: "map_of (List.map_filter (\<lambda>p. map_option (\<lambda>s. (p, s)) (g p)) ps) p = (if p \<in> set ps then g p else None)"
  by (induction ps) (auto simp: map_filter_simps split: option.splits)

lemma foldl_update_keep:
  "coherent network table c \<Longrightarrow> \<forall>(p, s) \<in> set es. first_slot table p = Some s \<Longrightarrow>
     coherent network table (foldl (\<lambda>c (p, s). AList.update (network, p) s c) c es)"
proof (induction es arbitrary: c)
  case (Cons e es)
  obtain p s where e: "e = (p, s)" by (cases e)
  have "coherent network table (AList.update (network, p) s c)" using Cons.prems e by (auto simp: coherent_def)
  then show ?case using Cons e by simp
qed simp

lemma found_rows_sound: "\<forall>(p, s) \<in> set (found_rows table misses). first_slot table p = Some s"
  by (auto simp: found_rows_def in_map_filter_iff)

lemma lookup_keeps_coherent:
  assumes "coherent network table cache"
  shows "coherent network table (snd (get_policies_first_seen m network table up ps cache))"
proof -
  have empty: "coherent network table []" by (simp add: coherent_def)
  show ?thesis unfolding get_policies_first_seen_def Let_def
    using assms foldl_update_keep [OF assms found_rows_sound] foldl_update_keep [OF empty found_rows_sound] by (auto split: if_splits)
qed

lemma lookup_answers:
  assumes "coherent network table cache" "fst (get_policies_first_seen m network table up ps cache) = Inr d" "p \<in> set ps"
  shows "map_of d p = first_slot table p"
proof -
  let ?miss = "filter (\<lambda>p. map_of cache (network, p) = None) ps"
  have hit: "first_slot table p = Some s" if "map_of cache (network, p) = Some s" for s using assms(1) that by (simp add: coherent_def)
  show ?thesis using assms(2,3) hit unfolding get_policies_first_seen_def Let_def found_rows_def
    by (cases "map_of cache (network, p)")
       (auto simp: map_of_map_filter map_add_def filter_empty_conv split: if_splits option.splits)
qed

text \<open>The cache after a history of lookups by any network, each of which may have failed.\<close>

fun cache_after :: "nat \<Rightarrow> (string \<Rightarrow> (string \<times> int) list) \<Rightarrow> (string \<times> bool \<times> string list) list \<Rightarrow> (string \<times> string, int) dict" where
  "cache_after m tables [] = []"
| "cache_after m tables ((network, up, ps) # calls) =
     snd (get_policies_first_seen m network (tables network) up ps (cache_after m tables calls))"

lemma foldl_update_other:
  "network \<noteq> n \<Longrightarrow> map_of (foldl (\<lambda>c (p, s). AList.update (network, p) s c) c es) (n, p) = map_of c (n, p)"
  by (induction es arbitrary: c) (auto split: prod.splits)

lemma lookup_other_network:
  assumes "coherent n table cache" "network \<noteq> n"
  shows "coherent n table (snd (get_policies_first_seen m network table' up ps cache))"
  using assms unfolding get_policies_first_seen_def Let_def coherent_def by (auto simp: foldl_update_other split: if_splits)

lemma cache_coherent: "coherent n (tables n) (cache_after m tables calls)"
proof (induction calls)
  case (Cons call calls)
  obtain network up ps where c: "call = (network, up, ps)" by (cases call)
  show ?case unfolding c cache_after.simps
    by (cases "network = n") (use Cons lookup_keeps_coherent lookup_other_network in auto)
qed (simp add: coherent_def)

interpretation cached: first_seen_lookup
  "\<lambda>ps. fst (get_policies_first_seen m network (tables network) up ps (cache_after m tables calls))" "tables network"
  by unfold_locales (rule lookup_answers [OF cache_coherent])

lemma lookup_available: "\<exists>d. fst (get_policies_first_seen m network table True ps cache) = Inr d"
  by (simp add: get_policies_first_seen_def Let_def)

interpretation live: first_seen_available
  "\<lambda>ps. fst (get_policies_first_seen m network (tables network) True ps (cache_after m tables calls))" "tables network"
  by unfold_locales (rule lookup_available)

section \<open>Where a score comes from\<close>

definition script_value :: "json \<Rightarrow> string \<Rightarrow> (string, json) dict \<Rightarrow> bool" where
  "script_value raw a v \<longleftrightarrow>
     (\<exists>outputs outs. jget raw ''outputs'' (JList []) = Inr outputs \<and> iter_json outputs = Inr outs \<and>
        (\<exists>out \<in> set outs. script_output out = Inr (Some (a, v))))"

lemma collect_outputs_mem:
  "collect_outputs f outs = Inr rs \<Longrightarrow> r \<in> set rs \<Longrightarrow> \<exists>out \<in> set outs. \<exists>a v. script_output out = Inr (Some (a, v)) \<and> f a v = Inr (Some r)"
proof (induction outs arbitrary: rs)
  case (Cons out outs)
  obtain so where so: "script_output out = Inr so" using Cons.prems(1) by (auto simp: rbind_eq_Inr_iff)
  show ?case
  proof (cases so)
    case None
    then show ?thesis using Cons so by auto
  next
    case (Some av)
    obtain a v where av: "av = (a, v)" by (cases av)
    obtain x xs where "f a v = Inr x" "collect_outputs f outs = Inr xs" "rs = (case x of None \<Rightarrow> xs | Some y \<Rightarrow> y # xs)"
      using Cons.prems(1) so Some av by (auto simp: rbind_eq_Inr_iff)
    then show ?thesis using Cons.IH Cons.prems(2) so Some av by (fastforce split: option.splits)
  qed
qed simp

lemma over_outputs_mem:
  assumes "over_outputs f raw = Inr rs" "r \<in> set rs"
  obtains a v where "script_value raw a v" "f a v = Inr (Some r)"
  using assms collect_outputs_mem by (fastforce simp: over_outputs_def script_value_def rbind_eq_Inr_iff)

lemma reduce_to_best_mem: "0 < score (reduce_to_best rs) \<Longrightarrow> reduce_to_best rs \<in> set rs"
  using reduce_to_best_aux(1) [of ScorerResult rs "reduce_to_best rs"] by (auto simp: reduce_to_best_def ScorerResult_def)

section \<open>A large value stands out by its digits\<close>

declare nat_digits.simps [simp del]

lemma nat_digits_0 [simp]: "length (nat_digits 0) = 1" "length (nat_digits (Suc 0)) = 1"
  by (simp_all add: nat_digits.simps [of 0] nat_digits.simps [of "Suc 0"])

lemma nat_digits_length_mono: "m \<le> n \<Longrightarrow> length (nat_digits m) \<le> length (nat_digits n)"
proof (induction n arbitrary: m rule: nat_digits.induct)
  case (1 n)
  show ?case
  proof (cases "n < 10")
    case True
    then show ?thesis using 1(2) by (subst (1 2) nat_digits.simps) simp
  next
    case False
    have "m div 10 \<le> n div 10" using 1(2) by (rule div_le_mono)
    then show ?thesis using 1(1) [OF False] False
      by (cases "m < 10") (subst (1 2) nat_digits.simps, simp)+
  qed
qed

text \<open>The digits of a quantity; a zero may be counted as no digit or as one.\<close>

definition digits_match :: "int \<Rightarrow> int \<Rightarrow> bool" where
  "digits_match n q \<longleftrightarrow> q = 0 \<and> (n = 0 \<or> n = 1) \<or> 0 < q \<and> n = int (length (nat_digits (nat q)))"

lemma digits_match_mono:
  assumes "digits_match n q" "digits_match n' q'" "q \<le> q'"
  shows "n \<le> n' \<or> q = q'"
proof -
  have "length (nat_digits 1) \<le> length (nat_digits (nat q'))" if "0 < q'" using that by (intro nat_digits_length_mono) simp
  then show ?thesis using assms nat_digits_length_mono [of "nat q" "nat q'"] by (auto simp: digits_match_def)
qed

lemma qty_digits_match: "abs_qty qty = Inr q \<Longrightarrow> qty_digits qty = Inr d \<Longrightarrow> digits_match d q"
  by (auto simp: abs_qty_def qty_digits_def decimal_len_def digits_match_def rbind_eq_Inr_iff Let_def split: if_splits)

lemma max_digits_of_largest:
  assumes "list_all2 (\<lambda>e d. (case e of (_, _, qty) \<Rightarrow> qty_digits qty) = Inr d) es ds"
    and "list_all2 (\<lambda>e x. (case e of (policy, name, qty) \<Rightarrow> rbind (abs_qty qty) (\<lambda>q. Inr (policy, name, q))) = Inr x) es qs"
    and "digits_match n (snd (snd b))"
  shows "digits_match (foldl max n ds) (snd (snd (foldl larger b qs)))"
  using assms
proof (induction es arbitrary: ds qs n b)
  case (Cons e es)
  obtain policy name qty where e: "e = (policy, name, qty)" by (cases e)
  obtain d ds' where ds: "ds = d # ds'" "qty_digits qty = Inr d" "list_all2 (\<lambda>e d. (case e of (_, _, qty) \<Rightarrow> qty_digits qty) = Inr d) es ds'"
    using Cons.prems(1) e by (cases ds) auto
  obtain q qs' where qs: "qs = (policy, name, q) # qs'" "abs_qty qty = Inr q"
    "list_all2 (\<lambda>e x. (case e of (policy, name, qty) \<Rightarrow> rbind (abs_qty qty) (\<lambda>q. Inr (policy, name, q))) = Inr x) es qs'"
    using Cons.prems(2) e by (cases qs) (auto simp: rbind_eq_Inr_iff)
  have m: "digits_match d q" using qty_digits_match qs(2) ds(2) .
  have "digits_match (max n d) (snd (snd (larger b (policy, name, q))))"
    using Cons.prems(3) m digits_match_mono [OF Cons.prems(3) m] digits_match_mono [OF m Cons.prems(3)]
    by (auto simp: larger_def max_def digits_match_def split: if_splits)
  then show ?case using Cons.IH [OF ds(3) qs(3)] by (simp add: ds(1) qs(1))
qed simp

lemma larger_ge: "snd (snd b) \<le> snd (snd (foldl larger b qs)) \<and> (\<forall>e \<in> set qs. snd (snd e) \<le> snd (snd (foldl larger b qs)))"
proof (induction qs arbitrary: b)
  case (Cons e qs)
  have "snd (snd b) \<le> snd (snd (larger b e))" "snd (snd e) \<le> snd (snd (larger b e))" by (auto simp: larger_def)
  then show ?case using Cons.IH [of "larger b e"] by force
qed simp

lemma int_nonzero_truthy: "int_of_json q = Inr n \<Longrightarrow> n \<noteq> 0 \<Longrightarrow> truthy q"
  by (cases q) (auto simp: py_int_str_def Let_def py_strip_def py_int_def split: if_splits)

lemma nonzero_qtyE:
  assumes "nonzero_qty q = Inr True"
  shows "\<exists>n. int_of_json q = Inr n \<and> n \<noteq> 0"
  using assms by (auto simp: nonzero_qty_def int_or_def rbind_eq_Inr_iff split: sum.splits if_splits)

lemma count_live_pos: "count_live b = Inr k \<Longrightarrow> 0 \<le> k \<and> (0 < k \<longrightarrow> (\<exists>(_, q) \<in> set b. nonzero_qty q = Inr True))"
  by (induction b arbitrary: k rule: count_live.induct) (fastforce simp: rbind_eq_Inr_iff split: if_splits)+

lemma count_entries_pos:
  "count_entries v = Inr (p, t) \<Longrightarrow> 0 \<le> t \<and> (0 < t \<longrightarrow> (\<exists>(_, _, q) \<in> set (native_entries v). nonzero_qty q = Inr True))"
proof (induction v arbitrary: p t rule: count_entries.induct)
  case (2 key val rest)
  show ?case
  proof (cases "key \<in> set ada_keys")
    case True
    then show ?thesis using 2 by (simp add: native_entries_def policy_entries_def)
  next
    case False
    obtain live p' t' where live: "(case val of JDict bundle \<Rightarrow> count_live bundle | _ \<Rightarrow> rbind (nonzero_qty val) (\<lambda>live. Inr (if live then 1 else 0))) = Inr live"
      "count_entries rest = Inr (p', t')" "t = (if live \<noteq> 0 then t' + live else t')"
      using 2(3) False by (auto simp: rbind_eq_Inr_iff split: if_splits)
    have "0 \<le> live \<and> (0 < live \<longrightarrow> (\<exists>(_, _, q) \<in> set (policy_entries (key, val)). nonzero_qty q = Inr True))"
      using live(1) False count_live_pos by (cases val) (fastforce simp: policy_entries_def rbind_eq_Inr_iff split: if_splits)+
    then show ?thesis using 2(2) [OF False live(2)] live(3) by (fastforce simp: native_entries_def split: if_splits)
  qed
qed simp


lemma primary_asset_digits:
  assumes "count_assets v = Inr (p, t)" "0 < t" "max_quantity_digits v = Inr n" "primary_asset v = Inr (policy, name, q)"
  shows "0 < q \<and> n = int (length (nat_digits (nat q)))"
proof -
  obtain ds where ds: "list_all2 (\<lambda>e d. (case e of (_, _, qty) \<Rightarrow> qty_digits qty) = Inr d) (native_entries v) ds" "n = foldl max 0 ds"
    using assms(3) by (auto simp: max_quantity_digits_def rbind_eq_Inr_iff rmap_Inr_iff)
  obtain qs where qs: "list_all2 (\<lambda>e x. (case e of (policy, name, qty) \<Rightarrow> rbind (abs_qty qty) (\<lambda>q. Inr (policy, name, q))) = Inr x) (native_entries v) qs"
    "(policy, name, q) = foldl larger ([], [], 0) qs"
    using assms(4) by (auto simp: primary_asset_def rbind_eq_Inr_iff [of "rmap f xs" for f xs] rmap_Inr_iff)
  obtain k a y where y: "(k, a, y) \<in> set (native_entries v)" "nonzero_qty y = Inr True"
    using count_entries_pos [of v p t] assms(1,2) by (auto simp: count_assets_def)
  obtain m where m: "int_of_json y = Inr m" "m \<noteq> 0" using nonzero_qtyE [OF y(2)] by blast
  have "abs_qty y = Inr \<bar>m\<bar>" using m int_nonzero_truthy by (simp add: abs_qty_def)
  moreover obtain i where i: "i < length (native_entries v)" "native_entries v ! i = (k, a, y)" using y(1) by (auto simp: in_set_conv_nth)
  ultimately have "qs ! i = (k, a, \<bar>m\<bar>)" "i < length qs" using list_all2_nthD [OF qs(1) i(1)] qs(1) by (auto simp: list_all2_lengthD)
  then have "(k, a, \<bar>m\<bar>) \<in> set qs" by (metis nth_mem)
  then have "\<bar>m\<bar> \<le> q" using larger_ge [of "([], [], 0)" qs] qs(2) by (metis snd_conv)
  then have "0 < q" using m(2) by linarith
  moreover have "digits_match n q" using max_digits_of_largest [OF ds(1) qs(1), of 0 "([], [], 0)"] ds(2) qs(2)
    by (metis digits_match_def snd_conv)
  ultimately show ?thesis by (simp add: digits_match_def)
qed

lemma large_value_utxoE:
  assumes "large_value_utxo cfg enc env a v = Inr r" "30 < score r"
  obtains n policy name q d50 d99 source where "max_quantity_digits v = Inr n" "primary_asset v = Inr (policy, name, q)"
    "digits_baseline cfg env policy = Inr (d50, d99, source)" "MIN_DIGITS_SUBSCORE cfg \<le> normalise (fl (of_int n)) d50 d99"
  using assms by (auto simp: large_value_utxo_def Let_def rbind_eq_Inr_iff not_less [symmetric] split: if_splits)

text \<open>A transaction is scored above the Informational band for a large value only if it has an output at a script
  address with one or two assets whose largest quantity has enough digits to stand out from the baseline of its policy:
  the secondary signals (size and little ADA) never raise an output alone.\<close>

theorem large_value_needs_digits:
  assumes "large_value_score cfg enc env raw = Inr r" "score_to_band (score r) \<noteq> ''Informational''"
  shows "\<exists>a v policies tokens policy name q d50 d99 source.
    script_value raw a v \<and> count_assets v = Inr (policies, tokens) \<and> tokens \<in> {1..2} \<and>
    primary_asset v = Inr (policy, name, q) \<and> 0 < q \<and> digits_baseline cfg env policy = Inr (d50, d99, source) \<and>
    MIN_DIGITS_SUBSCORE cfg \<le> normalise (fl (of_nat (length (nat_digits (nat q))))) d50 d99"
proof -
  have high: "30 < score r"
    using assms(2) by (auto simp: score_to_band_def BAND_CRITICAL_THRESHOLD_def BAND_HIGH_THRESHOLD_def split: if_splits)
  obtain rs where rs: "over_outputs (\<lambda>address value. rbind (count_assets value) (\<lambda>(_, tokens).
         if tokens = 0 \<or> tokens > 2 then Inr None else rbind (large_value_utxo cfg enc env address value) (\<lambda>r. Inr (Some r)))) raw = Inr rs"
    "r = reduce_to_best rs"
    using assms(1) by (auto simp: large_value_score_def rbind_eq_Inr_iff)
  have "r \<in> set rs" using reduce_to_best_mem [of rs] high rs(2) by simp
  then obtain a v where av: "script_value raw a v" "rbind (count_assets v) (\<lambda>(_, tokens).
         if tokens = 0 \<or> tokens > 2 then Inr None else rbind (large_value_utxo cfg enc env a v) (\<lambda>r. Inr (Some r))) = Inr (Some r)"
    using over_outputs_mem [OF rs(1)] by blast
  obtain p t where t: "count_assets v = Inr (p, t)" "t \<noteq> 0" "t \<le> 2" "large_value_utxo cfg enc env a v = Inr r"
    using av(2) by (auto simp: rbind_eq_Inr_iff split: if_splits)
  have pos: "0 < t" using count_entries_pos [of v p t] t(1,2) by (simp add: count_assets_def)
  obtain n policy name q d50 d99 source where d: "max_quantity_digits v = Inr n" "primary_asset v = Inr (policy, name, q)"
    "digits_baseline cfg env policy = Inr (d50, d99, source)" "MIN_DIGITS_SUBSCORE cfg \<le> normalise (fl (of_int n)) d50 d99"
    using large_value_utxoE [OF t(4) high] by blast
  have q: "0 < q" "n = int (length (nat_digits (nat q)))" using primary_asset_digits [OF t(1) pos d(1,2)] by auto
  have "script_value raw a v \<and> count_assets v = Inr (p, t) \<and> t \<in> {1..2} \<and> primary_asset v = Inr (policy, name, q) \<and> 0 < q \<and>
    digits_baseline cfg env policy = Inr (d50, d99, source) \<and> MIN_DIGITS_SUBSCORE cfg \<le> normalise (fl (of_nat (length (nat_digits (nat q))))) d50 d99"
    using av(1) t pos d q by simp
  then show ?thesis by blast
qed


section \<open>Token dust pages on bundles\<close>

lemma token_dust_utxo_high:
  assumes "token_dust_utxo cfg enc env slot first_seen mint u = Inr r" "60 \<le> score r"
  shows "DOS_ASSET_MIN cfg \<le> do_tokens u" "\<not> established_collection cfg slot first_seen mint (bundle_policies (do_value u))"
  using assms by (auto simp: token_dust_utxo_def Let_def rbind_eq_Inr_iff split: if_splits)

lemma tokens_have_policies: "count_assets v = Inr (p, t) \<Longrightarrow> 0 < t \<Longrightarrow> bundle_policies v \<noteq> []"
  using count_entries_pos [of v p t]
  by (fastforce simp: count_assets_def bundle_policies_def native_entries_def policy_entries_def filter_empty_conv split: if_splits)

lemma eligible_outputE:
  assumes "eligible_output cfg network a v = Inr (Some u)"
  obtains p t where "count_assets v = Inr (p, t)" "MIN_TOKEN_COUNT cfg \<le> t" "is_allowlisted_utxo cfg network a v = Inr False"
    "do_value u = v" "do_tokens u = t"
  using assms by (auto simp: eligible_output_def rbind_eq_Inr_iff split: if_splits)


section \<open>On the shipped configuration\<close>

definition shipped_lv :: large_value_settings where
  "shipped_lv = \<lparr>lv_W = get_path shipped_large_value [''weights''], lv_BOOT = get_path shipped_large_value [''bootstrap_anchors''],
     lv_REASON_T = 1 / 2, MIN_DIGITS_SUBSCORE = dec 1 20\<rparr>"

lemma shipped_lv_loads: "load_large_value shipped_large_value = Inr shipped_lv"
  by (simp add: load_large_value_def shipped_large_value_def shipped_lv_def config_reads)

text \<open>Concrete encoders for the examples: every entry of a map takes forty bytes.\<close>

fun flat_len :: "cbor \<Rightarrow> int" where
  "flat_len (CList [_, CMap es]) = 10 + (\<Sum>e\<leftarrow>es. 40 + (case snd e of CMap ns \<Rightarrow> 40 * int (length ns) | _ \<Rightarrow> 0))"
| "flat_len _ = 9"

definition flat_encoders :: encoders where
  "flat_encoders = \<lparr>cbor_len = flat_len, json_bytes = (\<lambda>_. 0)\<rparr>"

definition one_output :: "(string, json) dict \<Rightarrow> json" where
  "one_output v = JDict [(''outputs'', JList [JDict [(''address'', JStr ''addr1w''), (''value'', JDict v)]])]"

definition huge_value :: "(string, json) dict" where
  "huge_value = [(''lovelace'', JInt 1), (''policy'', JDict [(''61'', JInt 9000000000000000000)])]"

lemma shipped_lv_reads:
  "resolve_axis bare_env f t i (lv_BOOT shipped_lv) ''quantity_digits'' None = Inr (13, 19, ''bootstrap'')"
  "resolve_axis bare_env f t i (lv_BOOT shipped_lv) ''value_cbor_bytes'' None = Inr (100, 1500, ''bootstrap'')"
  "resolve_axis bare_env f t i (lv_BOOT shipped_lv) ''ada_amount'' None = Inr (1200000, 2000000, ''bootstrap'')"
  "weighted_sum (lv_W shipped_lv) (''digits'', a) [(''bytes'', b), (''ada_inv'', c), (''recurrence'', d)] =
     Inr (fadd (fadd (fadd (fmul (dec 11 20) a) (fmul (dec 1 5) b)) (fmul (dec 3 20) c)) (fmul (dec 1 10) d))"
  by (simp_all add: shipped_lv_def shipped_large_value_def config_reads bare_axis weighted_sum_def)

lemma huge_value_facts:
  "count_assets huge_value = Inr (1, 1)" "extract_lovelace (JDict huge_value) = Inr 1"
  "primary_asset huge_value = Inr (''policy'', ''61'', 9000000000000000000)" "estimate_value_cbor_bytes flat_encoders huge_value = 90"
  by code_simp+

lemma huge_value_digits: "max_quantity_digits huge_value = Inr 19"
  by (simp add: max_quantity_digits_def huge_value_def native_entries_def policy_entries_def ada_keys_def qty_digits_def decimal_len_def
      nat_digits.simps [of "numeral k" for k])

lemma one_output_outputs: "over_outputs f (one_output v) = rbind (f ''addr1w'' v) (\<lambda>r. Inr (case r of None \<Rightarrow> [] | Some x \<Rightarrow> [x]))"
proof -
  have "is_script_address ''addr1w''" by code_simp
  then show ?thesis by (simp add: over_outputs_def one_output_def jget_def dict_get_def iter_json_def script_output_def)
qed

lemma huge_value_final:
  "30 < finalise_score (fadd (fadd (fadd (fmul (dec 11 20) (normalise 19 13 19)) (fmul (dec 1 5) (normalise 90 100 1500)))
       (fmul (dec 3 20) (normalise_inverted 1 1200000 2000000))) (fmul (dec 1 10) 0)) 100 2"
  "dec 1 20 \<le> normalise 19 13 19"
  by code_simp+

lemma huge_value_score: "\<exists>r. large_value_score shipped_lv flat_encoders bare_env (one_output huge_value) = Inr r \<and> 30 < score r"
proof -
  have f: "fl 19 = 19" "fl 90 = 90" "fl 1 = 1" by simp_all
  have m: "MIN_DIGITS_SUBSCORE shipped_lv = dec 1 20" by (simp add: shipped_lv_def)
  show ?thesis using huge_value_final
    by (simp add: large_value_score_def one_output_outputs large_value_utxo_def digits_baseline_def huge_value_facts huge_value_digits shipped_lv_reads f m Let_def
        reduce_to_best_def ScorerResult_def)
qed

theorem large_value_needs_digits_witness:
  "\<exists>a v policies tokens. script_value (one_output huge_value) a v \<and> count_assets v = Inr (policies, tokens) \<and> tokens \<in> {1..2}"
proof -
  obtain r where r: "large_value_score shipped_lv flat_encoders bare_env (one_output huge_value) = Inr r" "30 < score r"
    using huge_value_score by blast
  then have "score_to_band (score r) \<noteq> ''Informational''" by (simp add: score_to_band_def)
  then show ?thesis using large_value_needs_digits [OF r(1)] by blast
qed

definition shipped_td :: token_dust_settings where
  "shipped_td =
     \<lparr>td_W = get_path shipped_token_dust [''weights''], td_BOOT = get_path shipped_token_dust [''bootstrap_anchors''], td_REASON_T = 1 / 2,
      MIN_TOKEN_COUNT = 2, DOS_ASSET_MIN = 15, ESTABLISHED_ENABLED = True, ESTABLISHED_MIN_AGE_SLOTS = 2592000, DOS_VALUE_CBOR_MIN = 1000,
      ALLOWLIST_PREFIXES = [(''mainnet'', []), (''preprod'', []), (''preview'', [])],
      ALLOWLIST_POLICIES =
        (case get_path shipped_token_dust [''allowlist_policies''] of JDict d \<Rightarrow> map (\<lambda>(n, j). (n, case j of JList xs \<Rightarrow> xs | _ \<Rightarrow> [])) d | _ \<Rightarrow> [])\<rparr>"

lemma fifth_of_limit: "py_int (fmul (dec 1 5) 5000) = 1000"
  by code_simp

lemma shipped_td_loads:
  "load_token_dust [(''max_value_size_bytes'', JInt 5000), (''max_tx_size_bytes'', JInt 16384)] shipped_token_dust = Inr shipped_td"
  by (simp add: load_token_dust_def shipped_token_dust_def shipped_td_def config_reads fraction_of_limit_def protocol_limit_def
      frozen_map_def load_network_map_def network_items_def jget_def dict_get_def fifth_of_limit)

text \<open>Thirty names under a policy first seen a hundred slots ago.\<close>

definition dust_value :: "(string, json) dict" where
  "dust_value = [(''lovelace'', JInt 1), (''policy'', JDict (map (\<lambda>n. (replicate n CHR ''a'', JInt 1)) [0..<40]))]"

definition dust_tables :: "string \<Rightarrow> (string \<times> int) list" where
  "dust_tables n = (if n = ''mainnet'' then [(''policy'', 900), (''policy'', 950)] else [])"

abbreviation dust_lookup :: "string list \<Rightarrow> (string, int) dict result" where
  "dust_lookup ps \<equiv> fst (get_policies_first_seen 10 ''mainnet'' (dust_tables ''mainnet'') True ps
     (cache_after 10 dust_tables [(''mainnet'', True, [''policy''])]))"

lemma shipped_td_reads:
  "resolve_axis bare_env f t i (td_BOOT shipped_td) ''value_cbor_bytes'' None = Inr (100, 1500, ''bootstrap'')"
  "resolve_axis bare_env f t i (td_BOOT shipped_td) ''unique_token_count'' None = Inr (1, 20, ''bootstrap'')"
  "resolve_axis bare_env f t i (td_BOOT shipped_td) ''ada_amount'' None = Inr (1200000, 2000000, ''bootstrap'')"
  "weighted_sum (td_W shipped_td) (''bytes'', a) [(''assets'', b), (''ada_inv'', c), (''recurrence'', d)] =
     Inr (fadd (fadd (fadd (fmul (dec 7 20) a) (fmul (dec 7 20) b)) (fmul (dec 3 20) c)) (fmul (dec 3 20) d))"
  by (simp_all add: shipped_td_def shipped_token_dust_def config_reads bare_axis weighted_sum_def)

lemma dust_facts:
  "count_assets dust_value = Inr (1, 40)" "extract_lovelace (JDict dust_value) = Inr 1" "estimate_value_cbor_bytes flat_encoders dust_value = 1650"
  "bundle_policies dust_value = [''policy'']" "policy_age_context shipped_td dust_lookup raw [\<lparr>do_address = a, do_value = dust_value, do_policies = 1, do_tokens = 40\<rparr>]
     = ([(''policy'', 900)], mint_policies_of raw)"
proof -
  show p: "bundle_policies dust_value = [''policy'']" by code_simp
  have "dust_lookup [''policy''] = Inr [(''policy'', 900)]" by code_simp
  moreover have "ESTABLISHED_ENABLED shipped_td" by (simp add: shipped_td_def)
  ultimately show "policy_age_context shipped_td dust_lookup raw [\<lparr>do_address = a, do_value = dust_value, do_policies = 1, do_tokens = 40\<rparr>]
     = ([(''policy'', 900)], mint_policies_of raw)" by (simp add: policy_age_context_def p Let_def)
qed code_simp+

lemma dust_final:
  "60 \<le> finalise_score (fadd (fadd (fadd (fmul (dec 7 20) (normalise 1650 100 1500)) (fmul (dec 7 20) (normalise 40 1 20)))
       (fmul (dec 3 20) (normalise_inverted 1 1200000 2000000))) (fmul (dec 3 20) 0)) 100 2"
  by code_simp

lemma dust_score: "\<exists>r. token_dust_score shipped_td flat_encoders bare_env dust_lookup ''mainnet'' (Some 1000) (one_output dust_value) = Inr r \<and> 60 \<le> score r"
proof -
  have f: "fl 1650 = 1650" "fl 40 = 40" "fl 1 = 1" by simp_all
  have allow: "is_allowlisted_utxo shipped_td ''mainnet'' ''addr1w'' dust_value = Inr False"
    by (simp add: is_allowlisted_utxo_def dust_facts shipped_td_def shipped_token_dust_def dict_get_def Let_def)
  have young: "\<not> established_collection shipped_td (Some 1000) [(''policy'', 900)] mint [''policy'']" for mint
    by (simp add: established_collection_def known_ages_def map_filter_simps shipped_td_def)
  have s: "MIN_TOKEN_COUNT shipped_td = 2" "DOS_ASSET_MIN shipped_td = 15" by (simp_all add: shipped_td_def)
  have "over_outputs (eligible_output shipped_td ''mainnet'') (one_output dust_value) =
      Inr [\<lparr>do_address = ''addr1w'', do_value = dust_value, do_policies = 1, do_tokens = 40\<rparr>]"
    by (simp add: one_output_outputs eligible_output_def dust_facts allow s)
  then show ?thesis using dust_final
    by (simp add: token_dust_score_def one_output_def token_dust_utxo_def dust_facts shipped_td_reads f s young Let_def reduce_to_best_def ScorerResult_def
        del: cache_after.simps)
qed


end
