(* ===== verification/Baselines.thy ===== *)
theory Baselines
  imports Scoring
begin

text \<open>
  The computation of baselines and its drift guard (\<open>src/backend/app/analysis/baselines.py\<close>) over the table of
  baselines with its cache (\<open>get_baseline\<close>, \<open>insert_baselines\<close> and \<open>insert_baseline_drift_event\<close> of
  \<open>src/backend/app/db/clickhouse.py\<close>), on one network.  What ClickHouse answers (percentiles of a feature, the active
  scripts, which calls fail) is an argument.  Of two rows with one key the table shows the one computed last.

  Shown: the cache never shows a value the table does not have, a recompute moves a baseline only by a step the guard
  admits, so that widening a tail by poisoning it takes a number of recomputes that is logarithmic in the factor; and a
  baseline that was zero once is never replaced by one with a positive median.
\<close>

section \<open>State\<close>

type_synonym baseline_key = "string \<times> string \<times> string"

record baseline_row =
  bl_scope_type :: string
  bl_scope_id :: string
  bl_feature :: string
  bl_p50 :: rat
  bl_p99 :: rat
  bl_count :: int
  bl_computed_at :: int
  bl_window :: int

definition key_of :: "baseline_row \<Rightarrow> baseline_key" where
  "key_of r = (bl_scope_type r, bl_scope_id r, bl_feature r)"

record drift_event =
  de_key :: baseline_key
  de_old :: rat
  de_new :: rat
  de_ratio :: rat
  de_at :: int
  de_axis :: string
  de_applied :: bool

record baseline_store =
  bs_rows :: "(baseline_key, baseline_row) dict"
  bs_cache :: "(baseline_key, baseline_row option \<times> rat) dict"
  bs_events :: "drift_event list"

record baseline_env =
  DRIFT_ENABLED :: bool
  DRIFT_P99_THRESHOLD :: rat
  DRIFT_P50_THRESHOLD :: rat
  GLOBAL_WINDOW_DAYS :: int
  PER_SCRIPT_WINDOW_DAYS :: int
  be_MIN_SAMPLES :: int
  BASELINE_CACHE_TTL_SECONDS :: rat
  BASELINE_CACHE_MAX_ENTRIES :: nat

text \<open>The answers of one recompute: \<open>percentiles\<close> is None where the query fails.\<close>

record answers =
  ans_now :: int
  ans_clock :: rat
  ans_read_ok :: "baseline_key \<Rightarrow> bool"
  ans_insert_ok :: "baseline_row list \<Rightarrow> bool"
  ans_event_ok :: "drift_event \<Rightarrow> bool"
  ans_percentiles :: "string \<Rightarrow> string \<Rightarrow> string option \<Rightarrow> (rat \<times> rat \<times> int) option"
  ans_scripts :: "string list"
  ans_sat :: "(string \<times> int \<times> (string \<times> rat \<times> rat) list) list result"
  ans_stop :: "nat \<Rightarrow> bool"

definition ClickhouseError :: pyerr where
  "ClickhouseError = RuntimeFailure ''clickhouse''"

section \<open>The table and its cache\<close>

definition get_baseline ::
  "baseline_env \<Rightarrow> answers \<Rightarrow> baseline_key \<Rightarrow> baseline_store \<Rightarrow> baseline_row option result \<times> baseline_store" where
  "get_baseline env db k st =
     (let ttl = BASELINE_CACHE_TTL_SECONDS env;
          hit = (if ttl > 0 then map_of (bs_cache st) k else None)
      in case hit of
           Some (v, t) \<Rightarrow>
             (if fsub (ans_clock db) t < ttl then (Inr v, st) else
              let st = st\<lparr>bs_cache := AList.delete k (bs_cache st)\<rparr>
              in if \<not> ans_read_ok db k then (Inl ClickhouseError, st)
                 else (Inr (map_of (bs_rows st) k),
                       st\<lparr>bs_cache := AList.update k (map_of (bs_rows st) k, ans_clock db)
                            (if length (bs_cache st) \<ge> BASELINE_CACHE_MAX_ENTRIES env then [] else bs_cache st)\<rparr>))
         | None \<Rightarrow>
             (if \<not> ans_read_ok db k then (Inl ClickhouseError, st)
              else (Inr (map_of (bs_rows st) k),
                    if ttl > 0
                    then st\<lparr>bs_cache := AList.update k (map_of (bs_rows st) k, ans_clock db)
                           (if length (bs_cache st) \<ge> BASELINE_CACHE_MAX_ENTRIES env then [] else bs_cache st)\<rparr>
                    else st)))"

definition put_row :: "(baseline_key, baseline_row) dict \<Rightarrow> baseline_row \<Rightarrow> (baseline_key, baseline_row) dict" where
  "put_row rows r =
     (case map_of rows (key_of r) of
        Some old \<Rightarrow> if bl_computed_at old > bl_computed_at r then rows else AList.update (key_of r) r rows
      | None \<Rightarrow> AList.update (key_of r) r rows)"

definition insert_baselines :: "answers \<Rightarrow> baseline_row list \<Rightarrow> baseline_store \<Rightarrow> unit result \<times> baseline_store" where
  "insert_baselines db rows st =
     (if rows = [] then (Inr (), st)
      else if \<not> ans_insert_ok db rows then (Inl ClickhouseError, st)
      else (Inr (), st\<lparr>bs_rows := foldl put_row (bs_rows st) rows, bs_cache := []\<rparr>))"

definition insert_baseline_drift_event :: "answers \<Rightarrow> drift_event \<Rightarrow> baseline_store \<Rightarrow> unit result \<times> baseline_store" where
  "insert_baseline_drift_event db e st =
     (if ans_event_ok db e then (Inr (), st\<lparr>bs_events := bs_events st @ [e]\<rparr>) else (Inl ClickhouseError, st))"

section \<open>The drift guard\<close>

definition UTXO_FEATURES :: "string list" where
  "UTXO_FEATURES = [''value_cbor_bytes'', ''unique_token_count'', ''ada_amount'', ''datum_bytes'', ''utxo_total_bytes'']"

definition TX_FEATURES :: "string list" where
  "TX_FEATURES = [''redeemers_count'', ''exunits_mem_total'', ''exunits_cpu_total'']"

definition MULTIPLE_SAT_PER_SCRIPT_FEATURES :: "string list" where
  "MULTIPLE_SAT_PER_SCRIPT_FEATURES = [''net_value_out_of_script'', ''n_assets_out_of_script'']"

definition INVERTED_CONSUMER_FEATURES :: "string list" where
  "INVERTED_CONSUMER_FEATURES = [''ada_amount'', ''value_cbor_bytes'']"

definition DRIFT_RATIO_EPSILON :: rat where
  "DRIFT_RATIO_EPSILON = fl (1 / 10 ^ 9)"

definition drift_ratio :: "rat \<Rightarrow> rat \<Rightarrow> rat" where
  "drift_ratio old new = fdiv \<bar>fsub new old\<bar> (fadd \<bar>old\<bar> DRIFT_RATIO_EPSILON)"

definition check_drift :: "rat \<Rightarrow> rat \<Rightarrow> rat \<Rightarrow> bool" where
  "check_drift old new threshold = (if old = 0 then new > 0 else drift_ratio old new > threshold)"

definition symmetric_hold :: "string \<Rightarrow> bool" where
  "symmetric_hold feature \<longleftrightarrow> feature \<in> set INVERTED_CONSUMER_FEATURES"

definition p99_hold :: "baseline_env \<Rightarrow> baseline_row \<Rightarrow> baseline_row \<Rightarrow> bool" where
  "p99_hold env old new \<longleftrightarrow> check_drift (bl_p99 old) (bl_p99 new) (DRIFT_P99_THRESHOLD env) \<and> bl_p99 old > 0 \<and>
     (bl_p99 new > bl_p99 old \<or> symmetric_hold (bl_feature new))"

definition p50_hold :: "baseline_env \<Rightarrow> baseline_row \<Rightarrow> baseline_row \<Rightarrow> bool" where
  "p50_hold env old new \<longleftrightarrow> check_drift (bl_p50 old) (bl_p50 new) (DRIFT_P50_THRESHOLD env) \<and>
     (bl_p50 new > bl_p50 old \<or> symmetric_hold (bl_feature new))"

definition held :: "baseline_env \<Rightarrow> baseline_row \<Rightarrow> baseline_row \<Rightarrow> bool" where
  "held env old new \<longleftrightarrow> p99_hold env old new \<or> p50_hold env old new"

definition axis_event :: "baseline_env \<Rightarrow> baseline_row \<Rightarrow> baseline_row \<Rightarrow> string \<Rightarrow> rat \<Rightarrow> rat \<Rightarrow> drift_event" where
  "axis_event env old new axis old_v new_v =
     \<lparr>de_key = key_of new, de_old = old_v, de_new = new_v, de_ratio = drift_ratio old_v new_v, de_at = bl_computed_at new, de_axis = axis,
      de_applied = (\<not> held env old new)\<rparr>"

definition drift_events :: "baseline_env \<Rightarrow> baseline_row \<Rightarrow> baseline_row \<Rightarrow> drift_event list" where
  "drift_events env old new =
     (if check_drift (bl_p99 old) (bl_p99 new) (DRIFT_P99_THRESHOLD env) then [axis_event env old new ''p99'' (bl_p99 old) (bl_p99 new)] else [])
     @ (if check_drift (bl_p50 old) (bl_p50 new) (DRIFT_P50_THRESHOLD env) then [axis_event env old new ''p50'' (bl_p50 old) (bl_p50 new)] else [])"

text \<open>A failure to record an event is logged and ignored.\<close>

definition record_events :: "answers \<Rightarrow> drift_event list \<Rightarrow> baseline_store \<Rightarrow> baseline_store" where
  "record_events db es st = foldl (\<lambda>st e. snd (insert_baseline_drift_event db e st)) st es"

fun filter_rows :: "baseline_env \<Rightarrow> answers \<Rightarrow> baseline_row list \<Rightarrow> baseline_store \<Rightarrow> baseline_row list result \<times> baseline_store" where
  "filter_rows env db [] st = (Inr [], st)"
| "filter_rows env db (r # rs) st =
     (case get_baseline env db (key_of r) st of
        (Inl e, st) \<Rightarrow> (Inl e, st)
      | (Inr prior, st) \<Rightarrow>
          (let (keep, st) = (case prior of
                 None \<Rightarrow> (True, st)
               | Some old \<Rightarrow> (\<not> held env old r, record_events db (drift_events env old r) st))
           in case filter_rows env db rs st of
                (Inl e, st) \<Rightarrow> (Inl e, st)
              | (Inr kept, st) \<Rightarrow> (Inr (if keep then r # kept else kept), st)))"

definition filter_drifted :: "baseline_env \<Rightarrow> answers \<Rightarrow> baseline_row list \<Rightarrow> baseline_store \<Rightarrow> baseline_row list result \<times> baseline_store" where
  "filter_drifted env db rows st = (if \<not> DRIFT_ENABLED env then (Inr rows, st) else filter_rows env db rows st)"

section \<open>Recomputation\<close>

text \<open>The end of every computation: the rows that pass the guard are inserted and returned.\<close>

definition commit :: "baseline_env \<Rightarrow> answers \<Rightarrow> baseline_row list \<Rightarrow> baseline_store \<Rightarrow> baseline_row list result \<times> baseline_store" where
  "commit env db rows st =
     (case filter_drifted env db rows st of
        (Inl e, st) \<Rightarrow> (Inl e, st)
      | (Inr kept, st) \<Rightarrow>
          (if kept = [] then (Inr [], st)
           else case insert_baselines db kept st of (Inl e, st) \<Rightarrow> (Inl e, st) | (Inr _, st) \<Rightarrow> (Inr kept, st)))"

definition query_percentiles :: "answers \<Rightarrow> string \<Rightarrow> string \<Rightarrow> string option \<Rightarrow> (rat \<times> rat \<times> int) option result" where
  "query_percentiles db table feature address =
     (if table \<notin> {''utxo_features'', ''tx_script_features''} then Inl ValueError
      else if feature \<notin> set (UTXO_FEATURES @ TX_FEATURES) then Inl ValueError
      else Inr (case ans_percentiles db table feature address of
             Some (p50, p99, n) \<Rightarrow> if n > 0 then Some (p50, p99, n) else None | None \<Rightarrow> None))"

definition feature_row :: "answers \<Rightarrow> string \<Rightarrow> string \<Rightarrow> int \<Rightarrow> int \<Rightarrow> string \<Rightarrow> string option \<Rightarrow> string \<Rightarrow> baseline_row option result" where
  "feature_row db st si window min_count table address feature =
     rbind (query_percentiles db table feature address) (\<lambda>res. Inr (case res of
         None \<Rightarrow> None
       | Some (p50, p99, n) \<Rightarrow>
           (if n < min_count then None
            else Some \<lparr>bl_scope_type = st, bl_scope_id = si, bl_feature = feature, bl_p50 = p50, bl_p99 = p99, bl_count = n,
                       bl_computed_at = ans_now db, bl_window = window\<rparr>)))"

definition global_rows :: "baseline_env \<Rightarrow> answers \<Rightarrow> baseline_row list result" where
  "global_rows env db =
     (let row = feature_row db ''global'' ''__global__'' (GLOBAL_WINDOW_DAYS env) 0
      in rbind (rmap (row ''utxo_features'' None) UTXO_FEATURES) (\<lambda>us.
         rbind (rmap (row ''tx_script_features'' None) TX_FEATURES) (\<lambda>ts. Inr (List.map_filter id (us @ ts)))))"

definition commit_rows :: "baseline_env \<Rightarrow> answers \<Rightarrow> baseline_row list result \<Rightarrow> baseline_store \<Rightarrow> baseline_row list result \<times> baseline_store" where
  "commit_rows env db rows st = (case rows of Inl e \<Rightarrow> (Inl e, st) | Inr rs \<Rightarrow> commit env db rs st)"

definition compute_global_baselines :: "baseline_env \<Rightarrow> answers \<Rightarrow> baseline_store \<Rightarrow> baseline_row list result \<times> baseline_store" where
  "compute_global_baselines env db st = commit_rows env db (global_rows env db) st"

definition script_rows :: "baseline_env \<Rightarrow> answers \<Rightarrow> string \<Rightarrow> baseline_row list result" where
  "script_rows env db script =
     rbind (rmap (feature_row db ''per_script'' script (PER_SCRIPT_WINDOW_DAYS env) (be_MIN_SAMPLES env) ''utxo_features'' (Some script)) UTXO_FEATURES)
       (\<lambda>rs. Inr (List.map_filter id rs))"

definition compute_script_baselines :: "baseline_env \<Rightarrow> answers \<Rightarrow> string \<Rightarrow> baseline_store \<Rightarrow> baseline_row list result \<times> baseline_store" where
  "compute_script_baselines env db script st = commit_rows env db (script_rows env db script) st"

definition sat_row :: "baseline_env \<Rightarrow> answers \<Rightarrow> string \<times> int \<times> (string \<times> rat \<times> rat) list \<Rightarrow> string \<Rightarrow> baseline_row result" where
  "sat_row env db entry feature =
     (case entry of (script, n, stats) \<Rightarrow>
        (case map_of stats feature of
           None \<Rightarrow> Inl KeyError
         | Some (p50, p99) \<Rightarrow> Inr \<lparr>bl_scope_type = ''per_script'', bl_scope_id = script, bl_feature = feature, bl_p50 = p50, bl_p99 = p99,
             bl_count = n, bl_computed_at = ans_now db, bl_window = PER_SCRIPT_WINDOW_DAYS env\<rparr>))"

definition sat_rows :: "baseline_env \<Rightarrow> answers \<Rightarrow> baseline_row list result" where
  "sat_rows env db =
     rbind (ans_sat db) (\<lambda>entries. rbind (rmap (\<lambda>e. rmap (sat_row env db e) MULTIPLE_SAT_PER_SCRIPT_FEATURES) entries) (\<lambda>rs. Inr (concat rs)))"

definition compute_multiple_sat_per_script_baselines :: "baseline_env \<Rightarrow> answers \<Rightarrow> baseline_store \<Rightarrow> baseline_row list result \<times> baseline_store" where
  "compute_multiple_sat_per_script_baselines env db st = commit_rows env db (sat_rows env db) st"

definition bootstrap_baselines :: "baseline_env \<Rightarrow> answers \<Rightarrow> baseline_store \<Rightarrow> nat result \<times> baseline_store" where
  "bootstrap_baselines env db st =
     (case get_baseline env db (''global'', ''__global__'', ''value_cbor_bytes'') st of
        (Inl e, st) \<Rightarrow> (Inl e, st)
      | (Inr found, st) \<Rightarrow>
          (if (case found of None \<Rightarrow> False | Some r \<Rightarrow> bl_count r \<ge> be_MIN_SAMPLES env) then (Inr 0, st)
           else case compute_global_baselines env db st of (Inl e, st) \<Rightarrow> (Inl e, st) | (Inr rows, st) \<Rightarrow> (Inr (length rows), st)))"

text \<open>The scripts one after the other: a failing one is skipped; the flag says that the caller asked to stop.\<close>

fun script_loop :: "baseline_env \<Rightarrow> answers \<Rightarrow> nat \<Rightarrow> string list \<Rightarrow> nat \<Rightarrow> baseline_store \<Rightarrow> bool \<times> nat \<times> baseline_store" where
  "script_loop env db poll [] n st = (False, n, st)"
| "script_loop env db poll (s # ss) n st =
     (if ans_stop db poll then (True, n, st)
      else case compute_script_baselines env db s st of
             (Inl _, st) \<Rightarrow> script_loop env db (poll + 1) ss n st
           | (Inr rows, st) \<Rightarrow> script_loop env db (poll + 1) ss (n + length rows) st)"

definition recompute_all_baselines :: "baseline_env \<Rightarrow> answers \<Rightarrow> nat \<Rightarrow> baseline_store \<Rightarrow> nat result \<times> baseline_store" where
  "recompute_all_baselines env db max_scripts st =
     (case compute_global_baselines env db st of
        (Inl e, st) \<Rightarrow> (Inl e, st)
      | (Inr rows, st) \<Rightarrow>
          (let scripts = take max_scripts (ans_scripts db)
           in case script_loop env db 0 scripts (length rows) st of
                (True, n, st) \<Rightarrow> (Inr n, st)
              | (False, n, st) \<Rightarrow>
                  (if ans_stop db (length scripts) then (Inr n, st)
                   else case compute_multiple_sat_per_script_baselines env db st of
                          (Inl _, st) \<Rightarrow> (Inr n, st)
                        | (Inr rows, st) \<Rightarrow> (Inr (n + length rows), st))))"

section \<open>The cache shows the table\<close>

text \<open>Keys are triples; statements about all keys are left as they are.\<close>

declare split_paired_All [simp del] split_paired_Ex [simp del]

definition fresh :: "baseline_store \<Rightarrow> bool" where
  "fresh st \<longleftrightarrow> (\<forall>k v t. map_of (bs_cache st) k = Some (v, t) \<longrightarrow> v = map_of (bs_rows st) k)"

lemma fresh_put: "fresh st \<Longrightarrow> fresh (st\<lparr>bs_cache := AList.update k (map_of (bs_rows st) k, t) (if b then [] else bs_cache st)\<rparr>)"
  by (auto simp: fresh_def split: if_splits)

lemma fresh_pop: "fresh st \<Longrightarrow> fresh (st\<lparr>bs_cache := AList.delete k (bs_cache st)\<rparr>)"
  by (auto simp: fresh_def split: if_splits)

lemma get_baseline_fresh:
  assumes "fresh st" "get_baseline env db k st = (res, st')"
  shows "fresh st'" "bs_rows st' = bs_rows st" "res = Inr v \<Longrightarrow> v = map_of (bs_rows st) k"
proof -
  have "fresh st' \<and> bs_rows st' = bs_rows st \<and> (\<forall>v. res = Inr v \<longrightarrow> v = map_of (bs_rows st) k)"
  proof (cases "if BASELINE_CACHE_TTL_SECONDS env > 0 then map_of (bs_cache st) k else None")
    case None
    then show ?thesis using assms fresh_put [OF assms(1), of k "ans_clock db" True] fresh_put [OF assms(1), of k "ans_clock db" False]
      by (auto simp: get_baseline_def Let_def split: if_splits)
  next
    case (Some vt)
    obtain v t where vt: "vt = (v, t)" by (cases vt)
    have v: "v = map_of (bs_rows st) k" using Some vt assms(1) by (auto simp: fresh_def split: if_splits)
    note popped = fresh_pop [OF assms(1), of k]
    show ?thesis using assms popped fresh_put [OF popped, of k "ans_clock db" True] fresh_put [OF popped, of k "ans_clock db" False] Some vt v
      by (auto simp: get_baseline_def Let_def split: if_splits)
  qed
  then show "fresh st'" "bs_rows st' = bs_rows st" "res = Inr v \<Longrightarrow> v = map_of (bs_rows st) k" by blast+
qed

lemma record_events_same: "bs_rows (record_events db es st) = bs_rows st" "bs_cache (record_events db es st) = bs_cache st"
  unfolding record_events_def by (induction es arbitrary: st) (auto simp: insert_baseline_drift_event_def)

lemma fresh_cong: "bs_rows st = bs_rows st' \<Longrightarrow> bs_cache st = bs_cache st' \<Longrightarrow> fresh st = fresh st'"
  by (simp add: fresh_def)

section \<open>One run moves a baseline by one admitted step\<close>

definition passes :: "baseline_env \<Rightarrow> (baseline_key, baseline_row) dict \<Rightarrow> baseline_row \<Rightarrow> bool" where
  "passes env rows r \<longleftrightarrow> (case map_of rows (key_of r) of None \<Rightarrow> True | Some old \<Rightarrow> \<not> held env old r)"

lemma filter_rows_spec:
  assumes "fresh st" "filter_rows env db rs st = (res, st')"
  shows "fresh st' \<and> bs_rows st' = bs_rows st \<and> (\<forall>kept. res = Inr kept \<longrightarrow> kept = filter (passes env (bs_rows st)) rs)"
  using assms
proof (induction rs arbitrary: st res st')
  case (Cons r rs)
  obtain p st1 where g: "get_baseline env db (key_of r) st = (p, st1)" by (metis prod.exhaust)
  note f = get_baseline_fresh [OF Cons.prems(1) g]
  show ?case
  proof (cases p)
    case (Inl e)
    then show ?thesis using Cons.prems g f by auto
  next
    case (Inr prior)
    define st2 where "st2 = (case prior of None \<Rightarrow> st1 | Some old \<Rightarrow> record_events db (drift_events env old r) st1)"
    have s2: "bs_rows st2 = bs_rows st" "fresh st2"
      using f(1,2) record_events_same fresh_cong [of st2 st1] by (auto simp: st2_def split: option.splits)
    have prior: "prior = map_of (bs_rows st) (key_of r)" using f(3) Inr by simp
    obtain res2 st3 where l: "filter_rows env db rs st2 = (res2, st3)" by (metis prod.exhaust)
    have ih: "fresh st3 \<and> bs_rows st3 = bs_rows st2 \<and> (\<forall>kept. res2 = Inr kept \<longrightarrow> kept = filter (passes env (bs_rows st2)) rs)"
      using Cons.IH [OF s2(2) l] .
    have eq: "filter_rows env db (r # rs) st =
        (case res2 of Inl e \<Rightarrow> (Inl e, st3) | Inr kept \<Rightarrow> (Inr (if passes env (bs_rows st) r then r # kept else kept), st3))"
      using g Inr l by (auto simp: st2_def passes_def prior Let_def split: option.splits sum.splits)
    show ?thesis using Cons.prems(2) eq ih s2 by (auto split: sum.splits if_splits)
  qed
qed auto

lemma put_rows_cases:
  "map_of (foldl put_row rows rs) k = map_of rows k \<or> (\<exists>r \<in> set rs. key_of r = k \<and> map_of (foldl put_row rows rs) k = Some r)"
proof (induction rs arbitrary: rows)
  case (Cons r rs)
  have "map_of (put_row rows r) k = map_of rows k \<or> key_of r = k \<and> map_of (put_row rows r) k = Some r"
    by (auto simp: put_row_def split: option.splits if_splits)
  then show ?case using Cons.IH [of "put_row rows r"] by auto
qed simp

definition admits :: "baseline_env \<Rightarrow> (baseline_key, baseline_row) dict \<Rightarrow> (baseline_key, baseline_row) dict \<Rightarrow> baseline_key \<Rightarrow> bool" where
  "admits env rows rows' k \<longleftrightarrow>
     map_of rows' k = map_of rows k \<or>
     (\<exists>new. map_of rows' k = Some new \<and> key_of new = k \<and> (case map_of rows k of None \<Rightarrow> True | Some old \<Rightarrow> \<not> held env old new))"

text \<open>What a computation that may write the keys in \<open>K\<close> does to the store.\<close>

definition guarded :: "baseline_env \<Rightarrow> baseline_key set \<Rightarrow> baseline_store \<Rightarrow> baseline_store \<Rightarrow> bool" where
  "guarded env K st st' \<longleftrightarrow> fresh st' \<and> (\<forall>k. admits env (bs_rows st) (bs_rows st') k) \<and> (\<forall>k. k \<notin> K \<longrightarrow> map_of (bs_rows st') k = map_of (bs_rows st) k)"

lemma guarded_refl: "fresh st \<Longrightarrow> guarded env K st st"
  by (simp add: guarded_def admits_def)

lemma guarded_mono: "guarded env K st st' \<Longrightarrow> K \<subseteq> L \<Longrightarrow> guarded env L st st'"
  by (auto simp: guarded_def)

lemma guarded_seq:
  assumes "guarded env K st st1" "guarded env L st1 st2" "K \<inter> L = {}"
  shows "guarded env (K \<union> L) st st2"
proof -
  have "admits env (bs_rows st) (bs_rows st2) k" for k
  proof (cases "k \<in> K")
    case True
    then have "map_of (bs_rows st2) k = map_of (bs_rows st1) k" using assms(2,3) by (auto simp: guarded_def)
    moreover have "admits env (bs_rows st) (bs_rows st1) k" using assms(1) by (simp add: guarded_def)
    ultimately show ?thesis by (simp add: admits_def)
  next
    case False
    then have "map_of (bs_rows st1) k = map_of (bs_rows st) k" using assms(1) by (simp add: guarded_def)
    moreover have "admits env (bs_rows st1) (bs_rows st2) k" using assms(2) by (simp add: guarded_def)
    ultimately show ?thesis by (simp add: admits_def)
  qed
  then show ?thesis using assms(1,2) by (auto simp: guarded_def)
qed

lemma commit_guarded:
  assumes "DRIFT_ENABLED env" "fresh st" "commit env db rs st = (res, st')"
  shows "guarded env (key_of ` set rs) st st'"
proof -
  obtain r1 st1 where f: "filter_rows env db rs st = (r1, st1)" by (metis prod.exhaust)
  have s: "fresh st1" "bs_rows st1 = bs_rows st" "r1 = Inr kept \<Longrightarrow> kept = filter (passes env (bs_rows st)) rs" for kept
    using filter_rows_spec [OF assms(2) f] by auto
  have same: "guarded env (key_of ` set rs) st st1" using s by (simp add: guarded_def admits_def)
  have ins: "guarded env (key_of ` set rs) st (st1\<lparr>bs_rows := foldl put_row (bs_rows st1) kept, bs_cache := []\<rparr>)" if "r1 = Inr kept" for kept
    unfolding guarded_def
  proof (intro conjI allI impI)
    fix k
    have c: "map_of (foldl put_row (bs_rows st) kept) k = map_of (bs_rows st) k \<or>
        (\<exists>r \<in> set rs. passes env (bs_rows st) r \<and> key_of r = k \<and> map_of (foldl put_row (bs_rows st) kept) k = Some r)"
      using put_rows_cases [of "bs_rows st" kept k] s(3) [OF that] by auto
    then show "admits env (bs_rows st) (bs_rows (st1\<lparr>bs_rows := foldl put_row (bs_rows st1) kept, bs_cache := []\<rparr>)) k"
      by (auto simp: admits_def passes_def s(2))
    show "map_of (bs_rows (st1\<lparr>bs_rows := foldl put_row (bs_rows st1) kept, bs_cache := []\<rparr>)) k = map_of (bs_rows st) k" if "k \<notin> key_of ` set rs"
      using c that by (auto simp: s(2))
  qed (simp add: fresh_def)
  show ?thesis
    using assms(1,3) f same ins by (auto simp: commit_def filter_drifted_def insert_baselines_def split: sum.splits if_splits)
qed

lemma commit_rows_guarded:
  assumes "DRIFT_ENABLED env" "fresh st" "commit_rows env db rows st = (res, st')" "\<And>rs r. rows = Inr rs \<Longrightarrow> r \<in> set rs \<Longrightarrow> key_of r \<in> K"
  shows "guarded env K st st'"
proof (cases rows)
  case (Inl e)
  then show ?thesis using assms(2,3) guarded_refl by (simp add: commit_rows_def)
next
  case (Inr rs)
  then have "commit env db rs st = (res, st')" using assms(3) by (simp add: commit_rows_def)
  from commit_guarded [OF assms(1,2) this] show ?thesis by (rule guarded_mono) (use assms(4) Inr in auto)
qed


text \<open>The keys the parts of a run write.\<close>

definition script_keys :: "string set \<Rightarrow> baseline_key set" where
  "script_keys ss = {k. fst k = ''per_script'' \<and> fst (snd k) \<in> ss \<and> snd (snd k) \<in> set UTXO_FEATURES}"

definition sat_keys :: "baseline_key set" where
  "sat_keys = {k. fst k = ''per_script'' \<and> snd (snd k) \<in> set MULTIPLE_SAT_PER_SCRIPT_FEATURES}"

definition global_keys :: "baseline_key set" where
  "global_keys = {k. fst k = ''global''}"

lemma key_sets_disjoint:
  "global_keys \<inter> script_keys ss = {}" "(global_keys \<union> script_keys ss) \<inter> sat_keys = {}"
  by (auto simp: global_keys_def script_keys_def sat_keys_def UTXO_FEATURES_def MULTIPLE_SAT_PER_SCRIPT_FEATURES_def)

lemma feature_row_key:
  assumes "feature_row db st si w m table a f = Inr (Some r)"
  shows "key_of r = (st, si, f)"
  using assms by (auto simp: feature_row_def key_of_def rbind_eq_Inr_iff split: option.splits if_splits)

lemma global_rows_keys: "global_rows env db = Inr rs \<Longrightarrow> r \<in> set rs \<Longrightarrow> key_of r \<in> global_keys"
  by (auto simp: global_rows_def Let_def rbind_eq_Inr_iff in_map_filter_iff global_keys_def dest!: rmap_mem feature_row_key)

lemma script_rows_keys: "script_rows env db s = Inr rs \<Longrightarrow> r \<in> set rs \<Longrightarrow> key_of r \<in> script_keys {s}"
  by (auto simp: script_rows_def rbind_eq_Inr_iff in_map_filter_iff script_keys_def dest!: rmap_mem feature_row_key)

lemma sat_row_key: "sat_row env db e f = Inr r \<Longrightarrow> f \<in> set MULTIPLE_SAT_PER_SCRIPT_FEATURES \<Longrightarrow> key_of r \<in> sat_keys"
  by (auto simp: sat_row_def sat_keys_def key_of_def split: prod.splits option.splits)

lemma sat_rows_keys:
  assumes "sat_rows env db = Inr rs" "r \<in> set rs"
  shows "key_of r \<in> sat_keys"
proof -
  obtain es rss where rss: "rs = concat rss" "rmap (\<lambda>e. rmap (sat_row env db e) MULTIPLE_SAT_PER_SCRIPT_FEATURES) es = Inr rss"
    using assms(1) by (auto simp: sat_rows_def rbind_eq_Inr_iff)
  obtain ys where ys: "ys \<in> set rss" "r \<in> set ys" using assms(2) rss(1) by auto
  obtain e where e: "rmap (sat_row env db e) MULTIPLE_SAT_PER_SCRIPT_FEATURES = Inr ys" using rmap_mem [OF rss(2) ys(1)] by blast
  show ?thesis using rmap_mem [OF e ys(2)] sat_row_key by blast
qed

lemma script_loop_guarded:
  assumes "DRIFT_ENABLED env" "fresh st" "distinct ss" "script_loop env db poll ss n st = (stopped, m, st')"
  shows "guarded env (script_keys (set ss)) st st'"
  using assms(2-)
proof (induction ss arbitrary: poll n st)
  case (Cons s ss)
  show ?case
  proof (cases "ans_stop db poll")
    case True
    then show ?thesis using Cons.prems guarded_refl by auto
  next
    case False
    obtain r st1 where c: "compute_script_baselines env db s st = (r, st1)" by (metis prod.exhaust)
    have g: "guarded env (script_keys {s}) st st1"
      using commit_rows_guarded [OF assms(1) Cons.prems(1)] c script_rows_keys unfolding compute_script_baselines_def by blast
    obtain k where "script_loop env db (poll + 1) ss k st1 = (stopped, m, st')"
      using Cons.prems(3) False c by (cases r) auto
    then have "guarded env (script_keys (set ss)) st1 st'" using Cons.IH Cons.prems(2) g by (auto simp: guarded_def)
    moreover have "script_keys {s} \<inter> script_keys (set ss) = {}" using Cons.prems(2) by (auto simp: script_keys_def)
    moreover have "script_keys {s} \<union> script_keys (set ss) = script_keys (set (s # ss))" by (auto simp: script_keys_def)
    ultimately show ?thesis using guarded_seq [OF g] by metis
  qed
qed (auto intro: guarded_refl)

lemma run_guarded:
  assumes "DRIFT_ENABLED env" "fresh st" "distinct (ans_scripts db)" "recompute_all_baselines env db max_scripts st = (res, st')"
  shows "guarded env UNIV st st'"
proof -
  let ?ss = "take max_scripts (ans_scripts db)"
  obtain r1 st1 where g1: "compute_global_baselines env db st = (r1, st1)" by (metis prod.exhaust)
  have G1: "guarded env global_keys st st1"
    using commit_rows_guarded [OF assms(1,2)] g1 global_rows_keys unfolding compute_global_baselines_def by blast
  then have f1: "fresh st1" by (simp add: guarded_def)
  show ?thesis
  proof (cases r1)
    case (Inl e)
    then show ?thesis using assms(4) g1 guarded_mono [OF G1] by (auto simp: recompute_all_baselines_def)
  next
    case (Inr rows)
    obtain b n st2 where g2: "script_loop env db 0 ?ss (length rows) st1 = (b, n, st2)" by (metis prod.exhaust)
    have G2: "guarded env (script_keys (set ?ss)) st1 st2" using script_loop_guarded [OF assms(1) f1 _ g2] assms(3) by simp
    have G12: "guarded env (global_keys \<union> script_keys (set ?ss)) st st2" using guarded_seq [OF G1 G2] key_sets_disjoint by blast
    then have f2: "fresh st2" by (simp add: guarded_def)
    obtain r3 st3 where g3: "compute_multiple_sat_per_script_baselines env db st2 = (r3, st3)" by (metis prod.exhaust)
    have "guarded env sat_keys st2 st3"
      using commit_rows_guarded [OF assms(1) f2] g3 sat_rows_keys unfolding compute_multiple_sat_per_script_baselines_def by blast
    then have G3: "guarded env ((global_keys \<union> script_keys (set ?ss)) \<union> sat_keys) st st3" using guarded_seq [OF G12] key_sets_disjoint by blast
    have "st' = st2 \<or> st' = st3"
      using assms(4) g1 g2 g3 Inr by (auto simp: recompute_all_baselines_def Let_def split: bool.splits if_splits sum.splits)
    then show ?thesis using guarded_mono [OF G12, of UNIV] guarded_mono [OF G3, of UNIV] by blast
  qed
qed


section \<open>Widening a tail takes many recomputes\<close>

lemma quotient_bound:
  fixes t c p :: rat
  assumes "p - (p * c + c) \<le> t" "0 < c" "4 * c \<le> 1" "0 \<le> t" "t \<le> 1"
  shows "p \<le> t + 4 * c"
proof -
  have "p * (1 - c) \<le> t + c" using assms(1) by (simp add: algebra_simps)
  also have "\<dots> \<le> (t + 4 * c) * (1 - c)"
  proof -
    have "t * c \<le> 1 * c" "4 * c * c \<le> 1 * c" using assms by (intro mult_right_mono; simp)+
    then have "t * c + 4 * c * c \<le> 3 * c" using assms(2) by linarith
    then show ?thesis by (simp add: algebra_simps)
  qed
  finally show ?thesis using assms by simp
qed

lemma growth_step:
  assumes "1 \<le> old" "old < new" "\<not> check_drift old new t" "0 \<le> t" "t \<le> 1"
  shows "new \<le> old * (1 + t + 1 / 1000)"
proof -
  define c :: rat where "c = 1 / 10 ^ 6"
  define x where "x = new - old"
  define D where "D = fadd \<bar>old\<bar> DRIFT_RATIO_EPSILON"
  define q where "q = fsub new old / D"
  have eps: "0 < DRIFT_RATIO_EPSILON" "DRIFT_RATIO_EPSILON \<le> c" unfolding c_def by code_simp+
  have d0: "0 \<le> fsub new old" unfolding fsub_def using assms(2) by (intro fl_nonneg) simp
  have d: "x - (x * c + c) \<le> fsub new old" using fl_near(1) [of x] assms(2) by (simp add: x_def fsub_def c_def)
  have D1: "1 \<le> D" unfolding D_def fadd_def using fl_mono [of 1 "\<bar>old\<bar> + DRIFT_RATIO_EPSILON"] assms(1) eps by simp
  have "D \<le> (old + DRIFT_RATIO_EPSILON) + ((old + DRIFT_RATIO_EPSILON) * c + c)"
    using fl_near(2) [of "old + DRIFT_RATIO_EPSILON"] assms(1) eps by (simp add: D_def fadd_def c_def)
  also have "\<dots> \<le> (old + c) + ((old + c) * c + c)" using eps by (intro add_mono mult_right_mono) (simp_all add: c_def)
  also have "\<dots> \<le> old * (1 + 4 * c)" using assms(1) by (simp add: c_def field_simps)
  finally have D2: "D \<le> old * (1 + 4 * c)" .
  have fq: "fl q \<le> t" using assms(1,3) d0 by (simp add: check_drift_def drift_ratio_def fdiv_def q_def D_def)
  have "q - (q * c + c) \<le> t"
  proof (cases "0 < q")
    case True
    then show ?thesis using fl_near(1) [of q] fq by (simp add: c_def)
  next
    case False
    moreover have "0 \<le> q" using d0 D1 by (simp add: q_def)
    ultimately have "q = 0" by simp
    then show ?thesis using assms(4) by (simp add: c_def)
  qed
  then have q: "q \<le> t + 4 * c" by (rule quotient_bound) (use assms in \<open>simp_all add: c_def\<close>)
  have "fsub new old = q * D" using D1 by (simp add: q_def)
  also have "\<dots> \<le> (t + 4 * c) * (old * (1 + 4 * c))" using q D1 D2 assms(4) by (intro mult_mono) (simp_all add: c_def)
  also have "\<dots> \<le> old * (t + 10 * c)"
  proof -
    have "(t + 4 * c) * (1 + 4 * c) \<le> t + 10 * c" using assms(5) by (simp add: c_def field_simps)
    then have "old * ((t + 4 * c) * (1 + 4 * c)) \<le> old * (t + 10 * c)" using assms(1) by (intro mult_left_mono) simp_all
    then show ?thesis by (simp add: mult.left_commute)
  qed
  finally have "x - (x * c + c) \<le> old * (t + 10 * c)" using d by linarith
  then have "x * (1 - c) \<le> old * (t + 10 * c) + c" by (simp add: algebra_simps)
  also have "\<dots> \<le> old * (t + 11 * c)" using assms(1) by (simp add: c_def algebra_simps)
  also have "\<dots> \<le> old * ((t + 1 / 1000) * (1 - c))"
  proof (intro mult_left_mono)
    show "t + 11 * c \<le> (t + 1 / 1000) * (1 - c)" using assms(5) by (simp add: c_def field_simps)
  qed (use assms(1) in simp)
  finally have "x * (1 - c) \<le> (old * (t + 1 / 1000)) * (1 - c)" by (simp add: mult.assoc)
  then have "x \<le> old * (t + 1 / 1000)" by (rule mult_right_le_imp_le) (simp add: c_def)
  then show ?thesis by (simp add: x_def algebra_simps)
qed

text \<open>A history of recomputes.\<close>

fun recomputed :: "baseline_env \<Rightarrow> (answers \<times> nat) list \<Rightarrow> baseline_store \<Rightarrow> baseline_store" where
  "recomputed env [] st = st"
| "recomputed env ((db, m) # runs) st = recomputed env runs (snd (recompute_all_baselines env db m st))"

text \<open>An invariant of the row of one key that every admitted step keeps holds after every history.\<close>

lemma recomputed_induct:
  assumes "DRIFT_ENABLED env" "fresh st" "\<forall>run \<in> set runs. distinct (ans_scripts (fst run))"
    and "map_of (bs_rows st) k = Some old" "P 0 old"
    and "\<And>n r r'. P n r \<Longrightarrow> key_of r' = k \<Longrightarrow> \<not> held env r r' \<Longrightarrow> Q r' \<Longrightarrow> P (Suc n) r'" "\<And>n r. P n r \<Longrightarrow> P (Suc n) r"
    and "\<And>n r. n \<le> length runs \<Longrightarrow> map_of (bs_rows (recomputed env (take n runs) st)) k = Some r \<Longrightarrow> Q r"
  shows "\<exists>r. map_of (bs_rows (recomputed env runs st)) k = Some r \<and> P (length runs) r"
  using assms(2-)
proof (induction runs arbitrary: st old P)
  case (Cons run runs)
  obtain db m where run: "run = (db, m)" by (cases run)
  define st1 where "st1 = snd (recompute_all_baselines env db m st)"
  have g: "guarded env UNIV st st1"
    using run_guarded [OF assms(1) Cons.prems(1), of db m] Cons.prems(2) run by (auto simp: st1_def intro: prod.collapse [symmetric])
  have Q: "Q r" if "map_of (bs_rows st1) k = Some r" for r
    using Cons.prems(7) [of 1 r] that run by (simp add: st1_def)
  have "admits env (bs_rows st) (bs_rows st1) k" using g by (simp add: guarded_def)
  then obtain r where r: "map_of (bs_rows st1) k = Some r" "r = old \<or> key_of r = k \<and> \<not> held env old r"
    unfolding admits_def using Cons.prems(3) by auto
  have P1: "P 1 r" using r Cons.prems(4) Cons.prems(5) [of 0 old r] Cons.prems(6) [of 0 old] Q by auto
  have "\<exists>r. map_of (bs_rows (recomputed env runs st1)) k = Some r \<and> P (Suc (length runs)) r"
  proof (rule Cons.IH [where P = "\<lambda>n. P (Suc n)" and old = r])
    show "fresh st1" using g by (simp add: guarded_def)
    show "Q r'" if "n \<le> length runs" "map_of (bs_rows (recomputed env (take n runs) st1)) k = Some r'" for n r'
      using Cons.prems(7) [of "Suc n" r'] that run by (simp add: st1_def)
  qed (use Cons.prems(2) r(1) P1 Cons.prems(5,6) in \<open>simp_all\<close>)
  then show ?case using run by (simp add: st1_def)
qed auto


text \<open>C40. A baseline whose median was zero once never gets a positive one: every recompute that would raise it is held,
  also where the tail of the prior is zero, so that it protects nothing.\<close>

theorem zero_median_is_kept:
  assumes "DRIFT_ENABLED env" "fresh st" "\<forall>run \<in> set runs. distinct (ans_scripts (fst run))"
    and "map_of (bs_rows st) k = Some old" "bl_p50 old = 0"
    and counts: "\<And>n r. n \<le> length runs \<Longrightarrow> map_of (bs_rows (recomputed env (take n runs) st)) k = Some r \<Longrightarrow> 0 \<le> bl_p50 r"
  shows "\<exists>r. map_of (bs_rows (recomputed env runs st)) k = Some r \<and> bl_p50 r = 0"
  by (rule recomputed_induct [where P = "\<lambda>_ r. bl_p50 r = 0" and Q = "\<lambda>r. 0 \<le> bl_p50 r", OF assms(1-4)])
     (use assms(5) counts in \<open>auto simp: held_def p50_hold_def check_drift_def not_less intro: order.antisym\<close>)

section \<open>A poisoned script\<close>

definition demo_drift :: baseline_env where
  "demo_drift = \<lparr>DRIFT_ENABLED = True, DRIFT_P99_THRESHOLD = 1 / 2, DRIFT_P50_THRESHOLD = 1 / 2, GLOBAL_WINDOW_DAYS = 180,
     PER_SCRIPT_WINDOW_DAYS = 90, be_MIN_SAMPLES = 200, BASELINE_CACHE_TTL_SECONDS = 300, BASELINE_CACHE_MAX_ENTRIES = 10\<rparr>"

definition demo_row :: "rat \<Rightarrow> rat \<Rightarrow> baseline_row" where
  "demo_row p50 p99 = \<lparr>bl_scope_type = ''per_script'', bl_scope_id = ''s'', bl_feature = ''datum_bytes'', bl_p50 = p50, bl_p99 = p99, bl_count = 300,
     bl_computed_at = 0, bl_window = 90\<rparr>"

definition demo_store :: "rat \<Rightarrow> rat \<Rightarrow> baseline_store" where
  "demo_store p50 p99 = \<lparr>bs_rows = [((''per_script'', ''s'', ''datum_bytes''), demo_row p50 p99)], bs_cache = [], bs_events = []\<rparr>"

definition demo_answers :: "int \<Rightarrow> rat \<Rightarrow> rat \<Rightarrow> answers" where
  "demo_answers now p50 p99 =
     \<lparr>ans_now = now, ans_clock = of_int now, ans_read_ok = (\<lambda>_. True), ans_insert_ok = (\<lambda>_. True), ans_event_ok = (\<lambda>_. True),
      ans_percentiles = (\<lambda>t f a. if f = ''datum_bytes'' \<and> a = Some ''s'' then Some (p50, p99, 300) else None), ans_scripts = [''s''],
      ans_sat = Inr [], ans_stop = (\<lambda>_. False)\<rparr>"

lemma demo_fresh: "fresh (demo_store p50 p99)"
  by (simp add: fresh_def demo_store_def)

definition poisoned_runs :: "(answers \<times> nat) list" where
  "poisoned_runs = [(demo_answers 1 10 140, 500), (demo_answers 2 10 1000, 500)]"

lemma poisoned_history:
  "map (\<lambda>n. map_option bl_p99 (map_of (bs_rows (recomputed demo_drift (take n poisoned_runs) (demo_store 10 100))) (''per_script'', ''s'', ''datum_bytes''))) [0, 1, 2]
   = [Some 100, Some 140, Some 140]"
  by code_simp


definition recovering_runs :: "(answers \<times> nat) list" where
  "recovering_runs = [(demo_answers 1 40 90, 500), (demo_answers 2 50 120, 500)]"

lemma recovering_history:
  "map (\<lambda>n. map_option bl_p50 (map_of (bs_rows (recomputed demo_drift (take n recovering_runs) (demo_store 0 0))) (''per_script'', ''s'', ''datum_bytes''))) [0, 1, 2]
   = [Some 0, Some 0, Some 0]"
  by code_simp

theorem zero_median_is_kept_witness:
  "\<exists>r. map_of (bs_rows (recomputed demo_drift recovering_runs (demo_store 0 0))) (''per_script'', ''s'', ''datum_bytes'') = Some r \<and> bl_p50 r = 0"
proof -
  have runs: "\<forall>run \<in> set recovering_runs. distinct (ans_scripts (fst run))" by (simp add: recovering_runs_def demo_answers_def)
  have old: "map_of (bs_rows (demo_store 0 0)) (''per_script'', ''s'', ''datum_bytes'') = Some (demo_row 0 0)" "bl_p50 (demo_row 0 0) = 0"
    by (simp_all add: demo_store_def demo_row_def)
  have counts: "0 \<le> bl_p50 r" if "n \<le> length recovering_runs"
    "map_of (bs_rows (recomputed demo_drift (take n recovering_runs) (demo_store 0 0))) (''per_script'', ''s'', ''datum_bytes'') = Some r" for n r
  proof -
    have "n = 0 \<or> n = 1 \<or> n = 2" using that(1) by (auto simp: recovering_runs_def)
    then show ?thesis using that(2) recovering_history by auto
  qed
  show ?thesis by (rule zero_median_is_kept [OF _ demo_fresh runs old counts]) (simp add: demo_drift_def)
qed

end
