(* ===== verification/Enrichment.thy ===== *)
theory Enrichment
  imports Engine "HOL-Library.List_Lexorder" "HOL-Library.Char_ord"
begin

text \<open>
  The enrichment of a batch (\<open>src/backend/app/analysis/enrichment.py\<close>): input addresses and values, mempool collisions,
  cycles and sandwich patterns, on the rows of the engine (theory Engine), in the order \<open>run_once\<close> calls them.  What the
  databases and the detectors answer is an argument; a detector returns a dict or nothing, or raises.

  Shown: a row is marked with exactly the steps that failed for it, nothing a payload has is changed, and the engine
  that runs these enrichments skips no transaction; a failing read of the referenced transactions, however, leaves no
  mark.
\<close>

section \<open>Settings and reads\<close>

record enrich_settings =
  SCORER_SANDWICH_ENABLED :: bool
  SANDWICH_SIMPLIFIED_ENABLED :: bool
  SCORER_CIRCULAR_ENABLED :: bool
  CYCLE_DETECTION_ENABLED :: bool
  SCORER_FRONT_RUNNING_ENABLED :: bool
  ANALYSIS_MAX_REF_TXS :: nat
  CYCLE_MAX_OUTPUT_FANOUT :: int
  MAIN_LOOP_RUNNING :: bool

record enrich_reads =
  rd_inputs :: "string list \<Rightarrow> (string \<times> int \<times> string \<times> int) list result"
  rd_txs :: "string list \<Rightarrow> (string \<times> json) list result"
  rd_loads :: "string \<Rightarrow> json option"
  rd_collisions :: "string list \<Rightarrow> (string, (string, json) dict) dict result"
  rd_cycle :: "string \<Rightarrow> (string, json) dict option result"
  rd_sandwich :: "string \<Rightarrow> int \<Rightarrow> (string, json) dict option result"

text \<open>References and outputs of a shape the chain does not produce end the model with an error of its own.\<close>

definition OddReference :: pyerr where
  "OddReference = RuntimeFailure ''reference''"

definition mark_enrichment_failed :: "string \<Rightarrow> row \<Rightarrow> row" where
  "mark_enrichment_failed name r =
     (if name \<in> set (r_enrichment_failed r) then r else r\<lparr>r_enrichment_failed := r_enrichment_failed r @ [name]\<rparr>)"

definition put_field :: "string \<Rightarrow> json \<Rightarrow> row \<Rightarrow> row" where
  "put_field k v r = r\<lparr>r_fields := AList.update k v (r_fields r)\<rparr>"

text \<open>A column of integers; an absent slot is no slot.\<close>

definition int_field :: "row \<Rightarrow> string \<Rightarrow> int" where
  "int_field r k = (case dict_get (r_fields r) k (JInt 0) of JInt n \<Rightarrow> n | _ \<Rightarrow> 0)"

section \<open>Inputs\<close>

definition raw_inputs :: "row \<Rightarrow> json list result" where
  "raw_inputs r = (case r_raw r of JDict d \<Rightarrow> iter_json (dict_get d ''inputs'' (JList [])) | _ \<Rightarrow> Inr [])"

definition ref_of_input :: "json \<Rightarrow> string option result" where
  "ref_of_input inp =
     rbind (jget inp ''transaction'' (JDict [])) (\<lambda>t. rbind (jget t ''id'' JNull) (\<lambda>i.
       if \<not> truthy i then Inr None else case i of JStr s \<Rightarrow> Inr (Some s) | _ \<Rightarrow> Inl OddReference))"

definition collect_refs :: "row list \<Rightarrow> string list result" where
  "collect_refs rows =
     rbind (rmap (\<lambda>r. rbind (raw_inputs r) (rmap ref_of_input)) rows) (\<lambda>rs. Inr (remdups (List.map_filter id (concat rs))))"

definition capped_refs :: "enrich_settings \<Rightarrow> string list \<Rightarrow> string list" where
  "capped_refs cfg refs = (if length refs > ANALYSIS_MAX_REF_TXS cfg then take (ANALYSIS_MAX_REF_TXS cfg) (sort refs) else refs)"

type_synonym outputs_by_ref = "(string \<times> int, json) dict"

definition parse_stored :: "(string \<Rightarrow> json option) \<Rightarrow> json \<Rightarrow> json option" where
  "parse_stored loads rd = (case rd of JStr s \<Rightarrow> loads s | _ \<Rightarrow> Some rd)"

definition add_outputs :: "string \<Rightarrow> json list \<Rightarrow> outputs_by_ref \<Rightarrow> outputs_by_ref" where
  "add_outputs h outs acc = foldl (\<lambda>acc (i, out). AList.update (h, int i) out acc) acc (enumerate 0 outs)"

text \<open>An error keeps what was read before it.\<close>

fun load_outputs :: "(string \<Rightarrow> json option) \<Rightarrow> (string \<times> json) list \<Rightarrow> outputs_by_ref \<Rightarrow> outputs_by_ref" where
  "load_outputs loads [] acc = acc"
| "load_outputs loads ((h, rd) # rs) acc =
     (case parse_stored loads rd of
        None \<Rightarrow> acc
      | Some (JDict d) \<Rightarrow>
          (case iter_json (dict_get d ''outputs'' (JList [])) of
             Inl _ \<Rightarrow> acc
           | Inr outs \<Rightarrow> load_outputs loads rs (add_outputs h outs acc))
      | Some _ \<Rightarrow> load_outputs loads rs acc)"

definition fetch_outputs :: "enrich_reads \<Rightarrow> string list \<Rightarrow> outputs_by_ref" where
  "fetch_outputs rds refs =
     (if refs = [] then [] else case rd_txs rds refs of Inl _ \<Rightarrow> [] | Inr rs \<Rightarrow> load_outputs (rd_loads rds) rs [])"

definition with_address :: "(string \<times> int, string) dict \<Rightarrow> string \<Rightarrow> nat \<Rightarrow> (string, json) dict \<Rightarrow> (string, json) dict" where
  "with_address addrs h i d =
     (case map_of addrs (h, int i) of
        Some a \<Rightarrow> if map_of d ''address'' = None then AList.update ''address'' (JStr a) d else d
      | None \<Rightarrow> d)"

definition with_value :: "outputs_by_ref \<Rightarrow> (string, json) dict \<Rightarrow> (string, json) dict result" where
  "with_value outs d =
     (if map_of d ''value'' \<noteq> None then Inr d
      else rbind (ref_of_input (JDict d)) (\<lambda>ref.
        case (ref, field d ''index'') of
          (Some h, JInt n) \<Rightarrow>
            (case map_of outs (h, n) of
               None \<Rightarrow> Inr d
             | Some (JDict out) \<Rightarrow> Inr (case map_of out ''value'' of None \<Rightarrow> d | Some v \<Rightarrow> AList.update ''value'' v d)
             | Some out \<Rightarrow> if truthy out then Inl OddReference else Inr d)
        | (Some _, JNull) \<Rightarrow> Inr d
        | (None, _) \<Rightarrow> Inr d
        | _ \<Rightarrow> Inl OddReference))"

definition patch_input :: "(string \<times> int, string) dict \<Rightarrow> outputs_by_ref \<Rightarrow> string \<Rightarrow> nat \<times> json \<Rightarrow> json result" where
  "patch_input addrs outs h e =
     (case e of (i, inp) \<Rightarrow>
        (case inp of JDict d \<Rightarrow> rbind (with_value outs (with_address addrs h i d)) (\<lambda>d. Inr (JDict d)) | _ \<Rightarrow> Inl AttributeError))"

definition patch_row :: "(string \<times> int, string) dict \<Rightarrow> outputs_by_ref \<Rightarrow> row \<Rightarrow> row result" where
  "patch_row addrs outs r =
     (case r_raw r of
        JDict d \<Rightarrow>
          (case map_of d ''inputs'' of
             Some (JList inps) \<Rightarrow>
               rbind (rmap (patch_input addrs outs (r_tx_hash r)) (enumerate 0 inps)) (\<lambda>inps.
                 Inr (r\<lparr>r_raw := JDict (AList.update ''inputs'' (JList inps) d)\<rparr>))
           | _ \<Rightarrow> Inr r)
      | _ \<Rightarrow> Inr r)"

definition address_map :: "(string \<times> int \<times> string \<times> int) list \<Rightarrow> (string \<times> int, string) dict" where
  "address_map rows = foldl (\<lambda>acc (h, i, a, _). AList.update (h, i) a acc) [] rows"

definition enrich_inputs_with_resolved_addresses :: "enrich_settings \<Rightarrow> enrich_reads \<Rightarrow> row list \<Rightarrow> row list result" where
  "enrich_inputs_with_resolved_addresses cfg rds rows =
     (let hashes = map r_tx_hash (filter (\<lambda>r. truthy (r_raw r)) rows)
      in if hashes = [] then Inr rows
         else case rd_inputs rds hashes of
                Inl _ \<Rightarrow> Inr (map (mark_enrichment_failed ''input_addresses'') rows)
              | Inr found \<Rightarrow> rbind (collect_refs rows) (\<lambda>refs.
                  rmap (patch_row (address_map found) (fetch_outputs rds (capped_refs cfg refs))) rows))"

section \<open>Patterns\<close>

definition enrich_sandwich_features :: "enrich_settings \<Rightarrow> enrich_reads \<Rightarrow> row list \<Rightarrow> row list" where
  "enrich_sandwich_features cfg rds rows =
     (if \<not> SCORER_SANDWICH_ENABLED cfg \<or> \<not> SANDWICH_SIMPLIFIED_ENABLED cfg then rows
      else map (\<lambda>r.
        if int_field r ''slot'' = 0 then r
        else case rd_sandwich rds (r_tx_hash r) (int_field r ''slot'') of
               Inl _ \<Rightarrow> mark_enrichment_failed ''sandwich'' r
             | Inr (Some sw) \<Rightarrow> if sw = [] then r else put_field ''sandwich'' (JDict sw) r
             | Inr None \<Rightarrow> r) rows)"

definition mark_if :: "bool \<Rightarrow> string \<Rightarrow> row \<Rightarrow> row" where
  "mark_if b name r = (if b then mark_enrichment_failed name r else r)"

definition cycle_row :: "enrich_settings \<Rightarrow> enrich_reads \<Rightarrow> row \<Rightarrow> row" where
  "cycle_row cfg rds r =
     (if int_field r ''output_count'' > CYCLE_MAX_OUTPUT_FANOUT cfg then r
      else case rd_cycle rds (r_tx_hash r) of
             Inl _ \<Rightarrow> mark_enrichment_failed ''cycle'' r
           | Inr (Some c) \<Rightarrow>
               if c = [] then r
               else mark_if (truthy (field c ''closing_leg_unavailable'')) ''cycle_closing_leg''
                 (mark_if (truthy (field c ''history_unavailable'')) ''cycle_history'' (put_field ''cycle'' (JDict c) r))
           | Inr None \<Rightarrow> r)"

definition enrich_cycle_features :: "enrich_settings \<Rightarrow> enrich_reads \<Rightarrow> row list \<Rightarrow> row list" where
  "enrich_cycle_features cfg rds rows =
     (if \<not> SCORER_CIRCULAR_ENABLED cfg \<or> \<not> CYCLE_DETECTION_ENABLED cfg then rows else map (cycle_row cfg rds) rows)"

definition enrich_collision_features :: "enrich_settings \<Rightarrow> enrich_reads \<Rightarrow> row list \<Rightarrow> row list" where
  "enrich_collision_features cfg rds rows =
     (if \<not> SCORER_FRONT_RUNNING_ENABLED cfg \<or> \<not> MAIN_LOOP_RUNNING cfg then rows
      else case rd_collisions rds (map r_tx_hash rows) of
             Inl _ \<Rightarrow> map (mark_enrichment_failed ''collision'') rows
           | Inr found \<Rightarrow> map (\<lambda>r. case map_of found (r_tx_hash r) of
               Some c \<Rightarrow> if c = [] then r else put_field ''collision'' (JDict c) r | None \<Rightarrow> r) rows)"

text \<open>The four steps as \<open>run_once\<close> calls them.\<close>

definition enrich_batch :: "enrich_settings \<Rightarrow> enrich_reads \<Rightarrow> row list \<Rightarrow> row list result" where
  "enrich_batch cfg rds rows =
     rbind (enrich_inputs_with_resolved_addresses cfg rds rows) (\<lambda>rows.
       Inr (enrich_sandwich_features cfg rds (enrich_cycle_features cfg rds (enrich_collision_features cfg rds rows))))"

section \<open>Which steps failed\<close>

definition inputs_failed :: "enrich_reads \<Rightarrow> row list \<Rightarrow> bool" where
  "inputs_failed rds rows \<longleftrightarrow>
     (let hashes = map r_tx_hash (filter (\<lambda>r. truthy (r_raw r)) rows) in hashes \<noteq> [] \<and> (\<exists>e. rd_inputs rds hashes = Inl e))"

definition collisions_failed :: "enrich_settings \<Rightarrow> enrich_reads \<Rightarrow> row list \<Rightarrow> bool" where
  "collisions_failed cfg rds rows \<longleftrightarrow>
     SCORER_FRONT_RUNNING_ENABLED cfg \<and> MAIN_LOOP_RUNNING cfg \<and> (\<exists>e. rd_collisions rds (map r_tx_hash rows) = Inl e)"

definition cycle_marks :: "enrich_settings \<Rightarrow> enrich_reads \<Rightarrow> row \<Rightarrow> string set" where
  "cycle_marks cfg rds r =
     (if \<not> SCORER_CIRCULAR_ENABLED cfg \<or> \<not> CYCLE_DETECTION_ENABLED cfg \<or> int_field r ''output_count'' > CYCLE_MAX_OUTPUT_FANOUT cfg then {}
      else case rd_cycle rds (r_tx_hash r) of
             Inl _ \<Rightarrow> {''cycle''}
           | Inr None \<Rightarrow> {}
           | Inr (Some c) \<Rightarrow> (if truthy (field c ''history_unavailable'') then {''cycle_history''} else {})
               \<union> (if truthy (field c ''closing_leg_unavailable'') then {''cycle_closing_leg''} else {}))"

definition sandwich_failed :: "enrich_settings \<Rightarrow> enrich_reads \<Rightarrow> row \<Rightarrow> bool" where
  "sandwich_failed cfg rds r \<longleftrightarrow>
     SCORER_SANDWICH_ENABLED cfg \<and> SANDWICH_SIMPLIFIED_ENABLED cfg \<and> int_field r ''slot'' \<noteq> 0 \<and>
     (\<exists>e. rd_sandwich rds (r_tx_hash r) (int_field r ''slot'') = Inl e)"

definition failed_steps :: "enrich_settings \<Rightarrow> enrich_reads \<Rightarrow> row list \<Rightarrow> row \<Rightarrow> string set" where
  "failed_steps cfg rds rows r =
     (if inputs_failed rds rows then {''input_addresses''} else {}) \<union> (if collisions_failed cfg rds rows then {''collision''} else {})
     \<union> cycle_marks cfg rds r \<union> (if sandwich_failed cfg rds r then {''sandwich''} else {})"

text \<open>A payload keeps what it had: an input may gain an address and a value.\<close>

definition keeps_input :: "json \<Rightarrow> json \<Rightarrow> bool" where
  "keeps_input i i' \<longleftrightarrow> (\<exists>d d'. i = JDict d \<and> i' = JDict d' \<and> map_of d \<subseteq>\<^sub>m map_of d')"

definition keeps_payload :: "row \<Rightarrow> row \<Rightarrow> bool" where
  "keeps_payload r r' \<longleftrightarrow> r_raw r' = r_raw r \<or>
     (\<exists>d inps inps'. r_raw r = JDict d \<and> map_of d ''inputs'' = Some (JList inps) \<and>
        r_raw r' = JDict (AList.update ''inputs'' (JList inps') d) \<and> list_all2 keeps_input inps inps')"

section \<open>The steps one by one\<close>

definition step_marks :: "string set \<Rightarrow> row \<Rightarrow> row \<Rightarrow> bool" where
  "step_marks S r r' \<longleftrightarrow> r_tx_hash r' = r_tx_hash r \<and> set (r_enrichment_failed r') = set (r_enrichment_failed r) \<union> S \<and>
     int_field r' ''slot'' = int_field r ''slot'' \<and> int_field r' ''output_count'' = int_field r ''output_count''"

lemma mark_facts [simp]:
  "r_tx_hash (mark_enrichment_failed n r) = r_tx_hash r" "r_raw (mark_enrichment_failed n r) = r_raw r"
  "r_fields (mark_enrichment_failed n r) = r_fields r" "set (r_enrichment_failed (mark_enrichment_failed n r)) = insert n (set (r_enrichment_failed r))"
  "r_tx_hash (mark_if b n r) = r_tx_hash r" "r_raw (mark_if b n r) = r_raw r"
  "r_fields (mark_if b n r) = r_fields r" "set (r_enrichment_failed (mark_if b n r)) = (if b then {n} else {}) \<union> set (r_enrichment_failed r)"
  "r_tx_hash (put_field k v r) = r_tx_hash r" "r_raw (put_field k v r) = r_raw r" "r_enrichment_failed (put_field k v r) = r_enrichment_failed r"
  by (auto simp: mark_enrichment_failed_def mark_if_def put_field_def)

lemma int_field_cong: "r_fields r = r_fields r' \<Longrightarrow> int_field r k = int_field r' k"
  by (simp add: int_field_def)

lemma int_field_mark [simp]: "int_field (mark_enrichment_failed n r) k = int_field r k" "int_field (mark_if b n r) k = int_field r k"
  by (rule int_field_cong; simp)+

lemma int_field_put [simp]: "k \<noteq> k' \<Longrightarrow> int_field (put_field k v r) k' = int_field r k'"
  by (simp add: int_field_def put_field_def)

lemma step_marks_trans: "step_marks S r r1 \<Longrightarrow> step_marks T r1 r2 \<Longrightarrow> step_marks (S \<union> T) r r2"
  by (auto simp: step_marks_def)

lemma list_all2_map_right: "(\<And>x. x \<in> set xs \<Longrightarrow> P x (f x)) \<Longrightarrow> list_all2 P xs (map f xs)"
  by (induction xs) auto

lemma collision_marks:
  "list_all2 (\<lambda>r r'. step_marks (if collisions_failed cfg rds rows then {''collision''} else {}) r r' \<and> r_raw r' = r_raw r) rows
     (enrich_collision_features cfg rds rows)"
  by (auto simp: enrich_collision_features_def collisions_failed_def step_marks_def list_all2_refl intro!: list_all2_map_right
      split: sum.splits option.splits if_splits)

lemma cycle_row_marks:
  assumes "SCORER_CIRCULAR_ENABLED cfg" "CYCLE_DETECTION_ENABLED cfg"
  shows "step_marks (cycle_marks cfg rds r) r (cycle_row cfg rds r) \<and> r_raw (cycle_row cfg rds r) = r_raw r"
proof (cases "int_field r ''output_count'' > CYCLE_MAX_OUTPUT_FANOUT cfg")
  case True
  then show ?thesis by (simp add: cycle_row_def cycle_marks_def step_marks_def)
next
  case False
  have none: "field [] k = JNull" for k by (simp add: field_def dict_get_def)
  consider e where "rd_cycle rds (r_tx_hash r) = Inl e" | "rd_cycle rds (r_tx_hash r) = Inr None"
    | c where "rd_cycle rds (r_tx_hash r) = Inr (Some c)" by (metis option.exhaust sum.exhaust)
  then show ?thesis using False assms by cases (auto simp: cycle_row_def cycle_marks_def step_marks_def none)
qed

lemma cycle_step_marks:
  "list_all2 (\<lambda>r r'. step_marks (cycle_marks cfg rds r) r r' \<and> r_raw r' = r_raw r) rows (enrich_cycle_features cfg rds rows)"
proof (cases "SCORER_CIRCULAR_ENABLED cfg \<and> CYCLE_DETECTION_ENABLED cfg")
  case True
  then show ?thesis using cycle_row_marks by (simp add: enrich_cycle_features_def list_all2_map_right)
next
  case False
  then show ?thesis by (auto simp: enrich_cycle_features_def cycle_marks_def step_marks_def list_all2_refl)
qed

lemma sandwich_marks:
  "list_all2 (\<lambda>r r'. step_marks (if sandwich_failed cfg rds r then {''sandwich''} else {}) r r' \<and> r_raw r' = r_raw r) rows
     (enrich_sandwich_features cfg rds rows)"
  by (auto simp: enrich_sandwich_features_def sandwich_failed_def step_marks_def list_all2_refl intro!: list_all2_map_right
      split: sum.splits option.splits if_splits)

lemma with_address_keeps: "map_of d \<subseteq>\<^sub>m map_of (with_address addrs h i d)"
  by (auto simp: with_address_def map_le_def split: option.splits)

lemma with_value_keeps:
  assumes "with_value outs d = Inr d'"
  shows "map_of d \<subseteq>\<^sub>m map_of d'"
proof (cases "d' = d")
  case False
  then have none: "map_of d ''value'' = None" using assms by (auto simp: with_value_def split: if_splits)
  obtain h where h: "ref_of_input (JDict d) = Inr (Some h)"
    using assms False none by (cases "ref_of_input (JDict d)"; cases "projr (ref_of_input (JDict d))") (auto simp: with_value_def)
  obtain n where n: "field d ''index'' = JInt n"
    using assms False none h by (cases "field d ''index''") (auto simp: with_value_def)
  obtain x where x: "map_of outs (h, n) = Some x" using assms False none h n by (cases "map_of outs (h, n)") (auto simp: with_value_def)
  obtain out where "x = JDict out" using assms False none h n x by (cases x) (auto simp: with_value_def split: if_splits)
  then obtain v where "d' = AList.update ''value'' v d" using assms False none h n x by (auto simp: with_value_def split: option.splits)
  then show ?thesis using none by (auto simp: map_le_def)
qed simp

lemma patch_input_keeps:
  assumes "patch_input addrs outs h (i, inp) = Inr inp'"
  shows "keeps_input inp inp'"
proof -
  obtain d where d: "inp = JDict d" using assms by (cases inp) (simp_all add: patch_input_def)
  then obtain d' where d': "with_value outs (with_address addrs h i d) = Inr d'" "inp' = JDict d'"
    using assms by (auto simp: patch_input_def rbind_eq_Inr_iff)
  have "map_of d \<subseteq>\<^sub>m map_of d'" using with_address_keeps with_value_keeps [OF d'(1)] by (rule map_le_trans)
  then show ?thesis using d d'(2) by (auto simp: keeps_input_def)
qed

lemma patch_row_keeps:
  assumes "patch_row addrs outs r = Inr r'"
  shows "step_marks {} r r'" "keeps_payload r r'"
proof -
  have "step_marks {} r r' \<and> keeps_payload r r'"
  proof (cases "\<exists>d inps. r_raw r = JDict d \<and> map_of d ''inputs'' = Some (JList inps)")
    case True
    then obtain d inps where d: "r_raw r = JDict d" "map_of d ''inputs'' = Some (JList inps)" by blast
    obtain inps' where i: "list_all2 (\<lambda>e y. patch_input addrs outs (r_tx_hash r) e = Inr y) (enumerate 0 inps) inps'"
      "r' = r\<lparr>r_raw := JDict (AList.update ''inputs'' (JList inps') d)\<rparr>"
      using assms d by (auto simp: patch_row_def rbind_eq_Inr_iff rmap_Inr_iff)
    have "list_all2 keeps_input inps inps'" using i(1) patch_input_keeps
      by (auto simp: list_all2_conv_all_nth nth_enumerate_eq)
    then show ?thesis using d i(2) by (auto simp: keeps_payload_def step_marks_def int_field_def)
  next
    case False
    then have "r' = r" using assms by (auto simp: patch_row_def split: json.splits option.splits)
    then show ?thesis by (simp add: keeps_payload_def step_marks_def)
  qed
  then show "step_marks {} r r'" "keeps_payload r r'" by blast+
qed

lemma inputs_marks:
  assumes "enrich_inputs_with_resolved_addresses cfg rds rows = Inr rows'"
  shows "list_all2 (\<lambda>r r'. step_marks (if inputs_failed rds rows then {''input_addresses''} else {}) r r' \<and> keeps_payload r r') rows rows'"
proof (cases "inputs_failed rds rows")
  case True
  then have "rows' = map (mark_enrichment_failed ''input_addresses'') rows"
    using assms by (auto simp: inputs_failed_def Let_def enrich_inputs_with_resolved_addresses_def split: if_splits)
  then show ?thesis using True by (auto intro!: list_all2_map_right simp: step_marks_def keeps_payload_def)
next
  case False
  have "rows' = rows \<or> (\<exists>addrs outs. list_all2 (\<lambda>r r'. patch_row addrs outs r = Inr r') rows rows')"
    using assms False unfolding inputs_failed_def Let_def enrich_inputs_with_resolved_addresses_def
    by (auto simp: rbind_eq_Inr_iff rmap_Inr_iff split: if_splits sum.splits)
  then show ?thesis
  proof
    assume "rows' = rows"
    then show ?thesis using False by (simp add: list_all2_refl step_marks_def keeps_payload_def)
  next
    assume "\<exists>addrs outs. list_all2 (\<lambda>r r'. patch_row addrs outs r = Inr r') rows rows'"
    then obtain addrs outs where "list_all2 (\<lambda>r r'. patch_row addrs outs r = Inr r') rows rows'" by blast
    then show ?thesis using False patch_row_keeps by (elim list_all2_mono) simp
  qed
qed


section \<open>Marks and payloads of a batch\<close>

lemma list_all2_hashes: "list_all2 (\<lambda>r r'. step_marks (S r) r r' \<and> Q r r') rows rows' \<Longrightarrow> map r_tx_hash rows' = map r_tx_hash rows"
  by (induction rows rows' rule: list_all2_induct) (auto simp: step_marks_def)

lemma marks_cong:
  assumes "step_marks S r r'"
  shows "cycle_marks cfg rds r' = cycle_marks cfg rds r" "sandwich_failed cfg rds r' = sandwich_failed cfg rds r"
  using assms by (auto simp: step_marks_def cycle_marks_def sandwich_failed_def)

lemma enrich_batch_rows:
  assumes "enrich_batch cfg rds rows = Inr rows'"
  shows "list_all2 (\<lambda>r r'. step_marks (failed_steps cfg rds rows r) r r' \<and> keeps_payload r r') rows rows'"
proof -
  obtain rows1 where r1: "enrich_inputs_with_resolved_addresses cfg rds rows = Inr rows1" using assms by (auto simp: enrich_batch_def rbind_eq_Inr_iff)
  define rows2 where "rows2 = enrich_collision_features cfg rds rows1"
  define rows3 where "rows3 = enrich_cycle_features cfg rds rows2"
  have r': "rows' = enrich_sandwich_features cfg rds rows3" using assms r1 by (simp add: enrich_batch_def rows2_def rows3_def)
  note i = inputs_marks [OF r1]
  note c = collision_marks [of cfg rds rows1, folded rows2_def]
  note y = cycle_step_marks [of cfg rds rows2, folded rows3_def]
  note s = sandwich_marks [of cfg rds rows3, folded r']
  have same: "collisions_failed cfg rds rows1 = collisions_failed cfg rds rows" using list_all2_hashes [OF i] by (simp add: collisions_failed_def)
  show ?thesis unfolding list_all2_conv_all_nth
  proof (intro conjI allI impI)
    show "length rows = length rows'" using i c y s by (auto dest!: list_all2_lengthD)
    fix n assume n: "n < length rows"
    then have l: "n < length rows1" "n < length rows2" "n < length rows3" using i c y by (auto dest!: list_all2_lengthD)
    have "step_marks (failed_steps cfg rds rows (rows ! n)) (rows ! n) (rows' ! n) \<and> keeps_payload (rows ! n) (rows' ! n)"
    proof
      have I: "step_marks (if inputs_failed rds rows then {''input_addresses''} else {}) (rows ! n) (rows1 ! n)"
        and C: "step_marks (if collisions_failed cfg rds rows then {''collision''} else {}) (rows1 ! n) (rows2 ! n)"
        and Y: "step_marks (cycle_marks cfg rds (rows2 ! n)) (rows2 ! n) (rows3 ! n)"
        and S: "step_marks (if sandwich_failed cfg rds (rows3 ! n) then {''sandwich''} else {}) (rows3 ! n) (rows' ! n)"
        using list_all2_nthD [OF i n] list_all2_nthD [OF c l(1)] list_all2_nthD [OF y l(2)] list_all2_nthD [OF s l(3)] same by auto
      note IC = step_marks_trans [OF I C] note ICY = step_marks_trans [OF IC Y]
      show "step_marks (failed_steps cfg rds rows (rows ! n)) (rows ! n) (rows' ! n)"
        using step_marks_trans [OF ICY S] marks_cong(1) [OF IC, of cfg rds] marks_cong(2) [OF ICY, of cfg rds] by (simp add: failed_steps_def)
      show "keeps_payload (rows ! n) (rows' ! n)"
        using list_all2_nthD [OF i n] list_all2_nthD [OF c l(1)] list_all2_nthD [OF y l(2)] list_all2_nthD [OF s l(3)] by (simp add: keeps_payload_def)
    qed
    then show "step_marks (failed_steps cfg rds rows (rows ! n)) (rows ! n) (rows' ! n)" "keeps_payload (rows ! n) (rows' ! n)" by blast+
  qed
qed

interpretation batch: batch_enrichment "enrich_batch cfg rds"
  by unfold_locales (rule list_all2_hashes [OF enrich_batch_rows])

text \<open>C7. A batch that is enriched has the rows it had, and every row is marked with exactly the steps that failed for it,
  so that the engine defers it, while a step that ran and found nothing leaves no mark; what the payload held is
  kept, and its inputs only gain an address and a value.\<close>

theorem failed_steps_are_marked:
  assumes "enrich_batch cfg rds rows = Inr rows'"
  shows "list_all2 (\<lambda>r r'. r_tx_hash r' = r_tx_hash r \<and>
      set (r_enrichment_failed r') = set (r_enrichment_failed r) \<union> failed_steps cfg rds rows r \<and> keeps_payload r r') rows rows'"
  using enrich_batch_rows [OF assms] by (rule list_all2_mono) (simp add: step_marks_def)

text \<open>C2. The engine with these enrichments skips no transaction: a batch that raises inserts nothing and leaves the
  watermark where it was; otherwise every transaction the poll returned has its score row inserted or is on one of the
  two deferral ledgers, and the watermark does not go back.\<close>

theorem analysis_never_skips:
  assumes "ANALYSIS_ENABLED cfg" "run_once cfg env net st = (r, inserted, st')" "en_enrich env = enrich_batch ecfg rds"
    and "\<And>since rows. en_fetch env since = Inr rows \<or> en_refetch env since = Inr rows \<Longrightarrow> distinct (map r_tx_hash rows)"
  shows "case r of
      Inl _ \<Rightarrow> inserted = [] \<and> unanalyzed_watermark st' = unanalyzed_watermark st
    | Inr _ \<Rightarrow>
        (\<exists>fetched.
           (en_fetch env (fst (poll_since cfg (en_poll_mono env) (en_now_utc env) net st)) = Inr fetched \<or>
            (\<exists>w. en_refetch env (Some w) = Inr fetched)) \<and>
           (\<forall>x \<in> set fetched. scored_or_deferred net inserted st' (r_tx_hash x))) \<and>
        not_back net st st'"
  using batch.never_skips [OF assms(1,2) assms(4,3)] .

section \<open>Examples\<close>

definition all_enrichments :: enrich_settings where
  "all_enrichments = \<lparr>SCORER_SANDWICH_ENABLED = True, SANDWICH_SIMPLIFIED_ENABLED = True, SCORER_CIRCULAR_ENABLED = True,
     CYCLE_DETECTION_ENABLED = True, SCORER_FRONT_RUNNING_ENABLED = True, ANALYSIS_MAX_REF_TXS = 500, CYCLE_MAX_OUTPUT_FANOUT = 20,
     MAIN_LOOP_RUNNING = True\<rparr>"

text \<open>Reads where the collisions, or the referenced transactions, do not answer.\<close>

definition demo_reads :: "bool \<Rightarrow> enrich_reads" where
  "demo_reads postgres_up =
     \<lparr>rd_inputs = (\<lambda>hs. Inr (map (\<lambda>h. (h, 0, ''a'', 5)) hs)), rd_txs = (\<lambda>_. Inl TypeError), rd_loads = (\<lambda>_. None),
      rd_collisions = (\<lambda>_. if postgres_up then Inr [] else Inl TypeError), rd_cycle = (\<lambda>_. Inr None), rd_sandwich = (\<lambda>_ _. Inr None)\<rparr>"

definition spending_row :: row where
  "spending_row = demo_row ''t'' (JDict [(''inputs'', JList [JDict [(''transaction'', JDict [(''id'', JStr ''p'')]), (''index'', JInt 0)]])])"

definition addressed_row :: row where
  "addressed_row = demo_row ''t'' (JDict [(''inputs'', JList [JDict [(''transaction'', JDict [(''id'', JStr ''p'')]), (''index'', JInt 0), (''address'', JStr ''a'')]])])"

lemma demo_enriched:
  "enrich_batch all_enrichments (demo_reads up) [spending_row] = Inr [if up then addressed_row else mark_enrichment_failed ''collision'' addressed_row]"
  by (cases up; simp) (code_simp, code_simp)

theorem failed_steps_are_marked_witness:
  "\<exists>r'. enrich_batch all_enrichments (demo_reads False) [spending_row] = Inr [r'] \<and>
     set (r_enrichment_failed r') = failed_steps all_enrichments (demo_reads False) [spending_row] spending_row"
proof -
  let ?r = "mark_enrichment_failed ''collision'' addressed_row"
  have e: "enrich_batch all_enrichments (demo_reads False) [spending_row] = Inr [?r]" using demo_enriched [of False] by simp
  have "r_enrichment_failed spending_row = []" by (simp add: spending_row_def demo_row_def)
  then show ?thesis using failed_steps_are_marked [OF e] e by simp
qed

definition enriched_env :: engine_env where
  "enriched_env = demo_engine_env\<lparr>en_enrich := enrich_batch all_enrichments (demo_reads False)\<rparr>"

theorem analysis_never_skips_witness:
  "case run_once demo_engine_settings enriched_env ''preprod'' demo_engine_state of
     (r, inserted, st') \<Rightarrow> r = Inr 2 \<and> inserted = [] \<and>
       scored_or_deferred ''preprod'' inserted st' ''t'' \<and> scored_or_deferred ''preprod'' inserted st' ''u''"
proof -
  obtain r inserted st' where run: "run_once demo_engine_settings enriched_env ''preprod'' demo_engine_state = (r, inserted, st')"
    by (metis prod_cases3)
  have on: "ANALYSIS_ENABLED demo_engine_settings" by (simp add: demo_engine_settings_def)
  have fetch: "en_fetch enriched_env s = Inr [demo_row ''t'' (JDict []), demo_row ''u'' (JStr ''{'')]"
    "en_refetch enriched_env s = Inr [demo_row ''t'' (JDict []), demo_row ''u'' (JStr ''{'')]" for s
    by (simp_all add: enriched_env_def demo_engine_env_def)
  have unique: "distinct (map r_tx_hash rows)" if "en_fetch enriched_env s = Inr rows \<or> en_refetch enriched_env s = Inr rows" for s rows
    using that fetch by (auto simp: demo_row_def)
  have enrich: "en_enrich enriched_env = enrich_batch all_enrichments (demo_reads False)" by (simp add: enriched_env_def)
  have "fst (run_once demo_engine_settings enriched_env ''preprod'' demo_engine_state) = Inr 2 \<and>
      length (fst (snd (run_once demo_engine_settings enriched_env ''preprod'' demo_engine_state))) = 0"
    by code_simp
  then have r: "r = Inr 2" "inserted = []" using run by auto
  from analysis_never_skips [OF on run enrich unique]
  have "\<forall>x \<in> {''t'', ''u''}. scored_or_deferred ''preprod'' inserted st' x"
    unfolding r(1) by (auto simp: fetch demo_row_def)
  then show ?thesis using r run by simp
qed


end
