(* ===== verification/Multiple_Sat.thy ===== *)
theory Multiple_Sat
  imports Bech32 Value_Scorers
begin

text \<open>
  The scorer of multiple satisfaction (\<open>src/backend/app/analysis/scorers/multiple_sat.py\<close>): several outputs of one
  script spent by one satisfying argument.  Inputs are grouped by payment credential, every group is scored, and
  the strongest group is the verdict.  \<open>str_of\<close> is \<open>str\<close> on a purpose that is no string.

  Shown: under a checked configuration a transaction that spends two outputs of one credential with a lazy validator or
  with saturated axes pages whatever its other groups are, and a transaction pages only for a group that is no
  owner sweep and either meets a floor or returns nothing to its script.
\<close>

section \<open>Redeemers\<close>

record redeemer_entry =
  re_purpose :: string
  re_index :: int
  payload_hex :: "string option"
  memory_units :: int
  cpu_units :: int

definition REDEEMER_PURPOSE_SPEND :: string where "REDEEMER_PURPOSE_SPEND = ''spend''"

definition REDEEMER_INDEX_UNKNOWN :: int where "REDEEMER_INDEX_UNKNOWN = - 1"

definition payload_of :: "(string, json) dict \<Rightarrow> string option" where
  "payload_of entry = (case field entry ''redeemer'' of JStr p \<Rightarrow> Some p | _ \<Rightarrow> None)"

definition keyed_redeemer :: "string \<times> json \<Rightarrow> redeemer_entry list result" where
  "keyed_redeemer kv =
     (case kv of (key, JDict entry) \<Rightarrow>
        (let raw_index = drop 1 (dropWhile (\<lambda>c. c \<noteq> CHR '':'') key) in
         rbind (redeemer_exunits (JDict entry)) (\<lambda>(mem, cpu).
         rbind (if raw_index \<noteq> [] then int_or REDEEMER_INDEX_UNKNOWN (JStr raw_index) else Inr REDEEMER_INDEX_UNKNOWN) (\<lambda>i.
           Inr [\<lparr>re_purpose = takeWhile (\<lambda>c. c \<noteq> CHR '':'') key, re_index = i, payload_hex = payload_of entry,
                 memory_units = mem, cpu_units = cpu\<rparr>])))
      | _ \<Rightarrow> Inr [])"

definition listed_redeemer :: "(json \<Rightarrow> string) \<Rightarrow> json \<Rightarrow> redeemer_entry list result" where
  "listed_redeemer str_of j =
     (case j of JDict entry \<Rightarrow>
        (let validator = (case field entry ''validator'' of JDict v \<Rightarrow> v | _ \<Rightarrow> []);
             purpose = (if truthy (field validator ''purpose'') then field validator ''purpose''
                        else if truthy (field entry ''purpose'') then field entry ''purpose'' else JStr []);
             pointer_index = dict_get validator ''index'' (field entry ''index'') in
         rbind (redeemer_exunits (JDict entry)) (\<lambda>(mem, cpu).
         rbind (if pointer_index \<noteq> JNull then int_or REDEEMER_INDEX_UNKNOWN pointer_index else Inr REDEEMER_INDEX_UNKNOWN) (\<lambda>i.
           Inr [\<lparr>re_purpose = (case purpose of JStr p \<Rightarrow> p | _ \<Rightarrow> str_of purpose), re_index = i, payload_hex = payload_of entry,
                 memory_units = mem, cpu_units = cpu\<rparr>])))
      | _ \<Rightarrow> Inr [])"

definition extract_redeemers :: "(json \<Rightarrow> string) \<Rightarrow> (string, json) dict \<Rightarrow> redeemer_entry list result" where
  "extract_redeemers str_of raw =
     (let redeemers = field raw ''redeemers'' in
      if \<not> truthy redeemers then Inr []
      else case redeemers of
             JDict d \<Rightarrow> rbind (rmap keyed_redeemer d) (\<lambda>es. Inr (concat es))
           | JList rs \<Rightarrow> rbind (rmap (listed_redeemer str_of) rs) (\<lambda>es. Inr (concat es))
           | _ \<Rightarrow> Inr [])"

definition spend_redeemer_payloads :: "(json \<Rightarrow> string) \<Rightarrow> (string, json) dict \<Rightarrow> string list result" where
  "spend_redeemer_payloads str_of raw =
     rbind (extract_redeemers str_of raw) (\<lambda>es.
       Inr (List.map_filter (\<lambda>e. if re_purpose e = REDEEMER_PURPOSE_SPEND then payload_hex e else None) es))"

definition cpu_of :: "json \<Rightarrow> int result" where
  "cpu_of r =
     (case r of
        JDict d \<Rightarrow>
          (case dict_get d ''executionUnits'' (dict_get d ''budget'' (JDict [])) of
             JDict budget \<Rightarrow> int_or 0 (or_zero (dict_get budget ''cpu'' (dict_get budget ''steps'' (JInt 0))))
           | _ \<Rightarrow> Inr 0)
      | _ \<Rightarrow> Inr 0)"

definition total_exunits_cpu :: "(string, json) dict \<Rightarrow> int result" where
  "total_exunits_cpu raw =
     (let redeemers = field raw ''redeemers'' in
      if \<not> truthy redeemers then Inr 0
      else rbind (case redeemers of JDict d \<Rightarrow> Inr (map snd d) | _ \<Rightarrow> iter_json redeemers) (\<lambda>items.
           rbind (rmap cpu_of items) (\<lambda>ns. Inr (sum_list ns))))"

section \<open>Groups and flows\<close>

text \<open>\<open>payment_credential_or_raw\<close> on an address of any type: the cache in front of it refuses what cannot be hashed,
  a falsy value is its own key and never that of a group, and a number has no characters.\<close>

definition credential_of :: "json \<Rightarrow> string option result" where
  "credential_of addr =
     (case addr of
        JStr a \<Rightarrow> Inr (Some (payment_credential_or_raw a))
      | JList _ \<Rightarrow> Inl TypeError
      | JDict _ \<Rightarrow> Inl TypeError
      | _ \<Rightarrow> if truthy addr then Inl TypeError else Inr None)"

definition item_credential :: "json \<Rightarrow> string option result" where
  "item_credential item = rbind (jget item ''address'' (JStr [])) credential_of"

text \<open>\<open>is_script_address\<close> of a value of any type, and the address when it holds.\<close>

definition script_address_of :: "json \<Rightarrow> string option result" where
  "script_address_of addr =
     (if \<not> truthy addr then Inr None
      else case addr of JStr a \<Rightarrow> Inr (if is_script_address a then Some a else None) | _ \<Rightarrow> Inl AttributeError)"

fun add_inputs :: "json list \<Rightarrow> (string, json list) dict \<Rightarrow> (string, json list) dict result" where
  "add_inputs [] groups = Inr groups"
| "add_inputs (inp # inps) groups =
     rbind (rbind (jget inp ''address'' (JStr [])) script_address_of) (\<lambda>sa. case sa of
         None \<Rightarrow> add_inputs inps groups
       | Some a \<Rightarrow>
           let key = payment_credential_or_raw a
           in add_inputs inps (AList.update key (dict_get groups key [] @ [inp]) groups))"

definition group_inputs_by_script :: "(string, json) dict \<Rightarrow> (string, json list) dict result" where
  "group_inputs_by_script raw = rbind (iter_json (dict_get raw ''inputs'' (JList []))) (\<lambda>inps. add_inputs inps [])"

text \<open>What the items at a credential contribute, in order.\<close>

fun gather_list :: "(json \<Rightarrow> 'a list result) \<Rightarrow> string \<Rightarrow> json list \<Rightarrow> 'a list result" where
  "gather_list f key [] = Inr []"
| "gather_list f key (item # items) =
     rbind (item_credential item) (\<lambda>c.
       if c = Some key
       then rbind (rbind (jget item ''value'' JNull) f) (\<lambda>xs. rbind (gather_list f key items) (\<lambda>ys. Inr (xs @ ys)))
       else gather_list f key items)"

definition gather :: "(json \<Rightarrow> 'a list result) \<Rightarrow> string \<Rightarrow> json \<Rightarrow> 'a list result" where
  "gather f key items = rbind (iter_json items) (gather_list f key)"

definition lovelace_at :: "string \<Rightarrow> json \<Rightarrow> int result" where
  "lovelace_at key items = rbind (gather (\<lambda>v. rbind (extract_lovelace v) (\<lambda>n. Inr [n])) key items) (\<lambda>ns. Inr (sum_list ns))"

definition compute_lovelace_flow :: "json \<Rightarrow> json \<Rightarrow> string \<Rightarrow> (int \<times> int) result" where
  "compute_lovelace_flow inputs outputs key =
     rbind (lovelace_at key inputs) (\<lambda>value_in. rbind (lovelace_at key outputs) (\<lambda>value_out. Inr (value_in, value_out)))"

definition add_flow :: "int \<Rightarrow> (string \<times> string, int) dict \<Rightarrow> (string \<times> string) \<times> int \<Rightarrow> (string \<times> string, int) dict" where
  "add_flow sign flow e = (case e of (asset, qty) \<Rightarrow> AList.update asset (dict_get flow asset 0 + sign * qty) flow)"

definition compute_n_assets_out :: "json \<Rightarrow> json \<Rightarrow> string \<Rightarrow> int result" where
  "compute_n_assets_out inputs outputs key =
     rbind (gather iter_assets key inputs) (\<lambda>ins. rbind (gather iter_assets key outputs) (\<lambda>outs.
       Inr (int (length (filter (\<lambda>(_, net). net > 0) (foldl (add_flow (- 1)) (foldl (add_flow 1) [] ins) outs))))))"

section \<open>Settings\<close>

record multiple_sat_settings =
  ms_W :: json
  ms_BOOT :: json
  HEADROOM :: rat
  ms_ALLOWLIST :: "(string, json list) dict"
  ms_REASON_T :: rat
  LAZY_VALIDATOR_THRESHOLD :: rat
  LAZY_VALIDATOR_FLOOR :: rat
  LAZY_VALIDATOR_EXTRACTION_MIN :: rat
  SWEEP_GUARD_ENABLED :: bool
  SWEEP_REQ_UNIFORM_RED :: bool
  SWEEP_REQ_NO_RETURN :: bool
  SWEEP_MIN_INPUTS :: int
  SUPP_ESCAPE_ENABLED :: bool
  SUPP_ESCAPE_FLOOR_MIN :: rat
  SAT_FLOOR_EXTRACTION_MIN :: rat
  SAT_FLOOR_INPUTS_MIN :: rat
  SAT_FLOOR_VALUE :: rat

definition load_multiple_sat :: "json \<Rightarrow> multiple_sat_settings result" where
  "load_multiple_sat cfg =
     rbind (jidx cfg ''weights'') (\<lambda>w. rbind (jidx cfg ''bootstrap_anchors'') (\<lambda>bo.
     rbind (float_at cfg ''per_script_extraction_headroom'') (\<lambda>hr.
     rbind (rbind (jget cfg ''allowlist_prefixes'' JNull) load_network_map) (\<lambda>al.
     rbind (float_at cfg ''reason_threshold'') (\<lambda>rt. rbind (float_at cfg ''lazy_validator_threshold'') (\<lambda>lt.
     rbind (float_at cfg ''lazy_validator_floor'') (\<lambda>lf. rbind (float_at cfg ''lazy_validator_extraction_min'') (\<lambda>lm.
     rbind (jidx cfg ''uniform_sweep_guard'') (\<lambda>sg. rbind (jidx sg ''enabled'') (\<lambda>ge.
     rbind (jidx sg ''require_uniform_redeemer'') (\<lambda>gu. rbind (jidx sg ''require_no_script_return'') (\<lambda>gn.
     rbind (int_at sg ''min_inputs'') (\<lambda>gm. rbind (jidx cfg ''suppression_escape'') (\<lambda>se.
     rbind (jidx se ''enabled'') (\<lambda>ee. rbind (float_at se ''extraction_floor_min'') (\<lambda>em.
     rbind (jidx cfg ''saturation_floor'') (\<lambda>sf. rbind (float_at sf ''extraction_min'') (\<lambda>sx.
     rbind (float_at sf ''inputs_min'') (\<lambda>si. rbind (float_at sf ''floor'') (\<lambda>sv.
       Inr \<lparr>ms_W = w, ms_BOOT = bo, HEADROOM = hr, ms_ALLOWLIST = al, ms_REASON_T = rt, LAZY_VALIDATOR_THRESHOLD = lt,
            LAZY_VALIDATOR_FLOOR = lf, LAZY_VALIDATOR_EXTRACTION_MIN = lm, SWEEP_GUARD_ENABLED = truthy ge,
            SWEEP_REQ_UNIFORM_RED = truthy gu, SWEEP_REQ_NO_RETURN = truthy gn, SWEEP_MIN_INPUTS = gm,
            SUPP_ESCAPE_ENABLED = truthy ee, SUPP_ESCAPE_FLOOR_MIN = em, SAT_FLOOR_EXTRACTION_MIN = sx,
            SAT_FLOOR_INPUTS_MIN = si, SAT_FLOOR_VALUE = sv\<rparr>))))))))))))))))))))"

section \<open>The axes of a group\<close>

definition PER_SCRIPT_ONLY :: "string list" where "PER_SCRIPT_ONLY = [''per_script'']"

definition BASELINE_SPECS :: "(string \<times> string list option) list" where
  "BASELINE_SPECS =
     [(''net_value_out_of_script'', Some PER_SCRIPT_ONLY), (''n_assets_out_of_script'', Some PER_SCRIPT_ONLY),
      (''exunits_per_script_input'', None), (''n_inputs_same_script'', None), (''sender_recurrence'', None)]"

definition resolve_baselines :: "multiple_sat_settings \<Rightarrow> scoring_env \<Rightarrow> string \<Rightarrow> (string, rat \<times> rat \<times> string) dict result" where
  "resolve_baselines cfg env representative_addr =
     rmap (\<lambda>(feature, allowed). rbind (resolve_axis env feature ''per_script'' representative_addr (ms_BOOT cfg) feature allowed)
       (\<lambda>b. Inr (feature, b))) BASELINE_SPECS"

definition extraction_anchor :: "multiple_sat_settings \<Rightarrow> rat \<Rightarrow> rat \<Rightarrow> string \<Rightarrow> rat" where
  "extraction_anchor cfg p50 p99 source =
     (if source = ''per_script'' \<and> p99 > p50 then fadd p50 (fmul (fsub p99 p50) (HEADROOM cfg)) else p99)"

definition dominant_source :: "string list \<Rightarrow> string" where
  "dominant_source sources =
     (case filter (\<lambda>tier. tier \<in> set sources) [''per_script'', ''per_policy'', ''global'', ''bootstrap''] of tier # _ \<Rightarrow> tier | [] \<Rightarrow> ''bootstrap'')"

record script_axes =
  lovelace_in :: int
  lovelace_out :: int
  net_value :: int
  n_assets_out :: int
  exunits_per_input :: rat
  s_extraction_lov :: rat
  s_extraction_assets :: rat
  s_extraction :: rat
  s_extraction_floor :: rat
  s_exunits_inv :: rat
  s_inputs :: rat
  ms_s_recurrence :: rat
  bl_source :: string

text \<open>A dict that was just built under the key is subscripted.\<close>

definition bl_at :: "(string, rat \<times> rat \<times> string) dict \<Rightarrow> string \<Rightarrow> (rat \<times> rat \<times> string) result" where
  "bl_at bl feature = (case map_of bl feature of None \<Rightarrow> Inl KeyError | Some b \<Rightarrow> Inr b)"

definition compute_axes ::
  "multiple_sat_settings \<Rightarrow> scoring_env \<Rightarrow> (string, json) dict \<Rightarrow> json \<Rightarrow> string \<Rightarrow> string \<Rightarrow> nat \<Rightarrow> int \<Rightarrow> rat \<Rightarrow> script_axes result" where
  "compute_axes cfg env raw outputs representative_addr script_key n_inputs total_cpu sender_recurrence =
     (let inputs = dict_get raw ''inputs'' (JList []) in
      rbind (compute_lovelace_flow inputs outputs script_key) (\<lambda>(lov_in, lov_out).
      rbind (compute_n_assets_out inputs outputs script_key) (\<lambda>assets_out.
      rbind (resolve_baselines cfg env representative_addr) (\<lambda>bl.
      rbind (bl_at bl ''net_value_out_of_script'') (\<lambda>(nv50, nv99, bl_nv).
      rbind (bl_at bl ''n_assets_out_of_script'') (\<lambda>(na50, na99, bl_na).
      rbind (bl_at bl ''exunits_per_script_input'') (\<lambda>(ex50, ex99, bl_ex).
      rbind (bl_at bl ''n_inputs_same_script'') (\<lambda>(ni50, ni99, bl_ni).
      rbind (bl_at bl ''sender_recurrence'') (\<lambda>(rc50, rc99, bl_rc).
      let net = max 0 (lov_in - lov_out);
          per_input = fdiv (fl (of_int total_cpu)) (fadd (fl (of_nat n_inputs)) EPSILON);
          value = fl (of_int net);
          assets = fl (of_int assets_out);
          s_lov = normalise value nv50 (extraction_anchor cfg nv50 nv99 bl_nv);
          s_assets = normalise assets na50 (extraction_anchor cfg na50 na99 bl_na) in
      Inr \<lparr>lovelace_in = lov_in, lovelace_out = lov_out, net_value = net, n_assets_out = assets_out, exunits_per_input = per_input,
           s_extraction_lov = s_lov, s_extraction_assets = s_assets, s_extraction = max s_lov s_assets,
           s_extraction_floor = max (normalise value nv50 nv99) (normalise assets na50 na99),
           s_exunits_inv = normalise_inverted per_input ex50 ex99, s_inputs = normalise (fl (of_nat n_inputs)) ni50 ni99,
           ms_s_recurrence = normalise sender_recurrence rc50 rc99, bl_source = dominant_source [bl_nv, bl_na, bl_ex, bl_ni, bl_rc]\<rparr>)))))))))"

section \<open>Exemptions, floors and suppression\<close>

fun any_allowlisted :: "json list \<Rightarrow> string list \<Rightarrow> bool result" where
  "any_allowlisted prefixes [] = Inr False"
| "any_allowlisted prefixes (a # as) = rbind (any_prefix a prefixes) (\<lambda>b. if b then Inr True else any_allowlisted prefixes as)"

text \<open>The addresses of the group; an address whose credential is the key is a string.\<close>

fun group_addresses :: "string \<Rightarrow> json list \<Rightarrow> string list result" where
  "group_addresses key [] = Inr []"
| "group_addresses key (inp # inps) =
     rbind (item_credential inp) (\<lambda>c. rbind (jget inp ''address'' (JStr [])) (\<lambda>addr. rbind (group_addresses key inps) (\<lambda>as.
       Inr (case addr of JStr a \<Rightarrow> if c = Some key then a # as else as | _ \<Rightarrow> as))))"

definition group_allowlisted :: "multiple_sat_settings \<Rightarrow> string \<Rightarrow> json \<Rightarrow> string \<Rightarrow> bool result" where
  "group_allowlisted cfg network inputs script_key =
     rbind (iter_json inputs) (\<lambda>inps. rbind (group_addresses script_key inps) (\<lambda>as.
       any_allowlisted (dict_get (ms_ALLOWLIST cfg) network []) (remdups as)))"

definition is_decoded_payment_credential :: "string \<Rightarrow> bool" where
  "is_decoded_payment_credential script_key \<longleftrightarrow>
     length script_key = PAYMENT_CRED_BYTES * 2 \<and> list_all (\<lambda>c. c \<in> set ''0123456789abcdef'') script_key"

fun returns_to :: "string \<Rightarrow> json list \<Rightarrow> bool result" where
  "returns_to key [] = Inr False"
| "returns_to key (out # outs) = rbind (item_credential out) (\<lambda>c. if c = Some key then Inr True else returns_to key outs)"

definition is_uniform_sweep :: "multiple_sat_settings \<Rightarrow> string \<Rightarrow> nat \<Rightarrow> json \<Rightarrow> string list \<Rightarrow> bool result" where
  "is_uniform_sweep cfg script_key n_inputs outputs payloads =
     (if \<not> SWEEP_GUARD_ENABLED cfg then Inr False
      else if int n_inputs < SWEEP_MIN_INPUTS cfg then Inr False
      else if SWEEP_REQ_NO_RETURN cfg \<and> \<not> is_decoded_payment_credential script_key then Inr False
      else if SWEEP_REQ_UNIFORM_RED cfg \<and> (length payloads < n_inputs \<or> length (remdups payloads) \<noteq> 1) then Inr False
      else if SWEEP_REQ_NO_RETURN cfg then rbind (rbind (iter_json outputs) (returns_to script_key)) (\<lambda>b. Inr (\<not> b))
      else Inr True)"

type_synonym axis_weights = "rat \<times> rat \<times> rat \<times> rat"

definition axis_weights_of :: "multiple_sat_settings \<Rightarrow> axis_weights result" where
  "axis_weights_of cfg =
     rbind (float_at (ms_W cfg) ''extraction'') (\<lambda>w_ex. rbind (float_at (ms_W cfg) ''exunits_inv'') (\<lambda>w_eu.
     rbind (float_at (ms_W cfg) ''inputs'') (\<lambda>w_ni. rbind (float_at (ms_W cfg) ''recurrence'') (\<lambda>w_rc. Inr (w_ex, w_eu, w_ni, w_rc)))))"

definition reweight_without_extraction :: "multiple_sat_settings \<Rightarrow> axis_weights result" where
  "reweight_without_extraction cfg =
     rbind (axis_weights_of cfg) (\<lambda>(w_ex, w_eu, w_ni, w_rc).
       let surviving = fadd w_ni w_rc in
       if surviving = 0 then Inl ZeroDivisionError
       else Inr (0, w_eu, fadd w_ni (fmul w_ex (fdiv w_ni surviving)), fadd w_rc (fmul w_ex (fdiv w_rc surviving))))"

definition floor_applies :: "multiple_sat_settings \<Rightarrow> script_axes \<Rightarrow> bool \<Rightarrow> bool \<Rightarrow> bool" where
  "floor_applies cfg axes allowlisted uniform_sweep \<longleftrightarrow>
     \<not> allowlisted \<and> \<not> uniform_sweep \<and> s_exunits_inv axes > LAZY_VALIDATOR_THRESHOLD cfg \<and>
     s_extraction_floor axes > LAZY_VALIDATOR_EXTRACTION_MIN cfg"

definition saturation_floor_applies :: "multiple_sat_settings \<Rightarrow> script_axes \<Rightarrow> bool \<Rightarrow> bool \<Rightarrow> bool" where
  "saturation_floor_applies cfg axes allowlisted uniform_sweep \<longleftrightarrow>
     \<not> allowlisted \<and> \<not> uniform_sweep \<and> s_extraction_floor axes \<ge> SAT_FLOOR_EXTRACTION_MIN cfg \<and> s_inputs axes \<ge> SAT_FLOOR_INPUTS_MIN cfg"

definition suppression_outcome :: "multiple_sat_settings \<Rightarrow> script_axes \<Rightarrow> bool \<Rightarrow> bool \<Rightarrow> bool \<Rightarrow> bool \<times> bool" where
  "suppression_outcome cfg axes allowlisted uniform_sweep floored =
     (if floored \<or> \<not> (uniform_sweep \<or> lovelace_out axes > 0) then (False, False)
      else let escape = (SUPP_ESCAPE_ENABLED cfg \<and> \<not> allowlisted \<and> s_extraction_floor axes \<ge> SUPP_ESCAPE_FLOOR_MIN cfg)
           in (\<not> escape, escape))"

definition collect_reasons :: "multiple_sat_settings \<Rightarrow> script_axes \<Rightarrow> bool \<Rightarrow> bool \<Rightarrow> bool \<Rightarrow> bool \<Rightarrow> bool \<Rightarrow> string list" where
  "collect_reasons cfg axes floored allowlisted uniform_sweep escaped sat_floored =
     reason (s_extraction_lov axes > ms_REASON_T cfg) ''large_net_value_extraction''
     @ reason (s_extraction_assets axes > ms_REASON_T cfg) ''native_asset_extraction''
     @ reason (s_exunits_inv axes > ms_REASON_T cfg) ''low_exunits_per_input''
     @ reason floored ''lazy_validator_band_floor'' @ reason sat_floored ''saturation_band_floor''
     @ reason (s_inputs axes > ms_REASON_T cfg) ''high_n_inputs_same_script''
     @ reason allowlisted ''allowlisted_batch_script'' @ reason uniform_sweep ''uniform_script_sweep_guard''
     @ reason escaped ''extraction_escape_moderate_cap''"

section \<open>The scorer\<close>

text \<open>What the banding reads of a group: its axes, neutralised when it is allowlisted, its weights and both exemptions.\<close>

record group_facts =
  gf_axes :: script_axes
  gf_weights :: axis_weights
  gf_allowlisted :: bool

definition group_facts_of ::
  "multiple_sat_settings \<Rightarrow> scoring_env \<Rightarrow> string \<Rightarrow> (string, json) dict \<Rightarrow> json \<Rightarrow> string \<Rightarrow> string \<Rightarrow> nat \<Rightarrow> int \<Rightarrow> rat \<Rightarrow> group_facts result" where
  "group_facts_of cfg env network raw outputs representative_addr script_key n_inputs total_cpu sender_recurrence =
     rbind (compute_axes cfg env raw outputs representative_addr script_key n_inputs total_cpu sender_recurrence) (\<lambda>axes.
     rbind (group_allowlisted cfg network (dict_get raw ''inputs'' (JList [])) script_key) (\<lambda>allowlisted.
       if allowlisted
       then rbind (reweight_without_extraction cfg) (\<lambda>w.
              Inr \<lparr>gf_axes = axes\<lparr>s_extraction := 0, s_extraction_lov := 0, s_extraction_assets := 0\<rparr>, gf_weights = w, gf_allowlisted = True\<rparr>)
       else rbind (axis_weights_of cfg) (\<lambda>w. Inr \<lparr>gf_axes = axes, gf_weights = w, gf_allowlisted = False\<rparr>)))"

definition weighted_axes :: "axis_weights \<Rightarrow> script_axes \<Rightarrow> rat" where
  "weighted_axes w axes =
     (case w of (w_ex, w_eu, w_ni, w_rc) \<Rightarrow>
        fadd (fadd (fadd (fmul w_ex (s_extraction axes)) (fmul w_eu (s_exunits_inv axes))) (fmul w_ni (s_inputs axes))) (fmul w_rc (ms_s_recurrence axes)))"

definition banded :: "multiple_sat_settings \<Rightarrow> script_axes \<Rightarrow> bool \<Rightarrow> bool \<Rightarrow> rat \<Rightarrow> rat" where
  "banded cfg axes allowlisted uniform_sweep final =
     (let final = (if floor_applies cfg axes allowlisted uniform_sweep then max final (LAZY_VALIDATOR_FLOOR cfg) else final);
          final = (if saturation_floor_applies cfg axes allowlisted uniform_sweep then max final (SAT_FLOOR_VALUE cfg) else final)
      in if uniform_sweep then min final BAND_MODERATE_MAX else final)"

definition sat_evidence :: "script_axes \<Rightarrow> string \<Rightarrow> nat \<Rightarrow> int \<Rightarrow> nat \<Rightarrow> bool \<Rightarrow> bool \<Rightarrow> (string, json) dict" where
  "sat_evidence axes representative_addr n_inputs total_cpu redeemer_count allowlisted uniform_sweep =
     [(''n_inputs_same_script'', JInt (int n_inputs)), (''redeemer_count'', JInt (int redeemer_count)),
      (''redeemer_input_ratio'', rounded (fdiv (fl (of_nat redeemer_count)) (fl (of_nat (max 1 n_inputs)))) 4),
      (''cpu_units_total'', JInt total_cpu), (''cpu_units_per_input'', JInt (py_int (exunits_per_input axes))),
      (''value_extracted_lovelace'', JInt (net_value axes)), (''value_returned_lovelace'', JInt (lovelace_out axes)),
      (''value_input_lovelace'', JInt (lovelace_in axes)), (''n_assets_extracted'', JInt (n_assets_out axes)),
      (''target_script_address'', JStr representative_addr),
      (''lovelace_full_drain'', JBool (lovelace_out axes = 0 \<and> lovelace_in axes > 0)),
      (''allowlisted'', JBool allowlisted), (''uniform_sweep'', JBool uniform_sweep)]"

definition sat_result ::
  "multiple_sat_settings \<Rightarrow> script_axes \<Rightarrow> string \<Rightarrow> nat \<Rightarrow> int \<Rightarrow> nat \<Rightarrow> bool \<Rightarrow> bool \<Rightarrow> rat \<Rightarrow> scorer_result" where
  "sat_result cfg axes representative_addr n_inputs total_cpu redeemer_count allowlisted uniform_sweep final =
     (let floored = floor_applies cfg axes allowlisted uniform_sweep;
          sat_floored = saturation_floor_applies cfg axes allowlisted uniform_sweep;
          (suppressed, escaped) = suppression_outcome cfg axes allowlisted uniform_sweep (floored \<or> sat_floored);
          final = banded cfg axes allowlisted uniform_sweep final in
      if suppressed
      then no_finding
             [(''s_extraction'', rounded (s_extraction axes) 4), (''s_exunits_inv'', rounded (s_exunits_inv axes) 4),
              (''s_inputs'', rounded (s_inputs axes) 4), (''s_recurrence'', rounded (ms_s_recurrence axes) 4),
              (''n_inputs_same_script'', JFloat (fl (of_nat n_inputs))), (''uniform_sweep'', JBool uniform_sweep),
              (''value_returned_lovelace'', JInt (lovelace_out axes))]
             (bl_source axes) []
      else \<lparr>score = (if escaped then min (max final BAND_MODERATE_THRESHOLD) BAND_MODERATE_MAX else final),
            sub_scores =
              [(''s_extraction'', rounded (s_extraction axes) 4), (''s_extraction_lov'', rounded (s_extraction_lov axes) 4),
               (''s_extraction_assets'', rounded (s_extraction_assets axes) 4), (''s_extraction_floor'', rounded (s_extraction_floor axes) 4),
               (''s_exunits_inv'', rounded (s_exunits_inv axes) 4), (''s_inputs'', rounded (s_inputs axes) 4),
               (''s_recurrence'', rounded (ms_s_recurrence axes) 4), (''n_inputs_same_script'', JFloat (fl (of_nat n_inputs))),
               (''n_assets_out_of_script'', JFloat (fl (of_int (n_assets_out axes))))],
            reasons = collect_reasons cfg axes floored allowlisted uniform_sweep escaped sat_floored,
            baseline_source = bl_source axes, severity = None,
            evidence = sat_evidence axes representative_addr n_inputs total_cpu redeemer_count allowlisted uniform_sweep\<rparr>)"

definition score_script ::
  "multiple_sat_settings \<Rightarrow> scoring_env \<Rightarrow> string \<Rightarrow> (string, json) dict \<Rightarrow> json \<Rightarrow> string list \<Rightarrow> int \<Rightarrow> rat \<Rightarrow>
     string \<Rightarrow> string \<Rightarrow> nat \<Rightarrow> scorer_result result" where
  "score_script cfg env network raw outputs payloads total_cpu sender_recurrence script_key representative_addr n_inputs =
     rbind (group_facts_of cfg env network raw outputs representative_addr script_key n_inputs total_cpu sender_recurrence) (\<lambda>g.
     rbind (is_uniform_sweep cfg script_key n_inputs outputs payloads) (\<lambda>uniform_sweep.
       Inr (sat_result cfg (gf_axes g) representative_addr n_inputs total_cpu (length payloads) (gf_allowlisted g) uniform_sweep
              (finalise_score (weighted_axes (gf_weights g) (gf_axes g)) 100 2))))"

definition multiple_sat_gate :: "json \<Rightarrow> bool result" where
  "multiple_sat_gate raw_data =
     (case raw_data of
        JDict raw \<Rightarrow>
          (if raw = [] \<or> \<not> has_spend_redeemer raw then Inr False
           else rbind (group_inputs_by_script raw) (\<lambda>groups. Inr (list_ex (\<lambda>(_, inps). length inps \<ge> 2) groups)))
      | _ \<Rightarrow> Inr False)"

text \<open>Every input of a group has an address, which is a string.\<close>

definition representative :: "string \<Rightarrow> json list \<Rightarrow> string" where
  "representative script_key inps =
     (case inps of JDict d # _ \<Rightarrow> (case dict_get d ''address'' (JStr script_key) of JStr a \<Rightarrow> a | _ \<Rightarrow> []) | _ \<Rightarrow> [])"

fun best_group :: "(string \<times> json list \<Rightarrow> scorer_result result) \<Rightarrow> (string, json list) dict \<Rightarrow> scorer_result \<Rightarrow> scorer_result result" where
  "best_group f [] best = Inr best"
| "best_group f ((script_key, inps) # gs) best =
     (if length inps < 2 then best_group f gs best
      else rbind (f (script_key, inps)) (\<lambda>r. best_group f gs (if score r \<ge> score best then r else best)))"

text \<open>The features of a transaction: its raw data, the recurrence of its sender if there is one, its network.\<close>

definition multiple_sat_score ::
  "multiple_sat_settings \<Rightarrow> (json \<Rightarrow> string) \<Rightarrow> scoring_env \<Rightarrow> string \<Rightarrow> json \<Rightarrow> (string, json) dict \<Rightarrow> scorer_result result" where
  "multiple_sat_score cfg str_of env network recurrence raw =
     (let outputs = dict_get raw ''outputs'' (JList []) in
      rbind (total_exunits_cpu raw) (\<lambda>total_cpu.
      rbind (finite_float (if truthy recurrence then recurrence else JFloat 0)) (\<lambda>sender_recurrence.
      rbind (group_inputs_by_script raw) (\<lambda>groups.
      rbind (spend_redeemer_payloads str_of raw) (\<lambda>payloads.
        best_group (\<lambda>(script_key, inps). score_script cfg env network raw outputs payloads total_cpu sender_recurrence
            script_key (representative script_key inps) (length inps)) groups (ScorerResult\<lparr>score := - 1\<rparr>))))))"

section \<open>Groups are the inputs at a credential\<close>

text \<open>The credential of an input at a script address.\<close>

definition script_key_of :: "json \<Rightarrow> string option" where
  "script_key_of inp =
     (case inp of JDict d \<Rightarrow> (case dict_get d ''address'' (JStr []) of
          JStr a \<Rightarrow> if is_script_address a then Some (payment_credential_or_raw a) else None | _ \<Rightarrow> None) | _ \<Rightarrow> None)"

lemma script_address_key:
  assumes "rbind (jget inp ''address'' (JStr [])) script_address_of = Inr sa"
  shows "script_key_of inp = map_option payment_credential_or_raw sa"
proof (cases inp)
  case (JDict d)
  then show ?thesis using assms
    by (cases "dict_get d ''address'' (JStr [])") (auto simp: jget_def script_address_of_def script_key_of_def is_script_address_def split: if_splits)
qed (use assms in \<open>simp_all add: jget_def\<close>)

lemma add_inputs_filter:
  "add_inputs inps groups = Inr groups' \<Longrightarrow>
     dict_get groups' k [] = dict_get groups k [] @ filter (\<lambda>i. script_key_of i = Some k) inps"
proof (induction inps groups arbitrary: groups' rule: add_inputs.induct)
  case (2 inp inps groups)
  obtain sa where sa: "rbind (jget inp ''address'' (JStr [])) script_address_of = Inr sa"
    using "2.prems" by (auto simp: rbind_eq_Inr_iff)
  note key = script_address_key [OF sa]
  show ?case
  proof (cases sa)
    case None
    then show ?thesis using 2 sa key by simp
  next
    case (Some a)
    then show ?thesis using "2.IH"(2) [OF refl] "2.prems" sa key by (auto simp: Let_def dict_get_def update_conv')
  qed
qed simp

lemma add_inputs_distinct: "add_inputs inps groups = Inr groups' \<Longrightarrow> distinct (map fst groups) \<Longrightarrow> distinct (map fst groups')"
  by (induction inps groups arbitrary: groups' rule: add_inputs.induct)
     (auto simp: rbind_eq_Inr_iff Let_def distinct_update split: option.splits)

lemma groups_exact:
  assumes "group_inputs_by_script raw = Inr groups" "iter_json (dict_get raw ''inputs'' (JList [])) = Inr inputs"
  shows "dict_get groups k [] = filter (\<lambda>i. script_key_of i = Some k) inputs" "distinct (map fst groups)"
  using assms add_inputs_filter [of inputs "[]" groups k] add_inputs_distinct [of inputs "[]" groups]
  by (simp_all add: group_inputs_by_script_def) (simp add: dict_get_def)

text \<open>The inputs at a credential, and what the scorer reads of them, straight from the transaction.\<close>

definition inputs_at :: "(string, json) dict \<Rightarrow> string \<Rightarrow> json list" where
  "inputs_at raw key = (case iter_json (dict_get raw ''inputs'' (JList [])) of Inl _ \<Rightarrow> [] | Inr inputs \<Rightarrow> filter (\<lambda>i. script_key_of i = Some key) inputs)"

definition group_view ::
  "multiple_sat_settings \<Rightarrow> (json \<Rightarrow> string) \<Rightarrow> scoring_env \<Rightarrow> string \<Rightarrow> json \<Rightarrow> (string, json) dict \<Rightarrow> string \<Rightarrow> (script_axes \<times> bool \<times> bool) result" where
  "group_view cfg str_of env network recurrence raw key =
     (let inps = inputs_at raw key; outputs = dict_get raw ''outputs'' (JList []) in
      rbind (total_exunits_cpu raw) (\<lambda>cpu.
      rbind (finite_float (if truthy recurrence then recurrence else JFloat 0)) (\<lambda>rc.
      rbind (spend_redeemer_payloads str_of raw) (\<lambda>payloads.
      rbind (group_facts_of cfg env network raw outputs (representative key inps) key (length inps) cpu rc) (\<lambda>g.
      rbind (is_uniform_sweep cfg key (length inps) outputs payloads) (\<lambda>sweep. Inr (gf_axes g, gf_allowlisted g, sweep)))))))"

section \<open>The strongest group decides\<close>

lemma best_group_upper:
  "best_group f gs best = Inr r \<Longrightarrow>
     score best \<le> score r \<and> (\<forall>e \<in> set gs. 2 \<le> length (snd e) \<longrightarrow> (\<exists>r'. f e = Inr r' \<and> score r' \<le> score r))"
proof (induction f gs best rule: best_group.induct)
  case (2 f key inps gs best)
  show ?case
  proof (cases "length inps < 2")
    case False
    then obtain r' where r': "f (key, inps) = Inr r'" "best_group f gs (if score r' \<ge> score best then r' else best) = Inr r"
      using "2.prems" by (auto simp: rbind_eq_Inr_iff)
    then show ?thesis using "2.IH"(2) [OF False, of r'] by (auto split: if_splits)
  qed (use 2 in auto)
qed simp

lemma best_group_mem:
  "best_group f gs best = Inr r \<Longrightarrow> r = best \<or> (\<exists>e \<in> set gs. 2 \<le> length (snd e) \<and> f e = Inr r)"
proof (induction f gs best rule: best_group.induct)
  case (2 f key inps gs best)
  show ?case
  proof (cases "length inps < 2")
    case False
    then obtain r' where r': "f (key, inps) = Inr r'" "best_group f gs (if score r' \<ge> score best then r' else best) = Inr r"
      using "2.prems" by (auto simp: rbind_eq_Inr_iff)
    then show ?thesis using "2.IH"(2) [OF False, of r'] False by (auto split: if_splits)
  qed (use 2 in auto)
qed simp

lemma groups_inputs_at:
  assumes "group_inputs_by_script raw = Inr groups"
  shows "(key, inps) \<in> set groups \<Longrightarrow> inps = inputs_at raw key" "inputs_at raw key \<noteq> [] \<Longrightarrow> (key, inputs_at raw key) \<in> set groups"
proof -
  obtain inputs where it: "iter_json (dict_get raw ''inputs'' (JList [])) = Inr inputs"
    using assms by (auto simp: group_inputs_by_script_def rbind_eq_Inr_iff)
  have get: "dict_get groups k [] = inputs_at raw k" for k
    using groups_exact(1) [OF assms it] by (simp add: inputs_at_def it)
  show "inps = inputs_at raw key" if "(key, inps) \<in> set groups"
    using that groups_exact(2) [OF assms it] get [of key] by (simp add: dict_get_def map_of_is_SomeI)
  show "(key, inputs_at raw key) \<in> set groups" if "inputs_at raw key \<noteq> []"
    using that get [of key] by (auto simp: dict_get_def split: option.splits dest: map_of_SomeD)
qed

text \<open>The score of a transaction bounds those of its groups and is that of one of them.\<close>

definition group_result ::
  "multiple_sat_settings \<Rightarrow> (json \<Rightarrow> string) \<Rightarrow> scoring_env \<Rightarrow> string \<Rightarrow> json \<Rightarrow> (string, json) dict \<Rightarrow> string \<Rightarrow> scorer_result \<Rightarrow> bool" where
  "group_result cfg str_of env network recurrence raw key r \<longleftrightarrow>
     2 \<le> length (inputs_at raw key) \<and>
     (\<exists>x al sw rep n cpu m final. group_view cfg str_of env network recurrence raw key = Inr (x, al, sw) \<and> r = sat_result cfg x rep n cpu m al sw final)"

lemma multiple_sat_score_groups:
  assumes "multiple_sat_score cfg str_of env network recurrence raw = Inr r"
  shows "2 \<le> length (inputs_at raw key) \<Longrightarrow> \<exists>r'. group_result cfg str_of env network recurrence raw key r' \<and> score r' \<le> score r"
    and "score r \<noteq> - 1 \<Longrightarrow> \<exists>key. group_result cfg str_of env network recurrence raw key r"
proof -
  let ?out = "dict_get raw ''outputs'' (JList [])"
  obtain cpu rc groups payloads where run: "total_exunits_cpu raw = Inr cpu"
    "finite_float (if truthy recurrence then recurrence else JFloat 0) = Inr rc"
    "group_inputs_by_script raw = Inr groups" "spend_redeemer_payloads str_of raw = Inr payloads"
    and best: "best_group (\<lambda>(script_key, inps). score_script cfg env network raw ?out payloads cpu rc
            script_key (representative script_key inps) (length inps)) groups (ScorerResult\<lparr>score := - 1\<rparr>) = Inr r"
    using assms by (auto simp: multiple_sat_score_def Let_def rbind_eq_Inr_iff)
  have view: "group_result cfg str_of env network recurrence raw k r'"
    if run_k: "score_script cfg env network raw ?out payloads cpu rc k (representative k (inputs_at raw k)) (length (inputs_at raw k)) = Inr r'"
      and two: "2 \<le> length (inputs_at raw k)" for k r'
  proof -
    obtain g sw where "group_facts_of cfg env network raw ?out (representative k (inputs_at raw k)) k (length (inputs_at raw k)) cpu rc = Inr g"
      "is_uniform_sweep cfg k (length (inputs_at raw k)) ?out payloads = Inr sw"
      and r': "r' = sat_result cfg (gf_axes g) (representative k (inputs_at raw k)) (length (inputs_at raw k)) cpu (length payloads) (gf_allowlisted g) sw
                (finalise_score (weighted_axes (gf_weights g) (gf_axes g)) 100 2)"
      using run_k by (auto simp: score_script_def rbind_eq_Inr_iff)
    then have "group_view cfg str_of env network recurrence raw k = Inr (gf_axes g, gf_allowlisted g, sw)"
      using run by (simp add: group_view_def Let_def)
    then show ?thesis using r' two unfolding group_result_def by blast
  qed
  show "\<exists>r'. group_result cfg str_of env network recurrence raw key r' \<and> score r' \<le> score r" if n: "2 \<le> length (inputs_at raw key)"
  proof -
    have "(key, inputs_at raw key) \<in> set groups" using n by (intro groups_inputs_at(2) [OF run(3)]) auto
    then show ?thesis using best_group_upper [OF best] n view by fastforce
  qed
  show "\<exists>key. group_result cfg str_of env network recurrence raw key r" if "score r \<noteq> - 1"
  proof -
    have "r \<noteq> ScorerResult\<lparr>score := - 1\<rparr>" using that by auto
    then obtain k inps where k: "(k, inps) \<in> set groups" "2 \<le> length inps"
      "score_script cfg env network raw ?out payloads cpu rc k (representative k inps) (length inps) = Inr r"
      using best_group_mem [OF best] by fastforce
    then show ?thesis using view groups_inputs_at(1) [OF run(3) k(1)] by blast
  qed
qed

section \<open>Floors and exemptions\<close>

lemma load_floors:
  assumes "load_multiple_sat sec = Inr cfg"
  shows "float_at sec ''lazy_validator_floor'' = Inr (LAZY_VALIDATOR_FLOOR cfg)"
    "float_of_json (get_path sec [''saturation_floor'', ''floor'']) = Inr (Fin (SAT_FLOOR_VALUE cfg))"
proof -
  show "float_at sec ''lazy_validator_floor'' = Inr (LAZY_VALIDATOR_FLOOR cfg)"
    using assms by (auto simp: load_multiple_sat_def rbind_eq_Inr_iff)
  obtain sf where sf: "jidx sec ''saturation_floor'' = Inr sf" "float_at sf ''floor'' = Inr (SAT_FLOOR_VALUE cfg)"
    using assms by (auto simp: load_multiple_sat_def rbind_eq_Inr_iff)
  show "float_of_json (get_path sec [''saturation_floor'', ''floor'']) = Inr (Fin (SAT_FLOOR_VALUE cfg))"
    using float_at_get_path [OF sf(2)] jidx_get_path [OF sf(1), of "[''floor'']"] by simp
qed

lemma floors_reach_high:
  assumes "validate_detection data = Inr ()" "scorer_section data ''multiple_sat'' = Inr sec" "load_multiple_sat sec = Inr cfg"
  shows "60 \<le> LAZY_VALIDATOR_FLOOR cfg" "60 \<le> SAT_FLOOR_VALUE cfg"
  using checked_cap [OF assms(1,2) load_floors(1) [OF assms(3)], of "''scorers.multiple_sat.lazy_validator_floor''" BAND_HIGH_THRESHOLD None]
    checked_leaf [OF assms(1,2) load_floors(2) [OF assms(3)], of "''scorers.multiple_sat.saturation_floor.floor''" BAND_HIGH_THRESHOLD None]
  by (simp_all add: BAND_INVARIANTS_def dots_def BAND_HIGH_THRESHOLD_def)

text \<open>A group that a floor lifts, and one that the escape keeps.\<close>

definition floored_group :: "multiple_sat_settings \<Rightarrow> script_axes \<times> bool \<times> bool \<Rightarrow> bool" where
  "floored_group cfg v = (case v of (x, al, sw) \<Rightarrow> floor_applies cfg x al sw \<or> saturation_floor_applies cfg x al sw)"

definition escaped_group :: "multiple_sat_settings \<Rightarrow> script_axes \<times> bool \<times> bool \<Rightarrow> bool" where
  "escaped_group cfg v = (case v of (x, al, sw) \<Rightarrow> SUPP_ESCAPE_ENABLED cfg \<and> \<not> al \<and> (sw \<or> lovelace_out x > 0) \<and>
     s_extraction_floor x \<ge> SUPP_ESCAPE_FLOOR_MIN cfg)"

lemma sat_result_lower:
  assumes "60 \<le> LAZY_VALIDATOR_FLOOR cfg" "60 \<le> SAT_FLOOR_VALUE cfg"
  shows "floored_group cfg (x, al, sw) \<Longrightarrow> 60 \<le> score (sat_result cfg x rep n cpu m al sw final)"
    "escaped_group cfg (x, al, sw) \<Longrightarrow> 31 \<le> score (sat_result cfg x rep n cpu m al sw final)"
  using assms
  by (auto simp: floored_group_def escaped_group_def sat_result_def suppression_outcome_def banded_def Let_def le_max_iff_disj
      floor_applies_def saturation_floor_applies_def BAND_MODERATE_THRESHOLD_def)

lemma sat_result_upper:
  assumes "60 \<le> score (sat_result cfg x rep n cpu m al sw final)"
  shows "\<not> sw \<and> (floored_group cfg (x, al, sw) \<or> lovelace_out x \<le> 0)"
  using assms
  by (auto simp: floored_group_def sat_result_def suppression_outcome_def banded_def Let_def no_finding_def ScorerResult_def min_le_iff_disj
      floor_applies_def saturation_floor_applies_def BAND_MODERATE_THRESHOLD_def split: if_splits)

lemma pages_iff: "score_to_band s \<in> {''High'', ''Critical''} \<longleftrightarrow> 60 \<le> s"
  by (auto simp: score_to_band_def BAND_HIGH_THRESHOLD_def BAND_CRITICAL_THRESHOLD_def)


text \<open>C21. A transaction pages for multiple satisfaction only if it spends two or more outputs under one payment credential
  in a group that is no uniform sweep and that meets a floor or returns no lovelace to its script.\<close>

theorem paging_needs_extraction:
  assumes "multiple_sat_score cfg str_of env network recurrence raw = Inr r" "score_to_band (score r) \<in> {''High'', ''Critical''}"
  shows "\<exists>key x al. 2 \<le> length (inputs_at raw key) \<and> group_view cfg str_of env network recurrence raw key = Inr (x, al, False) \<and>
    (floored_group cfg (x, al, False) \<or> lovelace_out x \<le> 0)"
proof -
  have high: "60 \<le> score r" using assms(2) by (simp only: pages_iff)
  then obtain key where "group_result cfg str_of env network recurrence raw key r"
    using multiple_sat_score_groups(2) [OF assms(1)] by fastforce
  then obtain x al sw rep n cpu m final where v: "2 \<le> length (inputs_at raw key)"
    "group_view cfg str_of env network recurrence raw key = Inr (x, al, sw)" and res: "r = sat_result cfg x rep n cpu m al sw final"
    unfolding group_result_def by blast
  show ?thesis using v sat_result_upper [of cfg x rep n cpu m al sw final] high unfolding res by (cases sw) auto
qed

section \<open>On the shipped configuration\<close>

definition shipped_ms :: multiple_sat_settings where
  "shipped_ms =
     \<lparr>ms_W = get_path shipped_multiple_sat [''weights''], ms_BOOT = get_path shipped_multiple_sat [''bootstrap_anchors''], HEADROOM = 3,
      ms_ALLOWLIST =
        (case get_path shipped_multiple_sat [''allowlist_prefixes''] of JDict d \<Rightarrow> map (\<lambda>(n, j). (n, case j of JList xs \<Rightarrow> xs | _ \<Rightarrow> [])) d | _ \<Rightarrow> []),
      ms_REASON_T = 1 / 2, LAZY_VALIDATOR_THRESHOLD = dec 4 5, LAZY_VALIDATOR_FLOOR = 60, LAZY_VALIDATOR_EXTRACTION_MIN = 0,
      SWEEP_GUARD_ENABLED = True, SWEEP_REQ_UNIFORM_RED = True, SWEEP_REQ_NO_RETURN = True, SWEEP_MIN_INPUTS = 10,
      SUPP_ESCAPE_ENABLED = True, SUPP_ESCAPE_FLOOR_MIN = dec 1 10, SAT_FLOOR_EXTRACTION_MIN = dec 99 100, SAT_FLOOR_INPUTS_MIN = dec 99 100,
      SAT_FLOOR_VALUE = 60\<rparr>"

lemma shipped_ms_loads: "load_multiple_sat shipped_multiple_sat = Inr shipped_ms"
  by (simp add: load_multiple_sat_def shipped_multiple_sat_def shipped_ms_def config_reads load_network_map_def network_items_def jget_def dict_get_def)

lemma shipped_ms_section: "scorer_section shipped_config ''multiple_sat'' = Inr shipped_multiple_sat"
  unfolding shipped_multiple_sat_def by (rule shipped_section) (simp add: shipped_scorers_def shipped_multiple_sat_def)

text \<open>Two tokens leave one script from two addresses that differ in their stake part, with next to no execution.\<close>

definition market_key :: string where
  "market_key = ''a65ca58a4e9c755fa830173d2a5caed458ac0c73f97db7faae2e7e3b''"

definition market_input :: "string \<Rightarrow> string \<Rightarrow> json" where
  "market_input a token = JDict [(''address'', JStr a), (''value'', JDict [(''ada'', JDict [(''lovelace'', JInt 2)]), (token, JDict [(''61'', JInt 1)])])]"

definition market_tx :: "(string, json) dict" where
  "market_tx =
     [(''inputs'', JList [market_input ''addr1wxn9efv2f6w82hagxqtn62ju4m293tqvw0uhmdl64ch8uwc0h43gt'' ''aa'',
                          market_input ''addr1zxn9efv2f6w82hagxqtn62ju4m293tqvw0uhmdl64ch8uwcqqqqqqqqqqqqqqqqqqqqqqqqqqqqqqqqqqqqqqqqqqqqq0h43gt'' ''bb'']),
      (''outputs'', JList [JDict [(''address'', JStr ''addr1q''), (''value'', JDict [(''lovelace'', JInt 4)])]]),
      (''redeemers'', JDict [(''spend:0'', JDict [(''redeemer'', JStr ''00''), (''executionUnits'', JDict [(''memory'', JInt 1), (''cpu'', JInt 10)])]),
                             (''spend:1'', JDict [(''redeemer'', JStr ''01''), (''executionUnits'', JDict [(''memory'', JInt 1), (''cpu'', JInt 10)])])])]"

abbreviation (input) market_ins :: json where "market_ins \<equiv> dict_get market_tx ''inputs'' (JList [])"

abbreviation (input) market_outs :: json where "market_outs \<equiv> dict_get market_tx ''outputs'' (JList [])"

lemma market_facts:
  "length (inputs_at market_tx market_key) = 2" "total_exunits_cpu market_tx = Inr 20"
  "spend_redeemer_payloads (\<lambda>_. []) market_tx = Inr [''00'', ''01'']"
  "map_option (map fst) (case group_inputs_by_script market_tx of Inr g \<Rightarrow> Some g | Inl _ \<Rightarrow> None) = Some [market_key]"
  "compute_lovelace_flow market_ins market_outs market_key = Inr (4, 0)"
  "compute_n_assets_out market_ins market_outs market_key = Inr 2"
  by code_simp+

lemma market_allowlist: "group_allowlisted shipped_ms ''mainnet'' market_ins market_key = Inr False"
proof -
  have "rbind (iter_json market_ins) (group_addresses market_key) =
    Inr [''addr1wxn9efv2f6w82hagxqtn62ju4m293tqvw0uhmdl64ch8uwc0h43gt'', ''addr1zxn9efv2f6w82hagxqtn62ju4m293tqvw0uhmdl64ch8uwcqqqqqqqqqqqqqqqqqqqqqqqqqqqqqqqqqqqqqqqqqqqqq0h43gt'']"
    by code_simp
  then show ?thesis
    by (auto simp: group_allowlisted_def rbind_eq_Inr_iff shipped_ms_def shipped_multiple_sat_def dict_get_def startswith_def)
qed

lemma shipped_ms_reads:
  "resolve_baselines shipped_ms bare_env a = Inr [(''net_value_out_of_script'', 5000000, 500000000, ''bootstrap''),
     (''n_assets_out_of_script'', 0, 2, ''bootstrap''), (''exunits_per_script_input'', 100000, 10000000, ''bootstrap''),
     (''n_inputs_same_script'', 2, 10, ''bootstrap''), (''sender_recurrence'', 0, 1, ''bootstrap'')]"
  "axis_weights_of shipped_ms = Inr (dec 21 50, dec 7 25, dec 4 25, dec 7 50)"
  by (simp_all add: resolve_baselines_def BASELINE_SPECS_def PER_SCRIPT_ONLY_def shipped_ms_def shipped_multiple_sat_def config_reads bare_axis axis_weights_of_def)

lemma market_axes:
  "dec 4 5 < normalise_inverted (fdiv 20 (fadd 2 EPSILON)) 100000 10000000" "0 < normalise 2 0 2"
  by code_simp+

lemma market_view:
  "\<exists>x. group_view shipped_ms (\<lambda>_. []) bare_env ''mainnet'' JNull market_tx market_key = Inr (x, False, False) \<and> floored_group shipped_ms (x, False, False)"
proof -
  have f: "fl 20 = 20" "fl 2 = 2" "finite_float (JFloat 0) = Inr 0" by (simp_all add: finite_float_def)
  have m: "SWEEP_MIN_INPUTS shipped_ms = 10" "LAZY_VALIDATOR_THRESHOLD shipped_ms = dec 4 5" "LAZY_VALIDATOR_EXTRACTION_MIN shipped_ms = 0"
    by (simp_all add: shipped_ms_def)
  have sweep: "is_uniform_sweep shipped_ms market_key 2 market_outs ps = Inr False" for ps by (simp add: is_uniform_sweep_def m)
  show ?thesis using market_axes
    by (simp add: group_view_def market_facts group_facts_of_def compute_axes_def market_allowlist shipped_ms_reads bl_at_def sweep floored_group_def
        floor_applies_def f m Let_def less_max_iff_disj)
qed

lemma market_scored: "\<exists>r. multiple_sat_score shipped_ms (\<lambda>_. []) bare_env ''mainnet'' JNull market_tx = Inr r"
proof -
  obtain groups where g: "group_inputs_by_script market_tx = Inr groups" "map fst groups = [market_key]"
    using market_facts(4) by (cases "group_inputs_by_script market_tx") simp_all
  have "inputs_at market_tx market_key \<noteq> []" using market_facts(1) by auto
  then have "groups = [(market_key, inputs_at market_tx market_key)]" using groups_inputs_at(2) [OF g(1)] g(2) by (auto simp: map_eq_Cons_conv)
  moreover obtain rc gf where "finite_float (JFloat 0) = Inr rc"
    "group_facts_of shipped_ms bare_env ''mainnet'' market_tx market_outs (representative market_key (inputs_at market_tx market_key)) market_key 2 20 rc = Inr gf"
    "is_uniform_sweep shipped_ms market_key 2 market_outs [''00'', ''01''] = Inr False"
    using market_view market_facts(1,2,3) by (auto simp: group_view_def rbind_eq_Inr_iff Let_def)
  ultimately show ?thesis using g(1) market_facts(1,2,3) by (simp add: multiple_sat_score_def score_script_def Let_def)
qed


theorem paging_needs_extraction_witness: "\<exists>key. 2 \<le> length (inputs_at market_tx key)"
proof -
  obtain r where r: "multiple_sat_score shipped_ms (\<lambda>_. []) bare_env ''mainnet'' JNull market_tx = Inr r" using market_scored by blast
  have two: "2 \<le> length (inputs_at market_tx market_key)" using market_facts(1) by simp
  obtain r' where r': "group_result shipped_ms (\<lambda>_. []) bare_env ''mainnet'' JNull market_tx market_key r'" "score r' \<le> score r"
    using multiple_sat_score_groups(1) [OF r two] by blast
  then have "60 \<le> score r'" using market_view sat_result_lower(1) [of shipped_ms] by (auto simp: group_result_def shipped_ms_def)
  then have "score_to_band (score r) \<in> {''High'', ''Critical''}" using r'(2) unfolding pages_iff by simp
  then show ?thesis using paging_needs_extraction [OF r] by blast
qed

end
