(* ===== verification/Large_Datum.thy ===== *)
theory Large_Datum
  imports Multiple_Sat Cycles
begin

text \<open>
  Bloated datums at script addresses: sizing and content of a datum in \<open>src/backend/app/analysis/features.py\<close> and the
  scorer \<open>src/backend/app/analysis/scorers/large_datum.py\<close>.  \<open>cbor2.loads\<close>, \<open>math.log2\<close> and the lengths of encodings are
  parameters.  The witness map of a transaction is a dict or absent.

  Shown: no content and no allowlist entry hides a datum beyond the size limit that cannot be read, a transaction
  pages only for a datum that passed a gate, the stored features agree with those the scorer recomputes for
  every value that is a dict, and two places where they do not.
\<close>

section \<open>Size of a datum\<close>

text \<open>\<open>len(s.encode())\<close>: two bytes for a character beyond ASCII.\<close>

definition utf8_len :: "string \<Rightarrow> int" where
  "utf8_len s = (\<Sum>c\<leftarrow>s. if py_ord c < 128 then 1 else 2)"

text \<open>\<open>datums.get(datum_hash)\<close>, where a list or dict cannot be hashed.\<close>

definition preimage_of :: "(string, json) dict \<Rightarrow> json \<Rightarrow> json option result" where
  "preimage_of datums datum_hash =
     (case datum_hash of JStr h \<Rightarrow> Inr (map_of datums h) | JList _ \<Rightarrow> Inl TypeError | JDict _ \<Rightarrow> Inl TypeError | _ \<Rightarrow> Inr None)"

definition sized :: "encoders \<Rightarrow> json \<Rightarrow> int" where
  "sized enc datum = (case datum of JStr s \<Rightarrow> int (length s) div 2 | JDict d \<Rightarrow> json_bytes enc (JDict d) | _ \<Rightarrow> 0)"

definition extract_datum_info :: "encoders \<Rightarrow> (string, json) dict \<Rightarrow> (string, json) dict \<Rightarrow> (int \<times> int) result" where
  "extract_datum_info enc datums output =
     (if field output ''datum'' \<noteq> JNull then Inr (2, sized enc (field output ''datum''))
      else if \<not> truthy (field output ''datumHash'') then Inr (0, 0)
      else if datums = [] then Inr (1, 0)
      else rbind (preimage_of datums (field output ''datumHash'')) (\<lambda>p. Inr (1, case p of None \<Rightarrow> 0 | Some preimage \<Rightarrow> sized enc preimage)))"

definition estimate_utxo_total_bytes :: "encoders \<Rightarrow> string \<Rightarrow> int \<Rightarrow> int \<Rightarrow> json \<Rightarrow> int" where
  "estimate_utxo_total_bytes enc address value_cbor_bytes datum_bytes script_ref =
     utf8_len address + value_cbor_bytes + datum_bytes + (if truthy script_ref then json_bytes enc script_ref else 0)"

section \<open>Content of a datum\<close>

definition MAX_BYTE_ENTROPY_BITS :: rat where "MAX_BYTE_ENTROPY_BITS = 8"

definition assessable_datum :: "(string, json) dict \<Rightarrow> (string, json) dict \<Rightarrow> json result" where
  "assessable_datum datums output =
     (if field output ''datum'' \<noteq> JNull then Inr (field output ''datum'')
      else if truthy (field output ''datumHash'') \<and> datums \<noteq> []
      then rbind (preimage_of datums (field output ''datumHash'')) (\<lambda>p. Inr (case p of None \<Rightarrow> JNull | Some j \<Rightarrow> j))
      else Inr JNull)"

text \<open>The walk over the leaves always ends (theory Features).\<close>

definition byte_leaves :: "json \<Rightarrow> int list list" where
  "byte_leaves datum = (case object_datum_byte_leaves datum of Some ls \<Rightarrow> ls | None \<Rightarrow> [])"

definition nonempty :: "int list \<Rightarrow> int list option" where
  "nonempty bs = (if bs = [] then None else Some bs)"

definition raw_bytes_of :: "json \<Rightarrow> int list option" where
  "raw_bytes_of datum =
     (case datum of
        JDict d \<Rightarrow> nonempty (concat (byte_leaves (JDict d)))
      | JStr s \<Rightarrow> (if length s \<ge> 2 then (case fromhex s of None \<Rightarrow> None | Some bs \<Rightarrow> nonempty bs) else None)
      | _ \<Rightarrow> None)"

definition datum_raw_bytes :: "(string, json) dict \<Rightarrow> (string, json) dict \<Rightarrow> int list option result" where
  "datum_raw_bytes datums output = rbind (assessable_datum datums output) (\<lambda>datum. Inr (raw_bytes_of datum))"

text \<open>What \<open>cbor2.loads\<close> returns; a tag has the attribute \<open>value\<close>.\<close>

datatype decoded = DBytes "int list" | DText string | DBool bool | DInt int | DList "decoded list" | DMap "(decoded \<times> decoded) list"
  | DTag decoded | DOther

record content_tools =
  loads_cbor :: "int list \<Rightarrow> decoded option"
  log_2 :: "rat \<Rightarrow> rat"

definition datum_shannon_entropy_bits :: "content_tools \<Rightarrow> (string, json) dict \<Rightarrow> (string, json) dict \<Rightarrow> rat result" where
  "datum_shannon_entropy_bits tools datums output =
     rbind (datum_raw_bytes datums output) (\<lambda>raw. Inr (case raw of
         None \<Rightarrow> MAX_BYTE_ENTROPY_BITS
       | Some bs \<Rightarrow>
           - py_fsum (map (\<lambda>c. let q = fl (of_nat c / of_nat (length bs)) in fmul q (log_2 tools q)) (occurrences bs))))"

fun bit_length :: "nat \<Rightarrow> nat" where
  "bit_length n = (if n = 0 then 0 else 1 + bit_length (n div 2))"

declare bit_length.simps [simp del]

definition leaf_size :: "decoded \<Rightarrow> int" where
  "leaf_size d =
     (case d of DBytes bs \<Rightarrow> int (length bs) | DText s \<Rightarrow> utf8_len s
      | DInt n \<Rightarrow> (let b = (int (bit_length (nat \<bar>n\<bar>)) + 7) div 8 in if b = 0 then 1 else b)
      | _ \<Rightarrow> 0)"

definition sub_nodes :: "decoded \<Rightarrow> decoded list" where
  "sub_nodes d = (case d of DList xs \<Rightarrow> xs | DMap es \<Rightarrow> concat (map (\<lambda>(k, v). [k, v]) es) | DTag x \<Rightarrow> [x] | _ \<Rightarrow> [])"

primrec node_count :: "decoded \<Rightarrow> nat" where
  "node_count (DBytes bs) = 1"
| "node_count (DText s) = 1"
| "node_count (DBool b) = 1"
| "node_count (DInt n) = 1"
| "node_count (DList xs) = 1 + sum_list (map node_count xs)"
| "node_count (DMap es) = 1 + sum_list (map (\<lambda>(k, v). k + v) (map (map_prod node_count node_count) es))"
| "node_count (DTag x) = 1 + node_count x"
| "node_count DOther = 1"

lemma sub_nodes_smaller: "sum_list (map node_count (sub_nodes d)) < node_count d"
proof (cases d)
  case (DMap es)
  have "sum_list (map node_count (concat (map (\<lambda>(k, v). [k, v]) es))) = sum_list (map (\<lambda>(k, v). k + v) (map (map_prod node_count node_count) es))"
    by (induction es) auto
  then show ?thesis by (simp add: DMap sub_nodes_def)
qed (simp_all add: sub_nodes_def)

text \<open>The loop of \<open>_max_primitive_leaf_bytes\<close>: the head of the list is the top of the stack.\<close>

function leaf_walk :: "decoded list \<Rightarrow> int \<Rightarrow> int" where
  "leaf_walk [] best = best"
| "leaf_walk (d # stack) best = leaf_walk (rev (sub_nodes d) @ stack) (max best (leaf_size d))"
  by pat_completeness auto
termination by (relation "measure (\<lambda>(stack, _). sum_list (map node_count stack))") (simp_all add: sub_nodes_smaller rev_map [symmetric] sum_list_rev)

definition max_primitive_leaf_bytes :: "decoded \<Rightarrow> int" where
  "max_primitive_leaf_bytes d = leaf_walk [d] 0"

definition datum_leaf_concentration :: "content_tools \<Rightarrow> (string, json) dict \<Rightarrow> (string, json) dict \<Rightarrow> rat result" where
  "datum_leaf_concentration tools datums output =
     rbind (assessable_datum datums output) (\<lambda>datum.
       case datum of
         JDict d \<Rightarrow>
           (let sizes = map length (byte_leaves (JDict d)) in
            Inr (if sum_list sizes = 0 then 0 else fl (of_nat (foldr max sizes 0) / of_nat (sum_list sizes))))
       | _ \<Rightarrow> rbind (datum_raw_bytes datums output) (\<lambda>raw. Inr (case raw of
                None \<Rightarrow> 0
              | Some bs \<Rightarrow> (case loads_cbor tools bs of None \<Rightarrow> 0 | Some obj \<Rightarrow> fl (of_int (max_primitive_leaf_bytes obj) / of_nat (length bs))))))"

definition datum_content_assessable :: "content_tools \<Rightarrow> (string, json) dict \<Rightarrow> (string, json) dict \<Rightarrow> bool result" where
  "datum_content_assessable tools datums output =
     rbind (datum_raw_bytes datums output) (\<lambda>raw. rbind (assessable_datum datums output) (\<lambda>datum. Inr (case raw of
         None \<Rightarrow> False
       | Some bs \<Rightarrow> is_dict datum \<or> loads_cbor tools bs \<noteq> None)))"

section \<open>Stored features\<close>

record utxo_row =
  ur_tx_hash :: string
  ur_network :: string
  ur_index :: nat
  ur_address :: string
  ur_is_script :: int
  ur_ada :: int
  ur_value_cbor :: int
  ur_policies :: int
  ur_tokens :: int
  ur_datum_flag :: int
  ur_datum_bytes :: int
  ur_datum_ratio :: rat
  ur_total :: int

definition value_dict :: "json \<Rightarrow> (string, json) dict result" where
  "value_dict value =
     (case value of JDict d \<Rightarrow> Inr d
      | _ \<Rightarrow> rbind (if truthy value then int_of_json value else Inr 0) (\<lambda>n. Inr [(''lovelace'', JInt n)]))"

text \<open>An address is a string; another truthy value has no \<open>encode\<close>, and no address is read as the empty one.\<close>

definition address_text :: "json \<Rightarrow> string result" where
  "address_text addr = (case addr of JStr a \<Rightarrow> Inr a | _ \<Rightarrow> if truthy addr then Inl AttributeError else Inr [])"

definition utxo_row_of :: "encoders \<Rightarrow> string \<Rightarrow> string \<Rightarrow> (string, json) dict \<Rightarrow> nat \<Rightarrow> json \<Rightarrow> utxo_row result" where
  "utxo_row_of enc tx_hash network datums idx out =
     rbind (jget out ''address'' (JStr [])) (\<lambda>addr.
     rbind (rbind (jget out ''value'' (JDict [])) value_dict) (\<lambda>value.
     let ada_amount = (case field value ''ada'' of JDict ada \<Rightarrow> dict_get ada ''lovelace'' (JInt 0) | _ \<Rightarrow> dict_get value ''lovelace'' (JInt 0));
         cbor_bytes = estimate_value_cbor_bytes enc value in
     rbind (count_assets value) (\<lambda>(policy_count, token_count).
     rbind (case out of JDict d \<Rightarrow> extract_datum_info enc datums d | _ \<Rightarrow> Inl AttributeError) (\<lambda>(datum_flag, datum_bytes).
     rbind (address_text addr) (\<lambda>address.
     rbind (jget out ''script'' JNull) (\<lambda>script.
     let total_bytes = estimate_utxo_total_bytes enc address cbor_bytes datum_bytes script in
     rbind (int_of_json ada_amount) (\<lambda>ada.
       Inr \<lparr>ur_tx_hash = tx_hash, ur_network = network, ur_index = idx, ur_address = address,
            ur_is_script = (if is_script_address address then 1 else 0), ur_ada = ada, ur_value_cbor = cbor_bytes,
            ur_policies = policy_count, ur_tokens = token_count, ur_datum_flag = datum_flag, ur_datum_bytes = datum_bytes,
            ur_datum_ratio = fround (datum_ratio_of datum_bytes total_bytes) 4, ur_total = total_bytes\<rparr>)))))))"

definition datums_of :: "(string, json) dict \<Rightarrow> (string, json) dict" where
  "datums_of raw = (case field raw ''datums'' of JDict d \<Rightarrow> d | _ \<Rightarrow> [])"

definition extract_utxo_features :: "encoders \<Rightarrow> string \<Rightarrow> string \<Rightarrow> (string, json) dict \<Rightarrow> utxo_row list result" where
  "extract_utxo_features enc tx_hash network raw =
     rbind (iter_json (dict_get raw ''outputs'' (JList []))) (\<lambda>outs.
       rmap (\<lambda>(idx, out). utxo_row_of enc tx_hash network (datums_of raw) idx out) (enumerate 0 outs))"

section \<open>The scorer\<close>

record large_datum_settings =
  ld_W :: json
  ld_FIXED :: json
  ld_BOOT :: json
  ld_REASON_T :: rat
  MIN_DATUM_BYTES :: int
  BLOAT_ENTROPY_MAX :: rat
  LEAF_CONCENTRATION_MAX :: rat
  SIZE_BACKSTOP :: int
  AGGREGATE_ENGAGEMENT_MIN :: int
  FLAG_DATUM_HASH_ONLY :: bool
  LARGE_STATE_ALLOWLIST :: "(string, json list) dict"

definition load_large_datum :: "(string, json) dict \<Rightarrow> json \<Rightarrow> large_datum_settings result" where
  "load_large_datum limits cfg =
     rbind (jidx cfg ''weights'') (\<lambda>w. rbind (jidx cfg ''fixed_anchors'') (\<lambda>fx. rbind (jidx cfg ''bootstrap_anchors'') (\<lambda>bo.
     rbind (float_at cfg ''reason_threshold'') (\<lambda>rt. rbind (jidx cfg ''gate'') (\<lambda>g. rbind (int_at g ''min_datum_bytes'') (\<lambda>md.
     rbind (float_at g ''bloat_entropy_max'') (\<lambda>be. rbind (float_at g ''leaf_concentration_max'') (\<lambda>lc.
     rbind (rbind (jidx g ''size_backstop_fraction'') (\<lambda>f. fraction_of_limit limits f ''max_tx_size_bytes'')) (\<lambda>sb.
     rbind (int_at cfg ''aggregate_engagement_min'') (\<lambda>ag. rbind (jidx g ''flag_datum_hash_only'') (\<lambda>fh.
     rbind (rbind (jget cfg ''large_state_allowlist_prefixes'' JNull) load_network_map) (\<lambda>al.
       Inr \<lparr>ld_W = w, ld_FIXED = fx, ld_BOOT = bo, ld_REASON_T = rt, MIN_DATUM_BYTES = md, BLOAT_ENTROPY_MAX = be,
            LEAF_CONCENTRATION_MAX = lc, SIZE_BACKSTOP = sb, AGGREGATE_ENGAGEMENT_MIN = ag, FLAG_DATUM_HASH_ONLY = truthy fh,
            LARGE_STATE_ALLOWLIST = al\<rparr>))))))))))))"

definition TRIGGER_CONTENT :: string where "TRIGGER_CONTENT = ''content''"
definition TRIGGER_SIZE_BACKSTOP :: string where "TRIGGER_SIZE_BACKSTOP = ''size_backstop''"
definition TRIGGER_SIZE_BACKSTOP_UNASSESSED :: string where "TRIGGER_SIZE_BACKSTOP_UNASSESSED = ''size_backstop_unassessed''"

definition content_bloat :: "large_datum_settings \<Rightarrow> content_tools \<Rightarrow> (string, json) dict \<Rightarrow> (string, json) dict \<Rightarrow> bool result" where
  "content_bloat cfg tools datums output =
     rbind (datum_shannon_entropy_bits tools datums output) (\<lambda>h.
       if h \<le> BLOAT_ENTROPY_MAX cfg then Inr True
       else rbind (datum_leaf_concentration tools datums output) (\<lambda>c. Inr (c \<ge> LEAF_CONCENTRATION_MAX cfg)))"

definition bloat_trigger ::
  "large_datum_settings \<Rightarrow> content_tools \<Rightarrow> (string, json) dict \<Rightarrow> (string, json) dict \<Rightarrow> int \<Rightarrow> string option result" where
  "bloat_trigger cfg tools datums output datum_bytes =
     rbind (if datum_bytes \<ge> MIN_DATUM_BYTES cfg then content_bloat cfg tools datums output else Inr False) (\<lambda>content.
       if content then Inr (Some TRIGGER_CONTENT)
       else if datum_bytes \<ge> SIZE_BACKSTOP cfg
       then rbind (datum_content_assessable tools datums output) (\<lambda>readable.
              Inr (Some (if readable then TRIGGER_SIZE_BACKSTOP else TRIGGER_SIZE_BACKSTOP_UNASSESSED)))
       else Inr None)"

definition is_large_state_allowlisted :: "large_datum_settings \<Rightarrow> string \<Rightarrow> string \<Rightarrow> bool result" where
  "is_large_state_allowlisted cfg network address = any_prefix address (dict_get (LARGE_STATE_ALLOWLIST cfg) network [])"

text \<open>The beginning of the loops over outputs: the outputs at script addresses, in order.\<close>

definition script_output_of :: "json \<Rightarrow> (string \<times> (string, json) dict) option result" where
  "script_output_of out =
     (case out of
        JDict d \<Rightarrow> rbind (script_address_of (dict_get d ''address'' (JStr []))) (\<lambda>sa. Inr (map_option (\<lambda>a. (a, d)) sa))
      | _ \<Rightarrow> Inl AttributeError)"

fun each_script_output :: "(string \<Rightarrow> (string, json) dict \<Rightarrow> 'r list result) \<Rightarrow> json list \<Rightarrow> 'r list result" where
  "each_script_output f [] = Inr []"
| "each_script_output f (out # outs) =
     rbind (script_output_of out) (\<lambda>so. rbind (case so of None \<Rightarrow> Inr [] | Some (a, d) \<Rightarrow> f a d) (\<lambda>xs.
       rbind (each_script_output f outs) (\<lambda>ys. Inr (xs @ ys))))"

text \<open>Entries that are no dict are skipped here, unlike in the other loops.\<close>

definition datum_hash_only_addresses :: "encoders \<Rightarrow> (string, json) dict \<Rightarrow> json list \<Rightarrow> string list result" where
  "datum_hash_only_addresses enc datums outputs =
     each_script_output (\<lambda>a d. rbind (extract_datum_info enc datums d) (\<lambda>i. Inr (if i = (1, 0) then [a] else []))) (filter is_dict outputs)"

definition per_script_datum_bytes :: "encoders \<Rightarrow> (string, json) dict \<Rightarrow> json list \<Rightarrow> (string, int) dict result" where
  "per_script_datum_bytes enc datums outputs =
     rbind (each_script_output (\<lambda>a d. rbind (extract_datum_info enc datums d) (\<lambda>(datum_flag, datum_bytes).
         Inr (if datum_flag = 0 then [] else [(payment_credential_or_raw a, datum_bytes)]))) outputs)
       (\<lambda>es. Inr (foldl (\<lambda>by_script (key, n). AList.update key (dict_get by_script key 0 + n) by_script) [] es))"

fun any_bloat :: "large_datum_settings \<Rightarrow> content_tools \<Rightarrow> encoders \<Rightarrow> (string, json) dict \<Rightarrow> json list \<Rightarrow> bool result" where
  "any_bloat cfg tools enc datums [] = Inr False"
| "any_bloat cfg tools enc datums (out # outs) =
     rbind (script_output_of out) (\<lambda>so. case so of
         None \<Rightarrow> any_bloat cfg tools enc datums outs
       | Some (a, d) \<Rightarrow> rbind (extract_datum_info enc datums d) (\<lambda>(_, datum_bytes).
           rbind (bloat_trigger cfg tools datums d datum_bytes) (\<lambda>t. if t \<noteq> None then Inr True else any_bloat cfg tools enc datums outs)))"

definition large_datum_gate :: "large_datum_settings \<Rightarrow> content_tools \<Rightarrow> encoders \<Rightarrow> json \<Rightarrow> bool result" where
  "large_datum_gate cfg tools enc raw_data =
     (case raw_data of
        JDict raw \<Rightarrow>
          (if raw = [] then Inr False
           else rbind (iter_json (dict_get raw ''outputs'' (JList []))) (\<lambda>outputs.
                rbind (any_bloat cfg tools enc (datums_of raw) outputs) (\<lambda>bloat.
                  if bloat then Inr True
                  else rbind (per_script_datum_bytes enc (datums_of raw) outputs) (\<lambda>per_script.
                    if list_ex (\<lambda>(_, v). v \<ge> AGGREGATE_ENGAGEMENT_MIN cfg) per_script then Inr True
                    else if FLAG_DATUM_HASH_ONLY cfg
                    then rbind (datum_hash_only_addresses enc (datums_of raw) outputs) (\<lambda>as. Inr (as \<noteq> []))
                    else Inr False))))
      | _ \<Rightarrow> Inr False)"

definition datum_value :: "(string, json) dict \<Rightarrow> (string, json) dict" where
  "datum_value output = (case dict_get output ''value'' (JDict []) of JDict d \<Rightarrow> d | _ \<Rightarrow> [(''lovelace'', JInt 0)])"

definition output_total :: "encoders \<Rightarrow> string \<Rightarrow> (string, json) dict \<Rightarrow> int \<Rightarrow> int" where
  "output_total enc address output datum_bytes =
     estimate_utxo_total_bytes enc address (estimate_value_cbor_bytes enc (datum_value output)) datum_bytes (field output ''script'')"

record datum_axes =
  s_datum :: rat
  s_ratio :: rat
  s_value_inv :: rat
  da_source :: string

definition datum_axes_of :: "large_datum_settings \<Rightarrow> encoders \<Rightarrow> scoring_env \<Rightarrow> string \<Rightarrow> (string, json) dict \<Rightarrow> int \<Rightarrow> datum_axes result" where
  "datum_axes_of cfg enc env address output datum_bytes =
     rbind (resolve_axis env ''datum_bytes'' ''per_script'' address (ld_BOOT cfg) ''datum_bytes'' None) (\<lambda>(db50, db99, source).
     rbind (resolve_axis env ''value_cbor_bytes'' ''per_script'' address (ld_BOOT cfg) ''value_cbor_bytes'' None) (\<lambda>(cb50, cb99, _).
     rbind (anchor (ld_FIXED cfg) ''datum_ratio'') (\<lambda>r.
       Inr \<lparr>s_datum = normalise (fl (of_int datum_bytes)) db50 db99,
            s_ratio = normalise (datum_ratio_of datum_bytes (output_total enc address output datum_bytes)) (anchor_p50 r) (anchor_p99 r),
            s_value_inv = normalise_inverted (fl (of_int (estimate_value_cbor_bytes enc (datum_value output)))) cb50 cb99,
            da_source = source\<rparr>)))"

definition datum_raw :: "large_datum_settings \<Rightarrow> datum_axes \<Rightarrow> rat result" where
  "datum_raw cfg x =
     weighted_sum (ld_W cfg) (''datum_bytes'', s_datum x) [(''datum_ratio'', s_ratio x), (''value_cbor_inv'', s_value_inv x), (''recurrence'', 0)]"

definition large_datum_utxo ::
  "large_datum_settings \<Rightarrow> encoders \<Rightarrow> scoring_env \<Rightarrow> string \<Rightarrow> int \<Rightarrow> string \<Rightarrow> (string, json) dict \<Rightarrow> int \<Rightarrow> int \<Rightarrow> string \<Rightarrow> scorer_result result" where
  "large_datum_utxo cfg enc env network max_script_datum_bytes address output datum_bytes datum_flag trigger =
     (let value = datum_value output; total_bytes = output_total enc address output datum_bytes in
      rbind (datum_axes_of cfg enc env address output datum_bytes) (\<lambda>x.
      rbind (datum_raw cfg x) (\<lambda>raw.
      rbind (if trigger = TRIGGER_SIZE_BACKSTOP then is_large_state_allowlisted cfg network address else Inr False) (\<lambda>allowlisted.
      rbind (extract_lovelace (JDict value)) (\<lambda>lovelace.
      let final = finalise_score raw 100 2 in
      Inr \<lparr>score = (if allowlisted then min final BAND_MODERATE_MAX else final),
           sub_scores = [(''datum_bytes'', rounded (s_datum x) 4), (''datum_ratio'', rounded (s_ratio x) 4),
             (''value_cbor_bytes_inverted'', rounded (s_value_inv x) 4), (''sender_recurrence'', rounded 0 4),
             (''max_script_datum_bytes'', JFloat (fl (of_int max_script_datum_bytes)))],
           reasons = reason (s_datum x > ld_REASON_T cfg) ''large_datum_bytes'' @ reason (s_ratio x > ld_REASON_T cfg) ''high_datum_ratio''
             @ reason (s_value_inv x > ld_REASON_T cfg) ''lean_value_field''
             @ reason (trigger = TRIGGER_SIZE_BACKSTOP) ''size_backstop_only''
             @ reason (trigger = TRIGGER_SIZE_BACKSTOP_UNASSESSED) ''size_backstop_content_unreadable''
             @ reason allowlisted ''large_state_allowlisted'',
           baseline_source = da_source x, severity = None,
           evidence = [(''datum_bytes_raw'', JInt datum_bytes), (''utxo_total_bytes'', JInt total_bytes),
             (''datum_type'', JStr (if datum_flag = 2 then ''inline'' else ''hash'')),
             (''datum_utxo_ratio'', rounded (datum_ratio_of datum_bytes total_bytes) 4), (''target_script_address'', JStr address),
             (''value_cbor_bytes_raw'', JInt (estimate_value_cbor_bytes enc value)), (''lovelace_amount'', JInt lovelace),
             (''bloat_trigger'', JStr trigger)]\<rparr>)))))"

definition datum_candidate ::
  "large_datum_settings \<Rightarrow> content_tools \<Rightarrow> encoders \<Rightarrow> scoring_env \<Rightarrow> string \<Rightarrow> (string, json) dict \<Rightarrow> int \<Rightarrow> string \<Rightarrow> (string, json) dict \<Rightarrow>
     scorer_result list result" where
  "datum_candidate cfg tools enc env network datums max_script_datum_bytes address output =
     rbind (extract_datum_info enc datums output) (\<lambda>(datum_flag, datum_bytes).
       if datum_flag = 0 then Inr []
       else rbind (bloat_trigger cfg tools datums output datum_bytes) (\<lambda>t. case t of
           None \<Rightarrow> Inr []
         | Some trigger \<Rightarrow> rbind (large_datum_utxo cfg enc env network max_script_datum_bytes address output datum_bytes datum_flag trigger) (\<lambda>r. Inr [r])))"

text \<open>The fallback lists the outputs without the witness map, as the source does.\<close>

definition large_datum_score ::
  "large_datum_settings \<Rightarrow> content_tools \<Rightarrow> encoders \<Rightarrow> scoring_env \<Rightarrow> string \<Rightarrow> (string, json) dict \<Rightarrow> scorer_result result" where
  "large_datum_score cfg tools enc env network raw =
     rbind (iter_json (dict_get raw ''outputs'' (JList []))) (\<lambda>outputs.
     rbind (per_script_datum_bytes enc (datums_of raw) outputs) (\<lambda>per_script.
     let max_script_datum_bytes = (case map snd per_script of [] \<Rightarrow> 0 | v # vs \<Rightarrow> foldl max v vs) in
     rbind (each_script_output (datum_candidate cfg tools enc env network (datums_of raw) max_script_datum_bytes) outputs) (\<lambda>candidates.
     let best = reduce_to_best candidates in
     if sub_scores best \<noteq> [] then Inr best
     else rbind (if FLAG_DATUM_HASH_ONLY cfg then datum_hash_only_addresses enc [] outputs else Inr []) (\<lambda>hash_only.
       Inr (no_finding [(''max_script_datum_bytes'', JFloat (fl (of_int max_script_datum_bytes))),
                        (''datum_hash_only_count'', JFloat (fl (of_nat (length hash_only))))] ''missing''
              (if hash_only \<noteq> [] then [(''datum_hash_only_addresses'', JList (map JStr hash_only))] else []))))))"

section \<open>What a transaction is scored for\<close>

text \<open>An output at a script address.\<close>

definition script_utxo :: "(string, json) dict \<Rightarrow> string \<Rightarrow> (string, json) dict \<Rightarrow> bool" where
  "script_utxo raw a d \<longleftrightarrow>
     (\<exists>outputs. iter_json (dict_get raw ''outputs'' (JList [])) = Inr outputs \<and> JDict d \<in> set outputs \<and>
        dict_get d ''address'' (JStr []) = JStr a \<and> is_script_address a)"

lemma script_output_of_Some:
  "script_output_of out = Inr (Some (a, d)) \<longleftrightarrow> out = JDict d \<and> dict_get d ''address'' (JStr []) = JStr a \<and> is_script_address a"
proof (cases out)
  case (JDict e)
  then show ?thesis
    by (cases "dict_get e ''address'' (JStr [])") (auto simp: script_output_of_def script_address_of_def is_script_address_def rbind_eq_Inr_iff split: if_splits)
qed (simp_all add: script_output_of_def)

lemma each_script_output_mem:
  "each_script_output f outs = Inr ys \<Longrightarrow>
     set ys = {y. \<exists>out \<in> set outs. \<exists>a d xs. script_output_of out = Inr (Some (a, d)) \<and> f a d = Inr xs \<and> y \<in> set xs}"
  "each_script_output f outs = Inr ys \<Longrightarrow> out \<in> set outs \<Longrightarrow> script_output_of out = Inr (Some (a, d)) \<Longrightarrow> \<exists>xs. f a d = Inr xs"
proof (induction outs arbitrary: ys)
  case (Cons o' outs)
  { case 1 then show ?case using Cons.IH(1) by (fastforce simp: rbind_eq_Inr_iff split: option.splits) }
  { case 2 then show ?case using Cons.IH(2) by (fastforce simp: rbind_eq_Inr_iff split: option.splits) }
qed auto

lemma reduce_to_best_bounds:
  "r \<in> set rs \<Longrightarrow> score r \<le> score (reduce_to_best rs)" "0 \<le> score (reduce_to_best rs)"
  "reduce_to_best rs = ScorerResult \<or> reduce_to_best rs \<in> set rs"
  using reduce_to_best_aux [of ScorerResult rs "reduce_to_best rs"] by (auto simp: reduce_to_best_def ScorerResult_def)

text \<open>A datum that passed a gate, with the size it has.\<close>

definition bloated :: "large_datum_settings \<Rightarrow> content_tools \<Rightarrow> encoders \<Rightarrow> (string, json) dict \<Rightarrow> (string, json) dict \<Rightarrow> int \<Rightarrow> string \<Rightarrow> bool" where
  "bloated cfg tools enc datums d n trigger \<longleftrightarrow>
     (\<exists>flag. extract_datum_info enc datums d = Inr (flag, n) \<and> flag \<noteq> 0 \<and> bloat_trigger cfg tools datums d n = Inr (Some trigger))"

lemma large_datum_utxo_score:
  assumes "large_datum_utxo cfg enc env network m a d n flag t = Inr r"
  obtains x w al where "datum_axes_of cfg enc env a d n = Inr x" "datum_raw cfg x = Inr w" "sub_scores r \<noteq> []"
    "(if t = TRIGGER_SIZE_BACKSTOP then is_large_state_allowlisted cfg network a else Inr False) = Inr al"
    "score r = (if al then min (finalise_score w 100 2) BAND_MODERATE_MAX else finalise_score w 100 2)"
  using assms by (auto simp: large_datum_utxo_def Let_def rbind_eq_Inr_iff)

lemma large_datum_scoreE:
  assumes "large_datum_score cfg tools enc env network raw = Inr r"
  obtains outputs m cs where "iter_json (dict_get raw ''outputs'' (JList [])) = Inr outputs"
    "each_script_output (datum_candidate cfg tools enc env network (datums_of raw) m) outputs = Inr cs"
    "if sub_scores (reduce_to_best cs) \<noteq> [] then r = reduce_to_best cs else score r = -1"
proof -
  obtain outputs per_script where o: "iter_json (dict_get raw ''outputs'' (JList [])) = Inr outputs"
    "per_script_datum_bytes enc (datums_of raw) outputs = Inr per_script"
    using assms by (auto simp: large_datum_score_def rbind_eq_Inr_iff)
  let ?m = "case map snd per_script of [] \<Rightarrow> 0 | v # vs \<Rightarrow> foldl max v vs"
  obtain cs where cs: "each_script_output (datum_candidate cfg tools enc env network (datums_of raw) ?m) outputs = Inr cs"
    using assms o by (auto simp: large_datum_score_def rbind_eq_Inr_iff Let_def)
  have "if sub_scores (reduce_to_best cs) \<noteq> [] then r = reduce_to_best cs else score r = -1"
    using assms o cs by (auto simp: large_datum_score_def rbind_eq_Inr_iff Let_def no_finding_def split: if_splits)
  then show thesis using that o(1) cs by blast
qed

lemma datum_candidate_mem:
  assumes "datum_candidate cfg tools enc env network datums m a d = Inr xs" "r \<in> set xs"
  obtains n flag t where "bloated cfg tools enc datums d n t" "large_datum_utxo cfg enc env network m a d n flag t = Inr r"
  using assms by (auto simp: datum_candidate_def bloated_def rbind_eq_Inr_iff split: if_splits option.splits)

lemma bloated_candidate:
  assumes "bloated cfg tools enc datums d n t" "datum_candidate cfg tools enc env network datums m a d = Inr xs"
  obtains r flag where "xs = [r]" "large_datum_utxo cfg enc env network m a d n flag t = Inr r"
  using assms by (auto simp: datum_candidate_def bloated_def rbind_eq_Inr_iff)

text \<open>The strongest datum decides: every datum that passed a gate is counted, and a positive score is that of one.\<close>

lemma large_datum_counts:
  assumes "large_datum_score cfg tools enc env network raw = Inr r"
  shows "script_utxo raw a d \<Longrightarrow> bloated cfg tools enc (datums_of raw) d n t \<Longrightarrow>
      \<exists>m flag r'. large_datum_utxo cfg enc env network m a d n flag t = Inr r' \<and> score r' \<le> max 0 (score r)"
    and "0 < score r \<Longrightarrow> \<exists>a d n t m flag. script_utxo raw a d \<and> bloated cfg tools enc (datums_of raw) d n t \<and>
      large_datum_utxo cfg enc env network m a d n flag t = Inr r"
proof -
  obtain outputs m cs where o: "iter_json (dict_get raw ''outputs'' (JList [])) = Inr outputs"
    and cs: "each_script_output (datum_candidate cfg tools enc env network (datums_of raw) m) outputs = Inr cs"
    and r: "if sub_scores (reduce_to_best cs) \<noteq> [] then r = reduce_to_best cs else score r = -1"
    using large_datum_scoreE [OF assms] .
  note mem = each_script_output_mem [OF cs]
  show "\<exists>m flag r'. large_datum_utxo cfg enc env network m a d n flag t = Inr r' \<and> score r' \<le> max 0 (score r)"
    if d: "script_utxo raw a d" "bloated cfg tools enc (datums_of raw) d n t"
  proof -
    have so: "JDict d \<in> set outputs" "script_output_of (JDict d) = Inr (Some (a, d))"
      using d(1) o by (auto simp: script_utxo_def script_output_of_Some)
    obtain xs where xs: "datum_candidate cfg tools enc env network (datums_of raw) m a d = Inr xs" using mem(2) [OF so] by blast
    obtain r' flag where r': "xs = [r']" "large_datum_utxo cfg enc env network m a d n flag t = Inr r'"
      using bloated_candidate [OF d(2) xs] .
    have in_cs: "r' \<in> set cs" using so xs r'(1) by (force simp: mem(1))
    have "score r' \<le> max 0 (score r)"
    proof (cases "sub_scores (reduce_to_best cs) = []")
      case True
      then have "reduce_to_best cs \<notin> set cs"
        using mem(1) by (auto elim!: datum_candidate_mem large_datum_utxo_score)
      then have "reduce_to_best cs = ScorerResult" using reduce_to_best_bounds(3) [of cs] by blast
      then show ?thesis using reduce_to_best_bounds(1) [OF in_cs] by (simp add: ScorerResult_def)
    qed (use r reduce_to_best_bounds(1) [OF in_cs] in simp)
    then show ?thesis using r'(2) by blast
  qed
  show "\<exists>a d n t m flag. script_utxo raw a d \<and> bloated cfg tools enc (datums_of raw) d n t \<and>
      large_datum_utxo cfg enc env network m a d n flag t = Inr r" if pos: "0 < score r"
  proof -
    have "r = reduce_to_best cs" using r pos by (auto split: if_splits)
    then have "r \<in> set cs" using reduce_to_best_mem [of cs] pos by simp
    then obtain a d xs where "script_utxo raw a d" "datum_candidate cfg tools enc env network (datums_of raw) m a d = Inr xs" "r \<in> set xs"
      using o by (auto simp: mem(1) script_output_of_Some script_utxo_def)
    then show ?thesis by (meson datum_candidate_mem)
  qed
qed

lemma large_datum_defined:
  assumes "large_datum_score cfg tools enc env network raw = Inr r" "script_utxo raw a d"
  shows "\<exists>m xs. datum_candidate cfg tools enc env network (datums_of raw) m a d = Inr xs"
proof -
  obtain outputs m cs where o: "iter_json (dict_get raw ''outputs'' (JList [])) = Inr outputs"
    and cs: "each_script_output (datum_candidate cfg tools enc env network (datums_of raw) m) outputs = Inr cs"
    using large_datum_scoreE [OF assms(1)] .
  then show ?thesis using each_script_output_mem(2) [OF cs, of "JDict d" a d] assms(2) by (auto simp: script_utxo_def script_output_of_Some)
qed

text \<open>Content is judged bloated only where it was measured.\<close>

lemma content_bloat_measured:
  assumes "content_bloat cfg tools datums d = Inr True" "BLOAT_ENTROPY_MAX cfg < MAX_BYTE_ENTROPY_BITS" "0 < LEAF_CONCENTRATION_MAX cfg"
  shows "(\<exists>bs. datum_raw_bytes datums d = Inr (Some bs)) \<and>
    ((\<exists>h. datum_shannon_entropy_bits tools datums d = Inr h \<and> h \<le> BLOAT_ENTROPY_MAX cfg) \<or>
     (\<exists>c. datum_leaf_concentration tools datums d = Inr c \<and> c \<ge> LEAF_CONCENTRATION_MAX cfg))"
proof -
  have verdict: "(\<exists>h. datum_shannon_entropy_bits tools datums d = Inr h \<and> h \<le> BLOAT_ENTROPY_MAX cfg) \<or>
     (\<exists>c. datum_leaf_concentration tools datums d = Inr c \<and> c \<ge> LEAF_CONCENTRATION_MAX cfg)"
    using assms(1) by (auto simp: content_bloat_def rbind_eq_Inr_iff split: if_splits)
  obtain j where j: "assessable_datum datums d = Inr j"
    using assms(1) by (auto simp: content_bloat_def datum_shannon_entropy_bits_def datum_raw_bytes_def rbind_eq_Inr_iff)
  have raw: "datum_raw_bytes datums d = Inr (raw_bytes_of j)" by (simp add: datum_raw_bytes_def j)
  have "raw_bytes_of j \<noteq> None"
  proof
    assume none: "raw_bytes_of j = None"
    then have "datum_shannon_entropy_bits tools datums d = Inr MAX_BYTE_ENTROPY_BITS" by (simp add: datum_shannon_entropy_bits_def raw)
    moreover have "datum_leaf_concentration tools datums d = Inr 0"
    proof (cases j)
      case (JDict e)
      have "concat (byte_leaves (JDict e)) = []" using none JDict by (simp add: raw_bytes_of_def nonempty_def split: if_splits)
      then have "sum_list (map length (byte_leaves (JDict e))) = 0" by (metis length_concat list.size(3))
      then show ?thesis by (simp add: datum_leaf_concentration_def j JDict)
    qed (use none in \<open>simp_all add: datum_leaf_concentration_def j raw\<close>)
    ultimately show False using verdict assms(2,3) by auto
  qed
  then show ?thesis using raw verdict by auto
qed

lemma bloat_trigger_oversized: "bloat_trigger cfg tools datums d n = Inr v \<Longrightarrow> SIZE_BACKSTOP cfg \<le> n \<Longrightarrow> \<exists>t. v = Some t"
  by (auto simp: bloat_trigger_def rbind_eq_Inr_iff split: if_splits)

text \<open>C20. No content hides an oversized datum: an output at a script address whose datum reaches the size limit counts with
  its full weighted score, whatever its bytes are and whether they can be read, unless its script is on the
  allowlist and the datum was read; at an allowlisted script a datum that cannot be read still counts.\<close>

theorem oversized_datum_counts:
  assumes "large_datum_score cfg tools enc env network raw = Inr r" "script_utxo raw a d"
    and "extract_datum_info enc (datums_of raw) d = Inr (flag, n)" "SIZE_BACKSTOP cfg \<le> n" "0 < SIZE_BACKSTOP cfg"
    and "is_large_state_allowlisted cfg network a = Inr False \<or> datum_content_assessable tools (datums_of raw) d = Inr False"
  shows "\<exists>x w. datum_axes_of cfg enc env a d n = Inr x \<and> datum_raw cfg x = Inr w \<and> finalise_score w 100 2 \<le> max 0 (score r)"
proof -
  have flag: "flag \<noteq> 0" using assms(3-5) by (auto simp: extract_datum_info_def rbind_eq_Inr_iff split: if_splits)
  obtain m xs where xs: "datum_candidate cfg tools enc env network (datums_of raw) m a d = Inr xs" using large_datum_defined [OF assms(1,2)] by blast
  then obtain v where "bloat_trigger cfg tools (datums_of raw) d n = Inr v"
    using assms(3) flag by (auto simp: datum_candidate_def rbind_eq_Inr_iff)
  then obtain t where t: "bloat_trigger cfg tools (datums_of raw) d n = Inr (Some t)" using bloat_trigger_oversized [OF _ assms(4)] by blast
  have readable: "datum_content_assessable tools (datums_of raw) d = Inr True" if "t = TRIGGER_SIZE_BACKSTOP"
    using t that by (auto simp: bloat_trigger_def rbind_eq_Inr_iff TRIGGER_SIZE_BACKSTOP_def TRIGGER_CONTENT_def TRIGGER_SIZE_BACKSTOP_UNASSESSED_def split: if_splits)
  obtain m' flag' r' where r': "large_datum_utxo cfg enc env network m' a d n flag' t = Inr r'" "score r' \<le> max 0 (score r)"
    using large_datum_counts(1) [OF assms(1,2)] t flag assms(3) unfolding bloated_def by blast
  obtain x w al where x: "datum_axes_of cfg enc env a d n = Inr x" "datum_raw cfg x = Inr w"
    "(if t = TRIGGER_SIZE_BACKSTOP then is_large_state_allowlisted cfg network a else Inr False) = Inr al"
    "score r' = (if al then min (finalise_score w 100 2) BAND_MODERATE_MAX else finalise_score w 100 2)"
    using large_datum_utxo_score [OF r'(1)] by metis
  have "\<not> al" using x(3) readable assms(6) by (auto split: if_splits)
  then show ?thesis using x r'(2) by auto
qed

text \<open>C22. A transaction pages for a large datum only if an output at a script address carries a datum of at least the
  configured size whose bytes were read and found repetitive or concentrated in one leaf, or a datum at the size
  limit whose script is not on the allowlist or whose bytes could not be read.\<close>

theorem datum_pages_need_bloat:
  assumes "large_datum_score cfg tools enc env network raw = Inr r" "score_to_band (score r) \<in> {''High'', ''Critical''}"
    and "BLOAT_ENTROPY_MAX cfg < MAX_BYTE_ENTROPY_BITS" "0 < LEAF_CONCENTRATION_MAX cfg"
  shows "\<exists>a d flag n. script_utxo raw a d \<and> extract_datum_info enc (datums_of raw) d = Inr (flag, n) \<and>
    (MIN_DATUM_BYTES cfg \<le> n \<and> (\<exists>bs. datum_raw_bytes (datums_of raw) d = Inr (Some bs)) \<and>
       ((\<exists>h. datum_shannon_entropy_bits tools (datums_of raw) d = Inr h \<and> h \<le> BLOAT_ENTROPY_MAX cfg) \<or>
        (\<exists>c. datum_leaf_concentration tools (datums_of raw) d = Inr c \<and> c \<ge> LEAF_CONCENTRATION_MAX cfg)) \<or>
     SIZE_BACKSTOP cfg \<le> n \<and>
       (is_large_state_allowlisted cfg network a = Inr False \<or> datum_content_assessable tools (datums_of raw) d = Inr False))"
proof -
  have high: "60 \<le> score r" using assms(2) by (simp only: pages_iff)
  then obtain a d n t m flag where u: "script_utxo raw a d" "bloated cfg tools enc (datums_of raw) d n t"
    "large_datum_utxo cfg enc env network m a d n flag t = Inr r" using large_datum_counts(2) [OF assms(1)] by fastforce
  obtain fl where fl: "extract_datum_info enc (datums_of raw) d = Inr (fl, n)" "bloat_trigger cfg tools (datums_of raw) d n = Inr (Some t)"
    using u(2) unfolding bloated_def by blast
  have free: "is_large_state_allowlisted cfg network a = Inr False" if "t = TRIGGER_SIZE_BACKSTOP"
  proof -
    obtain x w al where "(if t = TRIGGER_SIZE_BACKSTOP then is_large_state_allowlisted cfg network a else Inr False) = Inr al"
      "score r = (if al then min (finalise_score w 100 2) BAND_MODERATE_MAX else finalise_score w 100 2)"
      using large_datum_utxo_score [OF u(3)] by metis
    then show ?thesis using that high by (cases al) auto
  qed
  have "MIN_DATUM_BYTES cfg \<le> n \<and> content_bloat cfg tools (datums_of raw) d = Inr True \<or>
      SIZE_BACKSTOP cfg \<le> n \<and> (t = TRIGGER_SIZE_BACKSTOP \<or> datum_content_assessable tools (datums_of raw) d = Inr False)"
    using fl(2) by (auto simp: bloat_trigger_def rbind_eq_Inr_iff split: if_splits)
  then show ?thesis using u(1) fl(1) free content_bloat_measured [OF _ assms(3,4)] by blast
qed

section \<open>Stored and recomputed features\<close>

lemma utxo_row_agrees:
  assumes "utxo_row_of enc tx_hash network datums i (JDict d) = Inr row"
    and "dict_get d ''address'' (JStr []) = JStr a" "dict_get d ''value'' (JDict []) = JDict v"
  shows "\<exists>n. ur_index row = i \<and> extract_datum_info enc datums d = Inr (ur_datum_flag row, n) \<and> ur_datum_bytes row = n \<and>
    ur_is_script row = (if is_script_address a then 1 else 0) \<and> ur_value_cbor row = estimate_value_cbor_bytes enc (datum_value d) \<and>
    ur_total row = output_total enc a d n \<and> ur_datum_ratio row = fround (datum_ratio_of n (output_total enc a d n)) 4"
  using assms
  by (auto simp: utxo_row_of_def jget_def value_dict_def address_text_def datum_value_def output_total_def field_def Let_def rbind_eq_Inr_iff)

text \<open>The features stored for an output agree with those the scorer recomputes for it: for an output whose value is a
  dict, the stored flag, size, value encoding, total and ratio are those the scorer reads and reports.\<close>

theorem stored_datum_features_agree:
  assumes "extract_utxo_features enc tx_hash network raw = Inr rows" "iter_json (dict_get raw ''outputs'' (JList [])) = Inr outputs"
    and "i < length outputs" "outputs ! i = JDict d" "dict_get d ''address'' (JStr []) = JStr a" "dict_get d ''value'' (JDict []) = JDict v"
  shows "\<exists>n. ur_index (rows ! i) = i \<and> extract_datum_info enc (datums_of raw) d = Inr (ur_datum_flag (rows ! i), n) \<and>
    ur_datum_bytes (rows ! i) = n \<and> ur_is_script (rows ! i) = (if is_script_address a then 1 else 0) \<and>
    ur_value_cbor (rows ! i) = estimate_value_cbor_bytes enc (datum_value d) \<and> ur_total (rows ! i) = output_total enc a d n \<and>
    ur_datum_ratio (rows ! i) = fround (datum_ratio_of n (output_total enc a d n)) 4"
proof -
  have "utxo_row_of enc tx_hash network (datums_of raw) i (JDict d) = Inr (rows ! i)"
    using assms(1-4) by (fastforce simp: extract_utxo_features_def rmap_Inr_iff list_all2_conv_all_nth nth_enumerate_eq)
  then show ?thesis by (rule utxo_row_agrees) (fact assms)+
qed

text \<open>A value that is a bare amount is stored with its own encoding and scored with that of zero.\<close>

definition bare_output :: "(string, json) dict" where
  "bare_output = [(''address'', JStr ''addr1w''), (''value'', JInt 1000000)]"

lemma bare_value_drifts:
  assumes "cbor_len enc (CInt 1000000) \<noteq> cbor_len enc (CInt 0)"
  shows "\<exists>row. extract_utxo_features enc h network [(''outputs'', JList [JDict bare_output])] = Inr [row] \<and>
    ur_total row \<noteq> output_total enc ''addr1w'' bare_output (ur_datum_bytes row)"
  using assms
  by (simp add: extract_utxo_features_def utxo_row_of_def bare_output_def jget_def dict_get_def iter_json_def value_dict_def datums_of_def field_def
      count_assets_def ada_keys_def extract_datum_info_def address_text_def output_total_def estimate_utxo_total_bytes_def datum_value_def
      estimate_value_cbor_bytes_def value_cbor_def Let_def)

definition witnessed_tx :: "(string, json) dict" where
  "witnessed_tx = [(''outputs'', JList [JDict [(''address'', JStr ''addr1w''), (''datumHash'', JStr ''h'')]]), (''datums'', JDict [(''h'', JStr ''aabb'')])]"

text \<open>An output whose datum is carried by the transaction is reported as unreadable: when no datum passes a gate, the
  scorer lists the addresses of hash-only outputs without the witness map, so that it names an output whose datum
  the gate has just measured.\<close>

theorem witnessed_datum_is_listed:
  assumes "FLAG_DATUM_HASH_ONLY cfg" "2 < MIN_DATUM_BYTES cfg" "2 < SIZE_BACKSTOP cfg"
  shows "(\<exists>r. large_datum_score cfg tools enc env network witnessed_tx = Inr r \<and>
      map_of (evidence r) ''datum_hash_only_addresses'' = Some (JList [JStr ''addr1w''])) \<and>
    datum_hash_only_addresses enc (datums_of witnessed_tx) [JDict [(''address'', JStr ''addr1w''), (''datumHash'', JStr ''h'')]] = Inr []"
proof -
  have "is_script_address ''addr1w''" by code_simp
  then show ?thesis using assms
    by (simp add: large_datum_score_def witnessed_tx_def datums_of_def field_def dict_get_def iter_json_def per_script_datum_bytes_def
        script_output_of_def script_address_of_def extract_datum_info_def preimage_of_def sized_def datum_candidate_def bloat_trigger_def
        datum_hash_only_addresses_def is_dict_def reduce_to_best_def ScorerResult_def no_finding_def Let_def)
qed

section \<open>On the shipped configuration\<close>

definition shipped_ld :: large_datum_settings where
  "shipped_ld =
     \<lparr>ld_W = get_path shipped_large_datum [''weights''], ld_FIXED = get_path shipped_large_datum [''fixed_anchors''],
      ld_BOOT = get_path shipped_large_datum [''bootstrap_anchors''], ld_REASON_T = 1 / 2, MIN_DATUM_BYTES = 6000, BLOAT_ENTROPY_MAX = 4,
      LEAF_CONCENTRATION_MAX = 1 / 2, SIZE_BACKSTOP = 12288, AGGREGATE_ENGAGEMENT_MIN = 12000, FLAG_DATUM_HASH_ONLY = True,
      LARGE_STATE_ALLOWLIST = [(''mainnet'', []), (''preprod'', []), (''preview'', [])]\<rparr>"

lemma three_quarters_of_limit: "py_int (fmul (3 / 4) 16384) = 12288"
  by code_simp

lemma shipped_ld_loads:
  "load_large_datum [(''max_value_size_bytes'', JInt 5000), (''max_tx_size_bytes'', JInt 16384)] shipped_large_datum = Inr shipped_ld"
  by (simp add: load_large_datum_def shipped_large_datum_def shipped_ld_def config_reads fraction_of_limit_def protocol_limit_def
      load_network_map_def network_items_def jget_def dict_get_def three_quarters_of_limit)

text \<open>An object of thirteen thousand bytes that repeats one byte.\<close>

definition wide_encoders :: encoders where
  "wide_encoders = \<lparr>cbor_len = flat_len, json_bytes = (\<lambda>_. 13000)\<rparr>"

definition plain_tools :: content_tools where
  "plain_tools = \<lparr>loads_cbor = (\<lambda>_. None), log_2 = (\<lambda>_. 0)\<rparr>"

definition padded_output :: "(string, json) dict" where
  "padded_output = [(''address'', JStr ''addr1w''), (''value'', JDict [(''lovelace'', JInt 1)]), (''datum'', JDict [(''bytes'', JStr ''000000'')])]"

definition padded_tx :: "(string, json) dict" where
  "padded_tx = [(''outputs'', JList [JDict padded_output])]"

lemma padded_facts:
  "datums_of padded_tx = []" "extract_datum_info wide_encoders [] padded_output = Inr (2, 13000)"
  "script_output_of (JDict padded_output) = Inr (Some (''addr1w'', padded_output))"
  "per_script_datum_bytes wide_encoders [] [JDict padded_output] = Inr [(''addr1w'', 13000)]"
  "bloat_trigger shipped_ld plain_tools [] padded_output 13000 = Inr (Some TRIGGER_CONTENT)"
  "estimate_value_cbor_bytes wide_encoders (datum_value padded_output) = 9" "output_total wide_encoders ''addr1w'' padded_output 13000 = 13015"
  by code_simp+

lemma shipped_ld_reads:
  "resolve_axis bare_env f t i (ld_BOOT shipped_ld) ''datum_bytes'' None = Inr (500, 14000, ''bootstrap'')"
  "resolve_axis bare_env f t i (ld_BOOT shipped_ld) ''value_cbor_bytes'' None = Inr (100, 1500, ''bootstrap'')"
  "anchor (ld_FIXED shipped_ld) ''datum_ratio'' = Inr \<lparr>anchor_p50 = dec 7 10, anchor_p99 = dec 97 100\<rparr>"
  "weighted_sum (ld_W shipped_ld) (''datum_bytes'', a) [(''datum_ratio'', b), (''value_cbor_inv'', c), (''recurrence'', e)] =
     Inr (fadd (fadd (fadd (fmul (1 / 2) a) (fmul (dec 7 20) b)) (fmul (dec 1 20) c)) (fmul (dec 1 10) e))"
  by (simp_all add: shipped_ld_def shipped_large_datum_def config_reads bare_axis weighted_sum_def)

lemma padded_final:
  "60 \<le> finalise_score (fadd (fadd (fadd (fmul (1 / 2) (normalise 13000 500 14000)) (fmul (dec 7 20) (normalise (datum_ratio_of 13000 13015) (dec 7 10) (dec 97 100))))
      (fmul (dec 1 20) (normalise_inverted 9 100 1500))) (fmul (dec 1 10) 0)) 100 2"
  by code_simp

lemma padded_scored: "\<exists>r. large_datum_score shipped_ld plain_tools wide_encoders bare_env ''mainnet'' padded_tx = Inr r \<and> 60 \<le> score r"
proof -
  have f: "fl 13000 = 13000" "fl 9 = 9" by simp_all
  have o: "iter_json (dict_get padded_tx ''outputs'' (JList [])) = Inr [JDict padded_output]"
    by (simp add: padded_tx_def dict_get_def iter_json_def)
  have l: "\<exists>n. extract_lovelace (JDict (datum_value padded_output)) = Inr n" by (rule exI [of _ 1]) code_simp
  show ?thesis using padded_final l
    by (auto simp: large_datum_score_def o padded_facts datum_candidate_def large_datum_utxo_def datum_axes_of_def datum_raw_def shipped_ld_reads f
        TRIGGER_CONTENT_def TRIGGER_SIZE_BACKSTOP_def reduce_to_best_def ScorerResult_def Let_def)
qed

lemma padded_utxo: "script_utxo padded_tx ''addr1w'' padded_output"
  using padded_facts(3) unfolding script_output_of_Some by (simp add: script_utxo_def padded_tx_def dict_get_def iter_json_def)

theorem oversized_datum_counts_witness:
  "\<exists>r x w. large_datum_score shipped_ld plain_tools wide_encoders bare_env ''mainnet'' padded_tx = Inr r \<and>
    datum_raw shipped_ld x = Inr w \<and> finalise_score w 100 2 \<le> max 0 (score r)"
proof -
  obtain r where r: "large_datum_score shipped_ld plain_tools wide_encoders bare_env ''mainnet'' padded_tx = Inr r" using padded_scored by blast
  have info: "extract_datum_info wide_encoders (datums_of padded_tx) padded_output = Inr (2, 13000)" by (simp add: padded_facts)
  have s: "SIZE_BACKSTOP shipped_ld \<le> 13000" "0 < SIZE_BACKSTOP shipped_ld" by (simp_all add: shipped_ld_def)
  have "is_large_state_allowlisted shipped_ld ''mainnet'' ''addr1w'' = Inr False"
    by (simp add: is_large_state_allowlisted_def shipped_ld_def dict_get_def)
  from oversized_datum_counts [OF r padded_utxo info s disjI1 [OF this]] show ?thesis using r by blast
qed

theorem datum_pages_need_bloat_witness: "\<exists>a d. script_utxo padded_tx a d"
proof -
  obtain r where r: "large_datum_score shipped_ld plain_tools wide_encoders bare_env ''mainnet'' padded_tx = Inr r" "60 \<le> score r"
    using padded_scored by blast
  have "score_to_band (score r) \<in> {''High'', ''Critical''}" using r(2) by (simp only: pages_iff)
  moreover have "BLOAT_ENTROPY_MAX shipped_ld < MAX_BYTE_ENTROPY_BITS" "0 < LEAF_CONCENTRATION_MAX shipped_ld"
    by (simp_all add: shipped_ld_def MAX_BYTE_ENTROPY_BITS_def)
  ultimately show ?thesis using datum_pages_need_bloat [OF r(1)] by blast
qed

theorem stored_datum_features_agree_witness:
  "\<exists>rows. extract_utxo_features wide_encoders ''t'' ''mainnet'' padded_tx = Inr rows \<and> ur_total (rows ! 0) = 13015"
proof -
  have o: "iter_json (dict_get padded_tx ''outputs'' (JList [])) = Inr [JDict padded_output]"
    by (simp add: padded_tx_def dict_get_def iter_json_def)
  have "\<exists>row. utxo_row_of wide_encoders ''t'' ''mainnet'' [] 0 (JDict padded_output) = Inr row"
    by (simp add: utxo_row_of_def padded_facts jget_def padded_output_def dict_get_def value_dict_def count_assets_def ada_keys_def address_text_def
        field_def Let_def extract_datum_info_def)
  then obtain rows where rows: "extract_utxo_features wide_encoders ''t'' ''mainnet'' padded_tx = Inr rows"
    by (auto simp: extract_utxo_features_def o padded_facts)
  have v: "dict_get padded_output ''address'' (JStr []) = JStr ''addr1w''" "dict_get padded_output ''value'' (JDict []) = JDict [(''lovelace'', JInt 1)]"
    by (simp_all add: padded_output_def dict_get_def)
  from stored_datum_features_agree [OF rows o _ _ v, of 0] show ?thesis using rows by (auto simp: padded_facts)
qed

theorem witnessed_datum_is_listed_witness:
  "\<exists>r. large_datum_score shipped_ld plain_tools wide_encoders bare_env ''mainnet'' witnessed_tx = Inr r \<and>
    map_of (evidence r) ''datum_hash_only_addresses'' = Some (JList [JStr ''addr1w''])"
  using witnessed_datum_is_listed [of shipped_ld plain_tools wide_encoders bare_env "''mainnet''"] by (simp add: shipped_ld_def)

end
