(* ===== verification/Spec2Isabelle.thy ===== *)
theory Spec2Isabelle
  imports Bech32 Resilience Accounts Frames Mempool Chain_Follow Notify_Ledger Cycle_Closing Cycle_Search Contract_Anomaly
    Sandwich Front_Running Circular Value_Scorers Baselines Enrichment Large_Datum
begin

text \<open>
  \<^bold>\<open>Verification of the Cardano Transaction Monitoring System\<close>

  \<^bold>\<open>The program.\<close> The Python service under \<open>src/backend/app\<close> follows a Cardano node through Ogmios.  Chain sync
  (\<open>ingestion/ogmios_client.py\<close>) receives blocks, parses their transactions (\<open>ingestion/ogmios_parser.py\<close>),
  resolves their inputs (\<open>ingestion/input_enrichment.py\<close>) and writes them to ClickHouse and PostgreSQL; the mempool
  monitor (\<open>ingestion/mempool_monitor.py\<close>) indexes pending transactions and records collisions; both reconnect
  through \<open>ingestion/resilience.py\<close>.  The analysis engine (\<open>analysis/engine.py\<close>) polls stored transactions, enriches
  them with cycles (\<open>analysis/graph.py\<close>) and other patterns, runs the scorers and stores one verdict per transaction;
  thresholds, anchors and weights come from \<open>config/detection.yaml\<close> through \<open>analysis/scorer_config.py\<close>.  Verdicts
  in a routed band are announced by \<open>notifications/\<close> with de-duplication and dead letters in PostgreSQL.  Operators
  sign in with magic links (\<open>auth/\<close>, \<open>api/auth.py\<close>, \<open>api/users.py\<close>) behind a rate limiter and a CSRF check.

  \<^bold>\<open>Theories.\<close>
  \<^item> \<open>Prelude\<close>: errors as values, JSON values, dicts as association lists, strings, \<open>int()\<close>, and the locale \<open>quota\<close> for
    resources that are handed out a bounded number of times.  \<open>Pyfloat\<close>, \<open>Pynum\<close>, \<open>Pystat\<close>: binary64 arithmetic as
    rational arithmetic with one rounding per operation, \<open>float()\<close> and subscripts of configuration values, sums,
    means and bisection.
  \<^item> \<open>Bech32\<close> (\<open>utils/bech32.py\<close>): the checksum detects every substitution, regrouping round-trips.
  \<^item> \<open>Resilience\<close> (\<open>ingestion/resilience.py\<close>): bounds of the backoff, the breaker as a state machine.
  \<^item> \<open>Auth\<close>, \<open>Rate_Limit\<close>, \<open>Accounts\<close> (\<open>auth/\<close>, \<open>csrf.py\<close>, \<open>rate_limit.py\<close>, \<open>api/auth.py\<close>, \<open>api/users.py\<close>): tables as
    records of lists, every endpoint as a function of the state; redemption budgets, revocation, the window of the
    limiter (locale \<open>throttle\<close>), and an invariant of the account tables over all interleavings of requests.
  \<^item> \<open>Features\<close>, \<open>Transactions\<close>, \<open>Frames\<close> (\<open>analysis/features.py\<close>, \<open>models/transaction.py\<close>, \<open>ingestion/ogmios_parser.py\<close>,
    \<open>ingestion/input_enrichment.py\<close>, \<open>ingestion/ogmios_rpc.py\<close>): readers of payloads with the errors they raise, the
    accounting of parsed and enriched transactions, and the recovery of undecodable frames.
  \<^item> \<open>Mempool\<close> (\<open>ingestion/mempool_monitor.py\<close>): the two sides of the index never drift apart, and the displacement
    rows of a block are exactly the pending transactions it conflicts with.
  \<^item> \<open>Chain_Sync\<close>, \<open>Chain_Follow\<close> (\<open>ingestion/chain_time.py\<close>, \<open>ingestion/ogmios_client.py\<close> and the statements it
    issues): handlers over explicit stores whose calls may fail, and the refinement theorem that the stores follow
    the chain of the node, with the retry of purges and the durable repurge of scores.
  \<^item> \<open>Scoring\<close>, \<open>Engine\<close> (\<open>analysis/normalise.py\<close>, \<open>analysis/scorers/base.py\<close>, \<open>analysis/contract_identity.py\<close>,
    \<open>analysis/engine.py\<close>): normalisation and bands are monotone, the verdict is the maximum, no transaction is skipped
    and deferral is bounded.
  \<^item> \<open>Detection_Config\<close>, \<open>Scorer_Config\<close> (\<open>analysis/scorer_config.py\<close>): the check of the configuration at load, and
    the caps that bound what an attacker can do to a learned baseline.
  \<^item> \<open>Cycles\<close>, \<open>Cycle_Closing\<close>, \<open>Cycle_Search\<close> (\<open>analysis/graph.py\<close>): the breadth-first search for value cycles finds
    exactly the cycles there are, with the least length, and the meet-in-the-middle search for subset sums is exact.
  \<^item> \<open>Shipped_Config\<close> (\<open>config/detection.yaml\<close>): the shipped document passes the check, and what a checked document
    is known to hold.
  \<^item> \<open>Contract_Anomaly\<close> (\<open>analysis/contract_anomaly.py\<close>): the projection of clustering verdicts to scores and bands.
  \<^item> \<open>Sandwich\<close> (\<open>analysis/dex.py\<close>, \<open>analysis/scorers/sandwich.py\<close>): wallet clusters around a swap, the selection of a
    bracket and the scorer.
  \<^item> \<open>Front_Running\<close> (\<open>get_collisions_for_txs\<close> of \<open>db/postgres.py\<close>, \<open>analysis/scorers/front_running.py\<close>): the collision
    records of a batch and the cap on submitters without a record of wins.
  \<^item> \<open>Scorer_Facts\<close>: caps read from a checked configuration lie in their band.  \<open>Circular\<close>, \<open>Value_Scorers\<close>
    (\<open>circular.py\<close>, \<open>large_value.py\<close>, \<open>token_dust.py\<close> of \<open>analysis/scorers/\<close>): what a finding needs to leave its band, with
    the cached lookup of policy ages behind the locale \<open>first_seen_lookup\<close>.
  \<^item> \<open>Multiple_Sat\<close>, \<open>Large_Datum\<close> (\<open>multiple_sat.py\<close>, \<open>large_datum.py\<close> of \<open>analysis/scorers/\<close>, and the readers of redeemers
    and datums in \<open>analysis/features.py\<close>): inputs grouped by payment credential, where the strongest group decides and
    floors reach a paging band; datums, where no content hides an oversized one.
  \<^item> \<open>Baselines\<close> (\<open>analysis/baselines.py\<close> and the cached table of \<open>db/clickhouse.py\<close>): a recompute moves a learned
    baseline only by an admitted step, so that poisoning takes many recomputes.
  \<^item> \<open>Enrichment\<close> (\<open>analysis/enrichment.py\<close>): the steps over a batch, which mark exactly the fields they could not
    compute; it provides the locale \<open>batch_enrichment\<close> of \<open>Engine\<close>, from which the engine skips no transaction.
  \<^item> \<open>Notify_Config\<close>, \<open>Notify\<close>, \<open>Notify_Ledger\<close> (\<open>notifications/\<close>, \<open>tasks/notifications.py\<close> and the ledgers of
    \<open>db/postgres.py\<close>): a validated document routes without error, a delivery is a duplicate, a sent alert with a claim or
    a dead letter, and the number of announcements of a transaction is bounded over every history.

  \<^bold>\<open>Correspondence.\<close> Definitions keep the names of the source without leading underscores.  A Python dict is an
  association list in insertion order, a database table a list of records and a statement the list operation it
  denotes, an exception a value of \<open>pyerr\<close>.  Clocks, random numbers and what a peer answers are arguments.  Parameters
  stand for code outside the repository: \<open>json.loads\<close>, \<open>cbor2\<close> and the lengths of its encodings, \<open>math.log2\<close>, SHA-256, pydantic's validation of integers, the
  locale of PostgreSQL's \<open>lower\<close>, the test for internal hosts, and the notification channels.

  \<^bold>\<open>Bounds and fuel.\<close> No model runs on fuel: the loops of the program recurse on the data they consume (frames,
  rows, attempts, the remaining hops of a search), and the walk over a datum, whose recursion is not structural, has
  a termination proof.  Float facts are proved for all finite values, integers are unbounded as in Python.

  \<^bold>\<open>Not modelled.\<close> SQL schemas and read queries, the read API, the WebSocket broadcast, process start and settings,
  the operator scripts, the clustering service, the frontend.  Of the analysis: the scorers \<open>fake_token\<close> and \<open>phishing\<close>, decoding of Plutus data and text, and
  URL extraction.
\<close>

end
